(* ===== verification/Prelude.thy ===== *)
theory Prelude
  imports Main "HOL-Library.AList" "HOL-Library.Char_ord" "HOL-Library.List_Lexorder"
    "HOL-Library.Product_Lexorder"
begin

text \<open>
  Shared vocabulary of the development: the Python containers, strings and loop idioms that
  every component uses, and the lemmas about them.

  \<^item> A Python \<open>dict\<close> is an association list in insertion order. Storing under a key that
    is present keeps its position, a new key goes to the end; this is \<open>AList.update\<close>.
  \<^item> A Python \<open>str\<close> is a \<open>string\<close> whose characters are the code points 0 to 255; every
    literal of the modelled code that takes part in a computation lies in that range.
  \<^item> The loop idiom \<open>if best_key is None or key < best_key\<close> is \<open>argmin\<close>.
  \<^item> Comparison of strings and tuples is lexicographic, as in Python.
\<close>

named_theorems dict_simps
named_theorems str_defs


section \<open>Dictionaries\<close>

type_synonym ('k, 'v) dict = "('k \<times> 'v) list"

definition dget :: "('k, 'v) dict \<Rightarrow> 'k \<Rightarrow> 'v \<Rightarrow> 'v" where
  "dget d k v0 = (case map_of d k of None \<Rightarrow> v0 | Some v \<Rightarrow> v)"

definition dset :: "'k \<Rightarrow> 'v \<Rightarrow> ('k, 'v) dict \<Rightarrow> ('k, 'v) dict" where
  "dset k v d = AList.update k v d"

definition dsetdefault :: "'k \<Rightarrow> 'v \<Rightarrow> ('k, 'v) dict \<Rightarrow> ('k, 'v) dict" where
  "dsetdefault k v d = (case map_of d k of None \<Rightarrow> d @ [(k, v)] | Some _ \<Rightarrow> d)"

text \<open>Dictionaries as Python builds them: no key twice.\<close>

definition dict_ok :: "('k, 'v) dict \<Rightarrow> bool" where
  "dict_ok d = distinct (map fst d)"

text \<open>
  The interface the components use: lookups after a store, after a \<open>setdefault\<close>, and the
  well-formedness every store keeps. The accumulation loop \<open>d[k] = d.get(k, 0) + x\<close> is
  proved once here.
\<close>

locale py_dict =
  fixes look :: "'m \<Rightarrow> 'k \<Rightarrow> 'v option"
    and store :: "'k \<Rightarrow> 'v \<Rightarrow> 'm \<Rightarrow> 'm"
    and default :: "'k \<Rightarrow> 'v \<Rightarrow> 'm \<Rightarrow> 'm"
    and ok :: "'m \<Rightarrow> bool"
  assumes look_store: "look (store k v m) k' = (if k' = k then Some v else look m k')"
    and look_default: "look (default k v m) k' =
      (if k' = k \<and> look m k = None then Some v else look m k')"
    and ok_store: "ok m \<Longrightarrow> ok (store k v m)"
    and ok_default: "ok m \<Longrightarrow> ok (default k v m)"
begin

lemma ok_fold_store: "ok m \<Longrightarrow> ok (fold (\<lambda>x m. store (f x) (g x m) m) xs m)"
  by (induction xs arbitrary: m) (auto intro: ok_store)

lemma ok_fold_default: "ok m \<Longrightarrow> ok (fold (\<lambda>x m. default (f x) (g x) m) xs m)"
  by (induction xs arbitrary: m) (auto intro: ok_default)

lemma look_fold_default_Some:
  "look m k = Some v \<Longrightarrow> look (fold (\<lambda>x m. default (f x) (g x) m) xs m) k = Some v"
proof (induction xs arbitrary: m)
  case Nil
  then show ?case by simp
next
  case (Cons x xs)
  from Cons.prems have "look (default (f x) (g x) m) k = Some v"
    by (auto simp: look_default)
  then show ?case by (simp add: Cons.IH)
qed

text \<open>The accumulation loop: the value under a key is the sum, in order, of what was added.\<close>

lemma look_fold_accumulate:
  "look (fold (\<lambda>x m. store (f x) (add (case look m (f x) of None \<Rightarrow> z | Some v \<Rightarrow> v) (g x)) m) xs m) k =
     (if filter (\<lambda>x. f x = k) xs = [] then look m k
      else Some (fold (\<lambda>x a. add a (g x)) (filter (\<lambda>x. f x = k) xs)
        (case look m k of None \<Rightarrow> z | Some v \<Rightarrow> v)))"
proof (induction xs arbitrary: m)
  case Nil
  then show ?case by simp
next
  case (Cons x xs)
  show ?case by (cases "f x = k") (simp_all add: Cons.IH look_store)
qed

text \<open>First one wins: the value kept under a key is the first one offered.\<close>

lemma look_fold_default_None:
  "look m k = None \<Longrightarrow> look (fold (\<lambda>x m. default (f x) (g x) m) xs m) k =
     map_option g (find (\<lambda>x. f x = k) xs)"
proof (induction xs arbitrary: m)
  case Nil
  then show ?case by simp
next
  case (Cons x xs)
  show ?case
  proof (cases "f x = k")
    case True
    with Cons.prems have "look (default (f x) (g x) m) k = Some (g x)"
      by (simp add: look_default)
    then show ?thesis using True by (simp add: look_fold_default_Some)
  next
    case False
    with Cons.prems have "look (default (f x) (g x) m) k = None"
      by (auto simp: look_default)
    then show ?thesis using False Cons.IH by simp
  qed
qed

end

lemma dget_Nil [simp]: "dget [] k v0 = v0"
  by (simp add: dget_def)

lemma map_of_dset [simp, dict_simps]: "map_of (dset k v d) k' = (if k' = k then Some v else map_of d k')"
  by (simp add: dset_def update_conv')

lemma map_of_dsetdefault [simp, dict_simps]:
  "map_of (dsetdefault k v d) k' = (if k' = k \<and> map_of d k = None then Some v else map_of d k')"
  by (auto simp: dsetdefault_def map_add_def split: option.splits)

lemma dget_dset [simp, dict_simps]: "dget (dset k v d) k' v0 = (if k' = k then v else dget d k' v0)"
  by (simp add: dget_def)

lemma dict_ok_Nil [simp]: "dict_ok []"
  by (simp add: dict_ok_def)

lemma dict_ok_dset [intro]: "dict_ok d \<Longrightarrow> dict_ok (dset k v d)"
  by (simp add: dict_ok_def dset_def distinct_update)

lemma dict_ok_dsetdefault [intro]: "dict_ok d \<Longrightarrow> dict_ok (dsetdefault k v d)"
  by (auto simp: dict_ok_def dsetdefault_def map_of_eq_None_iff split: option.splits)

interpretation pd: py_dict map_of dset dsetdefault dict_ok
  by unfold_locales auto

lemma set_keys_dset [simp, dict_simps]: "fst ` set (dset k v d) = insert k (fst ` set d)"
  by (simp add: dset_def dom_update flip: dom_map_of_conv_image_fst)
    (simp add: update_conv')

lemma set_keys_dsetdefault [simp, dict_simps]:
  "fst ` set (dsetdefault k v d) = insert k (fst ` set d)"
  by (auto simp: dsetdefault_def split: option.splits dest: map_of_SomeD intro: rev_image_eqI)


section \<open>The selection loop\<close>

text \<open>
  \<^verbatim>\<open>
  best = None; best_key = None
  for x in xs:
      key = ...
      if best_key is None or key < best_key:
          best_key = key; best = x
  \<close>
\<close>

definition argmin_step :: "('a \<Rightarrow> 'k::linorder) \<Rightarrow> 'a \<Rightarrow> ('a \<times> 'k) option \<Rightarrow> ('a \<times> 'k) option" where
  "argmin_step key x best =
     (case best of None \<Rightarrow> Some (x, key x)
      | Some (b, k) \<Rightarrow> if key x < k then Some (x, key x) else best)"

definition argmin :: "('a \<Rightarrow> 'k::linorder) \<Rightarrow> 'a list \<Rightarrow> 'a option" where
  "argmin key xs = map_option fst (fold (argmin_step key) xs None)"

lemma fold_argmin_step_Some:
  "\<exists>b'. fold (argmin_step key) xs (Some (b, key b)) = Some (b', key b') \<and>
     b' \<in> insert b (set xs) \<and> key b' \<le> key b \<and> list_all (\<lambda>x. key b' \<le> key x) xs"
proof (induction xs arbitrary: b)
  case Nil
  then show ?case by simp
next
  case (Cons x xs)
  show ?case
  proof (cases "key x < key b")
    case True
    with Cons.IH[of x] show ?thesis
      by (fastforce simp: argmin_step_def)
  next
    case False
    with Cons.IH[of b] show ?thesis
      by (fastforce simp: argmin_step_def)
  qed
qed

lemma argmin_None_iff [simp]: "argmin key xs = None \<longleftrightarrow> xs = []"
proof (cases xs)
  case Nil
  then show ?thesis by (simp add: argmin_def)
next
  case (Cons x ys)
  with fold_argmin_step_Some[of key ys x] show ?thesis
    by (auto simp: argmin_def argmin_step_def)
qed

lemma argmin_Some:
  assumes "argmin key xs = Some b"
  shows "b \<in> set xs" and "\<And>x. x \<in> set xs \<Longrightarrow> key b \<le> key x"
proof -
  from assms obtain x ys where xs: "xs = x # ys"
    by (cases xs) (auto simp: argmin_def)
  with assms fold_argmin_step_Some[of key ys x]
  have "b \<in> set xs \<and> list_all (\<lambda>y. key b \<le> key y) xs"
    by (auto simp: argmin_def argmin_step_def)
  then show "b \<in> set xs" and "\<And>x. x \<in> set xs \<Longrightarrow> key b \<le> key x"
    by (auto simp: list_all_iff)
qed

lemma argmin_Some_ex: "xs \<noteq> [] \<Longrightarrow> \<exists>b. argmin key xs = Some b"
  by (metis argmin_None_iff not_None_eq)


section \<open>Strings\<close>

text \<open>
  \<open>str.lower\<close> and \<open>str.strip\<close> on the code points 0 to 255: the capitals of ASCII and of the
  Latin-1 block have their small letter 32 places up (215 is the multiplication sign), and
  the white space Python strips is 9 to 13, 28 to 32, 133 and 160.
\<close>

definition py_lower_char :: "char \<Rightarrow> char" where
  "py_lower_char c =
     (let n = of_char c :: nat in
      if (65 \<le> n \<and> n \<le> 90) \<or> (192 \<le> n \<and> n \<le> 222 \<and> n \<noteq> 215) then char_of (n + 32) else c)"

definition py_lower :: "string \<Rightarrow> string" where
  "py_lower s = map py_lower_char s"

definition py_space :: "char \<Rightarrow> bool" where
  "py_space c =
     (let n = of_char c :: nat in
      (9 \<le> n \<and> n \<le> 13) \<or> (28 \<le> n \<and> n \<le> 32) \<or> n = 133 \<or> n = 160)"

definition py_strip :: "string \<Rightarrow> string" where
  "py_strip s = rev (dropWhile py_space (rev (dropWhile py_space s)))"

definition starts_with :: "string \<Rightarrow> string \<Rightarrow> bool" where
  "starts_with p s = (take (length p) s = p)"

lemma of_char_lt_256: "(of_char c :: nat) < 256"
  using nat_of_char_less_256 by simp

lemma of_char_char_of_nat: "n < 256 \<Longrightarrow> of_char (char_of n :: char) = (n :: nat)"
  by simp

lemma py_lower_char_idem [simp]: "py_lower_char (py_lower_char c) = py_lower_char c"
  by (auto simp: py_lower_char_def Let_def)

lemma py_lower_idem [simp]: "py_lower (py_lower s) = py_lower s"
  by (simp add: py_lower_def)

lemma py_lower_char_space [simp]: "py_space (py_lower_char c) = py_space c"
  by (auto simp: py_lower_char_def py_space_def Let_def)

lemma dropWhile_map_lower: "dropWhile py_space (map py_lower_char s) = map py_lower_char (dropWhile py_space s)"
  by (simp add: dropWhile_map comp_def)

lemma py_strip_lower: "py_strip (py_lower s) = py_lower (py_strip s)"
  by (simp add: py_strip_def py_lower_def dropWhile_map_lower rev_map)

lemma dropWhile_rev_dropWhile_idem:
  "dropWhile P (rev (dropWhile P (rev (dropWhile P s)))) = rev (dropWhile P (rev (dropWhile P s)))"
proof (cases "dropWhile P s")
  case Nil
  show ?thesis by (simp only: Nil rev.simps dropWhile.simps)
next
  case (Cons x t)
  then have nx: "\<not> P x" by (metis hd_dropWhile list.distinct(1) list.sel(1))
  have "rev (dropWhile P (rev (x # t))) \<noteq> []"
    using nx by (simp add: dropWhile_append)
  moreover have "hd (rev (dropWhile P (rev (x # t)))) = x"
    using nx by (cases "dropWhile P (rev t) = []") (auto simp: dropWhile_append)
  ultimately show ?thesis using nx Cons
    by (metis dropWhile.simps(2) list.collapse)
qed

lemma py_strip_idem [simp]: "py_strip (py_strip s) = py_strip s"
  unfolding py_strip_def
  by (simp add: dropWhile_rev_dropWhile_idem) 

end
