(* ===== verification/Decimals.thy ===== *)
theory Decimals
  imports Complex_Main Prelude
begin

text \<open>
  Python's \<open>decimal.Decimal\<close> under the default context (28 significant digits, ties to
  even). A finite Decimal is the rational it denotes; an arithmetic operation is the exact
  result followed by \<open>dround\<close>, the rounding of the context. Comparison, \<open>min\<close>, \<open>max\<close>,
  construction from an \<open>int\<close> and \<open>to_integral_value\<close> do not round. Exponent limits (999999)
  and the special values are outside the model: the DTOs only admit finite numbers.
  \<open>dround\<close> is an instance of an abstract monotone rounding, and the components use the
  facts of that interface.
\<close>

type_synonym dec = rat

datatype py_exn =
    ConversionError string string "string option"
  | ConversionErrorCounted string string "string option"
  | ValueError
  | InvalidOperation
  | AssertionError


section \<open>Rounding to 28 significant digits\<close>

text \<open>Nearest integer, ties to the even neighbour.\<close>

definition round_half_even :: "rat \<Rightarrow> int" where
  "round_half_even x =
     (let f = \<lfloor>x\<rfloor>; r = x - of_int f in
      if r < 1 / 2 then f else if 1 / 2 < r then f + 1 else if even f then f else f + 1)"

text \<open>Decimal digits of a positive integer, minus one.\<close>

function int_log10 :: "int \<Rightarrow> int" where
  "int_log10 n = (if n < 10 then 0 else 1 + int_log10 (n div 10))"
  by pat_completeness auto
termination
  by (relation "measure nat") auto

declare int_log10.simps [simp del]

text \<open>\<open>ilog10 x\<close> is the exponent of the leading decimal digit of \<open>x > 0\<close>.\<close>

definition ilog10 :: "rat \<Rightarrow> int" where
  "ilog10 x = (if 1 \<le> x then int_log10 \<lfloor>x\<rfloor> else - int_log10 (\<lceil>1 / x\<rceil> - 1) - 1)"

definition dround :: "rat \<Rightarrow> dec" where
  "dround x =
     (if x = 0 then 0
      else let u = 10 powi (ilog10 \<bar>x\<bar> - 27) in sgn x * of_int (round_half_even (\<bar>x\<bar> / u)) * u)"

definition dadd :: "dec \<Rightarrow> dec \<Rightarrow> dec" where
  "dadd a b = dround (a + b)"

definition dsub :: "dec \<Rightarrow> dec \<Rightarrow> dec" where
  "dsub a b = dround (a - b)"

definition dmul :: "dec \<Rightarrow> dec \<Rightarrow> dec" where
  "dmul a b = dround (a * b)"

text \<open>
  Division by zero gives zero, where Python raises. Every division of the code has a guard, or a
  schema of its input, that keeps the divisor from being zero.
\<close>

definition ddiv :: "dec \<Rightarrow> dec \<Rightarrow> dec" where
  "ddiv a b = dround (a / b)"

definition dabs :: "dec \<Rightarrow> dec" where
  "dabs a = dround \<bar>a\<bar>"

text \<open>\<open>sum(xs, Decimal("0"))\<close>.\<close>

definition dsum :: "dec list \<Rightarrow> dec" where
  "dsum xs = fold (\<lambda>x acc. dadd acc x) xs 0"


section \<open>Laws of rounding\<close>

lemma round_half_even_cases:
  "round_half_even x = \<lfloor>x\<rfloor> \<and> x - of_int \<lfloor>x\<rfloor> \<le> 1 / 2 \<or>
   round_half_even x = \<lfloor>x\<rfloor> + 1 \<and> 1 / 2 \<le> x - of_int \<lfloor>x\<rfloor>"
  by (auto simp: round_half_even_def Let_def)

lemma round_half_even_of_int [simp]: "round_half_even (of_int k) = k"
  by (simp add: round_half_even_def)

lemma round_half_even_err: "\<bar>of_int (round_half_even x) - x\<bar> \<le> 1 / 2"
  using round_half_even_cases[of x] by linarith

lemma round_half_even_mono:
  assumes "x \<le> y"
  shows "round_half_even x \<le> round_half_even y"
proof (cases "\<lfloor>x\<rfloor> = \<lfloor>y\<rfloor>")
  case True
  with assms show ?thesis by (auto simp: round_half_even_def Let_def)
next
  case False
  with floor_mono[OF assms] have "\<lfloor>x\<rfloor> + 1 \<le> \<lfloor>y\<rfloor>" by linarith
  then show ?thesis
    using round_half_even_cases[of x] round_half_even_cases[of y] by linarith
qed

lemma round_half_even_le_int: "x \<le> of_int k \<Longrightarrow> round_half_even x \<le> k"
  using round_half_even_mono[of x "of_int k"] by simp

lemma round_half_even_ge_int: "of_int k \<le> x \<Longrightarrow> k \<le> round_half_even x"
  using round_half_even_mono[of "of_int k" x] by simp

lemma powi_pred: "(10::rat) powi k = 10 powi (k - 1) * 10"
  using power_int_add_1[of "10::rat" "k - 1"] by simp

lemma powi_mono: "i \<le> j \<Longrightarrow> (10::rat) powi i \<le> 10 powi j"
  by (rule power_int_increasing) auto

lemma powi_pos [simp]: "0 < (10::rat) powi k"
  by (rule zero_less_power_int) simp

lemma int_log10_bounds:
  "1 \<le> n \<Longrightarrow> \<exists>d. int_log10 n = int d \<and> 10 ^ d \<le> n \<and> n + 1 \<le> 10 ^ Suc d"
proof (induction n rule: int_log10.induct)
  case (1 n)
  show ?case
  proof (cases "n < 10")
    case True
    with 1 show ?thesis by (intro exI[of _ 0]) (simp add: int_log10.simps[of n])
  next
    case False
    then have "1 \<le> n div 10" by (simp add: zdiv_mono1[of 10 n 10, simplified])
    with 1 False obtain d where d: "int_log10 (n div 10) = int d" "10 ^ d \<le> n div 10"
      "n div 10 + 1 \<le> 10 ^ Suc d"
      by auto
    have "10 * 10 ^ d \<le> n" "n + 1 \<le> 10 * 10 ^ Suc d" using d(2,3) by linarith+
    with d(1) False show ?thesis by (intro exI[of _ "Suc d"]) (simp add: int_log10.simps[of n])
  qed
qed

lemma int_log10_rat_bounds:
  assumes "1 \<le> n"
  obtains d where "int_log10 n = int d" "(10::rat) ^ d \<le> of_int n" "of_int n + 1 \<le> (10::rat) ^ Suc d"
proof -
  from int_log10_bounds[OF assms] obtain d where d: "int_log10 n = int d" "10 ^ d \<le> n" "n + 1 \<le> 10 ^ Suc d"
    by blast
  have "(of_int (10 ^ d) :: rat) \<le> of_int n" using d(2) unfolding of_int_le_iff .
  moreover have "(of_int (n + 1) :: rat) \<le> of_int (10 ^ Suc d)" using d(3) unfolding of_int_le_iff .
  ultimately show thesis by (intro that[OF d(1)]) simp_all
qed

lemma ilog10_bounds_ge1:
  assumes "1 \<le> x"
  shows "10 powi (ilog10 x) \<le> x \<and> x < 10 powi (ilog10 x + 1)"
proof -
  from assms have "1 \<le> \<lfloor>x\<rfloor>" by simp
  then obtain d where d: "int_log10 \<lfloor>x\<rfloor> = int d" "(10::rat) ^ d \<le> of_int \<lfloor>x\<rfloor>"
    "of_int \<lfloor>x\<rfloor> + 1 \<le> (10::rat) ^ Suc d"
    by (rule int_log10_rat_bounds)
  have il: "ilog10 x = int d" "ilog10 x + 1 = int (Suc d)" using assms d(1) by (simp_all add: ilog10_def)
  have "10 ^ d \<le> x" using d(2) of_int_floor_le[of x] by (rule order_trans)
  moreover have "x < 10 ^ Suc d" using floor_correct[of x] d(3) by linarith
  ultimately show ?thesis unfolding il(2) unfolding il(1) power_int_of_nat by blast
qed

lemma ilog10_bounds_lt1:
  assumes "0 < x" "x < 1"
  shows "10 powi (ilog10 x) \<le> x \<and> x < 10 powi (ilog10 x + 1)"
proof -
  have "1 < 1 / x" using assms by simp
  then have "1 < \<lceil>1 / x\<rceil>" unfolding less_ceiling_iff by (simp only: of_int_1)
  then have "1 \<le> \<lceil>1 / x\<rceil> - 1" by linarith
  then obtain d where d: "int_log10 (\<lceil>1 / x\<rceil> - 1) = int d" "(10::rat) ^ d \<le> of_int (\<lceil>1 / x\<rceil> - 1)"
    "of_int (\<lceil>1 / x\<rceil> - 1) + 1 \<le> (10::rat) ^ Suc d"
    by (rule int_log10_rat_bounds)
  have il: "ilog10 x = - int (Suc d)" "ilog10 x + 1 = - int d" using assms d(1) by (simp_all add: ilog10_def)
  have "of_int \<lceil>1 / x\<rceil> \<le> (10::rat) ^ Suc d" using d(3) by simp
  with le_of_int_ceiling[of "1 / x"] have "1 / x \<le> 10 ^ Suc d" by (rule order_trans)
  then have "1 / 10 ^ Suc d \<le> x" using assms by (simp add: field_simps)
  moreover have "10 ^ d < 1 / x" using d(2) ceiling_correct[of "1 / x"] by simp
  then have "x < 1 / 10 ^ d" using assms by (simp add: field_simps)
  ultimately show ?thesis
    unfolding il(2) unfolding il(1) by (simp only: power_int_minus power_int_of_nat inverse_eq_divide)
qed

lemma ilog10_bounds:
  assumes "0 < x"
  shows "10 powi (ilog10 x) \<le> x" and "x < 10 powi (ilog10 x + 1)"
  using ilog10_bounds_ge1[of x] ilog10_bounds_lt1[of x] assms by (cases "1 \<le> x"; simp)+

lemma ilog10_unique: "0 < x \<Longrightarrow> 10 powi k \<le> x \<Longrightarrow> x < 10 powi (k + 1) \<Longrightarrow> ilog10 x = k"
proof -
  assume x: "0 < x" and a: "10 powi k \<le> x" and b: "x < 10 powi (k + 1)"
  note il = ilog10_bounds[OF x]
  from a il(2) have "(10::rat) powi k < 10 powi (ilog10 x + 1)" by linarith
  then have "\<not> ilog10 x + 1 \<le> k" using powi_mono[of "ilog10 x + 1" k] by linarith
  moreover from b il(1) have "(10::rat) powi (ilog10 x) < 10 powi (k + 1)" by linarith
  then have "\<not> k + 1 \<le> ilog10 x" using powi_mono[of "k + 1" "ilog10 x"] by linarith
  ultimately show "ilog10 x = k" by linarith
qed

text \<open>The unit in the last place of a positive number, and rounding as a multiple of it.\<close>

definition ulp :: "rat \<Rightarrow> rat" where
  "ulp x = 10 powi (ilog10 x - 27)"

lemma ulp_pos [simp]: "0 < ulp x"
  by (simp add: ulp_def)

lemma dround_pos_eq: "0 < x \<Longrightarrow> dround x = of_int (round_half_even (x / ulp x)) * ulp x"
  by (simp add: dround_def ulp_def Let_def)

lemma dround_0 [simp]: "dround 0 = 0"
  by (simp add: dround_def)

lemma dround_minus: "dround (- x) = - dround x"
  by (simp add: dround_def Let_def sgn_minus)

lemma ulp_nonneg [simp]: "0 \<le> ulp x" and ulp_nonzero [simp]: "ulp x \<noteq> 0"
  using ulp_pos[of x] by linarith+

lemma ulp_powi: "(10::rat) powi (ilog10 x) = ulp x * 10 ^ 27" "10 powi (ilog10 x + 1) = ulp x * 10 ^ 28"
  using power_int_add[of "10::rat" "ilog10 x - 27" 27] power_int_add[of "10::rat" "ilog10 x - 27" 28]
  by (simp_all add: ulp_def add.commute)

lemma ulp_scale:
  assumes "0 < x"
  shows "10 ^ 27 \<le> x / ulp x" and "x / ulp x < 10 ^ 28"
proof -
  note e = ulp_powi[of x]
  show "10 ^ 27 \<le> x / ulp x" and "x / ulp x < 10 ^ 28"
    using ilog10_bounds[OF assms] ulp_pos[of x] unfolding e by (simp_all add: field_simps)
qed

lemma dround_pos_bounds:
  assumes "0 < x"
  shows "10 powi (ilog10 x) \<le> dround x" and "dround x \<le> 10 powi (ilog10 x + 1)"
proof -
  note e = ulp_powi[of x]
  have "10 ^ 27 \<le> round_half_even (x / ulp x)"
    using ulp_scale(1)[OF assms] by (intro round_half_even_ge_int) simp
  moreover have "round_half_even (x / ulp x) \<le> 10 ^ 28"
    using ulp_scale(2)[OF assms] by (intro round_half_even_le_int) simp
  ultimately have "(10::rat) ^ 27 \<le> of_int (round_half_even (x / ulp x))"
    and "of_int (round_half_even (x / ulp x)) \<le> (10::rat) ^ 28"
    by (metis of_int_le_iff of_int_numeral of_int_power)+
  then show "10 powi (ilog10 x) \<le> dround x" and "dround x \<le> 10 powi (ilog10 x + 1)"
    unfolding e dround_pos_eq[OF assms] by (simp_all add: mult.commute mult_right_mono)
qed

lemma dround_pos: "0 < x \<Longrightarrow> 0 < dround x"
  using dround_pos_bounds(1)[of x] powi_pos[of "ilog10 x"] by linarith

lemma ilog10_mono: "0 < x \<Longrightarrow> x \<le> y \<Longrightarrow> ilog10 x \<le> ilog10 y"
proof -
  assume x: "0 < x" and xy: "x \<le> y"
  then have "0 < y" by linarith
  with x xy ilog10_bounds(1)[of x] ilog10_bounds(2)[of y]
  have "(10::rat) powi (ilog10 x) < 10 powi (ilog10 y + 1)" by linarith
  then have "\<not> ilog10 y + 1 \<le> ilog10 x" using powi_mono[of "ilog10 y + 1" "ilog10 x"] by linarith
  then show "ilog10 x \<le> ilog10 y" by linarith
qed

lemma dround_mono_pos:
  assumes "0 < x" "x \<le> y"
  shows "dround x \<le> dround y"
proof (cases "ilog10 x = ilog10 y")
  case True
  then have u: "ulp x = ulp y" by (simp add: ulp_def)
  have "x / ulp x \<le> y / ulp x" using assms(2) by (rule divide_right_mono) simp
  then have "round_half_even (x / ulp x) \<le> round_half_even (y / ulp y)"
    unfolding u by (rule round_half_even_mono)
  then show ?thesis using assms unfolding u by (simp add: dround_pos_eq u)
next
  case False
  have y: "0 < y" using assms by linarith
  from False ilog10_mono[OF assms] have "ilog10 x + 1 \<le> ilog10 y" by linarith
  then have "(10::rat) powi (ilog10 x + 1) \<le> 10 powi (ilog10 y)" by (rule powi_mono)
  with dround_pos_bounds(2)[OF assms(1)] dround_pos_bounds(1)[OF y] show ?thesis by linarith
qed

lemma dround_mono: "x \<le> y \<Longrightarrow> dround x \<le> dround y"
proof -
  assume xy: "x \<le> y"
  consider "0 < x" | "y < 0" | "x \<le> 0" "0 \<le> y" by linarith
  then show "dround x \<le> dround y"
  proof cases
    case 1
    then show ?thesis using xy by (rule dround_mono_pos)
  next
    case 2
    then have "dround (- y) \<le> dround (- x)" using xy by (intro dround_mono_pos) auto
    then show ?thesis by (simp add: dround_minus)
  next
    case 3
    have "dround x \<le> 0"
      using dround_pos[of "- x"] 3 by (cases "x = 0") (auto simp: dround_minus)
    moreover have "0 \<le> dround y"
      using dround_pos[of y] 3 by (cases "y = 0") auto
    ultimately show ?thesis by linarith
  qed
qed

text \<open>Numbers of at most 28 significant digits are not changed.\<close>

definition dec28 :: "rat \<Rightarrow> bool" where
  "dec28 x \<longleftrightarrow> (\<exists>m e. x = of_int m * 10 powi e \<and> \<bar>m\<bar> \<le> 10 ^ 28)"

lemma dround_int_ulp: "0 < x \<Longrightarrow> x / ulp x = of_int k \<Longrightarrow> dround x = x"
  by (simp add: dround_pos_eq) (metis nonzero_eq_divide_eq ulp_nonzero)

lemma dround_dec28_pos:
  assumes "0 < x" "x = of_int m * 10 powi e" "\<bar>m\<bar> \<le> 10 ^ 28"
  shows "dround x = x"
proof -
  have up: "(10::rat) powi (e + 28) = 10 ^ 28 * 10 powi e"
    using power_int_add[of "10::rat" 28 e] by (simp add: add.commute)
  have "(of_int m :: rat) \<le> of_int (10 ^ 28)" using assms(3) unfolding of_int_le_iff by linarith
  then have "x \<le> of_int (10 ^ 28) * 10 powi e"
    unfolding assms(2) by (rule mult_right_mono) (simp add: less_imp_le)
  then have le: "x \<le> 10 powi (e + 28)" by (simp add: up)
  show ?thesis
  proof (cases "x = 10 powi (e + 28)")
    case True
    have "(10::rat) powi (e + 28) < 10 powi (e + 28 + 1)" by (rule power_int_strict_increasing) auto
    then have "ilog10 x = e + 28" by (intro ilog10_unique) (use assms(1) True in auto)
    then have "x = ulp x * 10 ^ 27" using ulp_powi(1)[of x] True by metis
    then have "x / ulp x = of_int (10 ^ 27)" by (simp add: field_simps)
    with assms(1) show ?thesis by (rule dround_int_ulp)
  next
    case False
    with le have "10 powi (ilog10 x) < (10::rat) powi (e + 28)"
      using ilog10_bounds(1)[OF assms(1)] by (meson order_le_imp_less_or_eq order_le_less_trans)
    then have "\<not> e + 28 \<le> ilog10 x" using powi_mono[of "e + 28" "ilog10 x"] by (meson not_less)
    then obtain d where d: "e - (ilog10 x - 27) = int d" using zero_le_imp_eq_int[of "e - (ilog10 x - 27)"] by auto
    have "x / ulp x = of_int m * (10 powi e / 10 powi (ilog10 x - 27))"
      unfolding ulp_def by (subst assms(2)) simp
    also have "10 powi e / 10 powi (ilog10 x - 27) = (10::rat) powi int d"
      unfolding d[symmetric] by (rule power_int_diff[symmetric]) simp
    also have "of_int m * (10::rat) powi int d = of_int (m * 10 ^ d)" by simp
    finally show ?thesis using assms(1) by (intro dround_int_ulp)
  qed
qed

lemma dround_dec28: "dec28 x \<Longrightarrow> dround x = x"
proof -
  assume "dec28 x"
  then obtain m e where x: "x = of_int m * 10 powi e" and m: "\<bar>m\<bar> \<le> 10 ^ 28"
    by (auto simp: dec28_def)
  consider "0 < x" | "x = 0" | "x < 0" by linarith
  then show "dround x = x"
  proof cases
    case 1
    then show ?thesis using x m by (rule dround_dec28_pos)
  next
    case 3
    have "dround (- x) = - x"
      by (rule dround_dec28_pos[of _ "- m" e]) (use 3 x m in auto)
    then show ?thesis by (simp add: dround_minus)
  qed simp
qed

lemma dec28_dround: "dec28 (dround x)"
proof -
  have pos: "dec28 (dround x)" if "0 < x" for x
  proof -
    have "10 ^ 27 \<le> round_half_even (x / ulp x)"
      using ulp_scale(1)[OF that] by (intro round_half_even_ge_int) simp
    moreover have "round_half_even (x / ulp x) \<le> 10 ^ 28"
      using ulp_scale(2)[OF that] by (intro round_half_even_le_int) simp
    ultimately show ?thesis
      unfolding dec28_def dround_pos_eq[OF that] ulp_def by fastforce
  qed
  have neg: "dec28 (- x)" if "dec28 x" for x
    using that unfolding dec28_def by (metis abs_minus_cancel minus_mult_left of_int_minus)
  consider "0 < x" | "x = 0" | "x < 0" by linarith
  then show ?thesis
  proof cases
    case 2
    then show ?thesis by (auto simp: dec28_def intro!: exI[of _ 0])
  next
    case 3
    with neg[OF pos[of "- x"]] show ?thesis by (simp add: dround_minus)
  qed (rule pos)
qed

lemma dround_idem: "dround (dround x) = dround x"
  by (rule dround_dec28[OF dec28_dround])

lemma dround_err: "\<bar>dround x - x\<bar> \<le> \<bar>x\<bar> / (2 * 10 ^ 27)"
proof -
  have pos: "\<bar>dround x - x\<bar> \<le> \<bar>x\<bar> / (2 * 10 ^ 27)" if "0 < x" for x
  proof -
    have "\<bar>dround x - x\<bar> = \<bar>of_int (round_half_even (x / ulp x)) - x / ulp x\<bar> * ulp x"
      using abs_mult[of "of_int (round_half_even (x / ulp x)) - x / ulp x" "ulp x"] that
      by (simp add: dround_pos_eq left_diff_distrib)
    also have "\<dots> \<le> 1 / 2 * ulp x"
      by (intro mult_right_mono round_half_even_err) simp
    also have "\<dots> \<le> \<bar>x\<bar> / (2 * 10 ^ 27)"
      using ulp_scale(1)[OF that] ulp_pos[of x] that by (simp add: field_simps)
    finally show ?thesis .
  qed
  consider "0 < x" | "x = 0" | "x < 0" by linarith
  then show ?thesis
  proof cases
    case 3
    with pos[of "- x"] show ?thesis by (simp add: dround_minus abs_minus_commute)
  qed (use pos in auto)
qed



lemma dec28_scaled: "\<bar>m\<bar> \<le> 10 ^ 28 \<Longrightarrow> dec28 (of_int m / 10 ^ n)"
  unfolding dec28_def
  by (intro exI[of _ m] exI[of _ "- int n"])
    (simp only: power_int_minus power_int_of_nat divide_inverse)


section \<open>Evaluation\<close>

text \<open>
  A code equation for the witnesses: thousandths of moderate size are not rounded, so that
  evaluation enters the general algorithm only where it matters; that one is computed on the
  numerator and the denominator, in integers.
\<close>

definition dround_general :: "rat \<Rightarrow> dec" where
  "dround_general x = dround x"

definition round_ratio :: "int \<Rightarrow> int \<Rightarrow> int" where
  "round_ratio a b =
     (let q = a div b; r = 2 * (a mod b) in
      if r < b then q else if b < r then q + 1 else if even q then q else q + 1)"

lemma round_ratio: "0 < b \<Longrightarrow> round_half_even (of_int a / of_int b) = round_ratio a b"
proof -
  assume b: "0 < b"
  then have b': "(0::rat) < of_int b" by simp
  have f: "\<lfloor>(of_int a / of_int b :: rat)\<rfloor> = a div b" by (rule floor_divide_of_int_eq)
  have "a = b * (a div b) + a mod b" by simp
  then have "(of_int a :: rat) = of_int b * of_int (a div b) + of_int (a mod b)"
    by (metis of_int_add of_int_mult)
  then have r: "(of_int a / of_int b :: rat) - of_int (a div b) = of_int (a mod b) / of_int b"
    using b' by (simp add: field_simps)
  have "of_int (a mod b) / of_int b < (1 / 2 :: rat) \<longleftrightarrow> of_int (2 * (a mod b)) < (of_int b :: rat)"
    using b' by (simp add: field_simps)
  moreover have "(1 / 2 :: rat) < of_int (a mod b) / of_int b \<longleftrightarrow> (of_int b :: rat) < of_int (2 * (a mod b))"
    using b' by (simp add: field_simps)
  ultimately show ?thesis
    unfolding round_half_even_def round_ratio_def f Let_def r of_int_less_iff by simp
qed

lemma ilog10_ratio:
  assumes "0 < a" "0 < d"
  shows "ilog10 (of_int a / of_int d) = (if d \<le> a then int_log10 (a div d) else - int_log10 ((d - 1) div a) - 1)"
proof -
  have "(d - 1) div a = (if d mod a = 0 then d div a - 1 else d div a)"
  proof (cases "d mod a = 0")
    case True
    then have "d = a * (d div a)" by (metis add.right_neutral mult_div_mod_eq)
    then have "d - 1 = a * (d div a - 1) + (a - 1)" by (simp add: algebra_simps)
    then show ?thesis using assms True by (intro int_div_pos_eq[of _ _ _ "a - 1", THEN trans]) auto
  next
    case False
    moreover have "0 \<le> d mod a" "d mod a < a" using assms by simp_all
    ultimately have r: "0 \<le> d mod a - 1" "d mod a - 1 < a" by linarith+
    have "d - 1 = a * (d div a) + (d mod a - 1)" by simp
    then have "(d - 1) div a = d div a" using r by (rule int_div_pos_eq)
    then show ?thesis using False by simp
  qed
  moreover have "\<lceil>(of_int d / of_int a :: rat)\<rceil> = - (- d div a)" by (rule ceiling_divide_eq_div)
  ultimately have "\<lceil>(of_int d / of_int a :: rat)\<rceil> - 1 = (d - 1) div a"
    using assms by (simp add: zdiv_zminus1_eq_if)
  moreover have "(1::rat) \<le> of_int a / of_int d \<longleftrightarrow> d \<le> a" using assms by (simp add: le_divide_eq_1)
  ultimately show ?thesis
    by (simp add: ilog10_def floor_divide_of_int_eq)
qed

lemma dround_ratio:
  "dround x =
     (let (n, d) = quotient_of x in
      if n = 0 then 0
      else
        (let a = \<bar>n\<bar>;
             e = (if d \<le> a then int_log10 (a div d) else - int_log10 ((d - 1) div a) - 1) - 27
         in if 0 \<le> e then of_int (sgn n * round_ratio a (d * 10 ^ nat e) * 10 ^ nat e)
            else of_int (sgn n * round_ratio (a * 10 ^ nat (- e)) d) / of_int (10 ^ nat (- e))))"
proof -
  obtain n d where q: "quotient_of x = (n, d)" by fastforce
  have d: "0 < d" by (rule quotient_of_denom_pos[OF q])
  have x: "x = of_int n / of_int d" by (rule quotient_of_div[OF q])
  show ?thesis
  proof (cases "n = 0")
    case True
    then show ?thesis by (simp add: q x)
  next
    case False
    define e where "e = (if d \<le> \<bar>n\<bar> then int_log10 (\<bar>n\<bar> div d) else - int_log10 ((d - 1) div \<bar>n\<bar>) - 1) - 27"
    have ax: "\<bar>x\<bar> = of_int \<bar>n\<bar> / of_int d" using d by (simp add: x)
    have il: "ilog10 \<bar>x\<bar> - 27 = e"
      unfolding ax e_def by (subst ilog10_ratio) (use False d in auto)
    have sg: "sgn x = of_int (sgn n)" using d by (simp add: x sgn_if zero_less_divide_iff)
    have x0: "x \<noteq> 0" using False d by (simp add: x)
    show ?thesis
    proof (cases "0 \<le> e")
      case True
      then have p: "(10::rat) powi e = of_int (10 ^ nat e)" by (simp add: power_int_def)
      have "\<bar>x\<bar> / 10 powi e = of_int \<bar>n\<bar> / of_int (d * 10 ^ nat e)" by (simp add: ax p)
      then have "round_half_even (\<bar>x\<bar> / 10 powi e) = round_ratio \<bar>n\<bar> (d * 10 ^ nat e)"
        using round_ratio[of "d * 10 ^ nat e" "\<bar>n\<bar>"] d by simp
      then have "dround x = of_int (sgn n * round_ratio \<bar>n\<bar> (d * 10 ^ nat e) * 10 ^ nat e)"
        using x0 by (simp add: dround_def il sg p)
      then show ?thesis using True False by (simp only: q prod.case Let_def e_def[symmetric] if_False if_True)
    next
      case neg: False
      then have p: "(10::rat) powi e = 1 / of_int (10 ^ nat (- e))"
        by (simp add: power_int_def inverse_eq_divide power_one_over)
      have "\<bar>x\<bar> / 10 powi e = of_int (\<bar>n\<bar> * 10 ^ nat (- e)) / of_int d" by (simp add: ax p)
      then have "round_half_even (\<bar>x\<bar> / 10 powi e) = round_ratio (\<bar>n\<bar> * 10 ^ nat (- e)) d"
        by (simp only: round_ratio[OF d])
      then have "dround x = of_int (sgn n * round_ratio (\<bar>n\<bar> * 10 ^ nat (- e)) d) / of_int (10 ^ nat (- e))"
        using x0 by (simp add: dround_def il sg p)
      then show ?thesis using neg False by (simp only: q prod.case Let_def e_def[symmetric] if_False if_True)
    qed
  qed
qed

lemma dround_general_code [code]:
  "dround_general x =
     (let (n, d) = quotient_of x in
      if n = 0 then 0
      else
        (let a = \<bar>n\<bar>;
             e = (if d \<le> a then int_log10 (a div d) else - int_log10 ((d - 1) div a) - 1) - 27
         in if 0 \<le> e then of_int (sgn n * round_ratio a (d * 10 ^ nat e) * 10 ^ nat e)
            else of_int (sgn n * round_ratio (a * 10 ^ nat (- e)) d) / of_int (10 ^ nat (- e))))"
  unfolding dround_general_def by (rule dround_ratio)

lemma dround_thousandths:
  assumes "quotient_of x = (n, d)" "d dvd 1000" "\<bar>n\<bar> \<le> 10 ^ 24"
  shows "dround x = x"
proof -
  have d: "0 < d" using quotient_of_denom_pos[OF assms(1)] .
  obtain k where k: "1000 = d * k" using assms(2) by (rule dvdE)
  then have "0 < k" using d zero_less_mult_iff[of d k] by auto
  have dk: "of_int d * of_int k = (1000::rat)" using arg_cong[OF k, of of_int] by simp
  have "of_int (n * k) / 10 ^ 3 = of_int n * of_int k / (of_int d * of_int k :: rat)"
    unfolding dk by simp
  also have "\<dots> = x" using quotient_of_div[OF assms(1)] d \<open>0 < k\<close> by simp
  finally have "x = of_int (n * k) / 10 ^ 3" by simp
  moreover have "d * k \<ge> 1 * k" using d \<open>0 < k\<close> by (intro mult_right_mono) auto
  then have "k \<le> 1000" using k by simp
  have "\<bar>n\<bar> * k \<le> 10 ^ 24 * 1000"
    using assms(3) \<open>k \<le> 1000\<close> \<open>0 < k\<close> by (intro mult_mono) auto
  then have "\<bar>n * k\<bar> \<le> 10 ^ 28" using \<open>0 < k\<close> by (simp add: abs_mult)
  ultimately show ?thesis using dround_dec28[OF dec28_scaled] by metis
qed

lemma dround_code [code]:
  "dround x =
     (let (n, d) = quotient_of x in
      if 1000 mod d = 0 \<and> \<bar>n\<bar> \<le> 1000000000000000000000000 then x else dround_general x)"
  by (auto simp: dround_general_def Let_def intro!: dround_thousandths split: prod.split)


section \<open>The rounding interface\<close>

text \<open>
  What the components rely on: the rounding is monotone, odd, fixes the numbers it can
  represent (\<open>1\<close> among them) and always returns one.
\<close>

locale rounding =
  fixes rnd :: "rat \<Rightarrow> rat" and rep :: "rat \<Rightarrow> bool"
  assumes rnd_mono: "x \<le> y \<Longrightarrow> rnd x \<le> rnd y"
    and rnd_minus: "rnd (- x) = - rnd x"
    and rnd_rep: "rep x \<Longrightarrow> rnd x = x"
    and rep_rnd: "rep (rnd x)"
    and rep_1: "rep 1"
begin

lemma rnd_0: "rnd 0 = 0"
  using rnd_minus[of 0] by simp

lemma rnd_nonneg: "0 \<le> x \<Longrightarrow> 0 \<le> rnd x"
  using rnd_mono[of 0 x] by (simp add: rnd_0)

lemma rnd_nonpos: "x \<le> 0 \<Longrightarrow> rnd x \<le> 0"
  using rnd_mono[of x 0] by (simp add: rnd_0)

lemma rnd_ge_rep: "rep a \<Longrightarrow> a \<le> x \<Longrightarrow> a \<le> rnd x"
  using rnd_mono[of a x] by (simp add: rnd_rep)

lemma rnd_le_rep: "rep a \<Longrightarrow> x \<le> a \<Longrightarrow> rnd x \<le> a"
  using rnd_mono[of x a] by (simp add: rnd_rep)

lemma rnd_add_grows: "rep a \<Longrightarrow> 0 \<le> b \<Longrightarrow> a \<le> rnd (a + b)"
  by (rule rnd_ge_rep) auto

lemma rnd_sub_shrinks: "rep a \<Longrightarrow> 0 \<le> b \<Longrightarrow> rnd (a - b) \<le> a"
  by (rule rnd_le_rep) auto

lemma rnd_ratio:
  assumes "0 \<le> a" "a \<le> b" "0 < b"
  shows "0 \<le> rnd (a / b)" and "rnd (a / b) \<le> 1"
proof -
  show "0 \<le> rnd (a / b)" using assms by (intro rnd_nonneg) simp
  show "rnd (a / b) \<le> 1" using assms by (intro rnd_le_rep[OF rep_1]) simp
qed

lemma rep_fold_add: "rep a \<Longrightarrow> rep (fold (\<lambda>x acc. rnd (acc + x)) xs a)"
  by (induction xs arbitrary: a) (auto intro: rep_rnd)

lemma fold_add_grows:
  "rep a \<Longrightarrow> list_all (\<lambda>x. 0 \<le> x) xs \<Longrightarrow> a \<le> fold (\<lambda>x acc. rnd (acc + x)) xs a"
proof (induction xs arbitrary: a)
  case Nil
  then show ?case by simp
next
  case (Cons x xs)
  then have "a \<le> rnd (a + x)" by (intro rnd_add_grows) auto
  also have "\<dots> \<le> fold (\<lambda>x acc. rnd (acc + x)) xs (rnd (a + x))"
    using Cons by (intro Cons.IH) (auto intro: rep_rnd)
  finally show ?case by simp
qed

end

lemma dec28_int: "\<bar>m\<bar> \<le> 10 ^ 28 \<Longrightarrow> dec28 (of_int m)"
  using dec28_scaled[of m 0] by simp

lemma dec28_0 [simp]: "dec28 0" and dec28_1 [simp]: "dec28 1"
  using dec28_int[of 0] dec28_int[of 1] by simp_all

interpretation ctx: rounding dround dec28
  by unfold_locales
    (simp_all add: dround_mono dround_minus dround_dec28 dec28_dround)

lemmas dop_defs = dadd_def dsub_def dmul_def ddiv_def

lemma dadd_nonneg [intro, simp]: "0 \<le> a \<Longrightarrow> 0 \<le> b \<Longrightarrow> 0 \<le> dadd a b"
  by (simp add: dadd_def ctx.rnd_nonneg)

lemma dmul_nonneg [intro, simp]: "0 \<le> a \<Longrightarrow> 0 \<le> b \<Longrightarrow> 0 \<le> dmul a b"
  by (simp add: dmul_def ctx.rnd_nonneg)

lemma ddiv_nonneg [intro, simp]: "0 \<le> a \<Longrightarrow> 0 \<le> b \<Longrightarrow> 0 \<le> ddiv a b"
  by (simp add: ddiv_def ctx.rnd_nonneg)

lemma dsub_nonneg [intro, simp]: "b \<le> a \<Longrightarrow> 0 \<le> dsub a b"
  by (simp add: dsub_def ctx.rnd_nonneg)

lemma dabs_nonneg [intro, simp]: "0 \<le> dabs a"
  by (simp add: dabs_def ctx.rnd_nonneg)

lemma dsub_self [simp]: "dsub a a = 0"
  by (simp add: dsub_def)

lemma dmul_0 [simp]: "dmul 0 a = 0" "dmul a 0 = 0"
  by (simp_all add: dmul_def)

lemma ddiv_self [simp]: "b \<noteq> 0 \<Longrightarrow> ddiv b b = 1"
  by (simp add: ddiv_def dround_dec28)

lemma ddiv_0 [simp]: "ddiv 0 b = 0"
  by (simp add: ddiv_def)

lemma dmul_pos: "0 < a \<Longrightarrow> 0 < b \<Longrightarrow> 0 < dmul a b"
  by (simp add: dmul_def dround_pos)

lemma ddiv_pos: "0 < a \<Longrightarrow> 0 < b \<Longrightarrow> 0 < ddiv a b"
  by (simp add: ddiv_def dround_pos)

lemma dadd_pos: "0 < a \<Longrightarrow> 0 \<le> b \<Longrightarrow> 0 < dadd a b"
  by (simp add: dadd_def dround_pos)

lemma dec28_dop [simp]:
  "dec28 (dadd a b)" "dec28 (dsub a b)" "dec28 (dmul a b)" "dec28 (ddiv a b)"
  by (simp_all add: dop_defs dec28_dround)

lemma dadd_0 [simp]: "dec28 a \<Longrightarrow> dadd a 0 = a" "dec28 a \<Longrightarrow> dadd 0 a = a"
  by (simp_all add: dadd_def dround_dec28)

lemma dsub_0 [simp]: "dec28 a \<Longrightarrow> dsub a 0 = a"
  by (simp add: dsub_def dround_dec28)

lemma dadd_grows: "dec28 a \<Longrightarrow> 0 \<le> b \<Longrightarrow> a \<le> dadd a b"
  by (simp add: dadd_def ctx.rnd_add_grows)

lemma dadd_mono: "a \<le> a' \<Longrightarrow> b \<le> b' \<Longrightarrow> dadd a b \<le> dadd a' b'"
  by (simp add: dadd_def dround_mono)

lemma ddiv_ratio: "0 \<le> a \<Longrightarrow> a \<le> b \<Longrightarrow> 0 < b \<Longrightarrow> ddiv a b \<le> 1"
  by (simp add: ddiv_def ctx.rnd_ratio)

lemma dsum_nonneg: "list_all (\<lambda>x. 0 \<le> x) xs \<Longrightarrow> 0 \<le> dsum xs"
  unfolding dsum_def dadd_def by (rule ctx.fold_add_grows) auto

lemma dec28_dsum: "dec28 (dsum xs)"
  unfolding dsum_def dadd_def by (rule ctx.rep_fold_add) auto

lemma dadd_err: "\<bar>dadd a b - (a + b)\<bar> \<le> \<bar>a + b\<bar> / (2 * 10 ^ 27)"
  unfolding dadd_def by (rule dround_err)

lemma ddiv_err: "\<bar>ddiv a b - a / b\<bar> \<le> \<bar>a / b\<bar> / (2 * 10 ^ 27)"
  unfolding ddiv_def by (rule dround_err)


section \<open>Quantization to cents\<close>

text \<open>
  \<open>value.quantize(Decimal("0.01"), rounding=ROUND_HALF_UP)\<close> as a number of cents: ties away
  from zero, and \<open>InvalidOperation\<close> when the result has more than 28 digits.
\<close>

definition quantize_cents :: "dec \<Rightarrow> py_exn + int" where
  "quantize_cents x =
     (let c = (if x < 0 then - \<lfloor>100 * \<bar>x\<bar> + 1 / 2\<rfloor> else \<lfloor>100 * x + 1 / 2\<rfloor>) in
      if \<bar>c\<bar> < 10 ^ 28 then Inr c else Inl InvalidOperation)"

lemma quantize_cents_ok:
  assumes "\<bar>x\<bar> \<le> 10 ^ 25"
  shows "\<exists>c. quantize_cents x = Inr c"
proof -
  have "100 * \<bar>x\<bar> + 1 / 2 < of_int (10 ^ 28)" using assms by simp
  then have "\<lfloor>100 * \<bar>x\<bar> + 1 / 2\<rfloor> < 10 ^ 28" unfolding floor_less_iff .
  moreover have "0 \<le> \<lfloor>100 * \<bar>x\<bar> + 1 / 2\<rfloor>" by simp
  ultimately show ?thesis by (cases "x < 0") (auto simp: quantize_cents_def Let_def)
qed

lemma quantize_cents_nearest:
  assumes "quantize_cents x = Inr c"
  shows "\<bar>of_int c - 100 * x\<bar> \<le> 1 / 2"
proof -
  have fl: "\<bar>of_int \<lfloor>y + 1 / 2\<rfloor> - y\<bar> \<le> 1 / 2" for y :: rat
    using of_int_floor_le[of "y + 1 / 2"] floor_correct[of "y + 1 / 2"] by linarith
  show ?thesis
  proof (cases "x < 0")
    case True
    then have "c = - \<lfloor>100 * (- x) + 1 / 2\<rfloor>"
      using assms by (simp add: quantize_cents_def Let_def split: if_splits)
    then have "of_int c - 100 * x = - (of_int \<lfloor>100 * (- x) + 1 / 2\<rfloor> - 100 * (- x))"
      by (simp only: of_int_minus minus_diff_eq mult_minus_right)
    then show ?thesis using fl[of "100 * (- x)"] by (simp only: abs_minus_cancel)
  next
    case False
    then have "c = \<lfloor>100 * x + 1 / 2\<rfloor>"
      using assms by (simp add: quantize_cents_def Let_def split: if_splits)
    then show ?thesis using fl[of "100 * x"] by (simp only:)
  qed
qed

end
