(* ===== verification/Contracts.thy ===== *)
theory Contracts
  imports Decimals
begin

text \<open>
  The data transfer objects of \<open>cestaplan_engine/contracts.py\<close>, one \<open>record\<close> per Pydantic
  model, each field in the source's order with a two-letter prefix of its class. A
  \<open>Literal\<close> is a datatype, \<open>DecimalStr\<close> is \<open>dec\<close>, a \<open>date\<close> its proleptic ordinal
  (\<open>date.toordinal()\<close>), \<open>set[str]\<close> a set of strings. Strings the code only builds for
  display (warnings, conflict tokens, explanations) are \<open>message\<close>s: one constructor per
  f-string, its arguments the interpolated values.
\<close>

type_synonym date = int

definition weekday :: "date \<Rightarrow> int" where
  "weekday d = (d + 6) mod 7"


section \<open>Literals\<close>

datatype meal_type = Breakfast | Lunch | Snack | Dinner

text \<open>The \<open>str\<close> value of a meal type; \<open>sorted\<close> on meal types compares these.\<close>

fun meal_type_value :: "meal_type \<Rightarrow> string" where
  "meal_type_value Breakfast = ''breakfast''"
| "meal_type_value Lunch = ''lunch''"
| "meal_type_value Snack = ''snack''"
| "meal_type_value Dinner = ''dinner''"

instantiation meal_type :: linorder
begin

definition less_eq_meal_type :: "meal_type \<Rightarrow> meal_type \<Rightarrow> bool" where
  "less_eq_meal_type a b \<longleftrightarrow> meal_type_value a \<le> meal_type_value b"

definition less_meal_type :: "meal_type \<Rightarrow> meal_type \<Rightarrow> bool" where
  "less_meal_type a b \<longleftrightarrow> meal_type_value a < meal_type_value b"

instance
proof
  fix x y z :: meal_type
  show "x < y \<longleftrightarrow> x \<le> y \<and> \<not> y \<le> x"
    by (auto simp: less_eq_meal_type_def less_meal_type_def)
  show "x \<le> x" by (simp add: less_eq_meal_type_def)
  show "x \<le> y \<Longrightarrow> y \<le> z \<Longrightarrow> x \<le> z"
    by (auto simp: less_eq_meal_type_def)
  show "x \<le> y \<or> y \<le> x" by (auto simp: less_eq_meal_type_def)
  show "x \<le> y \<Longrightarrow> y \<le> x \<Longrightarrow> x = y"
    by (cases x; cases y; simp add: less_eq_meal_type_def)
qed

end

datatype availability = InStock | OutOfStock | UnknownAvailability

datatype coverage_status =
  CovComplete | CovHigh | CovPartial | CovInsufficient | CovStale | CovNone

datatype priority = PriorityPrice | PriorityWaste | PriorityNutrition

datatype macro_status = MacroMet | MacroUnder | MacroOver | MacroUnknown

datatype weekday_name =
  Monday | Tuesday | Wednesday | Thursday | Friday | Saturday | Sunday

fun weekday_index :: "weekday_name \<Rightarrow> int" where
  "weekday_index Monday = 0"
| "weekday_index Tuesday = 1"
| "weekday_index Wednesday = 2"
| "weekday_index Thursday = 3"
| "weekday_index Friday = 4"
| "weekday_index Saturday = 5"
| "weekday_index Sunday = 6"


section \<open>Input DTOs\<close>

record member_dto =
  mb_alias :: string
  mb_relative_serving :: dec
  mb_allergens :: "string set"
  mb_strict_allergen_codes :: "string set"
  mb_hard_restrictions :: "string set"
  mb_soft_preferences :: "string list"
  mb_rejected_recipe_ids :: "string set"

record meal_requirement_dto =
  mr_meal_type :: meal_type
  mr_requested_count :: int
  mr_default_servings :: int
  mr_selected_dates :: "date list option"
  mr_auto_distribute :: bool
  mr_preferred_days :: "weekday_name list option"
  mr_maximum_preparation_minutes :: "int option"
  mr_requires_tupper :: bool
  mr_reheating_available :: bool

text \<open>
  \<open>_zero_means_no_limit\<close>, the field validator of \<open>maximum_preparation_minutes\<close>: a limit of
  zero or less is no limit.
\<close>

definition zero_means_no_limit :: "int option \<Rightarrow> int option" where
  "zero_means_no_limit v =
     (case v of None \<Rightarrow> None | Some n \<Rightarrow> if n \<noteq> 0 \<and> 0 < n then Some n else None)"

record budget_dto =
  bg_amount :: dec
  bg_currency :: string
  bg_strict :: bool
  bg_max_margin_ratio :: dec
  bg_includes_pantry_staples :: bool
  bg_includes_condiments :: bool
  bg_priority :: priority

record package_option_dto =
  po_product_id :: string
  po_package_quantity :: dec
  po_package_unit :: string
  po_amount :: dec
  po_unit_price :: dec
  po_availability :: availability
  po_source_type :: string
  po_source_name :: string
  po_observed_at :: "date option"
  po_expires_at :: "date option"
  po_confidence_score :: dec
  po_has_price :: bool

record nutrition_dto =
  nu_kcal :: "dec option"
  nu_protein_g :: "dec option"
  nu_carbs_g :: "dec option"
  nu_fat_g :: "dec option"

record nutrition_target_dto =
  nt_kcal :: "dec option"
  nt_protein_g :: "dec option"
  nt_carbs_g :: "dec option"
  nt_fat_g :: "dec option"

definition target_is_empty :: "nutrition_target_dto \<Rightarrow> bool" where
  "target_is_empty t =
     list_all (\<lambda>m. m = None) [nt_kcal t, nt_protein_g t, nt_carbs_g t, nt_fat_g t]"

record catalog_product_dto =
  cp_product_id :: string
  cp_canonical_name :: string
  cp_display_name :: string
  cp_category :: string
  cp_packages :: "package_option_dto list"
  cp_nutrition :: "nutrition_dto option"
  cp_allergens :: "string set"

record recipe_ingredient_dto =
  ri_canonical_name :: string
  ri_display_name :: string
  ri_quantity :: dec
  ri_unit :: string
  ri_optional :: bool
  ri_substitution_group :: "string option"
  ri_category :: "string option"
  ri_allergen_assessed :: bool

record candidate_recipe_dto =
  cr_recipe_id :: string
  cr_title :: string
  cr_description :: string
  cr_servings :: int
  cr_meal_types :: "meal_type set"
  cr_cuisine :: string
  cr_preference_tags :: "string list"
  cr_ingredients :: "recipe_ingredient_dto list"
  cr_steps :: "string list"
  cr_preparation_minutes :: int
  cr_cooking_minutes :: int
  cr_required_equipment :: "string set"
  cr_leftover_reuse :: bool
  cr_storage_instructions :: "string option"
  cr_reheating_instructions :: "string option"
  cr_allergens_declared :: "string set"

record pantry_item_dto =
  pi_canonical_name :: string
  pi_quantity :: dec
  pi_unit :: string
  pi_expires_at :: "date option"

record ingredient_conversion_dto =
  ic_canonical_name :: string
  ic_from_unit :: string
  ic_to_unit :: string
  ic_factor :: dec

record scoring_weights =
  sw_waste :: dec
  sw_repetition :: dec
  sw_cost :: dec
  sw_time :: dec
  sw_nutrition_deviation :: dec
  sw_soft :: dec
  sw_pantry :: dec
  sw_favorite :: dec
  sw_rejected :: dec

definition default_weights :: scoring_weights where
  "default_weights = \<lparr>sw_waste = 1, sw_repetition = 12, sw_cost = 3/2, sw_time = 4/5,
     sw_nutrition_deviation = 6/5, sw_soft = 1, sw_pantry = 1, sw_favorite = 7/10,
     sw_rejected = 1000000000\<rparr>"

record plan_input =
  in_members :: "member_dto list"
  in_meal_requirements :: "meal_requirement_dto list"
  in_budget :: budget_dto
  in_date_range :: "date \<times> date"
  in_available_equipment :: "string set"
  in_catalog :: "catalog_product_dto list"
  in_candidates :: "candidate_recipe_dto list"
  in_pantry :: "pantry_item_dto list"
  in_favorites :: "string set"
  in_conversions :: "ingredient_conversion_dto list"
  in_weights :: scoring_weights
  in_nutrition_target :: "nutrition_target_dto option"
  in_seed :: int
  in_as_of :: "date option"


section \<open>Messages\<close>

datatype reason =
    MarkedFavorite
  | PrepCookMinutes int
  | ImputableCost int string
  | ReusesLeftovers

datatype message =
    NoMealsRequested
  | NoAllergenData string
  | CannotConvert string string string
  | PlanUsesExpiredPrices
  | PriceCoverageLow
  | BudgetConflict int string
  | MealsConflict int
  | StoreCatalogPrices
  | NoCandidateFor meal_type
  | HardConstraint string
  | RaiseBudgetTo int string
  | ReduceMeals
  | ChangeStore
  | AcceptEstimatedPrices
  | AddRecipes
  | RelaxSoftPreferences
  | MealExplanation meal_type date string "reason list"
  | SeedFallback string


section \<open>Output DTOs\<close>

record cost_breakdown =
  cb_total :: dec
  cb_imputable :: dec
  cb_marginal :: dec

record planned_meal_dto =
  pm_recipe_id :: string
  pm_title :: string
  pm_date :: date
  pm_meal_type :: meal_type
  pm_servings :: int
  pm_participants :: "string list"
  pm_cost :: cost_breakdown
  pm_nutrition :: "nutrition_dto option"
  pm_nutrition_complete :: bool
  pm_explanation :: message

record grocery_line_dto =
  gl_canonical_name :: string
  gl_product_id :: "string option"
  gl_display_name :: string
  gl_category :: string
  gl_needed_quantity :: dec
  gl_pantry_quantity :: dec
  gl_pending_quantity :: dec
  gl_packages_count :: int
  gl_package_quantity :: "dec option"
  gl_package_unit :: "string option"
  gl_package_price :: "dec option"
  gl_purchased_quantity :: dec
  gl_used_quantity :: dec
  gl_leftover :: dec
  gl_subtotal :: dec
  gl_subtotal_known :: bool
  gl_availability :: availability
  gl_source_type :: string
  gl_source_name :: string
  gl_observed_at :: "date option"
  gl_expired :: bool

text \<open>A line with the class's defaults in every field the constructor call leaves out.\<close>

definition grocery_line_defaults :: "string \<Rightarrow> string option \<Rightarrow> string \<Rightarrow> dec \<Rightarrow> grocery_line_dto" where
  "grocery_line_defaults canonical product_id display needed =
     \<lparr>gl_canonical_name = canonical, gl_product_id = product_id, gl_display_name = display,
      gl_category = ''uncategorized'', gl_needed_quantity = needed, gl_pantry_quantity = 0,
      gl_pending_quantity = 0, gl_packages_count = 0, gl_package_quantity = None,
      gl_package_unit = None, gl_package_price = None, gl_purchased_quantity = 0,
      gl_used_quantity = 0, gl_leftover = 0, gl_subtotal = 0, gl_subtotal_known = False,
      gl_availability = UnknownAvailability, gl_source_type = ''estimated'',
      gl_source_name = '''', gl_observed_at = None, gl_expired = False\<rparr>"

record coverage_counts =
  cc_with_price :: nat
  cc_without_price :: nat
  cc_estimated :: nat
  cc_expired :: nat

record coverage_dto =
  cv_price_coverage :: dec
  cv_weighted_price_coverage :: dec
  cv_status :: coverage_status
  cv_counts :: coverage_counts

record cost_total_dto =
  ct_known :: dec
  ct_estimated :: dec
  ct_total :: dec

record leftover_dto =
  lo_canonical_name :: string
  lo_product_id :: "string option"
  lo_display_name :: string
  lo_quantity :: dec
  lo_unit :: string

record pantry_used_dto =
  pu_canonical_name :: string
  pu_quantity :: dec
  pu_unit :: string

record macro_summary_dto =
  ms_actual_per_day :: "dec option"
  ms_target_per_day :: "dec option"
  ms_deviation :: "dec option"
  ms_coverage_ratio :: "dec option"
  ms_status :: macro_status

record nutrition_summary_dto =
  ns_days :: int
  ns_complete :: bool
  ns_kcal :: macro_summary_dto
  ns_protein_g :: macro_summary_dto
  ns_carbs_g :: macro_summary_dto
  ns_fat_g :: macro_summary_dto

record plan_result =
  pr_planned_meals :: "planned_meal_dto list"
  pr_grocery_lines :: "grocery_line_dto list"
  pr_cost_per_day :: "(date, dec) dict"
  pr_cost_total :: cost_total_dto
  pr_budget_diff :: dec
  pr_leftovers :: "leftover_dto list"
  pr_pantry_used :: "pantry_used_dto list"
  pr_coverage :: coverage_dto
  pr_nutrition_summary :: "nutrition_summary_dto option"
  pr_warnings :: "message list"
  pr_explanations :: "message list"
  pr_seed :: int

record offending_product =
  op_canonical_name :: string
  op_product_id :: "string option"
  op_display_name :: string
  op_subtotal :: dec

record infeasible_result =
  ir_minimal_conflict :: "message list"
  ir_min_budget_found :: "dec option"
  ir_offending_products :: "offending_product list"
  ir_relaxable_soft_constraints :: "string list"
  ir_suggested_actions :: "message list"
  ir_warnings :: "message list"
  ir_seed :: int


section \<open>Macros\<close>

text \<open>\<open>_MACROS\<close> and \<open>getattr(nutrition, macro)\<close>.\<close>

datatype macro = Kcal | ProteinG | CarbsG | FatG

definition macros :: "macro list" where
  "macros = [Kcal, ProteinG, CarbsG, FatG]"

fun nutrition_macro :: "nutrition_dto \<Rightarrow> macro \<Rightarrow> dec option" where
  "nutrition_macro n Kcal = nu_kcal n"
| "nutrition_macro n ProteinG = nu_protein_g n"
| "nutrition_macro n CarbsG = nu_carbs_g n"
| "nutrition_macro n FatG = nu_fat_g n"

fun target_macro :: "nutrition_target_dto \<Rightarrow> macro \<Rightarrow> dec option" where
  "target_macro n Kcal = nt_kcal n"
| "target_macro n ProteinG = nt_protein_g n"
| "target_macro n CarbsG = nt_carbs_g n"
| "target_macro n FatG = nt_fat_g n"

lemma target_is_empty_iff: "target_is_empty t \<longleftrightarrow> (\<forall>m. target_macro t m = None)"
proof
  assume "target_is_empty t"
  then have "target_macro t m = None" for m by (cases m) (auto simp: target_is_empty_def)
  then show "\<forall>m. target_macro t m = None" by blast
next
  assume a: "\<forall>m. target_macro t m = None"
  from a[rule_format, of Kcal] a[rule_format, of ProteinG] a[rule_format, of CarbsG]
    a[rule_format, of FatG]
  show "target_is_empty t" by (simp add: target_is_empty_def)
qed

end
