(* ===== verification/Units.thy ===== *)
theory Units
  imports Contracts
begin

text \<open>
  \<open>cestaplan_engine/units.py\<close>: unit conversion in Decimal arithmetic. The factor tables are
  association lists with the literals of the source; \<open>UnitConverter\<close> is its dictionary of
  declared factors; \<open>convert\<close> returns \<open>Inl\<close> for the \<open>ConversionError\<close> it raises.
  \<open>convert\<close> calls itself through \<open>_bridge\<close> without a canonical name only, so the inner calls are
  \<open>convert_unnamed\<close> and the recursion of the source has depth two.
\<close>

definition mass_to_g :: "(string, dec) dict" where
  "mass_to_g = [(''g'', 1), (''kg'', 1000), (''mg'', 1/1000), (''pizca'', 1/2)]"

definition volume_to_ml :: "(string, dec) dict" where
  "volume_to_ml = [(''ml'', 1), (''l'', 1000), (''cl'', 10), (''cucharada'', 15),
     (''cucharadita'', 5), (''vaso'', 200), (''taza'', 240)]"

definition count_units :: "string list" where
  "count_units = [''unit'', ''unidad'', ''unidades'', ''ud'', ''uds'', ''u'', ''piece'', ''pcs'']"

definition norm_unit :: "string \<Rightarrow> string" where
  "norm_unit unit = py_lower (py_strip unit)"

datatype dimension = Mass | Volume | Count

definition to_base :: "dec \<Rightarrow> string \<Rightarrow> (dec \<times> dimension) option" where
  "to_base quantity unit =
     (let u = norm_unit unit in
      case map_of mass_to_g u of
        Some f \<Rightarrow> Some (dmul quantity f, Mass)
      | None \<Rightarrow>
        (case map_of volume_to_ml u of
           Some f \<Rightarrow> Some (dmul quantity f, Volume)
         | None \<Rightarrow> if u \<in> set count_units then Some (quantity, Count) else None))"


section \<open>UnitConverter\<close>

type_synonym unit_converter = "(string \<times> string \<times> string, dec) dict"

definition add_conversion :: "ingredient_conversion_dto \<Rightarrow> unit_converter \<Rightarrow> unit_converter" where
  "add_conversion conv factors =
     (let f = norm_unit (ic_from_unit conv); t = norm_unit (ic_to_unit conv);
          name = ic_canonical_name conv;
          factors = dset (name, f, t) (ic_factor conv) factors
      in if ic_factor conv \<noteq> 0 then dset (name, t, f) (ddiv 1 (ic_factor conv)) factors
         else factors)"

definition unit_converter_init :: "ingredient_conversion_dto list \<Rightarrow> unit_converter" where
  "unit_converter_init conversions = fold add_conversion conversions []"

text \<open>The conversions that need no declared factor: same unit, same dimension, counted units.\<close>

definition convert_standard :: "dec \<Rightarrow> string \<Rightarrow> string \<Rightarrow> dec option" where
  "convert_standard quantity f t =
     (if f = t then Some quantity
      else case (map_of mass_to_g f, map_of mass_to_g t) of
        (Some a, Some b) \<Rightarrow> Some (ddiv (dmul quantity a) b)
      | _ \<Rightarrow>
        (case (map_of volume_to_ml f, map_of volume_to_ml t) of
           (Some a, Some b) \<Rightarrow> Some (ddiv (dmul quantity a) b)
         | _ \<Rightarrow> if f \<in> set count_units \<and> t \<in> set count_units then Some quantity else None))"

definition conversion_failure :: "string \<Rightarrow> string \<Rightarrow> string option \<Rightarrow> py_exn" where
  "conversion_failure from_unit to_unit canonical_name =
     (if norm_unit from_unit \<in> set count_units \<or> norm_unit to_unit \<in> set count_units
      then ConversionErrorCounted from_unit to_unit canonical_name
      else ConversionError from_unit to_unit canonical_name)"

definition convert_unnamed :: "dec \<Rightarrow> string \<Rightarrow> string \<Rightarrow> py_exn + dec" where
  "convert_unnamed quantity from_unit to_unit =
     (case convert_standard quantity (norm_unit from_unit) (norm_unit to_unit) of
        Some q \<Rightarrow> Inr q
      | None \<Rightarrow> Inl (conversion_failure from_unit to_unit None))"

fun bridge_loop :: "unit_converter \<Rightarrow> dec \<Rightarrow> string \<Rightarrow> string \<Rightarrow> string \<Rightarrow> dec option" where
  "bridge_loop [] quantity f t canonical_name = None"
| "bridge_loop (((name, cf, ct), factor) # rest) quantity f t canonical_name =
     (if name \<noteq> canonical_name then bridge_loop rest quantity f t canonical_name
      else case convert_unnamed quantity f cf of
        Inl _ \<Rightarrow> bridge_loop rest quantity f t canonical_name
      | Inr to_cf \<Rightarrow>
          (let crossed = dmul to_cf factor in
           case convert_unnamed crossed ct t of
             Inl _ \<Rightarrow> bridge_loop rest quantity f t canonical_name
           | Inr q \<Rightarrow> Some q))"

definition bridge :: "unit_converter \<Rightarrow> dec \<Rightarrow> string \<Rightarrow> string \<Rightarrow> string \<Rightarrow> dec option" where
  "bridge factors quantity f t canonical_name = bridge_loop factors quantity f t canonical_name"

definition convert :: "unit_converter \<Rightarrow> dec \<Rightarrow> string \<Rightarrow> string \<Rightarrow> string option \<Rightarrow> py_exn + dec" where
  "convert factors quantity from_unit to_unit canonical_name =
     (let f = norm_unit from_unit; t = norm_unit to_unit in
      case convert_standard quantity f t of
        Some q \<Rightarrow> Inr q
      | None \<Rightarrow>
        (case canonical_name of
           None \<Rightarrow> Inl (conversion_failure from_unit to_unit None)
         | Some name \<Rightarrow>
             (case map_of factors (name, f, t) of
                Some direct \<Rightarrow> Inr (dmul quantity direct)
              | None \<Rightarrow>
                (case bridge factors quantity f t name of
                   Some bridged \<Rightarrow> Inr bridged
                 | None \<Rightarrow> Inl (conversion_failure from_unit to_unit canonical_name)))))"

definition can_convert :: "unit_converter \<Rightarrow> string \<Rightarrow> string \<Rightarrow> string option \<Rightarrow> bool" where
  "can_convert factors from_unit to_unit canonical_name =
     (case convert factors 1 from_unit to_unit canonical_name of Inl _ \<Rightarrow> False | Inr _ \<Rightarrow> True)"


section \<open>IngredientNormalizer\<close>

definition ingredient_normalizer_init :: "(string, string) dict \<Rightarrow> (string, string) dict" where
  "ingredient_normalizer_init aliases =
     fold (\<lambda>(k, v) d. dset (py_lower (py_strip k)) v d) aliases []"

definition normalize_ingredient ::
  "(string, string) dict \<Rightarrow> string \<Rightarrow> string \<Rightarrow> string \<times> bool" where
  "normalize_ingredient aliases canonical_name display_name =
     (let key = py_lower (py_strip canonical_name); alt = py_lower (py_strip display_name) in
      case map_of aliases key of
        Some v \<Rightarrow> (v, True)
      | None \<Rightarrow>
        (case (if alt = [] then None else map_of aliases alt) of
           Some v \<Rightarrow> (v, True)
         | None \<Rightarrow> (canonical_name, py_strip canonical_name \<noteq> [])))"


section \<open>Lemmas\<close>

lemma norm_unit_idem [simp]: "norm_unit (norm_unit u) = norm_unit u"
  by (simp add: norm_unit_def py_strip_lower)

lemma convert_unnamed_convert: "convert factors q f t None = convert_unnamed q f t"
  by (simp add: convert_def convert_unnamed_def Let_def split: option.split)

lemma mass_factor_pos: "map_of mass_to_g u = Some a \<Longrightarrow> 0 < a"
  by (auto simp: mass_to_g_def split: if_splits)

lemma volume_factor_pos: "map_of volume_to_ml u = Some a \<Longrightarrow> 0 < a"
  by (auto simp: volume_to_ml_def split: if_splits)

lemmas factor_pos = mass_factor_pos volume_factor_pos

text \<open>The three tables are disjoint, so a unit has one dimension.\<close>

lemma mass_keys: "map_of mass_to_g u = Some a \<Longrightarrow> u \<in> {''g'', ''kg'', ''mg'', ''pizca''}"
  by (auto simp: mass_to_g_def split: if_splits)

lemma mass_not_volume: "map_of mass_to_g u = Some a \<Longrightarrow> map_of volume_to_ml u = None"
  by (drule mass_keys) (auto simp: volume_to_ml_def)

lemma mass_not_count: "map_of mass_to_g u = Some a \<Longrightarrow> u \<notin> set count_units"
  by (drule mass_keys) (auto simp: count_units_def)

lemma volume_not_count: "map_of volume_to_ml u = Some a \<Longrightarrow> u \<notin> set count_units"
  by (auto simp: volume_to_ml_def count_units_def split: if_splits)

lemma convert_standard_same [simp]: "convert_standard q u u = Some q"
  by (simp add: convert_standard_def)

text \<open>Whether a conversion succeeds does not depend on the quantity.\<close>

lemma convert_standard_None_cong:
  "convert_standard q f t = None \<longleftrightarrow> convert_standard q' f t = None"
  by (auto simp: convert_standard_def split: option.splits)

lemma convert_unnamed_Inl_cong:
  "isl (convert_unnamed q f t) = isl (convert_unnamed q' f t)"
  using convert_standard_None_cong[of q "norm_unit f" "norm_unit t" q']
  by (auto simp: convert_unnamed_def split: option.splits)

lemma bridge_loop_None_cong:
  "bridge_loop fs q f t n = None \<longleftrightarrow> bridge_loop fs q' f t n = None"
proof (induction fs)
  case Nil
  then show ?case by simp
next
  case (Cons p fs)
  obtain name cf ct factor where p: "p = ((name, cf, ct), factor)" by (metis prod.collapse)
  show ?case
    using Cons.IH convert_unnamed_Inl_cong[of q f cf q']
      convert_unnamed_Inl_cong[of _ ct t]
    unfolding p by (auto simp: Let_def split: sum.splits) (metis sum.disc)+
qed

lemma convert_Inl_cong: "isl (convert c q f t n) = isl (convert c q' f t n)"
  using convert_standard_None_cong[of q "norm_unit f" "norm_unit t" q']
    bridge_loop_None_cong[of c q "norm_unit f" "norm_unit t" _ q']
  by (auto simp: convert_def bridge_def Let_def split: option.splits) (metis option.distinct(1))+

lemma can_convert_iff: "can_convert c f t n \<longleftrightarrow> \<not> isl (convert c q f t n)"
  using convert_Inl_cong[of c 1 f t n q] by (auto simp: can_convert_def split: sum.splits)

text \<open>Conversions keep signs, given non-negative declared factors.\<close>

lemma convert_standard_nonneg: "0 \<le> q \<Longrightarrow> convert_standard q f t = Some r \<Longrightarrow> 0 \<le> r"
  by (auto simp: convert_standard_def dest!: factor_pos[THEN less_imp_le]
      split: option.splits if_splits)

lemma convert_unnamed_nonneg: "0 \<le> q \<Longrightarrow> convert_unnamed q f t = Inr r \<Longrightarrow> 0 \<le> r"
  by (auto simp: convert_unnamed_def split: option.splits dest: convert_standard_nonneg)

definition factors_nonneg :: "unit_converter \<Rightarrow> bool" where
  "factors_nonneg c = list_all (\<lambda>p. 0 \<le> snd p) c"

lemma bridge_loop_nonneg:
  "factors_nonneg fs \<Longrightarrow> 0 \<le> q \<Longrightarrow> bridge_loop fs q f t n = Some r \<Longrightarrow> 0 \<le> r"
proof (induction fs)
  case Nil
  then show ?case by simp
next
  case (Cons p fs)
  obtain name cf ct factor where p: "p = ((name, cf, ct), factor)" by (metis prod.collapse)
  from Cons.prems have fac: "0 \<le> factor" and fs: "factors_nonneg fs"
    by (auto simp: factors_nonneg_def p)
  note IH = Cons.IH[OF fs Cons.prems(2)]
  note br = Cons.prems(3)[unfolded p, simplified bridge_loop.simps]
  show ?case
  proof (cases "name = n \<and> (\<exists>x. convert_unnamed q f cf = Inr x)")
    case True
    then obtain x where x: "convert_unnamed q f cf = Inr x" by blast
    have "0 \<le> dmul x factor" using convert_unnamed_nonneg[OF Cons.prems(2) x] fac by simp
    with True x br IH convert_unnamed_nonneg[of "dmul x factor" ct t] show ?thesis
      by (auto simp: Let_def split: sum.splits)
  next
    case False
    then have "bridge_loop fs q f t n = Some r" using br by (auto split: if_splits sum.splits)
    then show ?thesis by (rule IH)
  qed
qed

lemma convert_nonneg:
  assumes "factors_nonneg c" "0 \<le> q" "convert c q f t n = Inr r"
  shows "0 \<le> r"
proof -
  have "0 \<le> d" if "map_of c k = Some d" for k d
    using assms(1) map_of_SomeD[OF that] by (auto simp: factors_nonneg_def list_all_iff)
  with assms show ?thesis
    by (auto simp: convert_def bridge_def Let_def split: option.splits
        intro: convert_standard_nonneg bridge_loop_nonneg)
qed

lemma set_dset_subset: "set (dset k v d) \<subseteq> insert (k, v) (set d)"
  unfolding dset_def by (induction d) auto

lemma factors_nonneg_dset: "factors_nonneg d \<Longrightarrow> 0 \<le> v \<Longrightarrow> factors_nonneg (dset k v d)"
  using set_dset_subset[of k v d] by (auto simp: factors_nonneg_def list_all_iff)

lemma factors_nonneg_add: "0 \<le> ic_factor cv \<Longrightarrow> factors_nonneg c \<Longrightarrow> factors_nonneg (add_conversion cv c)"
  by (simp add: add_conversion_def Let_def factors_nonneg_dset)

lemma factors_nonneg_init:
  assumes "list_all (\<lambda>c. 0 \<le> ic_factor c) cs"
  shows "factors_nonneg (unit_converter_init cs)"
proof -
  have "factors_nonneg c \<Longrightarrow> factors_nonneg (fold add_conversion cs c)" for c
    using assms by (induction cs arbitrary: c) (simp_all add: factors_nonneg_add)
  then show ?thesis by (simp add: unit_converter_init_def factors_nonneg_def)
qed

section \<open>Properties\<close>

definition unit_dim :: "string \<Rightarrow> dimension option" where
  "unit_dim u = map_option snd (to_base 1 u)"

text \<open>Two units agree when they are the same or have one dimension; a declared factor links
  two units for an ingredient when its ends agree with them.\<close>

definition units_agree :: "string \<Rightarrow> string \<Rightarrow> bool" where
  "units_agree f t \<longleftrightarrow> norm_unit f = norm_unit t \<or> (unit_dim f \<noteq> None \<and> unit_dim f = unit_dim t)"

definition factor_links :: "unit_converter \<Rightarrow> string \<Rightarrow> string \<Rightarrow> string \<Rightarrow> bool" where
  "factor_links c name f t = list_ex (\<lambda>((n, cf, ct), _). n = name \<and> units_agree f cf \<and> units_agree ct t) c"

lemma units_agree_norm [simp]:
  "units_agree (norm_unit f) t = units_agree f t" "units_agree f (norm_unit t) = units_agree f t"
  by (simp_all add: units_agree_def unit_dim_def to_base_def)

lemma units_agree_refl [simp]: "units_agree u u"
  by (simp add: units_agree_def)

lemma convert_standard_None_iff:
  "convert_standard q (norm_unit f) (norm_unit t) = None \<longleftrightarrow> \<not> units_agree f t"
  using mass_not_volume[of "norm_unit f"] mass_not_volume[of "norm_unit t"]
    mass_not_count[of "norm_unit f"] mass_not_count[of "norm_unit t"]
    volume_not_count[of "norm_unit f"] volume_not_count[of "norm_unit t"]
  unfolding convert_standard_def units_agree_def unit_dim_def to_base_def Let_def
  by (auto split: option.splits)

lemma convert_unnamed_isl: "isl (convert_unnamed q f t) \<longleftrightarrow> \<not> units_agree f t"
  using convert_standard_None_iff[of q f t] by (auto simp: convert_unnamed_def split: option.splits)

lemma bridge_loop_None_iff: "bridge_loop c q f t name = None \<longleftrightarrow> \<not> factor_links c name f t"
proof (induction c)
  case Nil
  then show ?case by (simp add: factor_links_def)
next
  case (Cons p c)
  obtain n cf ct x where p: "p = ((n, cf, ct), x)" by (metis prod.collapse)
  show ?case
  proof (cases "n = name \<and> units_agree f cf")
    case True
    then obtain y where y: "convert_unnamed q f cf = Inr y"
      using convert_unnamed_isl[of q f cf] by (cases "convert_unnamed q f cf") auto
    show ?thesis
      using True y Cons.IH convert_unnamed_isl[of "dmul y x" ct t]
      by (cases "convert_unnamed (dmul y x) ct t") (auto simp: p factor_links_def Let_def)
  next
    case False
    then have "n = name \<Longrightarrow> isl (convert_unnamed q f cf)" using convert_unnamed_isl[of q f cf] by auto
    with False Cons.IH show ?thesis
      by (auto simp: p factor_links_def split: sum.splits)
  qed
qed

lemma factor_links_direct: "map_of c (name, norm_unit f, norm_unit t) = Some x \<Longrightarrow> factor_links c name f t"
  using map_of_SomeD[of c "(name, norm_unit f, norm_unit t)" x]
  by (force simp: factor_links_def list_ex_iff)

text \<open>No silent approximation. A conversion fails exactly when the units are neither equal
  nor of one dimension (mass, volume, count) and no factor declared for that very ingredient
  links them; the outcome does not depend on the quantity, so \<open>can_convert\<close> predicts it for
  every quantity.\<close>

theorem convert_defined_iff:
  "isl (convert c q f t n) =
     (\<not> units_agree f t \<and> (case n of None \<Rightarrow> True | Some name \<Rightarrow> \<not> factor_links c name f t)) \<and>
   can_convert c f t n = (\<not> isl (convert c q f t n))"
proof
  have bl: "bridge_loop c q (norm_unit f) (norm_unit t) name = None \<longleftrightarrow> \<not> factor_links c name f t" for name
    unfolding bridge_loop_None_iff by (simp add: factor_links_def)
  show "isl (convert c q f t n) =
     (\<not> units_agree f t \<and> (case n of None \<Rightarrow> True | Some name \<Rightarrow> \<not> factor_links c name f t))"
  proof (cases "units_agree f t")
    case True
    then obtain r where "convert_standard q (norm_unit f) (norm_unit t) = Some r"
      using convert_standard_None_iff[of q f t] by auto
    with True show ?thesis by (simp add: convert_def)
  next
    case False
    then have none: "convert_standard q (norm_unit f) (norm_unit t) = None"
      using convert_standard_None_iff[of q f t] by auto
    show ?thesis
    proof (cases n)
      case None
      with none False show ?thesis by (simp add: convert_def)
    next
      case (Some name)
      with none False bl[of name] factor_links_direct[of c name f t] show ?thesis
        by (auto simp: convert_def bridge_def Let_def split: option.splits)
    qed
  qed
  show "can_convert c f t n = (\<not> isl (convert c q f t n))" by (rule can_convert_iff)
qed

text \<open>What a unit weighs in grams or holds in millilitres.\<close>

definition unit_sizes :: "(string \<times> dimension \<times> rat) list" where
  "unit_sizes =
     [(''g'', Mass, 1), (''kg'', Mass, 1000), (''mg'', Mass, 1 / 1000), (''pizca'', Mass, 1 / 2),
      (''ml'', Volume, 1), (''l'', Volume, 1000), (''cl'', Volume, 10), (''cucharada'', Volume, 15),
      (''cucharadita'', Volume, 5), (''vaso'', Volume, 200), (''taza'', Volume, 240)] @
     map (\<lambda>u. (u, Count, 1)) [''unit'', ''unidad'', ''unidades'', ''ud'', ''uds'', ''u'', ''piece'', ''pcs'']"

lemma mass_size: "map_of mass_to_g u = Some a \<Longrightarrow> map_of unit_sizes u = Some (Mass, a)"
  by (auto simp: mass_to_g_def unit_sizes_def split: if_splits)

lemma volume_size: "map_of volume_to_ml u = Some a \<Longrightarrow> map_of unit_sizes u = Some (Volume, a)"
  by (auto simp: volume_to_ml_def unit_sizes_def split: if_splits)

lemma count_size: "u \<in> set count_units \<Longrightarrow> map_of unit_sizes u = Some (Count, 1)"
  by (auto simp: count_units_def unit_sizes_def)

text \<open>
  Units that can be compared: one unit, or units of one dimension. A quantity in one unit measures a
  quantity in another when they are the same in one unit, and up to one part in \<open>10 ^ 26\<close> by the sizes.
\<close>

definition comparable :: "string \<Rightarrow> string \<Rightarrow> bool" where
  "comparable f t \<longleftrightarrow> norm_unit f = norm_unit t \<or>
     (case (map_of unit_sizes (norm_unit f), map_of unit_sizes (norm_unit t)) of
        (Some (d, _), Some (d', _)) \<Rightarrow> d = d'
      | _ \<Rightarrow> False)"

definition same_amount :: "dec \<Rightarrow> string \<Rightarrow> dec \<Rightarrow> string \<Rightarrow> bool" where
  "same_amount q f r t \<longleftrightarrow>
     (if norm_unit f = norm_unit t then r = q
      else case (map_of unit_sizes (norm_unit f), map_of unit_sizes (norm_unit t)) of
        (Some (d, a), Some (d', b)) \<Rightarrow> d = d' \<and> \<bar>r * b - q * a\<bar> \<le> \<bar>q * a\<bar> / 10 ^ 26
      | _ \<Rightarrow> False)"

lemma same_amount_norm [simp]:
  "same_amount q (norm_unit f) r t = same_amount q f r t" "same_amount q f r (norm_unit t) = same_amount q f r t"
  by (simp_all add: same_amount_def)

lemma unit_dim_sizes: "unit_dim u = map_option fst (map_of unit_sizes (norm_unit u))"
proof -
  have none: "map_of unit_sizes v = None"
    if "map_of mass_to_g v = None" "map_of volume_to_ml v = None" "v \<notin> set count_units" for v
    using that by (simp add: unit_sizes_def mass_to_g_def volume_to_ml_def count_units_def split: if_splits)
  show ?thesis
    using none[of "norm_unit u"] mass_size[of "norm_unit u"] volume_size[of "norm_unit u"] count_size[of "norm_unit u"]
    by (auto simp: unit_dim_def to_base_def Let_def split: option.split)
qed

lemma comparable_agree: "comparable f t \<longleftrightarrow> units_agree f t"
  by (auto simp: comparable_def units_agree_def unit_dim_sizes split: option.splits)

lemma scaled_close:
  fixes q a b :: rat
  assumes "0 < a" "0 < b"
  shows "\<bar>ddiv (dmul q a) b * b - q * a\<bar> \<le> \<bar>q * a\<bar> / 10 ^ 26"
proof -
  define e :: rat where "e = 1 / (2 * 10 ^ 27)"
  let ?x = "q * a" and ?y = "dmul q a"
  have y: "\<bar>?y - ?x\<bar> \<le> \<bar>?x\<bar> * e" using dround_err[of ?x] by (simp add: dmul_def e_def)
  have "\<bar>ddiv ?y b - ?y / b\<bar> \<le> \<bar>?y / b\<bar> * e" using dround_err[of "?y / b"] by (simp add: ddiv_def e_def)
  then have "\<bar>ddiv ?y b - ?y / b\<bar> * b \<le> \<bar>?y / b\<bar> * e * b" using assms(2) by (intro mult_right_mono) simp_all
  moreover have "\<bar>ddiv ?y b - ?y / b\<bar> * b = \<bar>ddiv ?y b * b - ?y\<bar>"
    using assms(2) abs_mult[of "ddiv ?y b - ?y / b" b] by (simp add: left_diff_distrib)
  moreover have "\<bar>?y / b\<bar> * e * b = \<bar>?y\<bar> * e" using assms(2) by (simp add: abs_divide)
  ultimately have z: "\<bar>ddiv ?y b * b - ?y\<bar> \<le> \<bar>?y\<bar> * e" by simp
  have "\<bar>?y\<bar> \<le> \<bar>?x\<bar> + \<bar>?x\<bar> * e" using y by linarith
  also have "\<dots> \<le> \<bar>?x\<bar> * 2" by (simp add: e_def)
  finally have "\<bar>?y\<bar> * e \<le> \<bar>?x\<bar> * 2 * e" by (rule mult_right_mono) (simp add: e_def)
  with y z have "\<bar>ddiv ?y b * b - ?x\<bar> \<le> \<bar>?x\<bar> * (3 * e)" by linarith
  also have "\<dots> \<le> \<bar>?x\<bar> * (1 / 10 ^ 26)" by (intro mult_left_mono) (simp_all add: e_def)
  finally show ?thesis by simp
qed

lemma convert_standard_amount:
  assumes "convert_standard q (norm_unit f) (norm_unit t) = Some r" shows "same_amount q f r t"
proof (cases "norm_unit f = norm_unit t")
  case True
  with assms show ?thesis by (simp add: same_amount_def)
next
  case False
  with assms consider
      (mass) a b where "map_of mass_to_g (norm_unit f) = Some a" "map_of mass_to_g (norm_unit t) = Some b" "r = ddiv (dmul q a) b"
    | (vol) a b where "map_of volume_to_ml (norm_unit f) = Some a" "map_of volume_to_ml (norm_unit t) = Some b" "r = ddiv (dmul q a) b"
    | (count) "norm_unit f \<in> set count_units" "norm_unit t \<in> set count_units" "r = q"
    by (auto simp: convert_standard_def split: option.splits if_splits)
  then show ?thesis
  proof cases
    case mass
    with False scaled_close[of a b q] show ?thesis by (simp add: same_amount_def mass_size factor_pos)
  next
    case vol
    with False scaled_close[of a b q] show ?thesis by (simp add: same_amount_def volume_size factor_pos)
  next
    case count
    with False show ?thesis by (simp add: same_amount_def count_size)
  qed
qed

lemma convert_unnamed_amount: "convert_unnamed q f t = Inr r \<Longrightarrow> same_amount q f r t"
  by (rule convert_standard_amount) (auto simp: convert_unnamed_def split: option.splits)

lemma bridge_loop_amount:
  assumes "bridge_loop c q f t name = Some r"
  shows "list_ex (\<lambda>((m, cf, ct), x). m = name \<and> (\<exists>s. same_amount q f s cf \<and> same_amount (dmul s x) ct r t)) c"
  using assms
proof (induction c)
  case (Cons p c)
  obtain m cf ct x where p: "p = ((m, cf, ct), x)" by (metis prod.collapse)
  show ?case
  proof (cases "bridge_loop c q f t name = Some r")
    case True
    with Cons.IH show ?thesis by simp
  next
    case False
    with Cons.prems obtain s where "m = name" "convert_unnamed q f cf = Inr s" "convert_unnamed (dmul s x) ct t = Inr r"
      by (auto simp: p Let_def split: sum.splits if_splits)
    then show ?thesis using convert_unnamed_amount[of q f cf s] convert_unnamed_amount[of "dmul s x" ct t r] by (auto simp: p)
  qed
qed simp

text \<open>C35 No silent approximation. A conversion fails exactly when the units are neither the same nor
  of one dimension and no factor declared for that very ingredient links them, whatever the quantity,
  so that \<open>can_convert\<close> predicts it. When it succeeds, the quantity is the same amount: as it
  was in the same unit, up to one part in \<open>10 ^ 26\<close> by the sizes of two units of one dimension, and
  otherwise through a factor declared for the ingredient, from the one unit to the start of the
  factor and from its end to the other unit.\<close>

theorem convert_honest:
  "(case convert c q f t n of
      Inl _ \<Rightarrow> \<not> comparable f t \<and>
        (case n of None \<Rightarrow> True
         | Some name \<Rightarrow> \<not> list_ex (\<lambda>((m, cf, ct), x). m = name \<and> comparable f cf \<and> comparable ct t) c)
    | Inr r \<Rightarrow>
        if comparable f t then same_amount q f r t
        else (case n of None \<Rightarrow> False
              | Some name \<Rightarrow> list_ex (\<lambda>((m, cf, ct), x). m = name \<and>
                  (\<exists>s. same_amount q f s cf \<and> same_amount (dmul s x) ct r t)) c)) \<and>
   (can_convert c f t n \<longleftrightarrow> \<not> isl (convert c q f t n))"
proof -
  have links: "factor_links c name f t \<longleftrightarrow>
      list_ex (\<lambda>((m, cf, ct), x). m = name \<and> comparable f cf \<and> comparable ct t) c" for name
    by (simp add: factor_links_def comparable_agree)
  note fails = convert_defined_iff[of c q f t n, THEN conjunct1, unfolded comparable_agree[symmetric] links]
  have can: "can_convert c f t n \<longleftrightarrow> \<not> isl (convert c q f t n)" by (rule can_convert_iff)
  show ?thesis
  proof (cases "convert c q f t n")
    case (Inl e)
    with fails can show ?thesis by simp
  next
    case (Inr r)
    show ?thesis
    proof (cases "convert_standard q (norm_unit f) (norm_unit t)")
      case (Some s)
      with Inr have "r = s" by (simp add: convert_def)
      moreover have "comparable f t" using Some convert_standard_None_iff[of q f t] by (simp add: comparable_agree)
      ultimately show ?thesis using Inr can convert_standard_amount[OF Some] by simp
    next
      case None
      then have far: "\<not> comparable f t" using convert_standard_None_iff[of q f t] by (simp add: comparable_agree)
      from None Inr obtain name where n: "n = Some name" by (cases n) (simp_all add: convert_def)
      have "list_ex (\<lambda>((m, cf, ct), x). m = name \<and> (\<exists>s. same_amount q f s cf \<and> same_amount (dmul s x) ct r t)) c"
      proof (cases "map_of c (name, norm_unit f, norm_unit t)")
        case (Some x)
        with Inr None n have "r = dmul q x" by (simp add: convert_def Let_def)
        then have "\<exists>s. same_amount q f s f \<and> same_amount (dmul s x) t r t"
          by (intro exI[of _ q]) (simp add: same_amount_def)
        then show ?thesis unfolding list_ex_iff by (intro bexI[OF _ map_of_SomeD[OF Some]]) simp
      next
        case none: None
        with Inr None n have "bridge_loop c q (norm_unit f) (norm_unit t) name = Some r"
          by (simp add: convert_def bridge_def Let_def split: option.splits)
        from bridge_loop_amount[OF this] show ?thesis by simp
      qed
      with Inr far n can show ?thesis by simp
    qed
  qed
qed

definition metric_exp :: "(string, int) dict" where
  "metric_exp = [(''g'', 0), (''kg'', 3), (''mg'', -3), (''ml'', 0), (''l'', 3), (''cl'', 1)]"

lemma dec28_shift: "dec28 x \<Longrightarrow> dec28 (x * 10 powi k)"
proof -
  assume "dec28 x"
  then obtain m e where x: "x = of_int m * 10 powi e" and m: "\<bar>m\<bar> \<le> 10 ^ 28"
    by (auto simp: dec28_def)
  have "x * 10 powi k = of_int m * 10 powi (e + k)" by (simp add: x power_int_add)
  with m show ?thesis unfolding dec28_def by blast
qed

lemma metric_factor:
  assumes "map_of metric_exp u = Some i" and "d = mass_to_g \<or> d = volume_to_ml" and "map_of d u = Some a"
  shows "a = 10 powi i"
  using assms by (auto simp: metric_exp_def mass_to_g_def volume_to_ml_def power_int_def field_simps power3_eq_cube
      split: if_splits)

lemma ddiv_dmul_metric:
  assumes "dec28 q" shows "ddiv (dmul q (10 powi i)) (10 powi j) = q * 10 powi (i - j)"
proof -
  have "dmul q (10 powi i) = q * 10 powi i"
    unfolding dmul_def by (rule dround_dec28) (rule dec28_shift[OF assms])
  moreover have "q * 10 powi i / 10 powi j = q * 10 powi (i - j)" by (simp add: power_int_diff)
  moreover have "dround (q * 10 powi (i - j)) = q * 10 powi (i - j)"
    by (rule dround_dec28) (rule dec28_shift[OF assms])
  ultimately show ?thesis by (simp add: ddiv_def)
qed

lemma convert_metric:
  assumes "dec28 q" "units_agree f t"
    "map_of metric_exp (norm_unit f) = Some i" "map_of metric_exp (norm_unit t) = Some j"
  shows "convert c q f t n = Inr (q * 10 powi (i - j))"
proof -
  have nc: "norm_unit f \<notin> set count_units" using assms(3)
    by (auto simp: metric_exp_def count_units_def split: if_splits)
  have "convert_standard q (norm_unit f) (norm_unit t) = Some (q * 10 powi (i - j))"
  proof (cases "norm_unit f = norm_unit t")
    case True
    then show ?thesis using assms(3,4) by simp
  next
    case False
    then have "unit_dim f \<noteq> None" "unit_dim f = unit_dim t"
      using assms(2) unfolding units_agree_def by blast+
    then have "(\<exists>a b. map_of mass_to_g (norm_unit f) = Some a \<and> map_of mass_to_g (norm_unit t) = Some b) \<or>
       map_of mass_to_g (norm_unit f) = None \<and>
       (\<exists>a b. map_of volume_to_ml (norm_unit f) = Some a \<and> map_of volume_to_ml (norm_unit t) = Some b)"
      using nc by (auto simp: unit_dim_def to_base_def Let_def split: option.splits if_splits)
    then show ?thesis
    proof (elim disjE conjE exE)
      fix a b assume ab: "map_of mass_to_g (norm_unit f) = Some a" "map_of mass_to_g (norm_unit t) = Some b"
      then have "a = 10 powi i" "b = 10 powi j"
        using metric_factor[OF assms(3)] metric_factor[OF assms(4)] by blast+
      with False ab show ?thesis by (simp add: convert_standard_def ddiv_dmul_metric[OF assms(1)])
    next
      fix a b assume ab: "map_of mass_to_g (norm_unit f) = None"
        "map_of volume_to_ml (norm_unit f) = Some a" "map_of volume_to_ml (norm_unit t) = Some b"
      then have "a = 10 powi i" "b = 10 powi j"
        using metric_factor[OF assms(3)] metric_factor[OF assms(4)] by blast+
      with False ab show ?thesis by (simp add: convert_standard_def ddiv_dmul_metric[OF assms(1)])
    qed
  qed
  then show ?thesis by (simp add: convert_def)
qed

text \<open>Metric conversions are exact. Between g, kg and mg, or between ml, cl and l, a
  quantity of at most 28 digits is converted without any rounding, and converting back gives
  the quantity one started from.\<close>

theorem metric_round_trip:
  assumes "dec28 q" "units_agree f t"
    and "map_of metric_exp (norm_unit f) = Some i" "map_of metric_exp (norm_unit t) = Some j"
  shows "\<exists>r. convert c q f t n = Inr r \<and> r * 10 powi j = q * 10 powi i \<and> convert c r t f n = Inr q"
proof -
  let ?r = "q * 10 powi (i - j)"
  have "units_agree t f" using assms(2) unfolding units_agree_def by metis
  then have "convert c ?r t f n = Inr (?r * 10 powi (j - i))"
    by (rule convert_metric[OF dec28_shift[OF assms(1)] _ assms(4,3)])
  moreover have "?r * 10 powi j = q * 10 powi i" "?r * 10 powi (j - i) = q"
    by (simp_all add: mult.assoc flip: power_int_add)
  ultimately show ?thesis using convert_metric[OF assms] by metis
qed

theorem metric_round_trip_witness:
  "\<exists>r. convert [] (1234 / 10 ^ 2) ''kg'' '' MG '' None = Inr r \<and> convert [] r '' MG '' ''kg'' None = Inr (1234 / 10 ^ 2)"
proof -
  have "dec28 (of_int 1234 / 10 ^ 2)" by (rule dec28_scaled) simp
  moreover have "units_agree ''kg'' '' MG ''" by code_simp
  moreover have "map_of metric_exp (norm_unit ''kg'') = Some 3" "map_of metric_exp (norm_unit '' MG '') = Some (-3)"
    by code_simp+
  ultimately show ?thesis using metric_round_trip[of "of_int 1234 / 10 ^ 2" "''kg''" "'' MG ''" 3 "-3" "[]" None] by auto
qed

text \<open>The kitchen measures are not exact. Half a litre read as cups and back is not half a
  litre: the division by 240 is rounded to 28 digits, so the module's promise of exact
  conversions holds for the metric units only.\<close>

theorem cup_round_trip_inexact:
  "case convert [] 500 ''ml'' ''taza'' None of Inl e \<Rightarrow> False
   | Inr r \<Rightarrow> (case convert [] r ''taza'' ''ml'' None of Inl e \<Rightarrow> False | Inr b \<Rightarrow> b < 500)"
  by code_simp
end
