(* ===== verification/Packaging.thy ===== *)
theory Packaging
  imports Contracts
begin

text \<open>
  \<open>cestaplan_engine/packaging.py\<close>: whole-package selection. \<open>decimal_ceil_div\<close> and
  \<open>compute_packages\<close> return \<open>Inl ValueError\<close> where the source raises; \<open>choose_package\<close> is \<open>PackageOptimizer.choose\<close>, the loop
  over the package formats with its lexicographic key.
\<close>

definition decimal_ceil_div :: "dec \<Rightarrow> dec \<Rightarrow> py_exn + int" where
  "decimal_ceil_div pending package_quantity =
     (if package_quantity \<le> 0 then Inl ValueError
      else if pending \<le> 0 then Inr 0
      else Inr \<lceil>ddiv pending package_quantity\<rceil>)"

record package_result =
  pk_needed :: dec
  pk_pantry :: dec
  pk_pending :: dec
  pk_package_quantity :: dec
  pk_package_price :: dec
  pk_packages :: int
  pk_purchased :: dec
  pk_used :: dec
  pk_leftover :: dec
  pk_total_cost :: dec

definition compute_packages :: "dec \<Rightarrow> dec \<Rightarrow> dec \<Rightarrow> dec \<Rightarrow> py_exn + package_result" where
  "compute_packages needed pantry_available package_quantity package_price =
     (let pending0 = dsub needed pantry_available;
          pending = (if pending0 < 0 then 0 else pending0)
      in case decimal_ceil_div pending package_quantity of
        Inl e \<Rightarrow> Inl e
      | Inr packages \<Rightarrow>
          (let purchased = dmul (of_int packages) package_quantity;
               pantry_used = dsub needed pending;
               used = pending;
               leftover = dsub purchased used;
               total_cost = dmul (of_int packages) package_price
           in Inr \<lparr>pk_needed = needed, pk_pantry = pantry_used, pk_pending = pending,
                   pk_package_quantity = package_quantity, pk_package_price = package_price,
                   pk_packages = packages, pk_purchased = purchased, pk_used = used,
                   pk_leftover = leftover, pk_total_cost = total_cost\<rparr>))"

record package_choice =
  ch_option :: package_option_dto
  ch_result :: package_result
  ch_price_known :: bool
  ch_expired :: bool

definition is_expired :: "package_option_dto \<Rightarrow> date option \<Rightarrow> bool" where
  "is_expired opt as_of =
     (case (po_expires_at opt, as_of) of (Some e, Some d) \<Rightarrow> e < d | _ \<Rightarrow> False)"

type_synonym choice_key = "int \<times> int \<times> dec \<times> string \<times> dec"

text \<open>
  The body of the loop for one format: its key and the \<open>PackageChoice\<close> it would give. A format
  with a non-positive quantity is skipped (\<open>continue\<close>), so the \<open>ValueError\<close> of
  \<open>decimal_ceil_div\<close> never escapes.
\<close>

definition evaluate_option ::
  "dec \<Rightarrow> date option \<Rightarrow> dec \<Rightarrow> dec \<Rightarrow> package_option_dto \<Rightarrow> (choice_key \<times> package_choice) option" where
  "evaluate_option pending as_of w_waste w_cost opt =
     (if po_package_quantity opt \<le> 0 then None
      else
        (let expired = is_expired opt as_of;
             price_known = (po_has_price opt \<and> \<not> expired)
         in case compute_packages pending 0 (po_package_quantity opt) (po_amount opt) of
           Inl _ \<Rightarrow> None
         | Inr result \<Rightarrow>
             (let score = dadd (dmul w_waste (pk_leftover result))
                               (dmul w_cost (pk_total_cost result));
                  out_of_stock = (po_availability opt = OutOfStock);
                  key = (if out_of_stock then 1 else 0, if price_known then 0 else 1, score,
                         po_product_id opt, po_package_quantity opt)
              in Some (key, \<lparr>ch_option = opt, ch_result = result,
                             ch_price_known = price_known, ch_expired = expired\<rparr>))))"

definition choose_package ::
  "dec \<Rightarrow> package_option_dto list \<Rightarrow> date option \<Rightarrow> dec \<Rightarrow> dec \<Rightarrow> package_choice option" where
  "choose_package pending options as_of w_waste w_cost =
     map_option snd (argmin fst (List.map_filter (evaluate_option pending as_of w_waste w_cost) options))"


section \<open>Ceiling division and the accounting of one purchase\<close>

lemma decimal_ceil_div_Inl_iff: "isl (decimal_ceil_div p q) \<longleftrightarrow> q \<le> 0"
  by (simp add: decimal_ceil_div_def)

lemma decimal_ceil_div_nonneg: "decimal_ceil_div p q = Inr n \<Longrightarrow> 0 \<le> n"
proof -
  assume a: "decimal_ceil_div p q = Inr n"
  have "0 \<le> \<lceil>ddiv p q\<rceil>" if "0 < p" "0 < q"
    using ddiv_pos[OF that] by linarith
  with a show "0 \<le> n" by (auto simp: decimal_ceil_div_def split: if_splits)
qed

text \<open>
  On quantities with \<open>s\<close> decimals whose quotient stays below \<open>10 ^ 27\<close> in the sense of the
  hypothesis, the rounding of the quotient never crosses an integer: the count is the exact
  ceiling.
\<close>

lemma ceil_ddiv_exact:
  assumes p: "0 < p" and q: "0 < q" and pq: "p * q \<le> 10 ^ 27"
  shows "\<lceil>ddiv (of_int p / 10 ^ s) (of_int q / 10 ^ s)\<rceil> = \<lceil>(of_int p / of_int q :: rat)\<rceil>"
proof -
  define x where "x = (of_int p / of_int q :: rat)"
  have eq: "ddiv (of_int p / 10 ^ s) (of_int q / 10 ^ s) = dround x"
    by (simp add: ddiv_def x_def)
  define n where "n = \<lceil>x\<rceil>"
  have x0: "0 < x" using p q by (simp add: x_def)
  have nx: "x \<le> of_int n" "of_int n - 1 < x" unfolding n_def using ceiling_correct[of x] by auto
  have n0: "0 < n" using x0 nx by linarith
  have "of_int p * 1 \<le> of_int p * (of_int q :: rat)" using p q by (intro mult_left_mono) auto
  then have "x \<le> of_int p" using q by (simp add: x_def field_simps)
  then have np: "n \<le> p" by (simp add: n_def ceiling_le_iff)
  have "p \<le> p * q" using p q by simp
  then have p27: "p \<le> 10 ^ 27" using pq by linarith
  then have n28: "\<bar>n\<bar> \<le> 10 ^ 28" using np n0 by simp
  have le: "dround x \<le> of_int n"
    using ctx.rnd_le_rep[OF dec28_int[OF n28] nx(1)] .
  have gap: "of_int n - 1 + 1 / of_int q \<le> x"
  proof -
    have "of_int (n - 1) * of_int q < (of_int p :: rat)"
      using nx(2) q by (simp add: x_def field_simps)
    then have "(n - 1) * q < p" by (metis of_int_less_iff of_int_mult)
    then have "(n - 1) * q + 1 \<le> p" by linarith
    then have "of_int ((n - 1) * q + 1) \<le> (of_int p :: rat)" unfolding of_int_le_iff .
    then have "of_int ((n - 1) * q + 1) / of_int q \<le> x"
      unfolding x_def using q by (intro divide_right_mono) auto
    moreover have "of_int ((n - 1) * q + 1) / of_int q = of_int n - 1 + 1 / (of_int q :: rat)"
      using q by (simp add: add_divide_distrib)
    ultimately show ?thesis by simp
  qed
  have "\<bar>dround x - x\<bar> \<le> x / (2 * 10 ^ 27)" using dround_err[of x] x0 by simp
  moreover have "x / (2 * 10 ^ 27) < 1 / of_int q"
  proof -
    have "(of_int p :: rat) \<le> of_int (10 ^ 27)" using p27 unfolding of_int_le_iff .
    then show ?thesis using q p by (simp add: x_def field_simps)
  qed
  ultimately have "of_int n - 1 < dround x" using gap by linarith
  with le have "\<lceil>dround x\<rceil> = n" by (simp add: ceiling_eq_iff)
  with eq show ?thesis by (simp add: n_def x_def)
qed


text \<open>Exact fixed-point arithmetic: no rounding while the scaled integers have 28 digits.\<close>

lemma dsub_scaled: "\<bar>a - b\<bar> \<le> 10 ^ 28 \<Longrightarrow> dsub (of_int a / 10 ^ s) (of_int b / 10 ^ s) = of_int (a - b) / 10 ^ s"
  by (simp only: dsub_def diff_divide_distrib[symmetric] of_int_diff[symmetric] dround_dec28 dec28_scaled)

lemma dmul_int_scaled: "\<bar>n * a\<bar> \<le> 10 ^ 28 \<Longrightarrow> dmul (of_int n) (of_int a / 10 ^ s) = of_int (n * a) / 10 ^ s"
  by (simp only: dmul_def times_divide_eq_right of_int_mult[symmetric] dround_dec28 dec28_scaled)

lemma ceiling_div_int_bounds:
  assumes "0 < q"
  shows "p \<le> \<lceil>(of_int p / of_int q :: rat)\<rceil> * q" and "(\<lceil>(of_int p / of_int q :: rat)\<rceil> - 1) * q < p"
proof -
  define n where "n = \<lceil>(of_int p / of_int q :: rat)\<rceil>"
  have "of_int p / of_int q \<le> (of_int n :: rat)" "of_int n - 1 < (of_int p / of_int q :: rat)"
    unfolding n_def using ceiling_correct[of "of_int p / of_int q :: rat"] by auto
  then have "of_int p \<le> (of_int (n * q) :: rat)" "of_int ((n - 1) * q) < (of_int p :: rat)"
    using assms by (simp_all add: field_simps)
  then show "p \<le> \<lceil>(of_int p / of_int q :: rat)\<rceil> * q"
    and "(\<lceil>(of_int p / of_int q :: rat)\<rceil> - 1) * q < p"
    unfolding of_int_le_iff of_int_less_iff n_def .
qed

text \<open>
  What buying whole packages promises, on integers counting the smallest unit: the number of
  packages is the least one that covers what the pantry leaves open.
\<close>

definition whole_packages :: "int \<Rightarrow> int \<Rightarrow> int \<Rightarrow> int \<Rightarrow> bool" where
  "whole_packages need stock pack n \<longleftrightarrow>
     0 \<le> n \<and> max 0 (need - stock) \<le> n * pack \<and> (0 < n \<longrightarrow> (n - 1) * pack < max 0 (need - stock))"

lemma decimal_ceil_div_scaled:
  assumes "0 \<le> p" "0 < q" "p * q \<le> 10 ^ 27"
  shows "\<exists>n. decimal_ceil_div (of_int p / 10 ^ s) (of_int q / 10 ^ s) = Inr n \<and>
    0 \<le> n \<and> p \<le> n * q \<and> (0 < n \<longrightarrow> (n - 1) * q < p)"
proof (cases "p = 0")
  case True
  with assms show ?thesis by (simp add: decimal_ceil_div_def not_le divide_pos_pos)
next
  case False
  then have p: "0 < p" using assms by simp
  define n where "n = \<lceil>(of_int p / of_int q :: rat)\<rceil>"
  have "\<not> of_int p / 10 ^ s \<le> (0::rat)" "\<not> of_int q / 10 ^ s \<le> (0::rat)"
    using p assms(2) by (simp_all add: not_le divide_pos_pos)
  then have "decimal_ceil_div (of_int p / 10 ^ s) (of_int q / 10 ^ s) = Inr n"
    using ceil_ddiv_exact[OF p assms(2,3), of s] by (simp only: decimal_ceil_div_def n_def if_False)
  with ceiling_div_int_bounds[OF assms(2), of p] decimal_ceil_div_nonneg show ?thesis
    unfolding n_def by blast
qed

lemma whole_packages_bound:
  fixes n p q :: int
  assumes "0 \<le> p" "0 < q" "0 < n \<longrightarrow> (n - 1) * q < p"
  shows "n * q \<le> p + q"
proof (cases "0 < n")
  case True
  with assms(3) have "n * q - q < p" by (simp add: left_diff_distrib)
  then show ?thesis by linarith
next
  case False
  then have "n * q \<le> 0" using assms(2) by (intro mult_nonpos_nonneg) auto
  with assms show ?thesis by linarith
qed

text \<open>C37 Whole-package purchase is exact and minimal. With the needed quantity, the pantry
  stock and the package size given in units of \<open>10 ^ -s\<close> (grams with \<open>s\<close> decimals) and of
  realistic size, \<open>compute_packages\<close> does not raise, the package count is the least whole
  number of packages that covers what the pantry leaves open, purchased quantity and leftover
  are exact, the leftover is less than one package, and the pantry part, the pending part and
  the used part add up to the need.\<close>

theorem compute_packages_exact:
  assumes "0 \<le> a" "0 \<le> b" "0 < q"
    and "(a + q) * q \<le> 10 ^ 27" "b \<le> 10 ^ 27"
  shows "\<exists>r. compute_packages (of_int a / 10 ^ s) (of_int b / 10 ^ s) (of_int q / 10 ^ s) price = Inr r \<and>
    whole_packages a b q (pk_packages r) \<and>
    pk_purchased r = of_int (pk_packages r * q) / 10 ^ s \<and>
    pk_purchased r = pk_used r + pk_leftover r \<and>
    0 \<le> pk_leftover r \<and> pk_leftover r < of_int q / 10 ^ s \<and>
    pk_pantry r + pk_pending r = of_int a / 10 ^ s \<and>
    pk_total_cost r = dmul (of_int (pk_packages r)) price"
proof -
  define p where "p = max 0 (a - b)"
  have p0: "0 \<le> p" "p \<le> a" using assms(1,2) by (auto simp: p_def)
  have "a * 1 \<le> a * q" "q * 1 \<le> q * q" using assms by (intro mult_left_mono; simp)+
  then have aq: "a + q \<le> 10 ^ 27" using assms(4) by (simp add: distrib_right)
  have "p * q \<le> (a + q) * q" using p0 assms by (intro mult_right_mono) auto
  then have pq: "p * q \<le> 10 ^ 27" using assms(4) by linarith
  obtain n where n: "decimal_ceil_div (of_int p / 10 ^ s) (of_int q / 10 ^ s) = Inr n"
    and n0: "0 \<le> n" and cov: "p \<le> n * q" and least: "0 < n \<longrightarrow> (n - 1) * q < p"
    using decimal_ceil_div_scaled[OF p0(1) assms(3) pq] by blast
  have nq: "n * q \<le> p + q" by (rule whole_packages_bound[OF p0(1) assms(3) least])
  have pend0: "dsub (of_int a / 10 ^ s) (of_int b / 10 ^ s) = of_int (a - b) / 10 ^ s"
    by (rule dsub_scaled) (use aq assms in simp)
  have pend: "(if of_int (a - b) / 10 ^ s < (0::rat) then 0 else of_int (a - b) / 10 ^ s) = (of_int p / 10 ^ s :: rat)"
    by (auto simp: p_def divide_less_0_iff max_def simp flip: of_int_diff)
  have purch: "dmul (of_int n) (of_int q / 10 ^ s) = of_int (n * q) / 10 ^ s"
    by (rule dmul_int_scaled) (use n0 assms(3) nq p0 aq in simp)
  have left: "dsub (of_int (n * q) / 10 ^ s) (of_int p / 10 ^ s) = of_int (n * q - p) / 10 ^ s"
    by (rule dsub_scaled) (use cov nq aq p0 assms in simp)
  have pan: "dsub (of_int a / 10 ^ s) (of_int p / 10 ^ s) = of_int (a - p) / 10 ^ s"
    by (rule dsub_scaled) (use aq p0 assms in simp)
  have ltq: "n * q - p < q"
    using least assms(3) n0 p0 by (cases "0 < n") (auto simp: algebra_simps)
  have lt: "of_int (n * q - p) / 10 ^ s < (of_int q / 10 ^ s :: rat)"
    using ltq by (intro divide_strict_right_mono) (simp_all only: of_int_less_iff, simp)
  define r where "r = \<lparr>pk_needed = of_int a / 10 ^ s, pk_pantry = of_int (a - p) / 10 ^ s,
    pk_pending = of_int p / 10 ^ s, pk_package_quantity = of_int q / 10 ^ s,
    pk_package_price = price, pk_packages = n, pk_purchased = of_int (n * q) / 10 ^ s,
    pk_used = of_int p / 10 ^ s, pk_leftover = of_int (n * q - p) / 10 ^ s,
    pk_total_cost = dmul (of_int n) price\<rparr>"
  have "compute_packages (of_int a / 10 ^ s) (of_int b / 10 ^ s) (of_int q / 10 ^ s) price = Inr r"
    by (simp only: compute_packages_def Let_def pend0 pend n sum.case purch left pan r_def)
  moreover have "whole_packages a b q (pk_packages r)"
    using cov least n0 by (simp add: r_def whole_packages_def p_def)
  moreover have "0 \<le> pk_leftover r" using cov by (simp add: r_def del: of_int_diff of_int_mult)
  moreover have "pk_leftover r < of_int q / 10 ^ s" using lt by (simp add: r_def)
  moreover have "pk_purchased r = pk_used r + pk_leftover r"
    "pk_pantry r + pk_pending r = of_int a / 10 ^ s"
    by (simp_all add: r_def diff_divide_distrib)
  moreover have "pk_purchased r = of_int (pk_packages r * q) / 10 ^ s"
    "pk_total_cost r = dmul (of_int (pk_packages r)) price"
    by (simp_all add: r_def)
  ultimately show ?thesis by blast
qed

theorem compute_packages_exact_witness:
  "\<exists>r. compute_packages (of_int 600 / 10 ^ 0) (of_int 0 / 10 ^ 0) (of_int 500 / 10 ^ 0) 3 = Inr r \<and>
    whole_packages 600 0 500 (pk_packages r) \<and>
    pk_purchased r = of_int (pk_packages r * 500) / 10 ^ 0 \<and>
    pk_purchased r = pk_used r + pk_leftover r \<and>
    0 \<le> pk_leftover r \<and> pk_leftover r < of_int 500 / 10 ^ 0 \<and>
    pk_pantry r + pk_pending r = of_int 600 / 10 ^ 0 \<and>
    pk_total_cost r = dmul (of_int (pk_packages r)) 3"
  by (rule compute_packages_exact) simp_all



section \<open>The choice of a format\<close>

lemma evaluate_option_None_iff [simp]:
  "evaluate_option pending as_of ww wc opt = None \<longleftrightarrow> po_package_quantity opt \<le> 0"
  by (auto simp: evaluate_option_def compute_packages_def decimal_ceil_div_def Let_def
      split: sum.splits if_splits)

definition option_key :: "package_choice \<Rightarrow> dec \<Rightarrow> dec \<Rightarrow> choice_key" where
  "option_key c ww wc =
     (if po_availability (ch_option c) = OutOfStock then 1 else 0,
      if ch_price_known c then 0 else 1,
      dadd (dmul ww (pk_leftover (ch_result c))) (dmul wc (pk_total_cost (ch_result c))),
      po_product_id (ch_option c), po_package_quantity (ch_option c))"

lemma evaluate_option_Some:
  assumes "evaluate_option pending as_of ww wc opt = Some (k, c)"
  shows "ch_option c = opt" and "k = option_key c ww wc"
    and "ch_price_known c \<longleftrightarrow> po_has_price opt \<and> \<not> is_expired opt as_of"
    and "ch_expired c = is_expired opt as_of"
    and "compute_packages pending 0 (po_package_quantity opt) (po_amount opt) = Inr (ch_result c)"
    and "0 < po_package_quantity opt"
  using assms by (auto simp: evaluate_option_def option_key_def Let_def split: if_splits sum.splits)

lemma set_map_filter: "set (List.map_filter f xs) = {y. \<exists>x \<in> set xs. f x = Some y}"
  by (force simp: List.map_filter_def)

lemma choose_package_Some:
  assumes "choose_package pending options as_of ww wc = Some c"
  obtains opt where "opt \<in> set options"
    "evaluate_option pending as_of ww wc opt = Some (option_key c ww wc, c)"
    "\<And>opt' k' c'. opt' \<in> set options \<Longrightarrow>
       evaluate_option pending as_of ww wc opt' = Some (k', c') \<Longrightarrow> option_key c ww wc \<le> k'"
proof -
  let ?ev = "evaluate_option pending as_of ww wc"
  from assms obtain k where a: "argmin fst (List.map_filter ?ev options) = Some (k, c)"
    by (auto simp: choose_package_def)
  from argmin_Some(1)[OF a] obtain opt where o: "opt \<in> set options" "?ev opt = Some (k, c)"
    by (auto simp: set_map_filter)
  have k: "k = option_key c ww wc" using evaluate_option_Some(2)[OF o(2)] .
  have "k \<le> k'" if "opt' \<in> set options" "?ev opt' = Some (k', c')" for opt' k' c'
  proof -
    from that have "(k', c') \<in> set (List.map_filter ?ev options)"
      by (auto simp: set_map_filter)
    from argmin_Some(2)[OF a this] show ?thesis by simp
  qed
  with o k show thesis by (intro that[of opt]) auto
qed

text \<open>Which format is bought. \<open>PackageOptimizer.choose\<close> returns nothing exactly when
  no format has a positive quantity; otherwise it returns one of the formats together with
  the whole-package computation for it, and its key (stock, known price, weighted waste and
  cost, id, size) is minimal among the formats.\<close>

theorem choose_package_optimal:
  "case choose_package pending options as_of ww wc of
     None \<Rightarrow> list_all (\<lambda>opt. po_package_quantity opt \<le> 0) options
   | Some c \<Rightarrow>
       ch_option c \<in> set options \<and> 0 < po_package_quantity (ch_option c) \<and>
       compute_packages pending 0 (po_package_quantity (ch_option c)) (po_amount (ch_option c))
         = Inr (ch_result c) \<and>
       list_all (\<lambda>opt. case evaluate_option pending as_of ww wc opt of
           None \<Rightarrow> po_package_quantity opt \<le> 0
         | Some (k', c') \<Rightarrow> ch_option c' = opt \<and> k' = option_key c' ww wc \<and> option_key c ww wc \<le> k')
         options"
proof (cases "choose_package pending options as_of ww wc")
  case None
  then have "List.map_filter (evaluate_option pending as_of ww wc) options = []"
    by (simp add: choose_package_def)
  then show ?thesis using None
    by (auto simp: List.map_filter_def list_all_iff filter_empty_conv)
next
  case (Some c)
  then obtain opt where o: "opt \<in> set options"
    "evaluate_option pending as_of ww wc opt = Some (option_key c ww wc, c)"
    and least: "\<And>opt' k' c'. opt' \<in> set options \<Longrightarrow>
       evaluate_option pending as_of ww wc opt' = Some (k', c') \<Longrightarrow> option_key c ww wc \<le> k'"
    by (rule choose_package_Some) blast
  show ?thesis
    using evaluate_option_Some[OF o(2)] o(1) least Some
    by (auto simp: list_all_iff dest: evaluate_option_Some split: option.split)
qed

text \<open>Stock before price, price before score. If the chosen format is out of stock,
  every buyable format is; if the chosen format has no known (unexpired) price, no buyable
  format of the same stock state has one.\<close>

theorem choose_package_preference:
  assumes "choose_package pending options as_of ww wc = Some c"
    and "opt \<in> set options" and "0 < po_package_quantity opt"
  shows "(po_availability (ch_option c) = OutOfStock \<longrightarrow> po_availability opt = OutOfStock) \<and>
    (\<not> ch_price_known c \<longrightarrow>
      (po_availability opt = OutOfStock) = (po_availability (ch_option c) = OutOfStock) \<longrightarrow>
      \<not> (po_has_price opt \<and> \<not> is_expired opt as_of))"
proof -
  from assms(3) obtain k' c' where ev: "evaluate_option pending as_of ww wc opt = Some (k', c')"
    using evaluate_option_None_iff[of pending as_of ww wc opt] by fastforce
  from assms(1) have "option_key c ww wc \<le> k'"
    by (rule choose_package_Some) (use assms(2) ev in blast)
  then have "option_key c ww wc \<le> option_key c' ww wc" and "ch_option c' = opt"
    and "ch_price_known c' \<longleftrightarrow> po_has_price opt \<and> \<not> is_expired opt as_of"
    using evaluate_option_Some[OF ev] by auto
  then show ?thesis
    by (auto simp: option_key_def less_eq_prod_def split: if_splits)
qed

definition example_pack :: "string \<Rightarrow> dec \<Rightarrow> dec \<Rightarrow> availability \<Rightarrow> package_option_dto" where
  "example_pack pid qty price av =
     \<lparr>po_product_id = pid, po_package_quantity = qty, po_package_unit = ''g'', po_amount = price,
      po_unit_price = 0, po_availability = av, po_source_type = ''estimated'',
      po_source_name = '''', po_observed_at = None, po_expires_at = None,
      po_confidence_score = 0, po_has_price = True\<rparr>"

theorem choose_package_preference_witness:
  "\<exists>c. choose_package 600 [example_pack ''a'' 500 1 OutOfStock, example_pack ''b'' 250 2 InStock]
        None 1 (3/2) = Some c \<and> po_availability (ch_option c) \<noteq> OutOfStock \<and> ch_price_known c"
proof -
  let ?opts = "[example_pack ''a'' 500 1 OutOfStock, example_pack ''b'' 250 2 InStock]"
  have "case choose_package 600 ?opts None 1 (3/2) of None \<Rightarrow> False | Some c \<Rightarrow> ch_price_known c"
    by code_simp
  then obtain c where c: "choose_package 600 ?opts None 1 (3/2) = Some c" "ch_price_known c"
    by (auto split: option.splits)
  have "po_availability (example_pack ''b'' 250 2 InStock) = InStock"
    by (simp add: example_pack_def)
  with choose_package_preference[OF c(1), of "example_pack ''b'' 250 2 InStock"] c show ?thesis
    by (auto simp: example_pack_def)
qed

end
