(* ===== verification/Matching.thy ===== *)
theory Matching
  imports Contracts
begin

text \<open>
  \<open>cestaplan_engine/matching.py\<close> and \<open>_substitution_groups\<close> of \<open>facade.py\<close>: which catalog
  product stands for an ingredient. \<open>ProductMatcher\<close> is a record of its two dictionaries; the
  index is built with \<open>setdefault\<close>, so the first product of a name wins.
\<close>

record product_matcher =
  mt_by_name :: "(string, catalog_product_dto) dict"
  mt_groups :: "(string, string list) dict"

definition product_matcher_init ::
  "catalog_product_dto list \<Rightarrow> (string, string list) dict \<Rightarrow> product_matcher" where
  "product_matcher_init catalog substitution_groups =
     \<lparr>mt_by_name = fold (\<lambda>product d. dsetdefault (cp_canonical_name product) product d) catalog [],
      mt_groups = substitution_groups\<rparr>"

text \<open>The loop over the members of a group: the first one that has a product.\<close>

fun first_match :: "(string, catalog_product_dto) dict \<Rightarrow> string list \<Rightarrow> catalog_product_dto option" where
  "first_match by_name [] = None"
| "first_match by_name (alt # alts) =
     (case map_of by_name alt of Some product \<Rightarrow> Some product | None \<Rightarrow> first_match by_name alts)"

definition match_product ::
  "product_matcher \<Rightarrow> string \<Rightarrow> string option \<Rightarrow> catalog_product_dto option" where
  "match_product m canonical_name substitution_group =
     (case map_of (mt_by_name m) canonical_name of
        Some direct \<Rightarrow> Some direct
      | None \<Rightarrow>
        (case substitution_group of
           None \<Rightarrow> None
         | Some g \<Rightarrow> first_match (mt_by_name m) (dget (mt_groups m) g [])))"

definition match_ingredient :: "product_matcher \<Rightarrow> recipe_ingredient_dto \<Rightarrow> catalog_product_dto option" where
  "match_ingredient m ingredient =
     match_product m (ri_canonical_name ingredient) (ri_substitution_group ingredient)"

text \<open>
  \<open>_substitution_groups\<close>: the names seen under each non-empty group, in order of appearance
  and without repetition.
\<close>

definition add_group_member ::
  "recipe_ingredient_dto \<Rightarrow> (string, string list) dict \<Rightarrow> (string, string list) dict" where
  "add_group_member ing groups =
     (case ri_substitution_group ing of
        None \<Rightarrow> groups
      | Some g \<Rightarrow>
          if g \<noteq> [] \<and> ri_canonical_name ing \<notin> set (dget groups g [])
          then dset g (dget groups g [] @ [ri_canonical_name ing]) groups
          else groups)"

definition substitution_groups :: "candidate_recipe_dto list \<Rightarrow> (string, string list) dict" where
  "substitution_groups candidates =
     fold (\<lambda>recipe groups. fold add_group_member (cr_ingredients recipe) groups) candidates []"


section \<open>Lemmas\<close>

lemma by_name_init:
  "map_of (mt_by_name (product_matcher_init catalog groups)) n =
     find (\<lambda>p. cp_canonical_name p = n) catalog"
  using pd.look_fold_default_None[of "[]" n cp_canonical_name "\<lambda>p. p" catalog]
  by (simp add: product_matcher_init_def option.map_ident)

lemma first_match_Some: "first_match d alts = Some p \<Longrightarrow> \<exists>a \<in> set alts. map_of d a = Some p"
  by (induction alts) (auto split: option.splits)

lemma first_match_None: "first_match d alts = None \<longleftrightarrow> list_all (\<lambda>a. map_of d a = None) alts"
  by (induction alts) (auto split: option.splits)

text \<open>Every match is a product of the catalog, named by the ingredient or by its group.\<close>

lemma match_product_in_catalog:
  assumes "match_product (product_matcher_init catalog groups) n g = Some p"
  shows "p \<in> set catalog"
proof -
  have found: "q \<in> set catalog" if "map_of (mt_by_name (product_matcher_init catalog groups)) k = Some q" for k q
    using that unfolding by_name_init by (auto simp: find_Some_iff)
  from assms show ?thesis
    by (auto simp: match_product_def split: option.splits dest: found first_match_Some)
qed

definition groups_ok :: "(string, string list) dict \<Rightarrow> bool" where
  "groups_ok groups \<longleftrightarrow> dict_ok groups \<and> list_all (\<lambda>(g, ns). g \<noteq> [] \<and> distinct ns \<and> ns \<noteq> []) groups"

lemma groups_ok_add: "groups_ok groups \<Longrightarrow> groups_ok (add_group_member ing groups)"
proof -
  assume ok: "groups_ok groups"
  have d: "distinct (dget groups g [])" for g
    using ok by (auto simp: groups_ok_def dget_def list_all_iff dest: map_of_SomeD split: option.split)
  have sub: "set (dset g v groups) \<subseteq> insert (g, v) (set groups)" for g v
    unfolding dset_def by (induction groups) auto
  show ?thesis
  proof (cases "\<exists>g. ri_substitution_group ing = Some g \<and> g \<noteq> [] \<and> ri_canonical_name ing \<notin> set (dget groups g [])")
    case True
    then obtain g where g: "ri_substitution_group ing = Some g" "g \<noteq> []"
      "ri_canonical_name ing \<notin> set (dget groups g [])" by blast
    then have e: "add_group_member ing groups = dset g (dget groups g [] @ [ri_canonical_name ing]) groups"
      by (simp add: add_group_member_def)
    show ?thesis unfolding e groups_ok_def
      using ok d[of g] g sub[of g "dget groups g [] @ [ri_canonical_name ing]"]
      by (auto simp: groups_ok_def list_all_iff)
  next
    case False
    then have "add_group_member ing groups = groups"
      by (auto simp: add_group_member_def split: option.split)
    with ok show ?thesis by simp
  qed
qed

lemma groups_ok_init: "groups_ok (substitution_groups candidates)"
proof -
  have inner: "groups_ok d \<Longrightarrow> groups_ok (fold add_group_member ings d)" for ings d
    by (induction ings arbitrary: d) (auto intro: groups_ok_add)
  have "groups_ok d \<Longrightarrow> groups_ok (fold (\<lambda>r d. fold add_group_member (cr_ingredients r) d) candidates d)" for d
    by (induction candidates arbitrary: d) (auto intro: inner)
  then show ?thesis by (simp add: substitution_groups_def groups_ok_def)
qed

text \<open>Product matching. The matcher built from a catalog returns the first catalog product
  that has the ingredient's own name; only when no product has that name, and the ingredient
  names a group, does it return the first product found for the group's members in their
  order; and it returns nothing exactly when neither exists.\<close>

theorem match_product_spec:
  "match_product (product_matcher_init catalog groups) n g =
     (case find (\<lambda>p. cp_canonical_name p = n) catalog of
        Some p \<Rightarrow> Some p
      | None \<Rightarrow>
        (case g of
           None \<Rightarrow> None
         | Some grp \<Rightarrow>
             (case find (\<lambda>a. \<exists>p. find (\<lambda>p. cp_canonical_name p = a) catalog = Some p) (dget groups grp []) of
                None \<Rightarrow> None
              | Some a \<Rightarrow> find (\<lambda>p. cp_canonical_name p = a) catalog)))"
proof -
  have fm: "first_match (mt_by_name (product_matcher_init catalog groups)) alts =
     (case find (\<lambda>a. \<exists>p. find (\<lambda>p. cp_canonical_name p = a) catalog = Some p) alts of
        None \<Rightarrow> None | Some a \<Rightarrow> find (\<lambda>p. cp_canonical_name p = a) catalog)" for alts
    by (induction alts) (auto simp: by_name_init split: option.split)
  have "mt_groups (product_matcher_init catalog groups) = groups"
    by (simp add: product_matcher_init_def)
  then show ?thesis by (simp add: match_product_def by_name_init fm split: option.split)
qed

end
