(* ===== verification/Pantry.thy ===== *)
theory Pantry
  imports Units
begin

text \<open>
  \<open>cestaplan_engine/pantry.py\<close>: what is at home. \<open>PantryCalculator\<close> is a record of its
  converter and of the unexpired items grouped by ingredient.
\<close>

record pantry_calculator =
  pc_converter :: unit_converter
  pc_items :: "(string, pantry_item_dto list) dict"

definition pantry_expired :: "date option \<Rightarrow> pantry_item_dto \<Rightarrow> bool" where
  "pantry_expired as_of item =
     (case (pi_expires_at item, as_of) of (Some e, Some d) \<Rightarrow> e < d | _ \<Rightarrow> False)"

definition pantry_calculator_init ::
  "pantry_item_dto list \<Rightarrow> unit_converter \<Rightarrow> date option \<Rightarrow> pantry_calculator" where
  "pantry_calculator_init pantry converter as_of =
     \<lparr>pc_converter = converter,
      pc_items = fold (\<lambda>item d.
         if pantry_expired as_of item then d
         else dset (pi_canonical_name item) (dget d (pi_canonical_name item) [] @ [item]) d) pantry []\<rparr>"

definition available :: "pantry_calculator \<Rightarrow> string \<Rightarrow> string \<Rightarrow> dec" where
  "available pc canonical_name unit =
     fold (\<lambda>item total.
         case convert (pc_converter pc) (pi_quantity item) (pi_unit item) unit (Some canonical_name) of
           Inr q \<Rightarrow> dadd total q
         | Inl _ \<Rightarrow> total)
       (dget (pc_items pc) canonical_name []) 0"

definition pending :: "pantry_calculator \<Rightarrow> string \<Rightarrow> dec \<Rightarrow> string \<Rightarrow> dec \<times> dec" where
  "pending pc canonical_name needed unit =
     (let avail = available pc canonical_name unit;
          used = min needed avail;
          pend = dsub needed used
      in (used, if pend < 0 then 0 else pend))"


section \<open>Lemmas\<close>

lemma pantry_items_init:
  "dget (pc_items (pantry_calculator_init pantry c as_of)) n [] =
     filter (\<lambda>item. pi_canonical_name item = n \<and> \<not> pantry_expired as_of item) pantry"
proof -
  have "dget (fold (\<lambda>item d.
         if pantry_expired as_of item then d
         else dset (pi_canonical_name item) (dget d (pi_canonical_name item) [] @ [item]) d) pantry d) n [] =
     dget d n [] @ filter (\<lambda>item. pi_canonical_name item = n \<and> \<not> pantry_expired as_of item) pantry" for d
    by (induction pantry arbitrary: d) auto
  then show ?thesis by (simp add: pantry_calculator_init_def)
qed

lemma available_fold_nonneg:
  assumes "factors_nonneg c" "list_all (\<lambda>i. 0 \<le> pi_quantity i) items" "0 \<le> t"
  shows "0 \<le> fold (\<lambda>item total.
         case convert c (pi_quantity item) (pi_unit item) u n of
           Inr q \<Rightarrow> dadd total q | Inl _ \<Rightarrow> total) items t"
  using assms(2,3)
proof (induction items arbitrary: t)
  case Nil
  then show ?case by simp
next
  case (Cons i items)
  have "0 \<le> (case convert c (pi_quantity i) (pi_unit i) u n of Inr q \<Rightarrow> dadd t q | Inl _ \<Rightarrow> t)"
    using Cons.prems convert_nonneg[OF assms(1)] by (auto split: sum.split)
  with Cons show ?case by simp
qed

lemma available_nonneg:
  assumes "factors_nonneg c" "list_all (\<lambda>i. 0 \<le> pi_quantity i) pantry"
  shows "0 \<le> available (pantry_calculator_init pantry c as_of) n u"
proof -
  have "list_all (\<lambda>i. 0 \<le> pi_quantity i) (filter (\<lambda>item. pi_canonical_name item = n \<and> \<not> pantry_expired as_of item) pantry)"
    using assms(2) by (auto simp: list_all_iff)
  moreover have "pc_converter (pantry_calculator_init pantry c as_of) = c"
    by (simp add: pantry_calculator_init_def)
  ultimately show ?thesis
    unfolding available_def pantry_items_init by (simp add: available_fold_nonneg[OF assms(1)])
qed

lemma pending_nonneg: "pending pc n needed u = (used, pend) \<Longrightarrow> 0 \<le> pend"
  by (auto simp: pending_def Let_def split: if_splits)

lemma pending_split:
  assumes "pending pc n needed u = (used, pend)"
  shows "used = min needed (available pc n u)" and "pend = dsub needed used"
proof -
  have u: "used = min needed (available pc n u)"
    using assms by (simp add: pending_def Let_def)
  have "0 \<le> dsub needed used" unfolding u by (intro dsub_nonneg) simp
  then show "pend = dsub needed used"
    using assms unfolding pending_def Let_def u[symmetric] by (auto simp: u[symmetric] not_less)
  show "used = min needed (available pc n u)" by (rule u)
qed

text \<open>Pantry discount. For a calculator built from a pantry with non-negative quantities
  and a non-negative need, the part taken from the pantry is non-negative and at most both the
  need and the unexpired stock; the pending part is the rounded difference, non-negative, and
  zero when the stock suffices; and expired items or items of other ingredients have no
  influence: dropping them from the pantry changes nothing.\<close>

theorem pantry_discount:
  assumes "list_all (\<lambda>i. 0 \<le> pi_quantity i) pantry" and "factors_nonneg c" and "0 \<le> needed"
    and "pending (pantry_calculator_init pantry c as_of) n needed u = (used, pend)"
  shows "0 \<le> used \<and> used \<le> needed \<and> used \<le> available (pantry_calculator_init pantry c as_of) n u \<and>
    0 \<le> pend \<and> pend = dsub needed used \<and>
    (needed \<le> available (pantry_calculator_init pantry c as_of) n u \<longrightarrow> pend = 0) \<and>
    pending (pantry_calculator_init
      (filter (\<lambda>item. pi_canonical_name item = n \<and> \<not> pantry_expired as_of item) pantry) c as_of)
      n needed u = (used, pend)"
proof -
  let ?pc = "pantry_calculator_init pantry c as_of"
  let ?pc' = "pantry_calculator_init
      (filter (\<lambda>item. pi_canonical_name item = n \<and> \<not> pantry_expired as_of item) pantry) c as_of"
  have "available ?pc' n u = available ?pc n u"
    unfolding available_def pantry_items_init
    by (simp add: pantry_calculator_init_def conj_commute)
  then have "pending ?pc' n needed u = (used, pend)" using assms(4) by (simp add: pending_def)
  moreover have "0 \<le> used \<and> used \<le> needed \<and> used \<le> available ?pc n u"
    using pending_split(1)[OF assms(4)] available_nonneg[OF assms(2,1)] assms(3) by simp
  moreover have "needed \<le> available ?pc n u \<longrightarrow> pend = 0"
    using pending_split[OF assms(4)] by (simp add: min_def)
  ultimately show ?thesis
    using pending_nonneg[OF assms(4)] pending_split(2)[OF assms(4)] by blast
qed

theorem pantry_discount_witness:
  "\<exists>used pend. pending (pantry_calculator_init
      [\<lparr>pi_canonical_name = ''arroz'', pi_quantity = 1, pi_unit = ''kg'', pi_expires_at = None\<rparr>,
       \<lparr>pi_canonical_name = ''arroz'', pi_quantity = 2, pi_unit = ''kg'', pi_expires_at = Some 4\<rparr>]
      (unit_converter_init []) (Some 5)) ''arroz'' 1500 ''g'' = (used, pend) \<and>
     0 \<le> used \<and> used \<le> 1500 \<and> 0 \<le> pend \<and> pend = dsub 1500 used \<and> used = 1000"
proof -
  let ?pantry = "[\<lparr>pi_canonical_name = ''arroz'', pi_quantity = 1, pi_unit = ''kg'', pi_expires_at = None\<rparr>,
       \<lparr>pi_canonical_name = ''arroz'', pi_quantity = 2, pi_unit = ''kg'', pi_expires_at = Some 4\<rparr>]"
  have "pending (pantry_calculator_init ?pantry (unit_converter_init []) (Some 5)) ''arroz'' 1500 ''g''
      = (1000, 500)"
    by code_simp
  moreover have "factors_nonneg (unit_converter_init [])" by (rule factors_nonneg_init) simp
  ultimately show ?thesis
    using pantry_discount[of ?pantry "unit_converter_init []" 1500 "Some 5" "''arroz''" "''g''" 1000 500]
    by auto
qed

end
