(* ===== verification/Pricing.thy ===== *)
theory Pricing
  imports Contracts
begin

text \<open>
  \<open>cestaplan_engine/pricing.py\<close>: how much of the shopping list has a known price.
  \<open>compute_coverage\<close> is one pass over the grocery lines with six accumulators, followed by
  the two ratios and the status.
\<close>

record coverage_acc =
  ca_with_price :: nat
  ca_without_price :: nat
  ca_estimated :: nat
  ca_expired :: nat
  ca_known_value :: dec
  ca_estimated_value :: dec

definition coverage_step :: "grocery_line_dto \<Rightarrow> coverage_acc \<Rightarrow> coverage_acc" where
  "coverage_step line acc =
     (let acc = (if gl_expired line then acc\<lparr>ca_expired := ca_expired acc + 1\<rparr> else acc) in
      if gl_subtotal_known line then
        acc\<lparr>ca_with_price := ca_with_price acc + 1,
            ca_known_value := dadd (ca_known_value acc) (gl_subtotal line)\<rparr>
      else if 0 < gl_subtotal line then
        acc\<lparr>ca_estimated := ca_estimated acc + 1,
            ca_estimated_value := dadd (ca_estimated_value acc) (gl_subtotal line)\<rparr>
      else acc\<lparr>ca_without_price := ca_without_price acc + 1\<rparr>)"

definition coverage_acc_init :: coverage_acc where
  "coverage_acc_init = \<lparr>ca_with_price = 0, ca_without_price = 0, ca_estimated = 0, ca_expired = 0,
     ca_known_value = 0, ca_estimated_value = 0\<rparr>"

definition coverage_status_of :: "nat \<Rightarrow> dec \<Rightarrow> dec \<Rightarrow> nat \<Rightarrow> coverage_status" where
  "coverage_status_of total_lines price_coverage weighted expired =
     (if total_lines = 0 then CovComplete
      else if 0 < expired then CovStale
      else if price_coverage = 0 then CovNone
      else if price_coverage = 1 then CovComplete
      else if 9/10 \<le> weighted then CovHigh
      else if 6/10 \<le> weighted then CovPartial
      else CovInsufficient)"

definition compute_coverage :: "grocery_line_dto list \<Rightarrow> coverage_dto" where
  "compute_coverage lines =
     (let total_lines = length lines;
          acc = fold coverage_step lines coverage_acc_init;
          price_coverage = (if total_lines = 0 then 1
                            else ddiv (of_nat (ca_with_price acc)) (of_nat total_lines));
          total_value = dadd (ca_known_value acc) (ca_estimated_value acc);
          weighted = (if total_value = 0 then (if ca_with_price acc = total_lines then 1 else 0)
                      else ddiv (ca_known_value acc) total_value)
      in \<lparr>cv_price_coverage = price_coverage, cv_weighted_price_coverage = weighted,
          cv_status = coverage_status_of total_lines price_coverage weighted (ca_expired acc),
          cv_counts = \<lparr>cc_with_price = ca_with_price acc, cc_without_price = ca_without_price acc,
                       cc_estimated = ca_estimated acc, cc_expired = ca_expired acc\<rparr>\<rparr>)"


section \<open>Lemmas\<close>

abbreviation known_line :: "grocery_line_dto \<Rightarrow> bool" where
  "known_line l \<equiv> gl_subtotal_known l"

abbreviation estimated_line :: "grocery_line_dto \<Rightarrow> bool" where
  "estimated_line l \<equiv> \<not> gl_subtotal_known l \<and> 0 < gl_subtotal l"

abbreviation unpriced_line :: "grocery_line_dto \<Rightarrow> bool" where
  "unpriced_line l \<equiv> \<not> gl_subtotal_known l \<and> \<not> 0 < gl_subtotal l"

lemma coverage_fold_counts:
  "ca_with_price (fold coverage_step lines acc) = ca_with_price acc + length (filter known_line lines)"
  "ca_estimated (fold coverage_step lines acc) = ca_estimated acc + length (filter estimated_line lines)"
  "ca_without_price (fold coverage_step lines acc) = ca_without_price acc + length (filter unpriced_line lines)"
  "ca_expired (fold coverage_step lines acc) = ca_expired acc + length (filter gl_expired lines)"
  by (induction lines arbitrary: acc) (auto simp: coverage_step_def Let_def)

lemma coverage_fold_values:
  assumes "list_all (\<lambda>l. 0 \<le> gl_subtotal l) lines"
    and "0 \<le> ca_known_value acc" "dec28 (ca_known_value acc)"
    and "0 \<le> ca_estimated_value acc" "dec28 (ca_estimated_value acc)"
  shows "0 \<le> ca_known_value (fold coverage_step lines acc) \<and> dec28 (ca_known_value (fold coverage_step lines acc)) \<and>
    0 \<le> ca_estimated_value (fold coverage_step lines acc)"
  using assms
proof (induction lines arbitrary: acc)
  case Nil
  then show ?case by simp
next
  case (Cons l lines)
  have "0 \<le> ca_known_value (coverage_step l acc) \<and> dec28 (ca_known_value (coverage_step l acc)) \<and>
    0 \<le> ca_estimated_value (coverage_step l acc) \<and> dec28 (ca_estimated_value (coverage_step l acc))"
    using Cons.prems by (auto simp: coverage_step_def Let_def)
  with Cons show ?case by simp
qed

lemma ratio_bounds:
  assumes "w \<le> (n::nat)" "0 < n"
  shows "0 \<le> ddiv (of_nat w) (of_nat n)" and "ddiv (of_nat w) (of_nat n) \<le> 1"
    and "ddiv (of_nat w) (of_nat n) = 0 \<longleftrightarrow> w = 0"
proof -
  show "0 \<le> ddiv (of_nat w) (of_nat n)" by simp
  show "ddiv (of_nat w) (of_nat n) \<le> 1" using assms by (intro ddiv_ratio) auto
  show "ddiv (of_nat w) (of_nat n) = 0 \<longleftrightarrow> w = 0"
    using ddiv_pos[of "of_nat w" "of_nat n"] assms by (cases "w = 0") auto
qed

lemma ratio_eq_1:
  assumes "w \<le> (n::nat)" "0 < n" "n \<le> 10 ^ 27"
  shows "ddiv (of_nat w) (of_nat n) = 1 \<longleftrightarrow> w = n"
proof (cases "w = n")
  case True
  with assms(2) show ?thesis by simp
next
  case False
  with assms(1) have "w + 1 \<le> n" by simp
  then have lt: "(of_nat w :: rat) + 1 \<le> of_nat n" by (metis of_nat_1 of_nat_add of_nat_mono)
  have n0: "(0::rat) < of_nat n" using assms(2) by simp
  have big: "(of_nat n :: rat) \<le> 10 ^ 27" using assms(3) by (metis of_nat_mono of_nat_numeral of_nat_power)
  define x :: rat where "x = of_nat w / of_nat n"
  have x0: "0 \<le> x" and "x \<le> 1" using lt n0 by (auto simp: x_def divide_le_eq_1)
  have "x \<le> 1 - 1 / of_nat n" using lt n0 by (simp add: x_def field_simps)
  moreover have "1 / (10 ^ 27) \<le> 1 / (of_nat n :: rat)" using big n0 by (intro divide_left_mono) auto
  moreover have "ddiv (of_nat w) (of_nat n) \<le> x + \<bar>x\<bar> / (2 * 10 ^ 27)"
    using ddiv_err[of "of_nat w" "of_nat n"] by (simp add: x_def abs_le_iff)
  moreover have "\<bar>x\<bar> / (2 * 10 ^ 27) \<le> 1 / (2 * 10 ^ 27)"
    using x0 \<open>x \<le> 1\<close> by (intro divide_right_mono) auto
  ultimately have "ddiv (of_nat w) (of_nat n) < 1" by simp
  with False show ?thesis by simp
qed

lemma compute_coverage_counts:
  "cc_with_price (cv_counts (compute_coverage lines)) = length (filter known_line lines)"
  "cc_estimated (cv_counts (compute_coverage lines)) = length (filter estimated_line lines)"
  "cc_without_price (cv_counts (compute_coverage lines)) = length (filter unpriced_line lines)"
  "cc_expired (cv_counts (compute_coverage lines)) = length (filter gl_expired lines)"
  by (simp_all add: compute_coverage_def Let_def coverage_fold_counts coverage_acc_init_def)

lemma line_kinds_partition:
  "length (filter known_line lines) + length (filter estimated_line lines)
     + length (filter unpriced_line lines) = length lines"
  by (induction lines) auto

lemma length_filter_all: "length (filter P xs) = length xs \<longleftrightarrow> list_all P xs"
proof (induction xs)
  case Nil
  then show ?case by simp
next
  case (Cons x xs)
  then show ?case by (cases "P x") (simp_all, metis length_filter_le Suc_n_not_le_n)
qed

text \<open>Coverage figures. The known, the estimated and the unpriced lines partition the
  shopping list, and for lines with non-negative subtotals the simple and the weighted
  coverage are ratios between 0 and 1; the simple one is zero exactly when no line of a
  non-empty list has a known price.\<close>

theorem coverage_figures:
  assumes "list_all (\<lambda>l. 0 \<le> gl_subtotal l) lines"
  shows "cc_with_price (cv_counts (compute_coverage lines)) + cc_estimated (cv_counts (compute_coverage lines))
      + cc_without_price (cv_counts (compute_coverage lines)) = length lines \<and>
    cc_expired (cv_counts (compute_coverage lines)) = length (filter gl_expired lines) \<and>
    0 \<le> cv_price_coverage (compute_coverage lines) \<and> cv_price_coverage (compute_coverage lines) \<le> 1 \<and>
    0 \<le> cv_weighted_price_coverage (compute_coverage lines) \<and>
    cv_weighted_price_coverage (compute_coverage lines) \<le> 1 \<and>
    (cv_price_coverage (compute_coverage lines) = 0) = (lines \<noteq> [] \<and> filter gl_subtotal_known lines = [])"
proof -
  let ?acc = "fold coverage_step lines coverage_acc_init"
  let ?w = "length (filter known_line lines)"
  have w: "ca_with_price ?acc = ?w" by (simp add: coverage_fold_counts coverage_acc_init_def)
  have v: "0 \<le> ca_known_value ?acc" "dec28 (ca_known_value ?acc)" "0 \<le> ca_estimated_value ?acc"
    using coverage_fold_values[OF assms, of coverage_acc_init] by (auto simp: coverage_acc_init_def)
  have pc: "cv_price_coverage (compute_coverage lines) =
      (if lines = [] then 1 else ddiv (of_nat ?w) (of_nat (length lines)))"
    by (simp add: compute_coverage_def Let_def w)
  have le: "?w \<le> length lines" by simp
  have "0 \<le> cv_weighted_price_coverage (compute_coverage lines) \<and>
    cv_weighted_price_coverage (compute_coverage lines) \<le> 1"
    using v dadd_grows[OF v(2,3)] by (auto simp: compute_coverage_def Let_def intro: ddiv_ratio)
  moreover have "0 \<le> cv_price_coverage (compute_coverage lines) \<and> cv_price_coverage (compute_coverage lines) \<le> 1"
    using ratio_bounds[OF le] by (auto simp: pc)
  moreover have "(cv_price_coverage (compute_coverage lines) = 0) = (lines \<noteq> [] \<and> filter known_line lines = [])"
    using ratio_bounds(3)[OF le] by (auto simp: pc)
  ultimately show ?thesis
    using line_kinds_partition[of lines] by (simp only: compute_coverage_counts)
qed

definition example_line :: "dec \<Rightarrow> bool \<Rightarrow> bool \<Rightarrow> grocery_line_dto" where
  "example_line subtotal known expired =
     (grocery_line_defaults ''arroz'' None ''Arroz'' 1)
       \<lparr>gl_subtotal := subtotal, gl_subtotal_known := known, gl_expired := expired\<rparr>"

theorem coverage_figures_witness:
  "\<exists>lines. length lines = 3 \<and> cv_weighted_price_coverage (compute_coverage lines) \<le> 1 \<and>
     cv_price_coverage (compute_coverage lines) \<noteq> 0"
proof -
  let ?ls = "[example_line 3 True False, example_line 1 False False, example_line 0 False False]"
  have "list_all (\<lambda>l. 0 \<le> gl_subtotal l) ?ls"
    by (simp add: example_line_def grocery_line_defaults_def)
  from coverage_figures[OF this] show ?thesis
    by (intro exI[of _ ?ls]) (auto simp: example_line_def grocery_line_defaults_def)
qed

text \<open>Coverage status. A list is stale exactly when one of its prices has expired; it is
  complete exactly when it is empty or nothing has expired and every line has a known price;
  it has no coverage exactly when it is not empty, nothing has expired and no line has a known
  price. In particular one unpriced line among many is never rounded up to complete.\<close>

theorem coverage_status_spec:
  assumes "length lines \<le> 10 ^ 27"
  shows "(cv_status (compute_coverage lines) = CovStale) = list_ex gl_expired lines \<and>
    (cv_status (compute_coverage lines) = CovComplete) =
      (lines = [] \<or> \<not> list_ex gl_expired lines \<and> list_all gl_subtotal_known lines) \<and>
    (cv_status (compute_coverage lines) = CovNone) =
      (lines \<noteq> [] \<and> \<not> list_ex gl_expired lines \<and> \<not> list_ex gl_subtotal_known lines)"
proof (cases "lines = []")
  case True
  then show ?thesis by (simp add: compute_coverage_def coverage_status_of_def Let_def)
next
  case False
  let ?w = "length (filter known_line lines)"
  let ?r = "ddiv (of_nat ?w) (of_nat (length lines))"
  have le: "?w \<le> length lines" and n0: "0 < length lines" using False by auto
  obtain wt where st: "cv_status (compute_coverage lines) =
      coverage_status_of (length lines) ?r wt (length (filter gl_expired lines))"
    using False by (simp add: compute_coverage_def Let_def coverage_fold_counts coverage_acc_init_def)
  have ex: "0 < length (filter gl_expired lines) \<longleftrightarrow> list_ex gl_expired lines"
    by (auto simp: list_ex_iff filter_empty_conv)
  have all: "?r = 1 \<longleftrightarrow> list_all known_line lines"
    unfolding ratio_eq_1[OF le n0 assms] by (rule length_filter_all)
  have none: "?r = 0 \<longleftrightarrow> \<not> list_ex known_line lines"
    using ratio_bounds(3)[OF le n0] by (auto simp: list_ex_iff filter_empty_conv)
  have ne: "list_all known_line lines \<Longrightarrow> list_ex known_line lines"
    using False by (auto simp: list_all_iff list_ex_iff neq_Nil_conv)
  show ?thesis
    unfolding st coverage_status_of_def ex all none using False ne by auto
qed

theorem coverage_status_spec_witness:
  "cv_status (compute_coverage [example_line 3 True False, example_line 1 False False]) \<noteq> CovComplete \<and>
   cv_status (compute_coverage [example_line 3 True True]) = CovStale"
  using coverage_status_spec[of "[example_line 3 True False, example_line 1 False False]"]
    coverage_status_spec[of "[example_line 3 True True]"]
  by (simp add: example_line_def grocery_line_defaults_def)

end
