(* ===== verification/Scheduling.thy ===== *)
theory Scheduling
  imports Contracts
begin

text \<open>
  \<open>cestaplan_engine/scheduling.py\<close>: the flat list of meal slots. A \<open>date\<close> is its ordinal, so
  \<open>start + timedelta(days=i)\<close> is addition. \<open>list.sort\<close> is stable, as \<open>sort_key\<close> is. The pool of
  dates is never empty, so the source's \<open>pool[i % len(pool)]\<close> never divides by zero.
\<close>

fun meal_order :: "meal_type \<Rightarrow> int" where
  "meal_order Breakfast = 0"
| "meal_order Lunch = 1"
| "meal_order Snack = 2"
| "meal_order Dinner = 3"

record meal_slot =
  sl_index :: int
  sl_date :: date
  sl_meal_type :: meal_type
  sl_servings :: int
  sl_maximum_preparation_minutes :: "int option"
  sl_requires_tupper :: bool
  sl_reheating_available :: bool

definition dates_in_range :: "date \<Rightarrow> date \<Rightarrow> date list" where
  "dates_in_range start stop =
     (if stop < start then [start] else map (\<lambda>i. start + i) [0..stop - start])"

text \<open>\<open>[xs[i % len(xs)] for i in range(count)]\<close>.\<close>

definition cycle :: "date list \<Rightarrow> int \<Rightarrow> date list" where
  "cycle xs count = map (\<lambda>i. xs ! nat (i mod int (length xs))) [0..count - 1]"

text \<open>\<open>[pool[(i * n) // count] for i in range(count)]\<close>.\<close>

definition spread :: "date list \<Rightarrow> int \<Rightarrow> date list" where
  "spread pool count = map (\<lambda>i. pool ! nat ((i * int (length pool)) div count)) [0..count - 1]"

definition pick_dates :: "meal_requirement_dto \<Rightarrow> date list \<Rightarrow> date list" where
  "pick_dates req pool =
     (let count = mr_requested_count req in
      if count = 0 then []
      else case mr_selected_dates req of
        Some (d # ds) \<Rightarrow> cycle (sort (d # ds)) count
      | _ \<Rightarrow>
        (case mr_preferred_days req of
           Some (w # ws) \<Rightarrow>
             (let preferred = filter (\<lambda>d. weekday d \<in> weekday_index ` set (w # ws)) pool;
                  source = (if preferred = [] then pool else preferred)
              in cycle source count)
         | _ \<Rightarrow>
             if mr_auto_distribute req \<and> pool \<noteq> [] then spread pool count
             else cycle pool count))"

definition slot_of :: "meal_requirement_dto \<Rightarrow> date \<Rightarrow> meal_slot" where
  "slot_of req slot_date =
     \<lparr>sl_index = 0, sl_date = slot_date, sl_meal_type = mr_meal_type req,
      sl_servings = mr_default_servings req,
      sl_maximum_preparation_minutes = mr_maximum_preparation_minutes req,
      sl_requires_tupper = mr_requires_tupper req,
      sl_reheating_available = mr_reheating_available req\<rparr>"

definition slot_key :: "meal_slot \<Rightarrow> date \<times> int" where
  "slot_key s = (sl_date s, meal_order (sl_meal_type s))"

definition schedule :: "meal_requirement_dto list \<Rightarrow> date \<times> date \<Rightarrow> meal_slot list" where
  "schedule requirements date_range =
     (let pool = dates_in_range (fst date_range) (snd date_range);
          slots = concat (map (\<lambda>req. map (slot_of req) (pick_dates req pool)) requirements);
          slots = sort_key slot_key slots
      in map (\<lambda>(i, s). s\<lparr>sl_index := int i\<rparr>) (enumerate 0 slots))"


section \<open>Lemmas\<close>

lemma dates_in_range_nonempty [simp]: "dates_in_range s e \<noteq> []"
  by (simp add: dates_in_range_def)

lemma set_dates_in_range: "set (dates_in_range s e) = {s..max s e}"
proof -
  have "(+) s ` {0..e - s} = {s..e}" by (auto simp: image_iff intro: bexI[of _ "_ - s"])
  then show ?thesis by (auto simp: dates_in_range_def max_def)
qed

lemma length_cycle [simp]: "length (cycle xs n) = nat n"
  by (simp add: cycle_def)

lemma length_spread [simp]: "length (spread xs n) = nat n"
  by (simp add: spread_def)

lemma set_cycle: "xs \<noteq> [] \<Longrightarrow> set (cycle xs n) \<subseteq> set xs"
  by (auto simp: cycle_def intro!: nth_mem) (simp add: nat_less_iff)

lemma spread_index:
  assumes "0 \<le> i" "i < c" "0 < n"
  shows "0 \<le> i * n div c" and "i * n div c < (n::int)"
proof -
  show "0 \<le> i * n div c" using assms by (simp add: pos_imp_zdiv_nonneg_iff)
  have lt: "i * n < n * c" using assms by (metis mult.commute mult_strict_right_mono)
  have c: "0 < c" using assms by linarith
  have "i * n = c * (i * n div c) + i * n mod c" by simp
  moreover have "0 \<le> i * n mod c" using c by simp
  ultimately have "c * (i * n div c) < c * n" using lt by (simp only: mult.commute[of n c])
  then show "i * n div c < n" using c by simp
qed

lemma set_spread: "xs \<noteq> [] \<Longrightarrow> set (spread xs n) \<subseteq> set xs"
  using spread_index[of _ n "int (length xs)"]
  by (auto simp: spread_def nat_less_iff intro!: nth_mem)

lemma length_pick_dates: "length (pick_dates req pool) = nat (mr_requested_count req)"
  by (auto simp: pick_dates_def Let_def split: option.split list.split)

text \<open>The dates a requirement may fall on.\<close>

definition allowed_dates :: "meal_requirement_dto \<Rightarrow> date list \<Rightarrow> date set" where
  "allowed_dates req pool =
     (case mr_selected_dates req of Some (d # ds) \<Rightarrow> set (d # ds) | _ \<Rightarrow> set pool)"

lemma set_cycle_sort: "set (cycle (sort (d # ds)) n) \<subseteq> set (d # ds)"
  using set_cycle[of "sort (d # ds)" n] by (metis list.distinct(1) list.set_intros(1) set_empty set_sort empty_iff)

lemma set_pick_dates:
  assumes "pool \<noteq> []"
  shows "set (pick_dates req pool) \<subseteq> allowed_dates req pool"
proof -
  let ?c = "mr_requested_count req"
  have pref: "set (cycle (if filter P pool = [] then pool else filter P pool) ?c) \<subseteq> set pool" for P
    using set_cycle[OF assms, of ?c] set_cycle[of "filter P pool" ?c] by auto
  have rest: "set (if mr_auto_distribute req \<and> pool \<noteq> [] then spread pool ?c else cycle pool ?c) \<subseteq> set pool"
    using set_cycle[OF assms, of ?c] set_spread[OF assms, of ?c] by auto
  have unsel: "set (case mr_preferred_days req of
           Some (w # ws) \<Rightarrow>
             (let preferred = filter (\<lambda>d. weekday d \<in> weekday_index ` set (w # ws)) pool;
                  source = (if preferred = [] then pool else preferred)
              in cycle source ?c)
         | _ \<Rightarrow> if mr_auto_distribute req \<and> pool \<noteq> [] then spread pool ?c else cycle pool ?c) \<subseteq> set pool"
    (is "set ?u \<subseteq> _")
  proof (cases "mr_preferred_days req")
    case None
    then show ?thesis using rest by (simp only: option.case)
  next
    case (Some l)
    show ?thesis
    proof (cases l)
      case Nil
      then show ?thesis using Some rest by (simp only: option.case list.case)
    next
      case (Cons w ws)
      then show ?thesis
        using Some pref[of "\<lambda>d. weekday d \<in> weekday_index ` set (w # ws)"]
        by (simp only: option.case list.case Let_def)
    qed
  qed
  show ?thesis
  proof (cases "?c = 0")
    case True
    then show ?thesis by (simp add: pick_dates_def)
  next
    case False
    show ?thesis
    proof (cases "\<exists>d ds. mr_selected_dates req = Some (d # ds)")
      case True
      then obtain d ds where "mr_selected_dates req = Some (d # ds)" by blast
      with False set_cycle_sort[of d ds ?c] show ?thesis
        by (simp add: pick_dates_def allowed_dates_def Let_def del: sort_key_simps)
    next
      case none: False
      then have "allowed_dates req pool = set pool"
        by (auto simp: allowed_dates_def split: option.split list.split)
      with none False unsel show ?thesis
        by (auto simp: pick_dates_def Let_def split: option.splits list.splits)
    qed
  qed
qed

definition raw_slots :: "meal_requirement_dto list \<Rightarrow> date list \<Rightarrow> meal_slot list" where
  "raw_slots reqs pool = concat (map (\<lambda>req. map (slot_of req) (pick_dates req pool)) reqs)"

lemma length_raw_slots: "length (raw_slots reqs pool) = sum_list (map (\<lambda>r. nat (mr_requested_count r)) reqs)"
  by (simp add: raw_slots_def length_concat length_pick_dates comp_def)

lemma length_raw_slots_type:
  "length (filter (\<lambda>s. sl_meal_type s = mt) (raw_slots reqs pool)) =
     sum_list (map (\<lambda>r. if mr_meal_type r = mt then nat (mr_requested_count r) else 0) reqs)"
  unfolding raw_slots_def
  by (induction reqs) (auto simp: slot_of_def length_pick_dates comp_def)

lemma schedule_raw:
  "schedule reqs rng = map (\<lambda>(i, s). s\<lparr>sl_index := int i\<rparr>)
     (enumerate 0 (sort_key slot_key (raw_slots reqs (dates_in_range (fst rng) (snd rng)))))"
  by (simp add: schedule_def raw_slots_def)

lemma length_schedule: "length (schedule reqs rng) = sum_list (map (\<lambda>r. nat (mr_requested_count r)) reqs)"
  by (simp add: schedule_raw length_raw_slots)

lemma index_update_enumerate:
  "map (\<lambda>s. f s) (map (\<lambda>(i, s). s\<lparr>sl_index := int i\<rparr>) (enumerate k xs)) = map f xs"
  if "\<And>s i. f (s\<lparr>sl_index := i\<rparr>) = f s"
  by (induction xs arbitrary: k) (auto simp: that)

lemma map_schedule:
  assumes "\<And>s i. f (s\<lparr>sl_index := i\<rparr>) = f s"
  shows "map f (schedule reqs rng) =
    map f (sort_key slot_key (raw_slots reqs (dates_in_range (fst rng) (snd rng))))"
  unfolding schedule_raw using index_update_enumerate[of f, OF assms] by simp

lemma schedule_nth_index: "i < length (schedule reqs rng) \<Longrightarrow> sl_index (schedule reqs rng ! i) = int i"
  by (simp add: schedule_raw nth_enumerate_eq)

lemma slot_key_index [simp]: "slot_key (s\<lparr>sl_index := i\<rparr>) = slot_key s"
  by (simp add: slot_key_def)

lemma schedule_slot_of:
  assumes "s \<in> set (schedule reqs rng)"
  shows "\<exists>req \<in> set reqs. \<exists>d \<in> allowed_dates req (dates_in_range (fst rng) (snd rng)).
    s = (slot_of req d)\<lparr>sl_index := sl_index s\<rparr>"
proof -
  let ?pool = "dates_in_range (fst rng) (snd rng)"
  from assms obtain i t where t: "t \<in> set (raw_slots reqs ?pool)" "s = t\<lparr>sl_index := int i\<rparr>"
    by (auto simp: schedule_raw in_set_enumerate_eq) (metis length_sort nth_mem set_sort)
  then obtain req d where "req \<in> set reqs" "d \<in> set (pick_dates req ?pool)" "t = slot_of req d"
    by (auto simp: raw_slots_def)
  with t set_pick_dates[of ?pool req] show ?thesis by (intro bexI[of _ req] bexI[of _ d]) auto
qed

text \<open>C36 The schedule has exactly the requested meals: as many slots as the sum of the
  requested counts, and of each meal type as many as are requested of it; the slots are
  numbered 0, 1, 2, \<dots>, ordered by date and then by the order of the meals in a day, and each
  is on one of the selected dates of its requirement or, without selection, inside the range.\<close>

theorem schedule_exact:
  "length (schedule reqs rng) = sum_list (map (\<lambda>r. nat (mr_requested_count r)) reqs) \<and>
   map sl_index (schedule reqs rng) = map int [0..<length (schedule reqs rng)] \<and>
   sorted (map slot_key (schedule reqs rng)) \<and>
   length (filter (\<lambda>s. sl_meal_type s = mt) (schedule reqs rng)) =
     sum_list (map (\<lambda>r. if mr_meal_type r = mt then nat (mr_requested_count r) else 0) reqs) \<and>
   list_all (\<lambda>s. list_ex (\<lambda>r. sl_meal_type s = mr_meal_type r \<and> sl_servings s = mr_default_servings r \<and>
       sl_maximum_preparation_minutes s = mr_maximum_preparation_minutes r \<and>
       (case mr_selected_dates r of Some (d # ds) \<Rightarrow> sl_date s \<in> set (d # ds)
        | _ \<Rightarrow> fst rng \<le> sl_date s \<and> sl_date s \<le> max (fst rng) (snd rng))) reqs)
     (schedule reqs rng)"
proof -
  let ?pool = "dates_in_range (fst rng) (snd rng)"
  have "map sl_index (schedule reqs rng) = map int [0..<length (schedule reqs rng)]"
    by (rule nth_equalityI) (simp_all add: schedule_nth_index)
  moreover have "sorted (map slot_key (schedule reqs rng))"
    by (simp add: map_schedule)
  moreover have "length (filter (\<lambda>s. sl_meal_type s = mt) (schedule reqs rng)) =
      length (filter ((=) mt) (map sl_meal_type (schedule reqs rng)))"
    by (simp add: filter_map comp_def eq_commute)
  then have "length (filter (\<lambda>s. sl_meal_type s = mt) (schedule reqs rng)) =
      length (filter (\<lambda>s. sl_meal_type s = mt) (sort_key slot_key (raw_slots reqs ?pool)))"
    by (simp add: map_schedule filter_map comp_def eq_commute)
  then have "length (filter (\<lambda>s. sl_meal_type s = mt) (schedule reqs rng)) =
      sum_list (map (\<lambda>r. if mr_meal_type r = mt then nat (mr_requested_count r) else 0) reqs)"
    by (simp add: filter_sort length_raw_slots_type)
  moreover have "list_all (\<lambda>s. list_ex (\<lambda>r. sl_meal_type s = mr_meal_type r \<and> sl_servings s = mr_default_servings r \<and>
       sl_maximum_preparation_minutes s = mr_maximum_preparation_minutes r \<and>
       (case mr_selected_dates r of Some (d # ds) \<Rightarrow> sl_date s \<in> set (d # ds)
        | _ \<Rightarrow> fst rng \<le> sl_date s \<and> sl_date s \<le> max (fst rng) (snd rng))) reqs)
     (schedule reqs rng)"
    unfolding list_all_iff list_ex_iff
  proof
    fix s assume "s \<in> set (schedule reqs rng)"
    from schedule_slot_of[OF this] obtain r d where r: "r \<in> set reqs" "d \<in> allowed_dates r ?pool"
      "s = (slot_of r d)\<lparr>sl_index := sl_index s\<rparr>" by blast
    have f: "sl_meal_type s = mr_meal_type r" "sl_servings s = mr_default_servings r"
      "sl_maximum_preparation_minutes s = mr_maximum_preparation_minutes r" "sl_date s = d"
      by (subst r(3), simp add: slot_of_def)+
    with r(1,2) show "\<exists>r\<in>set reqs. sl_meal_type s = mr_meal_type r \<and> sl_servings s = mr_default_servings r \<and>
       sl_maximum_preparation_minutes s = mr_maximum_preparation_minutes r \<and>
       (case mr_selected_dates r of Some (d # ds) \<Rightarrow> sl_date s \<in> set (d # ds)
        | _ \<Rightarrow> fst rng \<le> sl_date s \<and> sl_date s \<le> max (fst rng) (snd rng))"
      by (intro bexI[of _ r]) (auto simp: allowed_dates_def set_dates_in_range split: option.splits list.splits)
  qed
  ultimately show ?thesis using length_schedule by blast
qed

lemma spread_strict:
  assumes "0 \<le> i" "i < j" "0 < c" "c \<le> n"
  shows "i * n div c < j * n div (c::int)"
proof -
  have "i * n + n \<le> j * n" using assms mult_right_mono[of "i + 1" j n] by (simp add: distrib_right)
  then have "i * n + c \<le> j * n" using assms by linarith
  then have "(i * n + c) div c \<le> j * n div c" using assms by (intro zdiv_mono1) auto
  then show ?thesis using assms by simp
qed

lemma spread_hits:
  assumes "0 \<le> k" "k < n" "0 < n" "n \<le> (c::int)"
  shows "\<exists>i. 0 \<le> i \<and> i < c \<and> i * n div c = k"
proof -
  define i where "i = - ((- (k * c)) div n)"
  have d: "(- (k * c)) = n * (- i) + (- (k * c)) mod n"
    unfolding i_def by simp
  have m: "0 \<le> (- (k * c)) mod n" "(- (k * c)) mod n < n" using assms by simp_all
  have lo: "k * c \<le> i * n" using d m by (simp add: algebra_simps)
  have hi: "i * n < k * c + n" using d m by (simp add: algebra_simps)
  have kc: "0 \<le> k * c" using assms by simp
  have "0 \<le> i" using lo kc assms by (metis mult_neg_pos not_less order_trans)
  moreover have "i * n < (k + 1) * c" using hi assms by (simp add: algebra_simps)
  moreover have "(k + 1) * c \<le> n * c" using assms by (intro mult_right_mono) auto
  then have "i < c" using \<open>i * n < (k + 1) * c\<close> assms by (metis mult.commute mult_less_cancel_right order_less_le_trans not_less_iff_gr_or_eq)
  moreover have "i * n div c = k"
    using lo \<open>i * n < (k + 1) * c\<close> assms by (intro int_div_pos_eq[of _ _ _ "i * n - k * c"]) (auto simp: algebra_simps)
  ultimately show ?thesis by blast
qed

lemma distinct_dates_in_range [simp]: "distinct (dates_in_range s e)"
  by (auto simp: dates_in_range_def distinct_map inj_on_def)

lemma distinct_spread:
  assumes "distinct pool" "pool \<noteq> []" "0 < c" "c \<le> int (length pool)"
  shows "distinct (spread pool c)"
proof -
  let ?n = "int (length pool)"
  have "inj_on (\<lambda>i. pool ! nat (i * ?n div c)) {0..c - 1}"
  proof (rule linorder_inj_onI)
    fix i j assume ij: "i < j" "i \<in> {0..c - 1}" "j \<in> {0..c - 1}"
    have "i * ?n div c < j * ?n div c" by (rule spread_strict) (use ij assms in auto)
    with ij spread_index[of i c ?n] spread_index[of j c ?n] assms
    show "pool ! nat (i * ?n div c) \<noteq> pool ! nat (j * ?n div c)"
      by (subst nth_eq_iff_index_eq[OF assms(1)]) (auto simp: nat_less_iff eq_nat_nat_iff)
  qed auto
  then show ?thesis by (simp add: spread_def distinct_map)
qed

text \<open>Even distribution. When a requirement is distributed automatically over a range with
  at least as many days as meals, no day gets two of them; with at least as many meals as
  days, every day of the range gets one.\<close>

theorem auto_distribution:
  assumes "mr_selected_dates req = None" "mr_preferred_days req = None" "mr_auto_distribute req"
    and "0 < mr_requested_count req"
  shows "distinct (pick_dates req (dates_in_range s e)) = (mr_requested_count req \<le> int (length (dates_in_range s e))) \<and>
    (set (pick_dates req (dates_in_range s e)) = {s..max s e}) = (int (length (dates_in_range s e)) \<le> mr_requested_count req)"
proof -
  let ?pool = "dates_in_range s e" and ?c = "mr_requested_count req"
  let ?n = "int (length ?pool)"
  have p: "pick_dates req ?pool = spread ?pool ?c" using assms by (simp add: pick_dates_def)
  have lp: "card (set ?pool) = length ?pool" by (rule distinct_card) simp
  have sub: "set (spread ?pool ?c) \<subseteq> set ?pool" by (rule set_spread) simp
  have le: "?c \<le> ?n" if d: "distinct (spread ?pool ?c)"
  proof -
    have "card (set (spread ?pool ?c)) \<le> card (set ?pool)" by (rule card_mono[OF _ sub]) simp
    then show ?thesis unfolding lp distinct_card[OF d] length_spread using assms(4) by linarith
  qed
  have hit: "set ?pool \<subseteq> set (spread ?pool ?c)" if "?n \<le> ?c"
  proof
    fix x assume "x \<in> set ?pool"
    then obtain k where k: "k < length ?pool" "x = ?pool ! k" by (auto simp: in_set_conv_nth)
    have "\<exists>i. 0 \<le> i \<and> i < ?c \<and> i * ?n div ?c = int k"
      by (rule spread_hits) (use k(1) that in linarith)+
    then obtain i where i: "i \<in> {0..?c - 1}" "i * ?n div ?c = int k" by fastforce
    then have "x = ?pool ! nat (i * ?n div ?c)" by (simp add: k(2))
    with i(1) show "x \<in> set (spread ?pool ?c)" unfolding spread_def set_map set_upto by (rule rev_image_eqI)
  qed
  have ge: "?n \<le> ?c" if "set (spread ?pool ?c) = set ?pool"
    using card_length[of "spread ?pool ?c"] unfolding that lp length_spread using assms(4) by linarith
  have "distinct (spread ?pool ?c) \<longleftrightarrow> ?c \<le> ?n"
    by (rule iffI[OF le distinct_spread[OF distinct_dates_in_range dates_in_range_nonempty assms(4)]])
  moreover have "set (spread ?pool ?c) = set ?pool \<longleftrightarrow> ?n \<le> ?c"
    by (rule iffI[OF ge subset_antisym[OF sub hit]])
  ultimately show ?thesis
    unfolding p set_dates_in_range[symmetric] by (rule conjI)
qed

theorem auto_distribution_witness:
  "distinct (pick_dates
     \<lparr>mr_meal_type = Lunch, mr_requested_count = 3, mr_default_servings = 2, mr_selected_dates = None,
      mr_auto_distribute = True, mr_preferred_days = None, mr_maximum_preparation_minutes = None,
      mr_requires_tupper = False, mr_reheating_available = True\<rparr> (dates_in_range 10 16))"
proof -
  let ?r = "\<lparr>mr_meal_type = Lunch, mr_requested_count = 3, mr_default_servings = 2, mr_selected_dates = None,
      mr_auto_distribute = True, mr_preferred_days = None, mr_maximum_preparation_minutes = None,
      mr_requires_tupper = False, mr_reheating_available = True\<rparr>"
  have "int (length (dates_in_range 10 16)) = 7" by (simp add: dates_in_range_def)
  moreover have "distinct (pick_dates ?r (dates_in_range 10 16)) =
      (mr_requested_count ?r \<le> int (length (dates_in_range 10 16)))"
    by (rule auto_distribution[THEN conjunct1]) simp_all
  ultimately show ?thesis by simp
qed

end
