(* ===== verification/Examples.thy ===== *)
theory Examples
  imports Contracts
begin

text \<open>
  Small households, recipes and products on which the properties with hypotheses are
  evaluated. They model no code.
\<close>

definition example_member :: "string \<Rightarrow> string set \<Rightarrow> string set \<Rightarrow> string set \<Rightarrow> member_dto" where
  "example_member alias allergens strict restrictions =
     \<lparr>mb_alias = alias, mb_relative_serving = 1, mb_allergens = allergens,
      mb_strict_allergen_codes = strict, mb_hard_restrictions = restrictions,
      mb_soft_preferences = [], mb_rejected_recipe_ids = {}\<rparr>"

definition example_ingredient :: "string \<Rightarrow> dec \<Rightarrow> string \<Rightarrow> recipe_ingredient_dto" where
  "example_ingredient name quantity unit =
     \<lparr>ri_canonical_name = name, ri_display_name = name, ri_quantity = quantity, ri_unit = unit,
      ri_optional = False, ri_substitution_group = None, ri_category = None,
      ri_allergen_assessed = True\<rparr>"

definition example_recipe :: "string \<Rightarrow> int \<Rightarrow> recipe_ingredient_dto list \<Rightarrow> candidate_recipe_dto" where
  "example_recipe rid servings ingredients =
     \<lparr>cr_recipe_id = rid, cr_title = rid, cr_description = '''', cr_servings = servings,
      cr_meal_types = {Lunch, Dinner}, cr_cuisine = ''casa'', cr_preference_tags = [],
      cr_ingredients = ingredients, cr_steps = [], cr_preparation_minutes = 10,
      cr_cooking_minutes = 20, cr_required_equipment = {}, cr_leftover_reuse = False,
      cr_storage_instructions = None, cr_reheating_instructions = None,
      cr_allergens_declared = {}\<rparr>"

definition example_package :: "string \<Rightarrow> dec \<Rightarrow> dec \<Rightarrow> package_option_dto" where
  "example_package pid qty price =
     \<lparr>po_product_id = pid, po_package_quantity = qty, po_package_unit = ''g'', po_amount = price,
      po_unit_price = 0, po_availability = InStock, po_source_type = ''catalog'',
      po_source_name = ''tienda'', po_observed_at = None, po_expires_at = None,
      po_confidence_score = 1, po_has_price = True\<rparr>"

definition example_product :: "string \<Rightarrow> string set \<Rightarrow> package_option_dto list \<Rightarrow> catalog_product_dto" where
  "example_product name allergens packages =
     \<lparr>cp_product_id = name @ ''-id'', cp_canonical_name = name, cp_display_name = name,
      cp_category = ''despensa'', cp_packages = packages, cp_nutrition = None,
      cp_allergens = allergens\<rparr>"

definition example_requirement :: "meal_type \<Rightarrow> int \<Rightarrow> meal_requirement_dto" where
  "example_requirement mt count =
     \<lparr>mr_meal_type = mt, mr_requested_count = count, mr_default_servings = 2,
      mr_selected_dates = None, mr_auto_distribute = True, mr_preferred_days = None,
      mr_maximum_preparation_minutes = None, mr_requires_tupper = False,
      mr_reheating_available = True\<rparr>"

definition example_budget :: "dec \<Rightarrow> budget_dto" where
  "example_budget amount =
     \<lparr>bg_amount = amount, bg_currency = ''EUR'', bg_strict = True, bg_max_margin_ratio = 0,
      bg_includes_pantry_staples = False, bg_includes_condiments = False,
      bg_priority = PriorityPrice\<rparr>"

lemmas example_defs = example_member_def example_ingredient_def example_recipe_def
  example_package_def example_product_def example_requirement_def example_budget_def

end
