(* ===== verification/Validators.thy ===== *)
theory Validators
  imports Examples
begin

text \<open>
  \<open>cestaplan_engine/validators.py\<close>: the allergen gate and the dietary restrictions. The two
  classes keep one dictionary built from the catalog, \<open>by_ingredient\<close>. A \<open>violation\<close> stands
  for the text appended to \<open>hard_violations\<close>. Python iterates \<open>_lower_set(hard_restrictions)\<close>,
  a set, in an order of its own; the model takes the sorted one, which affects only the order
  of the texts.
\<close>

definition restriction_forbidden :: "(string, string set) dict" where
  "restriction_forbidden =
     [(''vegan'', {''meat'', ''poultry'', ''fish'', ''shellfish'', ''milk'', ''dairy'', ''egg'', ''eggs'', ''honey''}),
      (''vegetarian'', {''meat'', ''fish'', ''shellfish'', ''poultry''}),
      (''gluten_free'', {''gluten'', ''wheat'', ''barley'', ''rye''}),
      (''lactose_free'', {''lactose'', ''milk'', ''dairy''}),
      (''pescatarian'', {''meat'', ''poultry''}),
      (''halal'', {''pork'', ''alcohol''}),
      (''kosher'', {''pork'', ''shellfish''})]"

definition diet_aliases :: "(string, string) dict" where
  "diet_aliases =
     [(''vegano'', ''vegan''), (''vegana'', ''vegan''),
      (''vegetariano'', ''vegetarian''), (''vegetariana'', ''vegetarian''),
      (''pescetariano'', ''pescatarian''), (''pescetariana'', ''pescatarian''),
      (''pescatariano'', ''pescatarian''),
      (''sin_gluten'', ''gluten_free''), (''sin gluten'', ''gluten_free''),
      (''sin_lactosa'', ''lactose_free''), (''sin lactosa'', ''lactose_free''),
      (''omnivoro'', ''''), (''omn'' @ [CHR 0xED] @ ''voro'', '''')]"

definition category_forbids :: "(string, string set) dict" where
  "category_forbids =
     [(''carne'', {''meat'', ''poultry''}), (''pescado_marisco'', {''fish'', ''shellfish''}),
      (''huevos'', {''egg'', ''eggs''}), (''lacteos'', {''milk'', ''dairy''})]"

definition allergen_canon :: "(string, string) dict" where
  "allergen_canon =
     [(''crustaceans'', ''crustacean''), (''crustaceos'', ''crustacean''),
      (''crust'' @ [CHR 0xE1] @ ''ceos'', ''crustacean''),
      (''molluscs'', ''mollusc''), (''moluscos'', ''mollusc''),
      (''eggs'', ''egg''), (''huevo'', ''egg''), (''huevos'', ''egg''),
      (''peanuts'', ''peanut''), (''cacahuete'', ''peanut''), (''cacahuetes'', ''peanut''), (''mani'', ''peanut''),
      (''soybeans'', ''soy''), (''soybean'', ''soy''), (''soya'', ''soy''), (''soja'', ''soy''),
      (''nuts'', ''tree_nut''), (''tree_nuts'', ''tree_nut''), (''frutos_secos'', ''tree_nut''),
      (''frutos_de_cascara'', ''tree_nut''), (''frutos de c'' @ [CHR 0xE1] @ ''scara'', ''tree_nut''),
      (''sulphites'', ''sulphite''), (''sulfites'', ''sulphite''), (''sulfito'', ''sulphite''), (''sulfitos'', ''sulphite''),
      (''milk'', ''milk''), (''lactose'', ''milk''), (''dairy'', ''milk''), (''leche'', ''milk''), (''lactosa'', ''milk''),
      (''gluten'', ''gluten''), (''wheat'', ''gluten''), (''trigo'', ''gluten''),
      (''fish'', ''fish''), (''pescado'', ''fish''),
      (''sesame'', ''sesame''), (''sesamo'', ''sesame''), (''s'' @ [CHR 0xE9] @ ''samo'', ''sesame''),
      (''celery'', ''celery''), (''apio'', ''celery''),
      (''mustard'', ''mustard''), (''mostaza'', ''mustard''),
      (''lupin'', ''lupin''), (''lupins'', ''lupin''), (''altramuces'', ''lupin'')]"

datatype violation =
    AllergenConflict string string
  | AllergenUnassessed "string list" bool string
  | DietViolation string "string list" string
  | ExcludedIngredient string string

datatype dislike = Dislike string string

record validation_result =
  vr_valid :: bool
  vr_hard_violations :: "violation list"
  vr_soft_violations :: "dislike list"
  vr_warnings :: "message list"

definition validation_ok :: validation_result where
  "validation_ok = \<lparr>vr_valid = True, vr_hard_violations = [], vr_soft_violations = [], vr_warnings = []\<rparr>"

definition add_hard :: "violation list \<Rightarrow> validation_result \<Rightarrow> validation_result" where
  "add_hard vs r = r\<lparr>vr_valid := False, vr_hard_violations := vr_hard_violations r @ vs\<rparr>"

definition norm_code :: "string \<Rightarrow> string" where
  "norm_code v = py_lower (py_strip v)"

definition lower_set :: "string set \<Rightarrow> string set" where
  "lower_set values = norm_code ` Set.filter (\<lambda>v. py_strip v \<noteq> []) values"

definition canon_code :: "string \<Rightarrow> string" where
  "canon_code code = dget allergen_canon code code"

definition canon_allergens :: "string set \<Rightarrow> string set" where
  "canon_allergens values = canon_code ` Set.filter (\<lambda>code. code \<noteq> []) (norm_code ` values)"


section \<open>AllergenValidator\<close>

definition add_product_allergens ::
  "catalog_product_dto \<Rightarrow> (string, string set) dict \<Rightarrow> (string, string set) dict" where
  "add_product_allergens product d =
     dset (cp_canonical_name product)
       (dget d (cp_canonical_name product) {} \<union> lower_set (cp_allergens product)) d"

definition allergen_validator_init :: "catalog_product_dto list \<Rightarrow> (string, string set) dict" where
  "allergen_validator_init catalog = fold add_product_allergens catalog []"

definition derived_allergens :: "(string, string set) dict \<Rightarrow> candidate_recipe_dto \<Rightarrow> string set" where
  "derived_allergens by_ingredient recipe =
     canon_allergens (fold (\<lambda>ing acc. acc \<union> dget by_ingredient (ri_canonical_name ing) {})
       (cr_ingredients recipe) (lower_set (cr_allergens_declared recipe)))"

definition allergen_validate ::
  "(string, string set) dict \<Rightarrow> candidate_recipe_dto \<Rightarrow> member_dto list \<Rightarrow> validation_result" where
  "allergen_validate by_ingredient recipe members =
     (let household_allergens = fold (\<lambda>m acc. acc \<union> canon_allergens (mb_allergens m)) members {};
          strict = fold (\<lambda>m acc. acc \<union> canon_allergens (mb_strict_allergen_codes m)) members {};
          result = validation_ok;
          conflict = derived_allergens by_ingredient recipe \<inter> household_allergens;
          result = (if household_allergens \<noteq> {} \<and> conflict \<noteq> {}
                    then add_hard (map (\<lambda>a. AllergenConflict a (cr_title recipe)) (sorted_list_of_set conflict)) result
                    else result);
          unassessed = sort (map ri_canonical_name
            (filter (\<lambda>ing. \<not> ri_allergen_assessed ing) (cr_ingredients recipe)));
          result = (if strict \<noteq> {} \<and> unassessed \<noteq> []
                    then add_hard [AllergenUnassessed (take 3 unassessed) (3 < length unassessed) (cr_title recipe)] result
                    else result);
          declared_any = (cr_allergens_declared recipe \<noteq> {} \<or>
            list_ex (\<lambda>ing. map_of by_ingredient (ri_canonical_name ing) \<noteq> None) (cr_ingredients recipe))
      in if declared_any then result
         else result\<lparr>vr_warnings := vr_warnings result @ [NoAllergenData (cr_title recipe)]\<rparr>)"


section \<open>DietaryRestrictionValidator\<close>

text \<open>\<open>[p for p in re.split(r"[_\s]+", s) if p]\<close>.\<close>

fun word_parts_from :: "string \<Rightarrow> string \<Rightarrow> string list" where
  "word_parts_from word [] = (if word = [] then [] else [word])"
| "word_parts_from word (c # cs) =
     (if c = CHR ''_'' \<or> py_space c
      then (if word = [] then word_parts_from [] cs else word # word_parts_from [] cs)
      else word_parts_from (word @ [c]) cs)"

definition word_parts :: "string \<Rightarrow> string list" where
  "word_parts s = word_parts_from [] s"

definition ingredient_tokens :: "(string, string set) dict \<Rightarrow> recipe_ingredient_dto \<Rightarrow> string set" where
  "ingredient_tokens by_ingredient ing =
     (let cn = norm_code (ri_canonical_name ing) in
      insert cn (set (word_parts cn)) \<union> dget by_ingredient (ri_canonical_name ing) {} \<union>
      (case ri_category ing of
         None \<Rightarrow> {}
       | Some category \<Rightarrow> if category = [] then {} else dget category_forbids (norm_code category) {}))"

definition recipe_tokens :: "(string, string set) dict \<Rightarrow> candidate_recipe_dto \<Rightarrow> string set" where
  "recipe_tokens by_ingredient recipe =
     fold (\<lambda>ing acc. acc \<union> ingredient_tokens by_ingredient ing) (cr_ingredients recipe)
       (lower_set (set (cr_preference_tags recipe)) \<union> lower_set (cr_allergens_declared recipe))"

definition check_restriction ::
  "string set \<Rightarrow> member_dto \<Rightarrow> string \<Rightarrow> validation_result \<Rightarrow> validation_result" where
  "check_restriction tokens member restriction result =
     (let diet = dget diet_aliases restriction restriction in
      case map_of restriction_forbidden diet of
        Some forbidden \<Rightarrow>
          (let hit = tokens \<inter> forbidden in
           if hit \<noteq> {} then add_hard [DietViolation diet (sorted_list_of_set hit) (mb_alias member)] result
           else result)
      | None \<Rightarrow>
          if restriction \<in> tokens then add_hard [ExcludedIngredient restriction (mb_alias member)] result
          else result)"

text \<open>\<open>token.split(":", 1)[1]\<close> of a token that begins with \<open>avoid:\<close>.\<close>

definition check_preference ::
  "string set \<Rightarrow> member_dto \<Rightarrow> string \<Rightarrow> validation_result \<Rightarrow> validation_result" where
  "check_preference tokens member pref result =
     (let token = norm_code pref in
      if starts_with ''avoid:'' token then
        (let avoided = drop 6 token in
         if avoided \<noteq> [] \<and> avoided \<in> tokens
         then result\<lparr>vr_soft_violations := vr_soft_violations result @ [Dislike avoided (mb_alias member)]\<rparr>
         else result)
      else result)"

definition diet_check_member :: "string set \<Rightarrow> member_dto \<Rightarrow> validation_result \<Rightarrow> validation_result" where
  "diet_check_member tokens member result =
     fold (check_preference tokens member) (mb_soft_preferences member)
       (fold (check_restriction tokens member) (sorted_list_of_set (lower_set (mb_hard_restrictions member))) result)"

definition diet_validate ::
  "(string, string set) dict \<Rightarrow> candidate_recipe_dto \<Rightarrow> member_dto list \<Rightarrow> validation_result" where
  "diet_validate by_ingredient recipe members =
     fold (diet_check_member (recipe_tokens by_ingredient recipe)) members validation_ok"


section \<open>Lemmas: codes and catalog\<close>

lemma fold_Un: "fold (\<lambda>x acc. acc \<union> f x) xs A = A \<union> (\<Union>x \<in> set xs. f x)"
  by (induction xs arbitrary: A) auto

lemma norm_code_idem [simp]: "norm_code (norm_code v) = norm_code v"
  by (simp add: norm_code_def py_strip_lower)

lemma norm_code_Nil [simp]: "norm_code v = [] \<longleftrightarrow> py_strip v = []"
  by (simp add: norm_code_def py_lower_def)

lemma in_canon_allergens:
  "c \<in> canon_allergens A \<longleftrightarrow> (\<exists>v \<in> A. py_strip v \<noteq> [] \<and> c = canon_code (norm_code v))"
  by (auto simp: canon_allergens_def)

lemma in_lower_set: "c \<in> lower_set A \<longleftrightarrow> (\<exists>v \<in> A. py_strip v \<noteq> [] \<and> c = norm_code v)"
  by (auto simp: lower_set_def)

lemma strip_norm_code [simp]: "py_strip (norm_code v) = norm_code v"
  by (simp add: norm_code_def py_strip_lower)

lemma canon_allergens_lower_image: "canon_allergens A = canon_code ` lower_set A"
proof -
  have "Set.filter (\<lambda>code. code \<noteq> []) (norm_code ` A) = lower_set A"
    unfolding lower_set_def by (auto simp: image_iff)
  then show ?thesis by (simp add: canon_allergens_def)
qed

lemma lower_set_idem [simp]: "lower_set (lower_set A) = lower_set A"
proof -
  have "norm_code c = c \<and> py_strip c \<noteq> []" if "c \<in> lower_set A" for c
    using that by (auto simp: in_lower_set)
  then have "Set.filter (\<lambda>v. py_strip v \<noteq> []) (lower_set A) = lower_set A"
    and "norm_code ` lower_set A = lower_set A" by (auto simp: image_iff)
  then show ?thesis unfolding lower_set_def[of "lower_set A"] by (simp only:)
qed

lemma canon_allergens_lower: "canon_allergens (lower_set A) = canon_allergens A"
  by (simp add: canon_allergens_lower_image)

lemma canon_allergens_Un: "canon_allergens (A \<union> B) = canon_allergens A \<union> canon_allergens B"
  by (auto simp: in_canon_allergens)

lemma canon_allergens_UN: "canon_allergens (\<Union>x \<in> S. f x) = (\<Union>x \<in> S. canon_allergens (f x))"
  by (fastforce simp: in_canon_allergens)

text \<open>The target column of the table consists of normal codes that the table leaves alone.\<close>

definition canon_fixed :: "string \<Rightarrow> bool" where
  "canon_fixed c \<longleftrightarrow> c \<noteq> [] \<and> norm_code c = c \<and> canon_code c = c"

lemma canon_table_fixed: "list_all (\<lambda>(_, c). canon_fixed c) allergen_canon"
  by code_simp

lemma canon_code_fixed: "py_strip v \<noteq> [] \<Longrightarrow> canon_fixed (canon_code (norm_code v))"
proof (cases "map_of allergen_canon (norm_code v)")
  case None
  moreover assume "py_strip v \<noteq> []"
  ultimately show ?thesis by (simp add: canon_fixed_def canon_code_def dget_def)
next
  case (Some c)
  then have "canon_fixed c" using canon_table_fixed by (auto simp: list_all_iff dest!: map_of_SomeD)
  with Some show ?thesis by (simp add: canon_code_def dget_def)
qed

lemma canon_allergens_idem: "canon_allergens (canon_allergens A) = canon_allergens A"
proof -
  have "norm_code c = c \<and> canon_code c = c \<and> py_strip c \<noteq> []" if "c \<in> canon_allergens A" for c
  proof -
    from that have "canon_fixed c" using canon_code_fixed by (auto simp: in_canon_allergens)
    then show ?thesis using norm_code_Nil[of c] by (auto simp: canon_fixed_def)
  qed
  then show ?thesis unfolding set_eq_iff in_canon_allergens[of _ "canon_allergens A"] by metis
qed

lemma dget_allergen_init:
  "dget (allergen_validator_init catalog) n {} =
     (\<Union>p \<in> {p \<in> set catalog. cp_canonical_name p = n}. lower_set (cp_allergens p))"
proof -
  have "dget (fold add_product_allergens catalog d) n {} =
      dget d n {} \<union> (\<Union>p \<in> {p \<in> set catalog. cp_canonical_name p = n}. lower_set (cp_allergens p))" for d
    by (induction catalog arbitrary: d) (auto simp: add_product_allergens_def)
  then show ?thesis by (simp add: allergen_validator_init_def)
qed

text \<open>The allergens of a recipe: its own and those of the catalog products its ingredients name.\<close>

definition recipe_allergen_sources :: "catalog_product_dto list \<Rightarrow> candidate_recipe_dto \<Rightarrow> string set" where
  "recipe_allergen_sources catalog recipe =
     cr_allergens_declared recipe \<union>
     (\<Union>p \<in> set (filter (\<lambda>p. list_ex (\<lambda>ing. ri_canonical_name ing = cp_canonical_name p) (cr_ingredients recipe)) catalog).
        cp_allergens p)"

lemma derived_allergens_sources:
  "derived_allergens (allergen_validator_init catalog) recipe =
     canon_allergens (recipe_allergen_sources catalog recipe)"
proof -
  have swap: "(\<Union>ing \<in> set ings. \<Union>p \<in> {p \<in> set catalog. cp_canonical_name p = ri_canonical_name ing}. F p) =
     (\<Union>p \<in> set (filter (\<lambda>p. list_ex (\<lambda>ing. ri_canonical_name ing = cp_canonical_name p) ings) catalog). F p)"
    for ings and F :: "catalog_product_dto \<Rightarrow> string set"
  proof (intro set_eqI iffI)
    fix x assume "x \<in> (\<Union>ing \<in> set ings. \<Union>p \<in> {p \<in> set catalog. cp_canonical_name p = ri_canonical_name ing}. F p)"
    then obtain ing p where "ing \<in> set ings" "p \<in> set catalog" "cp_canonical_name p = ri_canonical_name ing" "x \<in> F p"
      by (elim UN_E CollectE conjE)
    then show "x \<in> (\<Union>p \<in> set (filter (\<lambda>p. list_ex (\<lambda>ing. ri_canonical_name ing = cp_canonical_name p) ings) catalog). F p)"
      by (intro UN_I[of p]) (auto simp: list_ex_iff intro: bexI[of _ ing])
  next
    fix x assume "x \<in> (\<Union>p \<in> set (filter (\<lambda>p. list_ex (\<lambda>ing. ri_canonical_name ing = cp_canonical_name p) ings) catalog). F p)"
    then obtain ing p where "ing \<in> set ings" "p \<in> set catalog" "ri_canonical_name ing = cp_canonical_name p" "x \<in> F p"
      by (auto simp: list_ex_iff)
    then show "x \<in> (\<Union>ing \<in> set ings. \<Union>p \<in> {p \<in> set catalog. cp_canonical_name p = ri_canonical_name ing}. F p)"
      by (intro UN_I[of ing] UN_I[of p]) simp_all
  qed
  have "derived_allergens (allergen_validator_init catalog) recipe =
      canon_allergens (cr_allergens_declared recipe) \<union>
      (\<Union>ing \<in> set (cr_ingredients recipe). \<Union>p \<in> {p \<in> set catalog. cp_canonical_name p = ri_canonical_name ing}.
         canon_allergens (cp_allergens p))"
    by (simp only: derived_allergens_def fold_Un dget_allergen_init canon_allergens_Un canon_allergens_UN
        canon_allergens_lower)
  then show ?thesis
    unfolding swap by (simp only: recipe_allergen_sources_def canon_allergens_Un canon_allergens_UN)
qed


section \<open>The allergen gate\<close>

lemma allergen_validate_valid:
  "vr_valid (allergen_validate d recipe members) \<longleftrightarrow>
     derived_allergens d recipe \<inter> (\<Union>m \<in> set members. canon_allergens (mb_allergens m)) = {} \<and>
     ((\<exists>m \<in> set members. canon_allergens (mb_strict_allergen_codes m) \<noteq> {}) \<longrightarrow>
       (\<forall>ing \<in> set (cr_ingredients recipe). ri_allergen_assessed ing))"
proof -
  have e: "sort (map ri_canonical_name (filter (\<lambda>ing. \<not> ri_allergen_assessed ing) (cr_ingredients recipe))) = []
      \<longleftrightarrow> (\<forall>ing \<in> set (cr_ingredients recipe). ri_allergen_assessed ing)"
    by (metis (no_types, lifting) filter_empty_conv length_0_conv length_sort map_is_Nil_conv)
  show ?thesis
    unfolding allergen_validate_def Let_def fold_Un e
    by (auto simp: add_hard_def validation_ok_def)
qed

lemma allergen_validate_violations:
  "vr_valid (allergen_validate d recipe members) \<longleftrightarrow> vr_hard_violations (allergen_validate d recipe members) = []"
  if "finite (derived_allergens d recipe)"
  using that by (auto simp: allergen_validate_def Let_def add_hard_def validation_ok_def sorted_list_of_set_eq_Nil_iff)

text \<open>C21 The allergen gate. A recipe passes exactly when no allergen code of a member denotes
  the same allergen as a code declared by the recipe or carried by a catalog product of one of
  its ingredients, spelling, case, surrounding space and the table of synonyms set aside, and,
  if some member has a serious allergy, every ingredient of the recipe has been assessed.\<close>

theorem allergen_gate:
  "vr_valid (allergen_validate (allergen_validator_init catalog) recipe members) =
     ((\<forall>m \<in> set members. \<forall>v \<in> mb_allergens m. \<forall>w \<in> recipe_allergen_sources catalog recipe.
         py_strip v \<noteq> [] \<longrightarrow> py_strip w \<noteq> [] \<longrightarrow> canon_code (norm_code v) \<noteq> canon_code (norm_code w)) \<and>
      ((\<exists>m \<in> set members. \<exists>v \<in> mb_strict_allergen_codes m. py_strip v \<noteq> []) \<longrightarrow>
         list_all ri_allergen_assessed (cr_ingredients recipe)))"
proof -
  have a: "(A \<inter> (\<Union>m \<in> set members. canon_allergens (mb_allergens m)) = {}) \<longleftrightarrow>
      (\<forall>m \<in> set members. \<forall>v \<in> mb_allergens m. py_strip v \<noteq> [] \<longrightarrow> canon_code (norm_code v) \<notin> A)" for A
    by (fastforce simp: in_canon_allergens disjoint_iff)
  have b: "canon_allergens S \<noteq> {} \<longleftrightarrow> (\<exists>v \<in> S. py_strip v \<noteq> [])" for S
    by (auto simp: in_canon_allergens set_eq_iff)
  show ?thesis
    unfolding allergen_validate_valid derived_allergens_sources a b
    by (auto simp: in_canon_allergens list_all_iff)
qed

theorem allergen_gate_witness:
  "\<not> vr_valid (allergen_validate
      (allergen_validator_init [example_product ''mayonesa'' {'' Huevo ''} []])
      (example_recipe ''ensaladilla'' 2 [example_ingredient ''mayonesa'' 50 ''g''])
      [example_member ''ana'' {''EGGS''} {} {}])"
proof -
  have "canon_code (norm_code ''EGGS'') = canon_code (norm_code '' Huevo '')"
    "py_strip ''EGGS'' \<noteq> []" "py_strip '' Huevo '' \<noteq> []" by code_simp+
  then show ?thesis
    unfolding allergen_gate by (simp add: example_defs recipe_allergen_sources_def)
qed

text \<open>Allergen codes are compared in one normal form. Canonicalisation is idempotent and
  does not look at case or surrounding space, and the canonical form of a code is never a code
  the table maps elsewhere, so no chain of synonyms is missed.\<close>

theorem allergen_canon_idempotent:
  "canon_allergens (canon_allergens A) = canon_allergens A \<and>
   canon_allergens (lower_set A) = canon_allergens A \<and>
   list_all (\<lambda>(k, c). canon_code k = c \<and> canon_code c = c \<and> norm_code c = c \<and> c \<noteq> []) allergen_canon"
proof -
  have "list_all (\<lambda>(k, c). canon_code k = c \<and> canon_code c = c \<and> norm_code c = c \<and> c \<noteq> []) allergen_canon"
    by code_simp
  then show ?thesis using canon_allergens_idem canon_allergens_lower by blast
qed


section \<open>Dietary restrictions\<close>

text \<open>What a restriction of a member forbids, given the tokens of a recipe.\<close>

definition restriction_hit :: "string set \<Rightarrow> string \<Rightarrow> bool" where
  "restriction_hit tokens r =
     (case map_of restriction_forbidden (dget diet_aliases r r) of
        Some forbidden \<Rightarrow> tokens \<inter> forbidden \<noteq> {}
      | None \<Rightarrow> r \<in> tokens)"

lemma check_restriction_valid:
  "vr_valid (check_restriction tokens m r res) \<longleftrightarrow> vr_valid res \<and> \<not> restriction_hit tokens r"
  by (auto simp: check_restriction_def restriction_hit_def add_hard_def Let_def split: option.split)

lemma fold_check_restriction_valid:
  "vr_valid (fold (check_restriction tokens m) rs res) \<longleftrightarrow> vr_valid res \<and> (\<forall>r \<in> set rs. \<not> restriction_hit tokens r)"
  by (induction rs arbitrary: res) (auto simp: check_restriction_valid)

lemma check_preference_hard [simp]:
  "vr_valid (check_preference tokens m p res) = vr_valid res"
  "vr_hard_violations (check_preference tokens m p res) = vr_hard_violations res"
  by (auto simp: check_preference_def Let_def)

lemma fold_check_preference_hard [simp]:
  "vr_valid (fold (check_preference tokens m) ps res) = vr_valid res"
  "vr_hard_violations (fold (check_preference tokens m) ps res) = vr_hard_violations res"
  by (induction ps arbitrary: res) auto

lemma diet_fold_valid:
  assumes "\<forall>m \<in> set members. finite (mb_hard_restrictions m)"
  shows "vr_valid (fold (diet_check_member tokens) members res) \<longleftrightarrow>
     vr_valid res \<and> (\<forall>m \<in> set members. \<forall>r \<in> lower_set (mb_hard_restrictions m). \<not> restriction_hit tokens r)"
  using assms
proof (induction members arbitrary: res)
  case Nil
  then show ?case by simp
next
  case (Cons m members)
  have "finite (lower_set (mb_hard_restrictions m))" using Cons.prems by (simp add: lower_set_def)
  with Cons show ?case by (auto simp: diet_check_member_def fold_check_restriction_valid)
qed

lemma diet_violations_step:
  "(vr_valid res \<longleftrightarrow> vr_hard_violations res = []) \<Longrightarrow>
   (vr_valid (check_restriction tokens m r res) \<longleftrightarrow> vr_hard_violations (check_restriction tokens m r res) = [])"
  by (auto simp: check_restriction_def add_hard_def Let_def split: option.split)

lemma diet_violations_member:
  "(vr_valid res \<longleftrightarrow> vr_hard_violations res = []) \<Longrightarrow>
   (vr_valid (fold (check_restriction tokens m) rs res) \<longleftrightarrow> vr_hard_violations (fold (check_restriction tokens m) rs res) = [])"
  by (induction rs arbitrary: res) (simp_all add: diet_violations_step)

lemma diet_violations:
  "(vr_valid res \<longleftrightarrow> vr_hard_violations res = []) \<Longrightarrow>
   (vr_valid (fold (diet_check_member tokens) members res) \<longleftrightarrow>
    vr_hard_violations (fold (diet_check_member tokens) members res) = [])"
  by (induction members arbitrary: res) (simp_all add: diet_check_member_def diet_violations_member)

lemma in_recipe_tokens:
  "t \<in> recipe_tokens d recipe \<longleftrightarrow>
     t \<in> lower_set (set (cr_preference_tags recipe)) \<or> t \<in> lower_set (cr_allergens_declared recipe) \<or>
     (\<exists>ing \<in> set (cr_ingredients recipe). t \<in> ingredient_tokens d ing)"
  by (simp add: recipe_tokens_def fold_Un)



text \<open>Diets bite through categories. An ingredient whose category contributes a class that
  the diet of some member forbids (a member who is \<open>vegano\<close>, an ingredient of category
  \<open>carne\<close>, \<open>pescado_marisco\<close>, \<open>huevos\<close> or \<open>lacteos\<close>) makes the recipe invalid, whatever
  the ingredient is called.\<close>

theorem diet_category_exclusion:
  assumes "list_all (\<lambda>m. finite (mb_hard_restrictions m)) members"
    and "m \<in> set members" and "r \<in> mb_hard_restrictions m" and "py_strip r \<noteq> []"
    and "map_of restriction_forbidden (dget diet_aliases (norm_code r) (norm_code r)) = Some forbidden"
    and "ing \<in> set (cr_ingredients recipe)" and "ri_category ing = Some category"
    and "category \<noteq> []" and "dget category_forbids (norm_code category) {} \<inter> forbidden \<noteq> {}"
  shows "\<not> vr_valid (diet_validate d recipe members)"
proof -
  have "norm_code r \<in> lower_set (mb_hard_restrictions m)" using assms(3,4) by (auto simp: in_lower_set)
  moreover have "dget category_forbids (norm_code category) {} \<subseteq> recipe_tokens d recipe"
    using assms(6-8) by (auto simp: in_recipe_tokens ingredient_tokens_def Let_def intro!: bexI[of _ ing])
  then have "restriction_hit (recipe_tokens d recipe) (norm_code r)"
    using assms(5,9) by (auto simp: restriction_hit_def)
  moreover have "\<forall>m \<in> set members. finite (mb_hard_restrictions m)" using assms(1) by (simp add: list_all_iff)
  ultimately show ?thesis
    using diet_fold_valid[of members "recipe_tokens d recipe" validation_ok] assms(2)
    by (auto simp: diet_validate_def)
qed

theorem diet_category_exclusion_witness:
  "\<not> vr_valid (diet_validate []
     (example_recipe ''tortilla'' 2 [(example_ingredient ''patata'' 500 ''g''),
        (example_ingredient ''xyz'' 3 ''ud'')\<lparr>ri_category := Some ''Huevos''\<rparr>])
     [example_member ''ana'' {} {} {''Vegano''}])"
proof -
  let ?i = "(example_ingredient ''xyz'' 3 ''ud'')\<lparr>ri_category := Some ''Huevos''\<rparr>"
  let ?f = "{''meat'', ''poultry'', ''fish'', ''shellfish'', ''milk'', ''dairy'', ''egg'', ''eggs'', ''honey''}"
  have "py_strip ''Vegano'' \<noteq> []" "norm_code ''Vegano'' = ''vegano''" "norm_code ''Huevos'' = ''huevos''"
    by code_simp+
  then show ?thesis
    using diet_category_exclusion[of "[example_member ''ana'' {} {} {''Vegano''}]"
        "example_member ''ana'' {} {} {''Vegano''}" "''Vegano''" ?f ?i
        "example_recipe ''tortilla'' 2 [example_ingredient ''patata'' 500 ''g'', ?i]" "''Huevos''" "[]"]
    by (simp add: example_defs restriction_forbidden_def diet_aliases_def category_forbids_def dget_def)
qed

end
