(* ===== verification/Provisioning.thy ===== *)
theory Provisioning
  imports Matching Pantry Packaging Examples
begin

text \<open>
  \<open>cestaplan_engine/provisioning.py\<close>: from the chosen meals to the shopping list. The
  dictionaries of \<open>provision\<close> are the fields of \<open>demand_state\<close>; the first loop is
  \<open>demand_meals\<close>, the second \<open>fold (emit_line ...)\<close> over the sorted keys, and the \<open>Provision\<close>
  object is the record \<open>provision\<close>. Keys are \<open>p:<product id>\<close> and \<open>i:<ingredient>\<close>.
\<close>

record meal_assignment =
  ma_slot_index :: int
  ma_date :: date
  ma_meal_type :: meal_type
  ma_recipe :: candidate_recipe_dto
  ma_servings :: int
  ma_participants :: "string list"

record provision =
  pv_grocery_lines :: "grocery_line_dto list"
  pv_leftovers :: "leftover_dto list"
  pv_pantry_used :: "pantry_used_dto list"
  pv_cost_known :: dec
  pv_cost_estimated :: dec
  pv_imputable_by_meal :: "(int, dec) dict"
  pv_warnings :: "message list"

definition empty_provision :: provision where
  "empty_provision = \<lparr>pv_grocery_lines = [], pv_leftovers = [], pv_pantry_used = [],
     pv_cost_known = 0, pv_cost_estimated = 0, pv_imputable_by_meal = [], pv_warnings = []\<rparr>"

definition cost_total :: "provision \<Rightarrow> dec" where
  "cost_total prov = dadd (pv_cost_known prov) (pv_cost_estimated prov)"

record provisioner =
  ps_matcher :: product_matcher
  ps_pantry :: pantry_calculator
  ps_weights :: scoring_weights
  ps_converter :: unit_converter
  ps_as_of :: "date option"

definition target_unit :: "catalog_product_dto \<Rightarrow> string \<Rightarrow> string" where
  "target_unit product fallback =
     (case cp_packages product of p # _ \<Rightarrow> po_package_unit p | [] \<Rightarrow> fallback)"


section \<open>Demand\<close>

record line_meta =
  lm_canonical :: string
  lm_product :: "catalog_product_dto option"
  lm_target_unit :: string
  lm_category :: string
  lm_display :: string

record demand_state =
  dm_line_meta :: "(string, line_meta) dict"
  dm_demand :: "(string, dec) dict"
  dm_by_meal :: "(string \<times> int, dec) dict"
  dm_seen_warn :: "string set"
  dm_warnings :: "message list"

definition product_key :: "catalog_product_dto \<Rightarrow> string" where
  "product_key product = ''p:'' @ cp_product_id product"

definition ingredient_key :: "string \<Rightarrow> string" where
  "ingredient_key canonical = ''i:'' @ canonical"

definition unmatched_meta :: "recipe_ingredient_dto \<Rightarrow> line_meta" where
  "unmatched_meta ing =
     \<lparr>lm_canonical = ri_canonical_name ing, lm_product = None, lm_target_unit = ri_unit ing,
      lm_category = ''uncategorized'', lm_display = ri_display_name ing\<rparr>"

text \<open>The three dictionary updates at the end of the loop body.\<close>

definition record_demand :: "string \<Rightarrow> line_meta \<Rightarrow> int \<Rightarrow> dec \<Rightarrow> demand_state \<Rightarrow> demand_state" where
  "record_demand key meta slot_index qty st =
     st\<lparr>dm_line_meta := dsetdefault key meta (dm_line_meta st),
        dm_demand := dset key (dadd (dget (dm_demand st) key 0) qty) (dm_demand st),
        dm_by_meal := dset (key, slot_index) (dadd (dget (dm_by_meal st) (key, slot_index) 0) qty) (dm_by_meal st)\<rparr>"

text \<open>The loop body for one ingredient: matched and convertible, matched but not convertible
  (the \<open>except ConversionError\<close> branch, with its warning), or unmatched.\<close>

definition demand_ingredient ::
  "provisioner \<Rightarrow> int \<Rightarrow> dec \<Rightarrow> recipe_ingredient_dto \<Rightarrow> demand_state \<Rightarrow> demand_state" where
  "demand_ingredient ps slot_index scale ing st =
     (let canonical = ri_canonical_name ing;
          product = match_ingredient (ps_matcher ps) ing;
          key = (case product of Some p \<Rightarrow> product_key p | None \<Rightarrow> ingredient_key canonical);
          meta = (case product of
             Some p \<Rightarrow> \<lparr>lm_canonical = canonical, lm_product = Some p,
                        lm_target_unit = target_unit p (ri_unit ing),
                        lm_category = cp_category p, lm_display = cp_display_name p\<rparr>
           | None \<Rightarrow> unmatched_meta ing);
          raw_qty = dmul (ri_quantity ing) scale
      in case convert (ps_converter ps) raw_qty (ri_unit ing) (lm_target_unit meta) (Some canonical) of
           Inr qty \<Rightarrow> record_demand key meta slot_index qty st
         | Inl _ \<Rightarrow>
             (let st = (if key \<notin> dm_seen_warn st
                        then st\<lparr>dm_warnings := dm_warnings st @ [CannotConvert (ri_unit ing) (lm_target_unit meta) canonical],
                                dm_seen_warn := insert key (dm_seen_warn st)\<rparr>
                        else st)
              in record_demand (ingredient_key canonical) (unmatched_meta ing) slot_index raw_qty st))"

definition meal_scale :: "meal_assignment \<Rightarrow> dec" where
  "meal_scale meal = ddiv (of_int (ma_servings meal)) (of_int (cr_servings (ma_recipe meal)))"

definition demand_meal :: "provisioner \<Rightarrow> meal_assignment \<Rightarrow> demand_state \<Rightarrow> demand_state" where
  "demand_meal ps meal st =
     fold (demand_ingredient ps (ma_slot_index meal) (meal_scale meal)) (cr_ingredients (ma_recipe meal)) st"

definition demand_init :: demand_state where
  "demand_init = \<lparr>dm_line_meta = [], dm_demand = [], dm_by_meal = [], dm_seen_warn = {}, dm_warnings = []\<rparr>"

definition demand_meals :: "provisioner \<Rightarrow> meal_assignment list \<Rightarrow> demand_state" where
  "demand_meals ps meals = fold (demand_meal ps) meals demand_init"


section \<open>Lines\<close>

text \<open>Imputation of a line's subtotal to the meals by their share of the demand.\<close>

definition impute_step ::
  "(string \<times> int, dec) dict \<Rightarrow> string \<Rightarrow> dec \<Rightarrow> dec \<Rightarrow> meal_assignment \<Rightarrow> (int, dec) dict \<Rightarrow> (int, dec) dict" where
  "impute_step by_meal key needed subtotal meal imputable =
     (case map_of by_meal (key, ma_slot_index meal) of
        None \<Rightarrow> imputable
      | Some share_qty \<Rightarrow>
          if share_qty \<noteq> 0
          then dset (ma_slot_index meal)
                 (dadd (dget imputable (ma_slot_index meal) 0) (ddiv (dmul subtotal share_qty) needed)) imputable
          else imputable)"

definition impute ::
  "(string \<times> int, dec) dict \<Rightarrow> string \<Rightarrow> dec \<Rightarrow> dec \<Rightarrow> meal_assignment list \<Rightarrow> (int, dec) dict \<Rightarrow> (int, dec) dict" where
  "impute by_meal key needed subtotal meals imputable =
     (if 0 < needed \<and> 0 < subtotal
      then fold (impute_step by_meal key needed subtotal) meals imputable
      else imputable)"

definition priceless_line :: "line_meta \<Rightarrow> dec \<Rightarrow> dec \<Rightarrow> dec \<Rightarrow> grocery_line_dto" where
  "priceless_line meta needed pantry_used pend =
     (grocery_line_defaults (lm_canonical meta) (map_option cp_product_id (lm_product meta)) (lm_display meta) needed)
       \<lparr>gl_category := lm_category meta, gl_pantry_quantity := pantry_used,
        gl_pending_quantity := pend, gl_used_quantity := needed,
        gl_package_unit := Some (lm_target_unit meta), gl_subtotal := 0,
        gl_subtotal_known := False\<rparr>"

definition priced_line :: "line_meta \<Rightarrow> dec \<Rightarrow> dec \<Rightarrow> dec \<Rightarrow> package_choice \<Rightarrow> grocery_line_dto" where
  "priced_line meta needed pantry_used pend choice =
     (let res = ch_result choice; opt = ch_option choice in
      \<lparr>gl_canonical_name = lm_canonical meta,
       gl_product_id = map_option cp_product_id (lm_product meta),
       gl_display_name = lm_display meta, gl_category = lm_category meta,
       gl_needed_quantity = needed, gl_pantry_quantity = pantry_used,
       gl_pending_quantity = pend, gl_packages_count = pk_packages res,
       gl_package_quantity = Some (po_package_quantity opt),
       gl_package_unit = Some (po_package_unit opt), gl_package_price = Some (po_amount opt),
       gl_purchased_quantity = pk_purchased res, gl_used_quantity = needed,
       gl_leftover = pk_leftover res, gl_subtotal = pk_total_cost res,
       gl_subtotal_known = ch_price_known choice, gl_availability = po_availability opt,
       gl_source_type = po_source_type opt, gl_source_name = po_source_name opt,
       gl_observed_at = po_observed_at opt, gl_expired = ch_expired choice\<rparr>)"

text \<open>The branch of a line whose format has been chosen.\<close>

definition emit_priced ::
  "demand_state \<Rightarrow> meal_assignment list \<Rightarrow> string \<Rightarrow> line_meta \<Rightarrow> catalog_product_dto \<Rightarrow> dec \<Rightarrow> dec \<Rightarrow> dec \<Rightarrow>
    package_choice \<Rightarrow> provision \<Rightarrow> provision" where
  "emit_priced st meals key meta p needed pantry_used pend choice prov =
     (let subtotal = pk_total_cost (ch_result choice);
          leftover = pk_leftover (ch_result choice);
          prov = (if ch_price_known choice
                  then prov\<lparr>pv_cost_known := dadd (pv_cost_known prov) subtotal\<rparr>
                  else prov\<lparr>pv_cost_estimated := dadd (pv_cost_estimated prov) subtotal\<rparr>);
          prov = prov\<lparr>pv_grocery_lines := pv_grocery_lines prov @ [priced_line meta needed pantry_used pend choice]\<rparr>;
          prov = (if 0 < pantry_used
                  then prov\<lparr>pv_pantry_used := pv_pantry_used prov @
                         [\<lparr>pu_canonical_name = lm_canonical meta, pu_quantity = pantry_used,
                           pu_unit = lm_target_unit meta\<rparr>]\<rparr>
                  else prov);
          prov = (if 0 < leftover
                  then prov\<lparr>pv_leftovers := pv_leftovers prov @
                         [\<lparr>lo_canonical_name = lm_canonical meta, lo_product_id = Some (cp_product_id p),
                           lo_display_name = lm_display meta, lo_quantity = leftover,
                           lo_unit = po_package_unit (ch_option choice)\<rparr>]\<rparr>
                  else prov)
      in prov\<lparr>pv_imputable_by_meal :=
                impute (dm_by_meal st) key needed subtotal meals (pv_imputable_by_meal prov)\<rparr>)"

text \<open>The loop body for one key. Every key of \<open>demand\<close> is a key of \<open>line_meta\<close>, so the lookup
  never fails (lemma \<open>demand_keys_meta\<close>).\<close>

definition emit_line ::
  "provisioner \<Rightarrow> demand_state \<Rightarrow> meal_assignment list \<Rightarrow> string \<Rightarrow> provision \<Rightarrow> provision" where
  "emit_line ps st meals key prov =
     (case map_of (dm_line_meta st) key of
        None \<Rightarrow> prov
      | Some meta \<Rightarrow>
        (let needed = dget (dm_demand st) key 0 in
         case lm_product meta of
           None \<Rightarrow> prov\<lparr>pv_grocery_lines := pv_grocery_lines prov @ [priceless_line meta needed 0 needed]\<rparr>
         | Some p \<Rightarrow>
           if cp_packages p = []
           then prov\<lparr>pv_grocery_lines := pv_grocery_lines prov @ [priceless_line meta needed 0 needed]\<rparr>
           else
             (let (pantry_used, pend) = pending (ps_pantry ps) (lm_canonical meta) needed (lm_target_unit meta)
              in case choose_package pend (cp_packages p) (ps_as_of ps)
                        (sw_waste (ps_weights ps)) (sw_cost (ps_weights ps)) of
                   None \<Rightarrow> prov\<lparr>pv_grocery_lines := pv_grocery_lines prov @
                             [priceless_line meta needed pantry_used pend]\<rparr>
                 | Some choice \<Rightarrow> emit_priced st meals key meta p needed pantry_used pend choice prov)))"

definition provision_meals :: "provisioner \<Rightarrow> meal_assignment list \<Rightarrow> provision" where
  "provision_meals ps meals =
     (let st = demand_meals ps meals in
      fold (emit_line ps st meals) (sort (map fst (dm_demand st)))
        (empty_provision\<lparr>pv_warnings := dm_warnings st\<rparr>))"


section \<open>The demand loop as one pass over the uses of ingredients\<close>

definition line_key :: "provisioner \<Rightarrow> recipe_ingredient_dto \<Rightarrow> string" where
  "line_key ps ing =
     (case match_ingredient (ps_matcher ps) ing of
        None \<Rightarrow> ingredient_key (ri_canonical_name ing)
      | Some p \<Rightarrow>
          if can_convert (ps_converter ps) (ri_unit ing) (target_unit p (ri_unit ing)) (Some (ri_canonical_name ing))
          then product_key p else ingredient_key (ri_canonical_name ing))"

definition line_meta_of :: "provisioner \<Rightarrow> recipe_ingredient_dto \<Rightarrow> line_meta" where
  "line_meta_of ps ing =
     (case match_ingredient (ps_matcher ps) ing of
        None \<Rightarrow> unmatched_meta ing
      | Some p \<Rightarrow>
          if can_convert (ps_converter ps) (ri_unit ing) (target_unit p (ri_unit ing)) (Some (ri_canonical_name ing))
          then \<lparr>lm_canonical = ri_canonical_name ing, lm_product = Some p,
                 lm_target_unit = target_unit p (ri_unit ing), lm_category = cp_category p,
                 lm_display = cp_display_name p\<rparr>
          else unmatched_meta ing)"

definition line_qty :: "provisioner \<Rightarrow> dec \<Rightarrow> recipe_ingredient_dto \<Rightarrow> dec" where
  "line_qty ps scale ing =
     (let raw = dmul (ri_quantity ing) scale in
      case match_ingredient (ps_matcher ps) ing of
        None \<Rightarrow> raw
      | Some p \<Rightarrow>
          (case convert (ps_converter ps) raw (ri_unit ing) (target_unit p (ri_unit ing)) (Some (ri_canonical_name ing)) of
             Inr q \<Rightarrow> q | Inl _ \<Rightarrow> raw))"

lemma convert_same [simp]: "convert c q u u n = Inr q"
  by (simp add: convert_def)

lemma demand_ingredient_eq:
  "\<exists>w s. demand_ingredient ps slot scale ing st =
     record_demand (line_key ps ing) (line_meta_of ps ing) slot (line_qty ps scale ing)
       (st\<lparr>dm_warnings := w, dm_seen_warn := s\<rparr>)"
proof (cases "match_ingredient (ps_matcher ps) ing")
  case None
  then show ?thesis
    by (intro exI[of _ "dm_warnings st"] exI[of _ "dm_seen_warn st"])
      (simp add: demand_ingredient_def line_key_def line_meta_of_def line_qty_def Let_def unmatched_meta_def)
next
  case (Some p)
  let ?c = "convert (ps_converter ps) (dmul (ri_quantity ing) scale) (ri_unit ing) (target_unit p (ri_unit ing)) (Some (ri_canonical_name ing))"
  have cc: "can_convert (ps_converter ps) (ri_unit ing) (target_unit p (ri_unit ing)) (Some (ri_canonical_name ing)) \<longleftrightarrow> \<not> isl ?c"
    by (rule can_convert_iff)
  show ?thesis
  proof (cases ?c)
    case (Inl e)
    let ?new = "product_key p \<notin> dm_seen_warn st"
    from Inl show ?thesis using Some cc
      by (intro exI[of _ "if ?new then dm_warnings st @ [CannotConvert (ri_unit ing) (target_unit p (ri_unit ing)) (ri_canonical_name ing)] else dm_warnings st"]
          exI[of _ "if ?new then insert (product_key p) (dm_seen_warn st) else dm_seen_warn st"])
        (simp add: demand_ingredient_def line_key_def line_meta_of_def line_qty_def Let_def)
  next
    case (Inr q)
    then show ?thesis using Some cc
      by (intro exI[of _ "dm_warnings st"] exI[of _ "dm_seen_warn st"])
        (simp add: demand_ingredient_def line_key_def line_meta_of_def line_qty_def Let_def)
  qed
qed

lemma demand_ingredient_fields:
  "dm_demand (demand_ingredient ps slot scale ing st) =
     dset (line_key ps ing) (dadd (dget (dm_demand st) (line_key ps ing) 0) (line_qty ps scale ing)) (dm_demand st)"
  "dm_line_meta (demand_ingredient ps slot scale ing st) =
     dsetdefault (line_key ps ing) (line_meta_of ps ing) (dm_line_meta st)"
  "dm_by_meal (demand_ingredient ps slot scale ing st) =
     dset (line_key ps ing, slot) (dadd (dget (dm_by_meal st) (line_key ps ing, slot) 0) (line_qty ps scale ing)) (dm_by_meal st)"
proof -
  obtain w s where e: "demand_ingredient ps slot scale ing st =
     record_demand (line_key ps ing) (line_meta_of ps ing) slot (line_qty ps scale ing)
       (st\<lparr>dm_warnings := w, dm_seen_warn := s\<rparr>)"
    using demand_ingredient_eq by blast
  show "dm_demand (demand_ingredient ps slot scale ing st) =
     dset (line_key ps ing) (dadd (dget (dm_demand st) (line_key ps ing) 0) (line_qty ps scale ing)) (dm_demand st)"
    "dm_line_meta (demand_ingredient ps slot scale ing st) =
     dsetdefault (line_key ps ing) (line_meta_of ps ing) (dm_line_meta st)"
    "dm_by_meal (demand_ingredient ps slot scale ing st) =
     dset (line_key ps ing, slot) (dadd (dget (dm_by_meal st) (line_key ps ing, slot) 0) (line_qty ps scale ing)) (dm_by_meal st)"
    unfolding e by (simp_all add: record_demand_def)
qed

text \<open>A use of an ingredient: the slot, the scale of its meal and the ingredient.\<close>

type_synonym ingredient_use = "int \<times> dec \<times> recipe_ingredient_dto"

definition ingredient_uses :: "meal_assignment list \<Rightarrow> ingredient_use list" where
  "ingredient_uses meals =
     concat (map (\<lambda>m. map (\<lambda>ing. (ma_slot_index m, meal_scale m, ing)) (cr_ingredients (ma_recipe m))) meals)"

definition use_key :: "provisioner \<Rightarrow> ingredient_use \<Rightarrow> string" where
  "use_key ps u = line_key ps (snd (snd u))"

definition use_qty :: "provisioner \<Rightarrow> ingredient_use \<Rightarrow> dec" where
  "use_qty ps u = line_qty ps (fst (snd u)) (snd (snd u))"

lemma demand_meals_uses:
  "demand_meals ps meals =
     fold (\<lambda>u. demand_ingredient ps (fst u) (fst (snd u)) (snd (snd u))) (ingredient_uses meals) demand_init"
proof -
  have "fold (demand_meal ps) meals st =
     fold (\<lambda>u. demand_ingredient ps (fst u) (fst (snd u)) (snd (snd u))) (ingredient_uses meals) st" for st
    by (induction meals arbitrary: st) (simp_all add: ingredient_uses_def demand_meal_def fold_map comp_def)
  then show ?thesis by (simp add: demand_meals_def)
qed

lemma demand_fold:
  "dm_demand (fold (\<lambda>u. demand_ingredient ps (fst u) (fst (snd u)) (snd (snd u))) us st) =
     fold (\<lambda>u d. dset (use_key ps u) (dadd (case map_of d (use_key ps u) of None \<Rightarrow> 0 | Some v \<Rightarrow> v) (use_qty ps u)) d) us (dm_demand st)"
  "dm_line_meta (fold (\<lambda>u. demand_ingredient ps (fst u) (fst (snd u)) (snd (snd u))) us st) =
     fold (\<lambda>u d. dsetdefault (use_key ps u) (line_meta_of ps (snd (snd u))) d) us (dm_line_meta st)"
  "dm_by_meal (fold (\<lambda>u. demand_ingredient ps (fst u) (fst (snd u)) (snd (snd u))) us st) =
     fold (\<lambda>u d. dset (use_key ps u, fst u) (dadd (case map_of d (use_key ps u, fst u) of None \<Rightarrow> 0 | Some v \<Rightarrow> v) (use_qty ps u)) d) us (dm_by_meal st)"
  by (induction us arbitrary: st) (simp_all add: demand_ingredient_fields use_key_def use_qty_def dget_def)

lemma demand_lookup:
  "map_of (dm_demand (demand_meals ps meals)) k =
     (let us = filter (\<lambda>u. use_key ps u = k) (ingredient_uses meals) in
      if us = [] then None else Some (dsum (map (use_qty ps) us)))"
  unfolding demand_meals_uses demand_fold
  by (subst pd.look_fold_accumulate) (simp add: demand_init_def dsum_def fold_map comp_def Let_def)

lemma demand_meta_lookup:
  "map_of (dm_line_meta (demand_meals ps meals)) k =
     map_option (\<lambda>u. line_meta_of ps (snd (snd u))) (find (\<lambda>u. use_key ps u = k) (ingredient_uses meals))"
  unfolding demand_meals_uses demand_fold
  by (rule pd.look_fold_default_None) (simp add: demand_init_def)

lemma demand_by_meal_lookup:
  "map_of (dm_by_meal (demand_meals ps meals)) (k, i) =
     (let us = filter (\<lambda>u. use_key ps u = k \<and> fst u = i) (ingredient_uses meals) in
      if us = [] then None else Some (dsum (map (use_qty ps) us)))"
  unfolding demand_meals_uses demand_fold
  by (subst pd.look_fold_accumulate[where f = "\<lambda>u. (use_key ps u, fst u)"])
    (simp add: demand_init_def dsum_def fold_map comp_def Let_def)

definition demand_keys :: "provisioner \<Rightarrow> meal_assignment list \<Rightarrow> string list" where
  "demand_keys ps meals = sorted_list_of_set (use_key ps ` set (ingredient_uses meals))"

lemma dict_ok_fold_dset: "dict_ok d \<Longrightarrow> dict_ok (fold (\<lambda>u d. dset (f u) (g u d) d) us d)"
  by (rule pd.ok_fold_store)

lemma fst_fold_dset: "fst ` set (fold (\<lambda>u d. dset (f u) (g u d) d) us d) = fst ` set d \<union> f ` set us"
  by (induction us arbitrary: d) auto

lemma fst_dm_demand: "fst ` set (dm_demand (demand_meals ps meals)) = use_key ps ` set (ingredient_uses meals)"
  unfolding demand_meals_uses demand_fold fst_fold_dset by (simp add: demand_init_def)

lemma sort_demand_keys: "sort (map fst (dm_demand (demand_meals ps meals))) = demand_keys ps meals"
proof -
  have "dict_ok (dm_demand (demand_meals ps meals))"
    unfolding demand_meals_uses demand_fold by (rule dict_ok_fold_dset) (simp add: demand_init_def)
  then have "distinct (map fst (dm_demand (demand_meals ps meals)))" by (simp add: dict_ok_def)
  moreover have "use_key ps ` set (ingredient_uses meals) = set (map fst (dm_demand (demand_meals ps meals)))"
    by (simp add: fst_dm_demand)
  ultimately show ?thesis
    by (simp only: demand_keys_def sorted_list_of_set_sort_remdups distinct_remdups_id)
qed

text \<open>The uses of a key, and its line's meta data: those of the first use.\<close>

definition key_uses :: "provisioner \<Rightarrow> meal_assignment list \<Rightarrow> string \<Rightarrow> ingredient_use list" where
  "key_uses ps meals k = filter (\<lambda>u. use_key ps u = k) (ingredient_uses meals)"

definition key_needed :: "provisioner \<Rightarrow> meal_assignment list \<Rightarrow> string \<Rightarrow> dec" where
  "key_needed ps meals k = dsum (map (use_qty ps) (key_uses ps meals k))"

definition key_meta :: "provisioner \<Rightarrow> meal_assignment list \<Rightarrow> string \<Rightarrow> line_meta" where
  "key_meta ps meals k = line_meta_of ps (snd (snd (hd (key_uses ps meals k))))"

lemma find_hd_filter: "find P xs = (if filter P xs = [] then None else Some (hd (filter P xs)))"
  by (induction xs) auto

lemma demand_keys_uses: "k \<in> set (demand_keys ps meals) \<longleftrightarrow> key_uses ps meals k \<noteq> []"
  by (auto simp: demand_keys_def key_uses_def filter_empty_conv)

lemma demand_keys_meta:
  assumes "k \<in> set (demand_keys ps meals)"
  shows "map_of (dm_line_meta (demand_meals ps meals)) k = Some (key_meta ps meals k)"
    and "dget (dm_demand (demand_meals ps meals)) k 0 = key_needed ps meals k"
  using assms by (auto simp: demand_keys_uses demand_meta_lookup demand_lookup dget_def key_meta_def
      key_needed_def find_hd_filter key_uses_def Let_def)


section \<open>The line of a key\<close>

text \<open>What the second loop appends for one key.\<close>

definition line_of :: "provisioner \<Rightarrow> line_meta \<Rightarrow> dec \<Rightarrow> grocery_line_dto" where
  "line_of ps meta needed =
     (case lm_product meta of
        None \<Rightarrow> priceless_line meta needed 0 needed
      | Some p \<Rightarrow>
        if cp_packages p = [] then priceless_line meta needed 0 needed
        else (let (used, pend) = pending (ps_pantry ps) (lm_canonical meta) needed (lm_target_unit meta) in
              case choose_package pend (cp_packages p) (ps_as_of ps) (sw_waste (ps_weights ps)) (sw_cost (ps_weights ps)) of
                None \<Rightarrow> priceless_line meta needed used pend
              | Some choice \<Rightarrow> priced_line meta needed used pend choice))"

lemma priceless_line_fields [simp]:
  "gl_subtotal (priceless_line m n u p) = 0" "\<not> gl_subtotal_known (priceless_line m n u p)"
  "gl_needed_quantity (priceless_line m n u p) = n" "gl_used_quantity (priceless_line m n u p) = n"
  "gl_pantry_quantity (priceless_line m n u p) = u" "gl_pending_quantity (priceless_line m n u p) = p"
  "gl_packages_count (priceless_line m n u p) = 0" "gl_purchased_quantity (priceless_line m n u p) = 0"
  "gl_package_quantity (priceless_line m n u p) = None" "\<not> gl_expired (priceless_line m n u p)"
  "gl_canonical_name (priceless_line m n u p) = lm_canonical m" "gl_leftover (priceless_line m n u p) = 0"
  by (simp_all add: priceless_line_def grocery_line_defaults_def)

lemma priced_line_fields [simp]:
  "gl_subtotal (priced_line m n u p c) = pk_total_cost (ch_result c)"
  "gl_subtotal_known (priced_line m n u p c) = ch_price_known c"
  "gl_needed_quantity (priced_line m n u p c) = n" "gl_used_quantity (priced_line m n u p c) = n"
  "gl_pantry_quantity (priced_line m n u p c) = u" "gl_pending_quantity (priced_line m n u p c) = p"
  "gl_packages_count (priced_line m n u p c) = pk_packages (ch_result c)"
  "gl_purchased_quantity (priced_line m n u p c) = pk_purchased (ch_result c)"
  "gl_package_quantity (priced_line m n u p c) = Some (po_package_quantity (ch_option c))"
  "gl_package_price (priced_line m n u p c) = Some (po_amount (ch_option c))"
  "gl_expired (priced_line m n u p c) = ch_expired c"
  "gl_canonical_name (priced_line m n u p c) = lm_canonical m"
  "gl_leftover (priced_line m n u p c) = pk_leftover (ch_result c)"
  by (simp_all add: priced_line_def Let_def)

lemma emit_priced_fields:
  "pv_grocery_lines (emit_priced st meals key meta p needed u pend c prov) =
     pv_grocery_lines prov @ [priced_line meta needed u pend c]"
  "pv_cost_known (emit_priced st meals key meta p needed u pend c prov) =
     (if ch_price_known c then dadd (pv_cost_known prov) (pk_total_cost (ch_result c)) else pv_cost_known prov)"
  "pv_cost_estimated (emit_priced st meals key meta p needed u pend c prov) =
     (if ch_price_known c then pv_cost_estimated prov else dadd (pv_cost_estimated prov) (pk_total_cost (ch_result c)))"
  "pv_warnings (emit_priced st meals key meta p needed u pend c prov) = pv_warnings prov"
  by (simp_all add: emit_priced_def Let_def)

text \<open>The costs accumulated so far, given representable values.\<close>

definition costs_rep :: "provision \<Rightarrow> bool" where
  "costs_rep prov \<longleftrightarrow> dec28 (pv_cost_known prov) \<and> dec28 (pv_cost_estimated prov)"

lemma emit_line_fields:
  assumes "map_of (dm_line_meta st) key = Some meta" and "costs_rep prov"
  fixes ps and meals
  defines "l \<equiv> line_of ps meta (dget (dm_demand st) key 0)"
  shows "pv_grocery_lines (emit_line ps st meals key prov) = pv_grocery_lines prov @ [l]"
    and "pv_cost_known (emit_line ps st meals key prov) =
      (if gl_subtotal_known l then dadd (pv_cost_known prov) (gl_subtotal l) else pv_cost_known prov)"
    and "pv_cost_estimated (emit_line ps st meals key prov) =
      (if gl_subtotal_known l then pv_cost_estimated prov else dadd (pv_cost_estimated prov) (gl_subtotal l))"
    and "pv_warnings (emit_line ps st meals key prov) = pv_warnings prov"
    and "costs_rep (emit_line ps st meals key prov)"
  using assms(2) unfolding l_def
  by (auto simp: emit_line_def line_of_def assms(1) Let_def emit_priced_fields costs_rep_def
      split: option.split prod.split)

lemma emit_fold:
  assumes "list_all (\<lambda>k. map_of (dm_line_meta st) k = Some (meta k) \<and> dget (dm_demand st) k 0 = need k) keys"
    and "costs_rep prov"
  fixes ps and meals
  defines "ls \<equiv> map (\<lambda>k. line_of ps (meta k) (need k)) keys"
  shows "pv_grocery_lines (fold (emit_line ps st meals) keys prov) = pv_grocery_lines prov @ ls \<and>
    pv_cost_known (fold (emit_line ps st meals) keys prov) =
      fold (\<lambda>x acc. dadd acc x) (map gl_subtotal (filter gl_subtotal_known ls)) (pv_cost_known prov) \<and>
    pv_cost_estimated (fold (emit_line ps st meals) keys prov) =
      fold (\<lambda>x acc. dadd acc x) (map gl_subtotal (filter (\<lambda>l. \<not> gl_subtotal_known l) ls)) (pv_cost_estimated prov) \<and>
    pv_warnings (fold (emit_line ps st meals) keys prov) = pv_warnings prov"
  unfolding ls_def using assms(1,2)
proof (induction keys arbitrary: prov)
  case Nil
  then show ?case by simp
next
  case (Cons k keys)
  then have m: "map_of (dm_line_meta st) k = Some (meta k)" "dget (dm_demand st) k 0 = need k" by simp_all
  note e = emit_line_fields[OF m(1) Cons.prems(2), of ps meals, unfolded m(2)]
  from Cons.IH[OF _ e(5)] Cons.prems(1) show ?case by (simp add: e)
qed

lemma provision_lines:
  "pv_grocery_lines (provision_meals ps meals) =
     map (\<lambda>k. line_of ps (key_meta ps meals k) (key_needed ps meals k)) (demand_keys ps meals)"
  "pv_cost_known (provision_meals ps meals) =
     dsum (map gl_subtotal (filter gl_subtotal_known (pv_grocery_lines (provision_meals ps meals))))"
  "pv_cost_estimated (provision_meals ps meals) =
     dsum (map gl_subtotal (filter (\<lambda>l. \<not> gl_subtotal_known l) (pv_grocery_lines (provision_meals ps meals))))"
  "pv_warnings (provision_meals ps meals) = dm_warnings (demand_meals ps meals)"
proof -
  let ?st = "demand_meals ps meals"
  have "list_all (\<lambda>k. map_of (dm_line_meta ?st) k = Some (key_meta ps meals k) \<and>
      dget (dm_demand ?st) k 0 = key_needed ps meals k) (demand_keys ps meals)"
    by (simp add: list_all_iff demand_keys_meta)
  note f = emit_fold[OF this, of "empty_provision\<lparr>pv_warnings := dm_warnings ?st\<rparr>" ps meals]
  have p: "provision_meals ps meals = fold (emit_line ps ?st meals) (demand_keys ps meals)
      (empty_provision\<lparr>pv_warnings := dm_warnings ?st\<rparr>)"
    by (simp add: provision_meals_def sort_demand_keys Let_def)
  show lines: "pv_grocery_lines (provision_meals ps meals) =
     map (\<lambda>k. line_of ps (key_meta ps meals k) (key_needed ps meals k)) (demand_keys ps meals)"
    using f by (simp add: p costs_rep_def empty_provision_def)
  show "pv_cost_known (provision_meals ps meals) =
     dsum (map gl_subtotal (filter gl_subtotal_known (pv_grocery_lines (provision_meals ps meals))))"
    "pv_cost_estimated (provision_meals ps meals) =
     dsum (map gl_subtotal (filter (\<lambda>l. \<not> gl_subtotal_known l) (pv_grocery_lines (provision_meals ps meals))))"
    "pv_warnings (provision_meals ps meals) = dm_warnings ?st"
    unfolding lines using f by (simp_all add: p costs_rep_def empty_provision_def dsum_def)
qed


section \<open>Properties\<close>

text \<open>The cost is the cost of the lines. The known cost of a provision is the sum of the
  subtotals of its lines with a known price, the estimated cost the sum of the others, and the
  total cost the sum of the two, in the rounded arithmetic of the code; a line without packages
  adds nothing.\<close>

theorem provision_costs:
  "pv_cost_known (provision_meals ps meals) =
     dsum (map gl_subtotal (filter gl_subtotal_known (pv_grocery_lines (provision_meals ps meals)))) \<and>
   pv_cost_estimated (provision_meals ps meals) =
     dsum (map gl_subtotal (filter (\<lambda>l. \<not> gl_subtotal_known l) (pv_grocery_lines (provision_meals ps meals)))) \<and>
   cost_total (provision_meals ps meals) =
     dadd (pv_cost_known (provision_meals ps meals)) (pv_cost_estimated (provision_meals ps meals)) \<and>
   list_all (\<lambda>l. case gl_package_quantity l of None \<Rightarrow> gl_subtotal l = 0 \<and> \<not> gl_subtotal_known l
       | Some _ \<Rightarrow> True)
     (pv_grocery_lines (provision_meals ps meals))"
proof -
  have "list_all (\<lambda>l. case gl_package_quantity l of None \<Rightarrow> gl_subtotal l = 0 \<and> \<not> gl_subtotal_known l
       | Some _ \<Rightarrow> True)
     (pv_grocery_lines (provision_meals ps meals))"
    by (auto simp: provision_lines(1) list_all_iff line_of_def split: option.splits prod.splits)
  then show ?thesis using provision_lines(2,3)[of ps meals] by (simp add: cost_total_def)
qed

lemma line_of_needed [simp]: "gl_needed_quantity (line_of ps meta n) = n" "gl_used_quantity (line_of ps meta n) = n"
  by (simp_all add: line_of_def split: option.split prod.split)

text \<open>C20 The shopping list covers the demand and nothing else. Its lines are those of the
  distinct line keys of the meals' ingredients, one each and in the order of the keys; the
  quantity needed on a line is the sum, over the ingredients with that key in the order of the
  meals, of the scaled and converted quantities; and every ingredient of every meal has its
  line.\<close>

theorem provision_demand:
  "map gl_needed_quantity (pv_grocery_lines (provision_meals ps meals)) =
     map (\<lambda>k. dsum (map (use_qty ps) (filter (\<lambda>u. use_key ps u = k) (ingredient_uses meals)))) (demand_keys ps meals) \<and>
   map gl_used_quantity (pv_grocery_lines (provision_meals ps meals)) =
     map gl_needed_quantity (pv_grocery_lines (provision_meals ps meals)) \<and>
   sorted (demand_keys ps meals) \<and> distinct (demand_keys ps meals) \<and>
   set (demand_keys ps meals) = use_key ps ` set (ingredient_uses meals)"
  unfolding provision_lines(1) by (simp add: key_needed_def key_uses_def demand_keys_def comp_def)

lemma dround_lower:
  assumes "0 \<le> x"
  shows "x * (1 - 1 / (2 * 10 ^ 27)) \<le> dround x"
proof -
  have "\<bar>dround x - x\<bar> \<le> x / (2 * 10 ^ 27)" using dround_err[of x] assms by simp
  then have "x - x / (2 * 10 ^ 27) \<le> dround x" by linarith
  then show ?thesis by (simp only: right_diff_distrib mult_1_right times_divide_eq_right)
qed

lemma dmul_lower: "0 \<le> a \<Longrightarrow> 0 \<le> b \<Longrightarrow> a * b * (1 - 1 / (2 * 10 ^ 27)) \<le> dmul a b"
  unfolding dmul_def by (rule dround_lower) simp

lemma ddiv_lower: "0 \<le> a \<Longrightarrow> 0 \<le> b \<Longrightarrow> a / b * (1 - 1 / (2 * 10 ^ 27)) \<le> ddiv a b"
  unfolding ddiv_def by (rule dround_lower) simp

text \<open>Whatever the digits, a purchase never falls short by more than one part in \<open>10 ^ 27\<close>.\<close>

lemma compute_packages_covers:
  assumes r: "compute_packages pend 0 q price = Inr r" and "dec28 pend" "0 \<le> pend" "0 < q"
  shows "pend * (1 - 1 / 10 ^ 27) \<le> pk_purchased r" and "0 \<le> pk_packages r"
    and "pk_purchased r = dmul (of_int (pk_packages r)) q"
    and "pk_total_cost r = dmul (of_int (pk_packages r)) price"
    and "pk_leftover r = dsub (pk_purchased r) pend"
proof -
  define e :: rat where "e = 1 / (2 * 10 ^ 27)"
  obtain n where n: "decimal_ceil_div pend q = Inr n"
    using decimal_ceil_div_Inl_iff[of pend q] assms(4) by (cases "decimal_ceil_div pend q") auto
  have d: "dsub pend 0 = pend" by (rule dsub_0[OF assms(2)])
  have f: "pk_purchased r = dmul (of_int n) q" "pk_packages r = n"
    "pk_total_cost r = dmul (of_int n) price" "pk_leftover r = dsub (pk_purchased r) pend"
    using r assms(3) by (auto simp: compute_packages_def Let_def d n)
  have n0: "0 \<le> n" by (rule decimal_ceil_div_nonneg[OF n])
  have "ddiv pend q \<le> of_int n"
    using n assms(3,4) by (auto simp: decimal_ceil_div_def split: if_splits)
  then have "pend / q * (1 - e) \<le> of_int n"
    using ddiv_lower[of pend q] assms(3,4) by (simp add: e_def)
  then have "pend / q * (1 - e) * q \<le> of_int n * q" using assms(4) by (intro mult_right_mono) auto
  then have "pend * (1 - e) \<le> of_int n * q" using assms(4) by simp
  then have "pend * (1 - e) * (1 - e) \<le> of_int n * q * (1 - e)" by (intro mult_right_mono) (auto simp: e_def)
  also have "\<dots> \<le> dmul (of_int n) q" using dmul_lower[of "of_int n" q] n0 assms(4) by (simp add: e_def)
  finally have "pend * ((1 - e) * (1 - e)) \<le> pk_purchased r" by (simp add: f mult.assoc)
  moreover have "pend * (1 - 2 * e) \<le> pend * ((1 - e) * (1 - e))"
    using assms(3) by (intro mult_left_mono) (auto simp: algebra_simps)
  ultimately show "pend * (1 - 1 / 10 ^ 27) \<le> pk_purchased r" by (simp add: e_def)
  show "0 \<le> pk_packages r" "pk_purchased r = dmul (of_int (pk_packages r)) q"
    "pk_total_cost r = dmul (of_int (pk_packages r)) price" "pk_leftover r = dsub (pk_purchased r) pend"
    using f n0 by simp_all
qed

lemma pending_dec28: "pending pc n needed u = (used, pend) \<Longrightarrow> dec28 pend"
  by (auto simp: pending_def Let_def split: if_splits)

text \<open>The data the bounds need: non-negative quantities, prices, factors and scales.\<close>

definition uses_nonneg :: "meal_assignment list \<Rightarrow> bool" where
  "uses_nonneg meals = list_all (\<lambda>m. 0 \<le> ma_servings m \<and> 0 \<le> cr_servings (ma_recipe m) \<and>
     list_all (\<lambda>i. 0 \<le> ri_quantity i) (cr_ingredients (ma_recipe m))) meals"

definition prices_nonneg :: "catalog_product_dto list \<Rightarrow> bool" where
  "prices_nonneg catalog = list_all (\<lambda>p. list_all (\<lambda>opt. 0 \<le> po_amount opt) (cp_packages p)) catalog"

lemma use_qty_nonneg:
  assumes "factors_nonneg (ps_converter ps)" "uses_nonneg meals" "u \<in> set (ingredient_uses meals)"
  shows "0 \<le> use_qty ps u"
proof -
  from assms(2,3) have raw: "0 \<le> dmul (ri_quantity (snd (snd u))) (fst (snd u))"
    by (auto simp: ingredient_uses_def uses_nonneg_def list_all_iff meal_scale_def intro!: dmul_nonneg ddiv_nonneg)
  show ?thesis
    using raw convert_nonneg[OF assms(1) raw]
    by (auto simp: use_qty_def line_qty_def Let_def split: option.split sum.split)
qed

lemma key_needed_nonneg:
  assumes "factors_nonneg (ps_converter ps)" "uses_nonneg meals"
  shows "0 \<le> key_needed ps meals k"
  unfolding key_needed_def key_uses_def
  by (rule dsum_nonneg) (use use_qty_nonneg[OF assms] in \<open>auto simp: list_all_iff\<close>)

text \<open>What one line of the list promises.\<close>

definition line_ok :: "grocery_line_dto \<Rightarrow> bool" where
  "line_ok l \<longleftrightarrow>
     0 \<le> gl_needed_quantity l \<and> 0 \<le> gl_pantry_quantity l \<and> gl_pantry_quantity l \<le> gl_needed_quantity l \<and>
     gl_pending_quantity l = dsub (gl_needed_quantity l) (gl_pantry_quantity l) \<and>
     0 \<le> gl_subtotal l \<and> (gl_expired l \<longrightarrow> \<not> gl_subtotal_known l) \<and>
     (case (gl_package_quantity l, gl_package_price l) of
        (Some q, Some price) \<Rightarrow>
          0 < q \<and> 0 \<le> gl_packages_count l \<and>
          gl_purchased_quantity l = dmul (of_int (gl_packages_count l)) q \<and>
          gl_subtotal l = dmul (of_int (gl_packages_count l)) price \<and>
          gl_pending_quantity l * (1 - 1 / 10 ^ 27) \<le> gl_purchased_quantity l \<and>
          gl_leftover l = dsub (gl_purchased_quantity l) (gl_pending_quantity l)
      | _ \<Rightarrow> gl_packages_count l = 0 \<and> gl_subtotal l = 0 \<and> \<not> gl_subtotal_known l)"

lemma dec28_key_needed: "dec28 (key_needed ps meals k)"
  by (simp add: key_needed_def dec28_dsum)

lemma priceless_ok:
  assumes "0 \<le> n" "0 \<le> u" "u \<le> n" "p = dsub n u"
  shows "line_ok (priceless_line meta n u p)"
  using assms by (simp add: line_ok_def)

lemma line_of_ok:
  assumes n: "0 \<le> needed" "dec28 needed"
    and av: "\<And>name u. 0 \<le> available (ps_pantry ps) name u"
    and pr: "\<And>p. lm_product meta = Some p \<Longrightarrow> list_all (\<lambda>opt. 0 \<le> po_amount opt) (cp_packages p)"
  shows "line_ok (line_of ps meta needed)"
proof (cases "\<exists>p. lm_product meta = Some p \<and> cp_packages p \<noteq> []")
  case False
  then have "line_of ps meta needed = priceless_line meta needed 0 needed"
    by (auto simp: line_of_def split: option.split)
  with n show ?thesis by (simp add: priceless_ok)
next
  case True
  then obtain p where p: "lm_product meta = Some p" "cp_packages p \<noteq> []" by blast
  obtain used pend where pe: "pending (ps_pantry ps) (lm_canonical meta) needed (lm_target_unit meta) = (used, pend)"
    by fastforce
  have u: "0 \<le> used" "used \<le> needed" "pend = dsub needed used"
    using pending_split[OF pe] n av by auto
  show ?thesis
  proof (cases "choose_package pend (cp_packages p) (ps_as_of ps) (sw_waste (ps_weights ps)) (sw_cost (ps_weights ps))")
    case None
    then have "line_of ps meta needed = priceless_line meta needed used pend"
      using p pe by (simp add: line_of_def)
    with n u show ?thesis by (simp add: priceless_ok)
  next
    case (Some c)
    then have l: "line_of ps meta needed = priced_line meta needed used pend c"
      using p pe by (simp add: line_of_def)
    obtain opt where o: "opt \<in> set (cp_packages p)"
      "evaluate_option pend (ps_as_of ps) (sw_waste (ps_weights ps)) (sw_cost (ps_weights ps)) opt =
        Some (option_key c (sw_waste (ps_weights ps)) (sw_cost (ps_weights ps)), c)"
      by (rule choose_package_Some[OF Some]) blast
    note e = evaluate_option_Some[OF o(2)]
    have amt: "0 \<le> po_amount opt" using pr[OF p(1)] o(1) by (auto simp: list_all_iff)
    note cov = compute_packages_covers[OF e(5) pending_dec28[OF pe] pending_nonneg[OF pe] e(6)]
    show ?thesis unfolding l line_ok_def using n u e cov amt by auto
  qed
qed

lemma key_meta_product:
  assumes "ps_matcher ps = product_matcher_init catalog groups" "lm_product (key_meta ps meals k) = Some p"
  shows "p \<in> set catalog"
  using assms(2) match_product_in_catalog[of catalog groups]
  by (auto simp: key_meta_def line_meta_of_def unmatched_meta_def match_ingredient_def assms(1)
      split: option.splits if_splits)

text \<open>
  A catalogue in which the packages of a product have one unit, and products of one id the same
  packages; and a use of an ingredient, scaled and converted to a unit.
\<close>

definition one_unit :: "catalog_product_dto list \<Rightarrow> bool" where
  "one_unit catalog = list_all (\<lambda>p.
     list_all (\<lambda>opt. po_package_unit opt = po_package_unit (hd (cp_packages p))) (cp_packages p) \<and>
     list_all (\<lambda>q. if cp_product_id q = cp_product_id p then cp_packages q = cp_packages p else True) catalog) catalog"

definition needed_in :: "unit_converter \<Rightarrow> string \<Rightarrow> ingredient_use \<Rightarrow> dec option" where
  "needed_in converter unit u =
     (case u of (slot, scale, ing) \<Rightarrow>
        (case convert converter (dmul (ri_quantity ing) scale) (ri_unit ing) unit (Some (ri_canonical_name ing)) of
           Inr q \<Rightarrow> Some q
         | Inl _ \<Rightarrow> None))"

lemma one_unitD:
  assumes "one_unit catalog" "p \<in> set catalog"
  shows "opt \<in> set (cp_packages p) \<Longrightarrow> po_package_unit opt = po_package_unit (hd (cp_packages p))"
    and "q \<in> set catalog \<Longrightarrow> cp_product_id q = cp_product_id p \<Longrightarrow> cp_packages q = cp_packages p"
  using assms unfolding one_unit_def list_all_iff by (blast, metis)

lemma product_key_line:
  assumes "line_key ps ing = product_key p"
  obtains q where "match_ingredient (ps_matcher ps) ing = Some q" "cp_product_id q = cp_product_id p"
    "can_convert (ps_converter ps) (ri_unit ing) (target_unit q (ri_unit ing)) (Some (ri_canonical_name ing))"
proof (cases "match_ingredient (ps_matcher ps) ing")
  case None
  with assms show thesis by (simp add: line_key_def product_key_def ingredient_key_def)
next
  case (Some q)
  then show thesis
    using assms that[OF Some]
    by (cases "can_convert (ps_converter ps) (ri_unit ing) (target_unit q (ri_unit ing)) (Some (ri_canonical_name ing))")
      (simp_all add: line_key_def product_key_def ingredient_key_def)
qed

lemma line_meta_key:
  assumes "lm_product (line_meta_of ps ing) = Some p" shows "line_key ps ing = product_key p"
proof (cases "match_ingredient (ps_matcher ps) ing")
  case None
  with assms show ?thesis by (simp add: line_meta_of_def unmatched_meta_def)
next
  case (Some q)
  with assms show ?thesis
    by (cases "can_convert (ps_converter ps) (ri_unit ing) (target_unit q (ri_unit ing)) (Some (ri_canonical_name ing))")
      (simp_all add: line_meta_of_def line_key_def unmatched_meta_def)
qed

lemma line_key_product:
  assumes "ps_matcher ps = product_matcher_init catalog groups" "one_unit catalog"
    and "line_key ps ing = product_key p" "p \<in> set catalog" "cp_packages p \<noteq> []"
  shows "needed_in (ps_converter ps) (po_package_unit (hd (cp_packages p))) (slot, scale, ing) = Some (line_qty ps scale ing)"
proof -
  from assms(3) obtain q where q: "match_ingredient (ps_matcher ps) ing = Some q" "cp_product_id q = cp_product_id p"
    and conv: "can_convert (ps_converter ps) (ri_unit ing) (target_unit q (ri_unit ing)) (Some (ri_canonical_name ing))"
    by (rule product_key_line)
  from q(1) have "q \<in> set catalog"
    using match_product_in_catalog[of catalog groups] by (auto simp: match_ingredient_def assms(1) split: option.splits)
  from one_unitD(2)[OF assms(2,4) this q(2)] have "cp_packages q = cp_packages p" .
  with assms(5) have unit: "target_unit q (ri_unit ing) = po_package_unit (hd (cp_packages p))"
    by (simp add: target_unit_def split: list.split)
  from conv have "\<not> isl (convert (ps_converter ps) 1 (ri_unit ing) (target_unit q (ri_unit ing)) (Some (ri_canonical_name ing)))"
    by (simp add: can_convert_def split: sum.splits)
  with convert_Inl_cong obtain n where "convert (ps_converter ps) (dmul (ri_quantity ing) scale) (ri_unit ing)
      (target_unit q (ri_unit ing)) (Some (ri_canonical_name ing)) = Inr n"
    by (metis isl_def sum.collapse(2))
  with q(1) unit show ?thesis by (simp add: needed_in_def line_qty_def Let_def)
qed

text \<open>The unit of the line of a key is the unit of all its uses.\<close>

lemma line_of_unit:
  assumes "ps_matcher ps = product_matcher_init catalog groups" "one_unit catalog" "k \<in> set (demand_keys ps meals)"
    and "gl_package_quantity (line_of ps (key_meta ps meals k) n) \<noteq> None"
  obtains unit where "gl_package_unit (line_of ps (key_meta ps meals k) n) = Some unit"
    "map (needed_in (ps_converter ps) unit) (key_uses ps meals k) = map (\<lambda>u. Some (use_qty ps u)) (key_uses ps meals k)"
proof -
  let ?meta = "key_meta ps meals k"
  from assms(4) obtain p where p: "lm_product ?meta = Some p" "cp_packages p \<noteq> []"
    by (cases "lm_product ?meta") (auto simp: line_of_def split: if_splits)
  obtain used pend where pe: "pending (ps_pantry ps) (lm_canonical ?meta) n (lm_target_unit ?meta) = (used, pend)"
    by fastforce
  from assms(4) p pe obtain c
    where c: "choose_package pend (cp_packages p) (ps_as_of ps) (sw_waste (ps_weights ps)) (sw_cost (ps_weights ps)) = Some c"
    by (cases "choose_package pend (cp_packages p) (ps_as_of ps) (sw_waste (ps_weights ps)) (sw_cost (ps_weights ps))")
      (simp_all add: line_of_def)
  have line: "line_of ps ?meta n = priced_line ?meta n used pend c" using p pe c by (simp add: line_of_def)
  have cat: "p \<in> set catalog" by (rule key_meta_product[OF assms(1) p(1)])
  have "ch_option c \<in> set (cp_packages p)"
    by (rule choose_package_Some[OF c]) (simp add: evaluate_option_Some(1))
  from one_unitD(1)[OF assms(2) cat this]
  have unit: "gl_package_unit (line_of ps ?meta n) = Some (po_package_unit (hd (cp_packages p)))"
    by (simp add: line priced_line_def Let_def)
  from assms(3) have "hd (key_uses ps meals k) \<in> set (key_uses ps meals k)" by (simp add: demand_keys_uses)
  then have "line_key ps (snd (snd (hd (key_uses ps meals k)))) = k" by (simp add: key_uses_def use_key_def)
  with line_meta_key[OF p(1)[unfolded key_meta_def]] have key: "k = product_key p" by simp
  have "needed_in (ps_converter ps) (po_package_unit (hd (cp_packages p))) u = Some (use_qty ps u)"
    if "u \<in> set (key_uses ps meals k)" for u
    using line_key_product[OF assms(1,2) _ cat p(2), of "snd (snd u)" "fst u" "fst (snd u)"] that
    by (simp add: key key_uses_def use_key_def use_qty_def)
  with unit that show thesis by simp
qed


definition example_provisioner :: "catalog_product_dto list \<Rightarrow> pantry_item_dto list \<Rightarrow> provisioner" where
  "example_provisioner catalog pantry =
     \<lparr>ps_matcher = product_matcher_init catalog [],
      ps_pantry = pantry_calculator_init pantry (unit_converter_init []) None,
      ps_weights = default_weights, ps_converter = unit_converter_init [], ps_as_of = None\<rparr>"

definition example_meal :: "int \<Rightarrow> int \<Rightarrow> candidate_recipe_dto \<Rightarrow> meal_assignment" where
  "example_meal i servings recipe =
     \<lparr>ma_slot_index = i, ma_date = 0, ma_meal_type = Lunch, ma_recipe = recipe,
      ma_servings = servings, ma_participants = []\<rparr>"


text \<open>Packages of two units. The need is expressed in the unit of the first package, kilos, and the
  package chosen is counted in its own: with the kilo out of stock, one pack of 500 g is bought for a
  need of a kilo and a half.\<close>

theorem mixed_units_underbuy:
  "map (\<lambda>l. (gl_needed_quantity l, gl_packages_count l, gl_package_quantity l, gl_package_unit l))
     (pv_grocery_lines (provision_meals
       (example_provisioner [example_product ''arroz'' {} [(example_package ''a1'' 1 1)\<lparr>po_package_unit := ''kg'', po_availability := OutOfStock\<rparr>,
          example_package ''a2'' 500 1]] [])
       [example_meal 0 2 (example_recipe ''paella'' 2 [example_ingredient ''arroz'' (3 / 2) ''kg''])])) =
   [(3 / 2, 1, Some 500, Some ''g'')]"
  by code_simp

text \<open>A rounding that costs a package. A recipe for three that takes 300 g, cooked for five,
  needs exactly 500 g, five packages of 100 g; because the scale 5/3 is rounded up to 28 digits
  first, the demand is a hair above 500 g and a sixth package is bought.\<close>

theorem rounding_buys_extra_package:
  "map gl_packages_count (pv_grocery_lines (provision_meals
     (example_provisioner [example_product ''arroz'' {} [example_package ''a1'' 100 1]] [])
     [example_meal 0 5 (example_recipe ''paella'' 3 [example_ingredient ''arroz'' 300 ''g''])])) = [6]"
  by code_simp

end
