(* ===== verification/Nutrition.thy ===== *)
theory Nutrition
  imports Provisioning
begin

text \<open>
  \<open>cestaplan_engine/nutrition.py\<close>: macros from the quantities used. The dictionary \<open>totals\<close>
  has the four macro names as its keys from the start, so it is a function on \<open>macro\<close>.
\<close>

record nutrition_calculator =
  nc_matcher :: product_matcher
  nc_converter :: unit_converter

type_synonym totals = "macro \<Rightarrow> dec"

text \<open>The inner loop over \<open>_MACROS\<close> for one ingredient.\<close>

definition add_macro :: "nutrition_dto \<Rightarrow> dec \<Rightarrow> macro \<Rightarrow> bool \<times> totals \<Rightarrow> bool \<times> totals" where
  "add_macro nut factor macro st =
     (case nutrition_macro nut macro of
        None \<Rightarrow> (False, snd st)
      | Some value \<Rightarrow> (fst st, (snd st)(macro := dadd (snd st macro) (dmul value factor))))"

text \<open>The loop body of \<open>_accumulate\<close>; the state is \<open>(complete, contributed, totals)\<close>.\<close>

definition accumulate_ingredient ::
  "nutrition_calculator \<Rightarrow> dec \<Rightarrow> recipe_ingredient_dto \<Rightarrow> bool \<times> bool \<times> totals \<Rightarrow> bool \<times> bool \<times> totals" where
  "accumulate_ingredient nc scale ing st =
     (case match_ingredient (nc_matcher nc) ing of
        None \<Rightarrow> (False, snd st)
      | Some product \<Rightarrow>
        (case cp_nutrition product of
           None \<Rightarrow> (False, snd st)
         | Some nut \<Rightarrow>
           (case convert (nc_converter nc) (dmul (ri_quantity ing) scale) (ri_unit ing) ''g''
                   (Some (ri_canonical_name ing)) of
              Inl _ \<Rightarrow> (False, snd st)
            | Inr grams \<Rightarrow>
                (let (complete, totals) = fold (add_macro nut (ddiv grams 100)) macros (fst st, snd (snd st))
                 in (complete, True, totals)))))"

definition accumulate :: "nutrition_calculator \<Rightarrow> candidate_recipe_dto \<Rightarrow> dec \<Rightarrow> totals \<Rightarrow> bool \<times> bool \<times> totals" where
  "accumulate nc recipe scale totals =
     fold (accumulate_ingredient nc scale) (cr_ingredients recipe) (True, False, totals)"

definition no_totals :: totals where
  "no_totals = (\<lambda>_. 0)"

definition for_meal :: "nutrition_calculator \<Rightarrow> meal_assignment \<Rightarrow> nutrition_dto option \<times> bool" where
  "for_meal nc meal =
     (let (complete, contributed, totals) = accumulate nc (ma_recipe meal) (meal_scale meal) no_totals in
      if \<not> contributed then (None, False)
      else (Some \<lparr>nu_kcal = Some (totals Kcal), nu_protein_g = Some (totals ProteinG),
                  nu_carbs_g = Some (totals CarbsG), nu_fat_g = Some (totals FatG)\<rparr>, complete))"

definition add_meal_per_serving ::
  "nutrition_calculator \<Rightarrow> meal_assignment \<Rightarrow> totals \<times> bool \<Rightarrow> totals \<times> bool" where
  "add_meal_per_serving nc meal st =
     (let scale = ddiv 1 (of_int (cr_servings (ma_recipe meal)));
          (meal_complete, contributed, meal_totals) = accumulate nc (ma_recipe meal) scale no_totals;
          complete = (if meal_complete then snd st else False)
      in (if contributed then (\<lambda>m. dadd (fst st m) (meal_totals m)) else fst st, complete))"

definition for_meals_per_serving :: "nutrition_calculator \<Rightarrow> meal_assignment list \<Rightarrow> totals \<times> bool" where
  "for_meals_per_serving nc meals = fold (add_meal_per_serving nc) meals (no_totals, True)"


section \<open>Lemmas\<close>

text \<open>The nutrition facts an ingredient resolves to and the factor they are taken with.\<close>

definition resolved :: "nutrition_calculator \<Rightarrow> dec \<Rightarrow> recipe_ingredient_dto \<Rightarrow> (nutrition_dto \<times> dec) option" where
  "resolved nc scale ing =
     Option.bind (match_ingredient (nc_matcher nc) ing) (\<lambda>p.
       Option.bind (cp_nutrition p) (\<lambda>nut.
         case convert (nc_converter nc) (dmul (ri_quantity ing) scale) (ri_unit ing) ''g'' (Some (ri_canonical_name ing)) of
           Inl _ \<Rightarrow> None | Inr grams \<Rightarrow> Some (nut, ddiv grams 100)))"

definition all_macros :: "nutrition_dto \<Rightarrow> bool" where
  "all_macros nut = list_all (\<lambda>m. nutrition_macro nut m \<noteq> None) macros"

text \<open>What an ingredient adds to a macro.\<close>

definition contribution :: "nutrition_calculator \<Rightarrow> dec \<Rightarrow> macro \<Rightarrow> recipe_ingredient_dto \<Rightarrow> dec option" where
  "contribution nc scale m ing =
     Option.bind (resolved nc scale ing) (\<lambda>(nut, f). map_option (\<lambda>v. dmul v f) (nutrition_macro nut m))"

lemma UNIV_macros: "m \<in> set macros"
  by (cases m) (auto simp: macros_def)

lemma fold_add_macro:
  "fold (add_macro nut f) macros (c, t) =
     (c \<and> all_macros nut,
      \<lambda>m. case nutrition_macro nut m of None \<Rightarrow> t m | Some v \<Rightarrow> dadd (t m) (dmul v f))"
proof -
  have "fold (add_macro nut f) ms (c, t) =
     (c \<and> list_all (\<lambda>m. nutrition_macro nut m \<noteq> None) ms,
      \<lambda>m. if m \<in> set ms then (case nutrition_macro nut m of None \<Rightarrow> t m | Some v \<Rightarrow> dadd (t m) (dmul v f)) else t m)"
    if "distinct ms" for ms
    using that
  proof (induction ms arbitrary: c t)
    case Nil
    then show ?case by simp
  next
    case (Cons x ms)
    then show ?case by (auto simp: add_macro_def fun_eq_iff split: option.split)
  qed
  from this[of macros] show ?thesis by (simp add: macros_def all_macros_def UNIV_macros[unfolded macros_def])
    (auto simp: fun_eq_iff UNIV_macros[unfolded macros_def, simplified])
qed

lemma accumulate_ingredient_resolved:
  "accumulate_ingredient nc scale ing (c, d, t) =
     (case resolved nc scale ing of
        None \<Rightarrow> (False, d, t)
      | Some (nut, f) \<Rightarrow>
          (c \<and> all_macros nut, True,
           \<lambda>m. case contribution nc scale m ing of None \<Rightarrow> t m | Some q \<Rightarrow> dadd (t m) q))"
  by (auto simp: accumulate_ingredient_def resolved_def contribution_def fold_add_macro fun_eq_iff
      split: option.splits sum.splits)

lemma accumulate_fold:
  "fold (accumulate_ingredient nc scale) ings (c, d, t) =
     (c \<and> list_all (\<lambda>i. case resolved nc scale i of None \<Rightarrow> False | Some (nut, _) \<Rightarrow> all_macros nut) ings,
      d \<or> list_ex (\<lambda>i. resolved nc scale i \<noteq> None) ings,
      \<lambda>m. fold (\<lambda>q acc. dadd acc q) (List.map_filter (contribution nc scale m) ings) (t m))"
proof (induction ings arbitrary: c d t)
  case Nil
  then show ?case by (simp add: map_filter_simps)
next
  case (Cons i ings)
  show ?case
  proof (cases "resolved nc scale i")
    case None
    then have "contribution nc scale m i = None" for m by (simp add: contribution_def)
    with None Cons.IH show ?thesis by (simp add: accumulate_ingredient_resolved map_filter_simps)
  next
    case (Some nf)
    obtain nut f where nf: "nf = (nut, f)" by (cases nf)
    show ?thesis using Some Cons.IH
      by (simp add: nf accumulate_ingredient_resolved map_filter_simps fun_eq_iff split: option.split)
  qed
qed

lemma accumulate_eq:
  "accumulate nc recipe scale no_totals =
     (list_all (\<lambda>i. case resolved nc scale i of None \<Rightarrow> False | Some (nut, _) \<Rightarrow> all_macros nut) (cr_ingredients recipe),
      list_ex (\<lambda>i. resolved nc scale i \<noteq> None) (cr_ingredients recipe),
      \<lambda>m. dsum (List.map_filter (contribution nc scale m) (cr_ingredients recipe)))"
  by (simp add: accumulate_def accumulate_fold no_totals_def dsum_def)

text \<open>Macros are never invented. The nutrition of a meal is marked complete exactly when it
  has an ingredient and each of its ingredients has a matched product with nutrition data, a
  conversion to grams and all four macros; it is absent exactly when no ingredient resolves;
  and when present, each macro is the sum, in the order of the ingredients, of what the
  resolved ingredients declare for their quantity.\<close>

theorem for_meal_complete:
  "snd (for_meal nc meal) =
     (cr_ingredients (ma_recipe meal) \<noteq> [] \<and>
      list_all (\<lambda>i. case resolved nc (meal_scale meal) i of None \<Rightarrow> False | Some (nut, _) \<Rightarrow> all_macros nut)
        (cr_ingredients (ma_recipe meal))) \<and>
   (fst (for_meal nc meal) = None) =
     list_all (\<lambda>i. resolved nc (meal_scale meal) i = None) (cr_ingredients (ma_recipe meal)) \<and>
   (case fst (for_meal nc meal) of
      None \<Rightarrow> True
    | Some nut \<Rightarrow>
        nutrition_macro nut m =
          Some (dsum (List.map_filter (contribution nc (meal_scale meal) m) (cr_ingredients (ma_recipe meal)))))"
proof -
  let ?is = "cr_ingredients (ma_recipe meal)" and ?s = "meal_scale meal"
  have ne: "list_ex (\<lambda>i. resolved nc ?s i \<noteq> None) ?is"
    if "?is \<noteq> []" "list_all (\<lambda>i. case resolved nc ?s i of None \<Rightarrow> False | Some (nut, _) \<Rightarrow> all_macros nut) ?is"
    using that by (cases ?is) (auto split: option.splits)
  have ex: "list_ex (\<lambda>i. resolved nc ?s i \<noteq> None) ?is \<longleftrightarrow> \<not> list_all (\<lambda>i. resolved nc ?s i = None) ?is"
    by (auto simp: list_all_iff list_ex_iff)
  show ?thesis
  proof (cases "list_ex (\<lambda>i. resolved nc ?s i \<noteq> None) ?is")
    case True
    then have "?is \<noteq> []" by auto
    with True ex show ?thesis by (cases m) (simp_all add: for_meal_def accumulate_eq)
  next
    case False
    with ex ne show ?thesis by (auto simp: for_meal_def accumulate_eq)
  qed
qed

text \<open>Targets do not depend on the batch. The per-serving totals of a plan do not depend on
  how many servings each meal is cooked for, on its slot, date or participants, and they are
  complete exactly when every ingredient of every meal is resolved with all four macros.\<close>

theorem per_serving_batch_independent:
  "for_meals_per_serving nc (map (\<lambda>m. m\<lparr>ma_servings := f m, ma_participants := g m, ma_date := h m, ma_slot_index := k m\<rparr>) meals)
     = for_meals_per_serving nc meals \<and>
   snd (for_meals_per_serving nc meals) =
     list_all (\<lambda>meal. list_all (\<lambda>i.
        case resolved nc (ddiv 1 (of_int (cr_servings (ma_recipe meal)))) i of
          None \<Rightarrow> False | Some (nut, _) \<Rightarrow> all_macros nut) (cr_ingredients (ma_recipe meal))) meals"
proof
  have "fold (add_meal_per_serving nc) (map (\<lambda>m. m\<lparr>ma_servings := f m, ma_participants := g m, ma_date := h m, ma_slot_index := k m\<rparr>) meals) st
      = fold (add_meal_per_serving nc) meals st" for st
    by (induction meals arbitrary: st) (simp_all add: add_meal_per_serving_def)
  then show "for_meals_per_serving nc (map (\<lambda>m. m\<lparr>ma_servings := f m, ma_participants := g m, ma_date := h m, ma_slot_index := k m\<rparr>) meals)
     = for_meals_per_serving nc meals"
    by (simp add: for_meals_per_serving_def)
  have "snd (fold (add_meal_per_serving nc) meals st) = (snd st \<and>
     list_all (\<lambda>meal. list_all (\<lambda>i.
        case resolved nc (ddiv 1 (of_int (cr_servings (ma_recipe meal)))) i of
          None \<Rightarrow> False | Some (nut, _) \<Rightarrow> all_macros nut) (cr_ingredients (ma_recipe meal))) meals)" for st
    by (induction meals arbitrary: st) (auto simp: add_meal_per_serving_def accumulate_eq Let_def)
  then show "snd (for_meals_per_serving nc meals) =
     list_all (\<lambda>meal. list_all (\<lambda>i.
        case resolved nc (ddiv 1 (of_int (cr_servings (ma_recipe meal)))) i of
          None \<Rightarrow> False | Some (nut, _) \<Rightarrow> all_macros nut) (cr_ingredients (ma_recipe meal))) meals"
    by (simp add: for_meals_per_serving_def)
qed

end
