(* ===== verification/Optimizer.thy ===== *)
theory Optimizer
  imports Nutrition Scheduling "HOL-Library.Multiset"
begin

text \<open>
  \<open>cestaplan_engine/optimizer.py\<close>: greedy construction and bounded single-swap search. The
  constructor arguments are the record \<open>plan_optimizer\<close>; the attributes that change during a
  search (the random generator and the cheapest plan seen) are \<open>search_state\<close>, passed through
  every function. \<open>random.Random(seed)\<close> is the argument \<open>draw\<close>: the \<open>k\<close>-th number it hands
  out is \<open>draw k\<close>, reduced to the range that \<open>shuffle\<close> asks for; nothing is assumed of it.
  \<open>AssertionError\<close> is the \<open>Inl\<close> of a sum.
\<close>

type_synonym random_source = "nat \<Rightarrow> nat"

record plan_optimizer =
  oz_prov :: provisioner
  oz_weights :: scoring_weights
  oz_budget :: budget_dto
  oz_favorites :: "string set"
  oz_rejected :: "string set"
  oz_soft :: "(string, int) dict"
  oz_max_passes :: nat
  oz_nutrition_target :: "nutrition_target_dto option"
  oz_nutrition_calc :: "nutrition_calculator option"
  oz_num_days :: int
  oz_comensal_weight :: dec

text \<open>The guards of \<open>__init__\<close> on the number of days and the eater weight.\<close>

definition effective_num_days :: "int \<Rightarrow> int" where
  "effective_num_days n = (if 0 < n then n else 1)"

definition effective_comensal_weight :: "dec option \<Rightarrow> dec" where
  "effective_comensal_weight w =
     (case w of Some x \<Rightarrow> if x \<noteq> 0 \<and> 0 < x then x else 1 | None \<Rightarrow> 1)"

record search_state =
  se_draws :: nat
  se_cheapest_cost :: "dec option"
  se_cheapest_assignment :: "candidate_recipe_dto list"
  se_cheapest_provision :: "provision option"

definition search_init :: search_state where
  "search_init = \<lparr>se_draws = 0, se_cheapest_cost = None, se_cheapest_assignment = [],
     se_cheapest_provision = None\<rparr>"

record optimizer_outcome =
  oo_feasible :: bool
  oo_missing_meal_types :: "meal_type list"
  oo_assignment :: "candidate_recipe_dto list"
  oo_provision :: "provision option"
  oo_score :: dec
  oo_over_budget :: bool
  oo_cheapest_cost :: "dec option"
  oo_cheapest_assignment :: "candidate_recipe_dto list"
  oo_cheapest_provision :: "provision option"


section \<open>Scoring\<close>

definition budget_penalty :: dec where
  "budget_penalty = 1000000"

definition budget_limit :: "budget_dto \<Rightarrow> dec" where
  "budget_limit b =
     (if bg_strict b then bg_amount b else dmul (bg_amount b) (dadd 1 (bg_max_margin_ratio b)))"

text \<open>\<open>_build_meals\<close>; \<open>zip(..., strict=True)\<close> is only called with lists of one length.\<close>

definition build_meals :: "meal_slot list \<Rightarrow> candidate_recipe_dto list \<Rightarrow> meal_assignment list" where
  "build_meals slots recipes =
     map (\<lambda>(slot, recipe).
       \<lparr>ma_slot_index = sl_index slot, ma_date = sl_date slot, ma_meal_type = sl_meal_type slot,
        ma_recipe = recipe, ma_servings = sl_servings slot, ma_participants = []\<rparr>)
       (zip slots recipes)"

definition macro_penalty ::
  "plan_optimizer \<Rightarrow> nutrition_target_dto \<Rightarrow> totals \<Rightarrow> macro \<Rightarrow> dec \<Rightarrow> dec" where
  "macro_penalty oz target totals macro penalty =
     (case target_macro target macro of
        None \<Rightarrow> penalty
      | Some goal \<Rightarrow>
          if goal \<le> 0 then penalty
          else
            (let actual_per_day = ddiv (dmul (totals macro) (oz_comensal_weight oz)) (of_int (oz_num_days oz))
             in dadd penalty (ddiv (dabs (dsub actual_per_day goal)) goal)))"

definition nutrition_penalty ::
  "plan_optimizer \<Rightarrow> meal_slot list \<Rightarrow> candidate_recipe_dto list \<Rightarrow> dec" where
  "nutrition_penalty oz slots recipes =
     (case (oz_nutrition_target oz, oz_nutrition_calc oz) of
        (Some target, Some calc) \<Rightarrow>
          fold (macro_penalty oz target (fst (for_meals_per_serving calc (build_meals slots recipes)))) macros 0
      | _ \<Rightarrow> 0)"

definition waste_step :: "grocery_line_dto \<Rightarrow> dec \<times> int \<Rightarrow> dec \<times> int" where
  "waste_step line st =
     (let waste = (if 0 < gl_purchased_quantity line \<and> 0 < gl_subtotal line
                   then dadd (fst st) (ddiv (dmul (gl_subtotal line) (gl_leftover line)) (gl_purchased_quantity line))
                   else fst st);
          bonus = (if 0 < gl_pantry_quantity line then snd st + 1 else snd st)
      in (waste, bonus))"

text \<open>\<open>sum(c * (c - 1) // 2 for c in Counter(...).values())\<close>.\<close>

definition repetition :: "candidate_recipe_dto list \<Rightarrow> int" where
  "repetition recipes =
     (let ids = map cr_recipe_id recipes in
      sum_list (map (\<lambda>rid. (let c = int (count_list ids rid) in c * (c - 1) div 2)) (remdups ids)))"

definition count_in :: "string set \<Rightarrow> candidate_recipe_dto list \<Rightarrow> int" where
  "count_in ids recipes = int (length (filter (\<lambda>r. cr_recipe_id r \<in> ids) recipes))"

definition plan_score ::
  "plan_optimizer \<Rightarrow> candidate_recipe_dto list \<Rightarrow> provision \<Rightarrow> meal_slot list \<Rightarrow> dec" where
  "plan_score oz recipes prov slots =
     (let w = oz_weights oz;
          cost = cost_total prov;
          (waste_value, pantry_bonus) = fold waste_step (pv_grocery_lines prov) (0, 0);
          time_minutes = ddiv (of_int (sum_list (map (\<lambda>r. cr_preparation_minutes r + cr_cooking_minutes r) recipes))) 60;
          favorite_bonus = of_int (count_in (oz_favorites oz) recipes);
          rejected = of_int (count_in (oz_rejected oz) recipes);
          soft = of_int (sum_list (map (\<lambda>r. dget (oz_soft oz) (cr_recipe_id r) 0) recipes));
          score = dmul (sw_waste w) waste_value;
          score = dadd score (dmul (sw_repetition w) (of_int (repetition recipes)));
          score = dadd score (dmul (sw_time w) time_minutes);
          score = dadd score (dmul (sw_soft w) soft);
          score = dsub score (dmul (sw_pantry w) (of_int pantry_bonus));
          score = dsub score (dmul (sw_favorite w) favorite_bonus);
          score = dadd score (dmul (sw_rejected w) rejected);
          score = dadd score (dmul (sw_nutrition_deviation w) (nutrition_penalty oz slots recipes));
          score = (if bg_priority (oz_budget oz) = PriorityPrice then dadd score (dmul (sw_cost w) cost) else score);
          limit = budget_limit (oz_budget oz)
      in if limit < cost then dadd score (dmul budget_penalty (dsub cost limit)) else score)"

definition plan_provision ::
  "plan_optimizer \<Rightarrow> meal_slot list \<Rightarrow> candidate_recipe_dto list \<Rightarrow> provision" where
  "plan_provision oz slots recipes = provision_meals (oz_prov oz) (build_meals slots recipes)"

definition track_cheapest ::
  "candidate_recipe_dto list \<Rightarrow> provision \<Rightarrow> search_state \<Rightarrow> search_state" where
  "track_cheapest recipes prov st =
     (let cost = cost_total prov in
      if (case se_cheapest_cost st of None \<Rightarrow> True | Some c \<Rightarrow> cost < c)
      then st\<lparr>se_cheapest_cost := Some cost, se_cheapest_assignment := recipes,
              se_cheapest_provision := Some prov\<rparr>
      else st)"


section \<open>The seeded order\<close>

text \<open>\<open>random.shuffle\<close>: for \<open>i\<close> from the last index down to 1, swap with an index up to \<open>i\<close>.\<close>

definition swap :: "nat \<Rightarrow> nat \<Rightarrow> 'a list \<Rightarrow> 'a list" where
  "swap i j xs = xs[i := xs ! j, j := xs ! i]"

fun shuffle_from :: "random_source \<Rightarrow> nat \<Rightarrow> nat \<Rightarrow> 'a list \<Rightarrow> nat \<times> 'a list" where
  "shuffle_from draw k 0 xs = (k, xs)"
| "shuffle_from draw k (Suc i) xs = shuffle_from draw (k + 1) i (swap (Suc i) (draw k mod (Suc i + 1)) xs)"

definition ordered ::
  "random_source \<Rightarrow> candidate_recipe_dto list \<Rightarrow> search_state \<Rightarrow> candidate_recipe_dto list \<times> search_state" where
  "ordered draw options st =
     (let (k, xs) = shuffle_from draw (se_draws st) (length options - 1) (sort_key cr_recipe_id options)
      in (xs, st\<lparr>se_draws := k\<rparr>))"


section \<open>Search\<close>

type_synonym feasible_map = "(int, candidate_recipe_dto list) dict"

definition greedy_key ::
  "plan_optimizer \<Rightarrow> bool \<Rightarrow> meal_slot list \<Rightarrow> candidate_recipe_dto list \<Rightarrow> candidate_recipe_dto \<Rightarrow> dec \<times> string" where
  "greedy_key oz cost_only slots chosen recipe =
     (let trial = chosen @ [recipe]; prov = plan_provision oz slots trial in
      (if cost_only then cost_total prov else plan_score oz trial prov slots, cr_recipe_id recipe))"

text \<open>The loop of \<open>_greedy\<close> over the slots: those already filled, those to fill.\<close>

fun greedy_loop ::
  "random_source \<Rightarrow> plan_optimizer \<Rightarrow> feasible_map \<Rightarrow> bool \<Rightarrow> meal_slot list \<Rightarrow> candidate_recipe_dto list \<Rightarrow>
    meal_slot list \<Rightarrow> search_state \<Rightarrow> (py_exn + candidate_recipe_dto list) \<times> search_state" where
  "greedy_loop draw oz feasible cost_only filled chosen [] st = (Inr chosen, st)"
| "greedy_loop draw oz feasible cost_only filled chosen (slot # slots) st =
     (let (options, st) = ordered draw (dget feasible (sl_index slot) []) st in
      case argmin (greedy_key oz cost_only (filled @ [slot]) chosen) options of
        None \<Rightarrow> (Inl AssertionError, st)
      | Some best_recipe \<Rightarrow>
          greedy_loop draw oz feasible cost_only (filled @ [slot]) (chosen @ [best_recipe]) slots st)"

definition greedy ::
  "random_source \<Rightarrow> plan_optimizer \<Rightarrow> meal_slot list \<Rightarrow> feasible_map \<Rightarrow> bool \<Rightarrow> search_state \<Rightarrow>
    (py_exn + candidate_recipe_dto list) \<times> search_state" where
  "greedy draw oz slots feasible cost_only st = greedy_loop draw oz feasible cost_only [] [] slots st"

text \<open>The plan the local search holds: \<open>chosen\<close>, \<open>best_score\<close> and \<open>best_prov\<close>.\<close>

record held_plan =
  hp_chosen :: "candidate_recipe_dto list"
  hp_score :: dec
  hp_prov :: provision

text \<open>The innermost loop: the first recipe that improves on the plan held, if any (\<open>break\<close>).\<close>

fun try_swaps ::
  "plan_optimizer \<Rightarrow> meal_slot list \<Rightarrow> nat \<Rightarrow> candidate_recipe_dto \<Rightarrow> candidate_recipe_dto list \<Rightarrow>
    held_plan \<Rightarrow> search_state \<Rightarrow> held_plan option \<times> search_state" where
  "try_swaps oz slots i current [] held st = (None, st)"
| "try_swaps oz slots i current (recipe # options) held st =
     (if cr_recipe_id recipe = cr_recipe_id current then try_swaps oz slots i current options held st
      else
        (let trial = (hp_chosen held)[i := recipe];
             tprov = plan_provision oz slots trial;
             st = track_cheapest trial tprov st;
             tscore = plan_score oz trial tprov slots
         in if (tscore, cr_recipe_id recipe) < (hp_score held, cr_recipe_id current)
            then (Some \<lparr>hp_chosen = trial, hp_score = tscore, hp_prov = tprov\<rparr>, st)
            else try_swaps oz slots i current options held st))"

text \<open>One pass over the slots from index \<open>i\<close>; the flag is \<open>improved\<close>.\<close>

fun swap_pass ::
  "random_source \<Rightarrow> plan_optimizer \<Rightarrow> feasible_map \<Rightarrow> meal_slot list \<Rightarrow> nat \<Rightarrow> meal_slot list \<Rightarrow> bool \<Rightarrow>
    held_plan \<Rightarrow> search_state \<Rightarrow> bool \<times> held_plan \<times> search_state" where
  "swap_pass draw oz feasible slots i [] improved held st = (improved, held, st)"
| "swap_pass draw oz feasible slots i (slot # rest) improved held st =
     (let current = hp_chosen held ! i;
          (options, st) = ordered draw (dget feasible (sl_index slot) []) st
      in case try_swaps oz slots i current options held st of
           (None, st) \<Rightarrow> swap_pass draw oz feasible slots (i + 1) rest improved held st
         | (Some better, st) \<Rightarrow> swap_pass draw oz feasible slots (i + 1) rest True better st)"

fun swap_passes ::
  "random_source \<Rightarrow> plan_optimizer \<Rightarrow> feasible_map \<Rightarrow> meal_slot list \<Rightarrow> nat \<Rightarrow> held_plan \<Rightarrow> search_state \<Rightarrow>
    held_plan \<times> search_state" where
  "swap_passes draw oz feasible slots 0 held st = (held, st)"
| "swap_passes draw oz feasible slots (Suc n) held st =
     (let (improved, held, st) = swap_pass draw oz feasible slots 0 slots False held st in
      if improved then swap_passes draw oz feasible slots n held st else (held, st))"

definition local_search ::
  "random_source \<Rightarrow> plan_optimizer \<Rightarrow> meal_slot list \<Rightarrow> feasible_map \<Rightarrow> candidate_recipe_dto list \<Rightarrow>
    search_state \<Rightarrow> held_plan \<times> search_state" where
  "local_search draw oz slots feasible chosen st =
     (let prov = plan_provision oz slots chosen;
          st = track_cheapest chosen prov st;
          best_score = plan_score oz chosen prov slots
      in swap_passes draw oz feasible slots (oz_max_passes oz)
           \<lparr>hp_chosen = chosen, hp_score = best_score, hp_prov = prov\<rparr> st)"

definition feasible_outcome :: "held_plan \<Rightarrow> bool \<Rightarrow> search_state \<Rightarrow> optimizer_outcome" where
  "feasible_outcome held over st =
     \<lparr>oo_feasible = True, oo_missing_meal_types = [], oo_assignment = hp_chosen held,
      oo_provision = Some (hp_prov held), oo_score = hp_score held, oo_over_budget = over,
      oo_cheapest_cost = se_cheapest_cost st, oo_cheapest_assignment = se_cheapest_assignment st,
      oo_cheapest_provision = se_cheapest_provision st\<rparr>"

definition missing_types :: "meal_slot list \<Rightarrow> feasible_map \<Rightarrow> meal_type list" where
  "missing_types slots feasible =
     map sl_meal_type (filter (\<lambda>slot. dget feasible (sl_index slot) [] = []) slots)"

definition infeasible_outcome :: "meal_type list \<Rightarrow> optimizer_outcome" where
  "infeasible_outcome missing =
     \<lparr>oo_feasible = False, oo_missing_meal_types = sorted_list_of_set (set missing),
      oo_assignment = [], oo_provision = None, oo_score = 0, oo_over_budget = False,
      oo_cheapest_cost = None, oo_cheapest_assignment = [], oo_cheapest_provision = None\<rparr>"

definition optimize ::
  "random_source \<Rightarrow> plan_optimizer \<Rightarrow> meal_slot list \<Rightarrow> feasible_map \<Rightarrow> py_exn + optimizer_outcome" where
  "optimize draw oz slots feasible =
     (let missing = missing_types slots feasible in
      if missing \<noteq> [] then Inr (infeasible_outcome missing)
      else
        (let limit = budget_limit (oz_budget oz) in
         case greedy draw oz slots feasible False search_init of
           (Inl e, _) \<Rightarrow> Inl e
         | (Inr seed_plan, st) \<Rightarrow>
             (let (held, st) = local_search draw oz slots feasible seed_plan st in
              if limit < cost_total (hp_prov held) then
                (case greedy draw oz slots feasible True st of
                   (Inl e, _) \<Rightarrow> Inl e
                 | (Inr cheap_plan, st) \<Rightarrow>
                     (let (fit, st) = local_search draw oz slots feasible cheap_plan st in
                      if cost_total (hp_prov fit) \<le> limit then Inr (feasible_outcome fit False st)
                      else Inr (feasible_outcome held True st)))
              else Inr (feasible_outcome held False st))))"


section \<open>The shuffle\<close>

lemma mset_swap_nth: "i < length xs \<Longrightarrow> j < length xs \<Longrightarrow> mset (swap i j xs) = mset xs"
  using mset_swap[of j xs i] by (simp add: swap_def)

lemma length_swap [simp]: "length (swap i j xs) = length xs"
  by (simp add: swap_def)

lemma mset_shuffle_from: "i < length xs \<Longrightarrow> mset (snd (shuffle_from draw k i xs)) = mset xs"
proof (induction i arbitrary: k xs)
  case 0
  then show ?case by simp
next
  case (Suc i)
  let ?j = "draw k mod (Suc i + 1)"
  have j: "?j < length xs" using Suc.prems mod_less_divisor[of "Suc i + 1" "draw k"] by linarith
  have "mset (snd (shuffle_from draw (k + 1) i (swap (Suc i) ?j xs))) = mset (swap (Suc i) ?j xs)"
    using Suc.prems by (intro Suc.IH) simp
  also have "\<dots> = mset xs" by (rule mset_swap_nth[OF Suc.prems j])
  finally show ?case by simp
qed

lemma mset_ordered: "mset (fst (ordered draw options st)) = mset options"
proof (cases "options = []")
  case True
  then show ?thesis by (simp add: ordered_def)
next
  case False
  then have "mset (snd (shuffle_from draw (se_draws st) (length options - 1) (sort_key cr_recipe_id options)))
      = mset options" by (subst mset_shuffle_from) auto
  then show ?thesis by (simp add: ordered_def split: prod.split) (metis snd_conv)
qed

lemma set_ordered: "set (fst (ordered draw options st)) = set options"
  using mset_ordered by (metis set_mset_mset)

lemma ordered_cheapest [simp]:
  "se_cheapest_cost (snd (ordered draw options st)) = se_cheapest_cost st"
  "se_cheapest_assignment (snd (ordered draw options st)) = se_cheapest_assignment st"
  "se_cheapest_provision (snd (ordered draw options st)) = se_cheapest_provision st"
  by (simp_all add: ordered_def split: prod.split)


section \<open>Invariants of the search\<close>

definition plan_ok :: "meal_slot list \<Rightarrow> feasible_map \<Rightarrow> candidate_recipe_dto list \<Rightarrow> bool" where
  "plan_ok slots feasible chosen \<longleftrightarrow>
     list_all2 (\<lambda>slot recipe. recipe \<in> set (dget feasible (sl_index slot) [])) slots chosen"

definition held_ok :: "plan_optimizer \<Rightarrow> meal_slot list \<Rightarrow> feasible_map \<Rightarrow> held_plan \<Rightarrow> bool" where
  "held_ok oz slots feasible held \<longleftrightarrow>
     plan_ok slots feasible (hp_chosen held) \<and>
     hp_prov held = plan_provision oz slots (hp_chosen held) \<and>
     hp_score held = plan_score oz (hp_chosen held) (hp_prov held) slots"

text \<open>The cheapest plan recorded is a whole plan, with its cost.\<close>

definition cheapest_ok :: "plan_optimizer \<Rightarrow> meal_slot list \<Rightarrow> feasible_map \<Rightarrow> search_state \<Rightarrow> bool" where
  "cheapest_ok oz slots feasible st \<longleftrightarrow>
     (case se_cheapest_cost st of
        None \<Rightarrow> True
      | Some c \<Rightarrow>
          plan_ok slots feasible (se_cheapest_assignment st) \<and>
          se_cheapest_provision st = Some (plan_provision oz slots (se_cheapest_assignment st)) \<and>
          c = cost_total (plan_provision oz slots (se_cheapest_assignment st)))"

lemma cheapest_ok_init: "cheapest_ok oz slots feasible search_init"
  by (simp add: cheapest_ok_def search_init_def)

text \<open>At most a given cost has been recorded.\<close>

definition seen_cost :: "search_state \<Rightarrow> dec \<Rightarrow> bool" where
  "seen_cost st c \<longleftrightarrow> (\<exists>c'. se_cheapest_cost st = Some c' \<and> c' \<le> c)"

lemma track_cheapest_seen:
  "seen_cost (track_cheapest recipes prov st) (cost_total prov)"
  "seen_cost st c \<Longrightarrow> seen_cost (track_cheapest recipes prov st) c"
  by (auto simp: track_cheapest_def seen_cost_def Let_def split: option.splits)

lemma track_cheapest_ok:
  "plan_ok slots feasible recipes \<Longrightarrow> cheapest_ok oz slots feasible st \<Longrightarrow>
   cheapest_ok oz slots feasible (track_cheapest recipes (plan_provision oz slots recipes) st)"
  by (auto simp: track_cheapest_def cheapest_ok_def Let_def)

lemma ordered_cheapest_ok [simp]:
  "cheapest_ok oz slots feasible (snd (ordered draw options st)) = cheapest_ok oz slots feasible st"
  "seen_cost (snd (ordered draw options st)) c = seen_cost st c"
  by (simp_all add: cheapest_ok_def seen_cost_def split: option.split)

lemma plan_ok_update:
  "plan_ok slots feasible chosen \<Longrightarrow> i < length slots \<Longrightarrow>
   recipe \<in> set (dget feasible (sl_index (slots ! i)) []) \<Longrightarrow> plan_ok slots feasible (chosen[i := recipe])"
  by (auto simp: plan_ok_def list_all2_conv_all_nth nth_list_update)

text \<open>No other recipe of the slot improves on the plan held.\<close>

definition no_better :: "plan_optimizer \<Rightarrow> meal_slot list \<Rightarrow> nat \<Rightarrow> candidate_recipe_dto list \<Rightarrow> held_plan \<Rightarrow> bool" where
  "no_better oz slots i options held \<longleftrightarrow>
     list_all (\<lambda>recipe. cr_recipe_id recipe = cr_recipe_id (hp_chosen held ! i) \<or>
       (hp_score held, cr_recipe_id (hp_chosen held ! i)) \<le>
       (plan_score oz ((hp_chosen held)[i := recipe]) (plan_provision oz slots ((hp_chosen held)[i := recipe])) slots,
        cr_recipe_id recipe)) options"

lemma try_swaps_ok:
  assumes "held_ok oz slots feasible held" "cheapest_ok oz slots feasible st"
    "i < length slots" "set options \<subseteq> set (dget feasible (sl_index (slots ! i)) [])"
    "try_swaps oz slots i (hp_chosen held ! i) options held st = (res, st')"
  shows "cheapest_ok oz slots feasible st' \<and> (\<forall>c. seen_cost st c \<longrightarrow> seen_cost st' c) \<and>
    (case res of
       None \<Rightarrow> no_better oz slots i options held
     | Some better \<Rightarrow> held_ok oz slots feasible better \<and> hp_score better \<le> hp_score held \<and>
         seen_cost st' (cost_total (hp_prov better)))"
  using assms(2,4,5)
proof (induction options arbitrary: st)
  case Nil
  then show ?case by (auto simp: no_better_def)
next
  case (Cons recipe options)
  let ?cur = "hp_chosen held ! i"
  let ?trial = "(hp_chosen held)[i := recipe]"
  let ?prov = "plan_provision oz slots ?trial"
  let ?st = "track_cheapest ?trial ?prov st"
  have ok: "plan_ok slots feasible ?trial"
    using assms(1,3) Cons.prems(2) by (intro plan_ok_update) (auto simp: held_ok_def)
  have chk: "cheapest_ok oz slots feasible ?st" by (rule track_cheapest_ok[OF ok Cons.prems(1)])
  show ?case
  proof (cases "cr_recipe_id recipe = cr_recipe_id ?cur")
    case True
    then have "try_swaps oz slots i ?cur options held st = (res, st')" using Cons.prems(3) by simp
    from Cons.IH[OF Cons.prems(1) _ this] Cons.prems(2) True show ?thesis
      by (auto simp: no_better_def split: option.split)
  next
    case new: False
    show ?thesis
    proof (cases "(plan_score oz ?trial ?prov slots, cr_recipe_id recipe) < (hp_score held, cr_recipe_id ?cur)")
      case True
      then have "res = Some \<lparr>hp_chosen = ?trial, hp_score = plan_score oz ?trial ?prov slots, hp_prov = ?prov\<rparr>"
        "st' = ?st" using Cons.prems(3) new by (auto simp: Let_def)
      with True ok chk show ?thesis
        by (auto simp: held_ok_def track_cheapest_seen less_prod_def)
    next
      case False
      then have "try_swaps oz slots i ?cur options held ?st = (res, st')"
        using Cons.prems(3) by (simp only: try_swaps.simps Let_def new False if_False)
      from Cons.IH[OF chk _ this] Cons.prems(2) False show ?thesis
        by (auto simp: no_better_def track_cheapest_seen not_less split: option.split)
    qed
  qed
qed

lemma no_better_set: "set xs = set ys \<Longrightarrow> no_better oz slots i xs held = no_better oz slots i ys held"
  by (simp add: no_better_def list_all_iff)

lemma swap_pass_ok:
  assumes "held_ok oz slots feasible held" "cheapest_ok oz slots feasible st"
    "seen_cost st (cost_total (hp_prov held))"
    "drop i slots = rest" "i \<le> length slots"
    "swap_pass draw oz feasible slots i rest imp held st = (imp', held', st')"
  shows "held_ok oz slots feasible held' \<and> cheapest_ok oz slots feasible st' \<and>
    (\<forall>c. seen_cost st c \<longrightarrow> seen_cost st' c) \<and> seen_cost st' (cost_total (hp_prov held')) \<and>
    hp_score held' \<le> hp_score held \<and> (imp \<longrightarrow> imp') \<and>
    (\<not> imp' \<longrightarrow> held' = held \<and>
      (\<forall>j. i \<le> j \<and> j < length slots \<longrightarrow> no_better oz slots j (dget feasible (sl_index (slots ! j)) []) held))"
  using assms
proof (induction rest arbitrary: i imp held st)
  case Nil
  then show ?case by auto
next
  case (Cons slot rest)
  have i: "i < length slots" using Cons.prems(4) by (metis drop_all list.distinct(1) not_le_imp_less)
  then have slot: "slot = slots ! i" "drop (Suc i) slots = rest"
    using Cons.prems(4) by (simp_all add: Cons_nth_drop_Suc[symmetric])
  let ?opts = "dget feasible (sl_index slot) []"
  obtain options st1 where o: "ordered draw ?opts st = (options, st1)" by fastforce
  have so: "set options = set ?opts" using set_ordered[of draw ?opts st] o by simp
  have c1: "cheapest_ok oz slots feasible st1" "\<And>c. seen_cost st1 c = seen_cost st c"
    using ordered_cheapest_ok(1)[of oz slots feasible draw ?opts st] ordered_cheapest_ok(2)[of draw ?opts st]
      Cons.prems(2) o by simp_all
  obtain res st2 where t: "try_swaps oz slots i (hp_chosen held ! i) options held st1 = (res, st2)" by fastforce
  note ts = try_swaps_ok[OF Cons.prems(1) c1(1) i _ t, unfolded so slot(1), OF subset_refl]
  show ?case
  proof (cases res)
    case None
    then have sp: "swap_pass draw oz feasible slots (Suc i) rest imp held st2 = (imp', held', st')"
      using Cons.prems(6) o t by simp
    have nb: "no_better oz slots i (dget feasible (sl_index (slots ! i)) []) held"
      using ts None no_better_set[OF so] slot(1) by simp
    have "held_ok oz slots feasible held' \<and> cheapest_ok oz slots feasible st' \<and>
      (\<forall>c. seen_cost st2 c \<longrightarrow> seen_cost st' c) \<and> seen_cost st' (cost_total (hp_prov held')) \<and>
      hp_score held' \<le> hp_score held \<and> (imp \<longrightarrow> imp') \<and>
      (\<not> imp' \<longrightarrow> held' = held \<and>
        (\<forall>j. Suc i \<le> j \<and> j < length slots \<longrightarrow> no_better oz slots j (dget feasible (sl_index (slots ! j)) []) held))"
      by (rule Cons.IH[OF Cons.prems(1) _ _ slot(2) _ sp]) (use ts c1 i Cons.prems(3) in auto)
    then show ?thesis using nb ts c1(2) by (metis le_antisym not_less_eq_eq)
  next
    case (Some better)
    then have sp: "swap_pass draw oz feasible slots (Suc i) rest True better st2 = (imp', held', st')"
      using Cons.prems(6) o t by simp
    from ts Some have b: "held_ok oz slots feasible better" "hp_score better \<le> hp_score held"
      "seen_cost st2 (cost_total (hp_prov better))" "cheapest_ok oz slots feasible st2"
      "\<And>c. seen_cost st c \<Longrightarrow> seen_cost st2 c" using c1(2) by auto
    from Cons.IH[OF b(1,4,3) slot(2) _ sp] i b show ?thesis by (auto intro: order_trans)
  qed
qed

lemma swap_passes_ok:
  assumes "held_ok oz slots feasible held" "cheapest_ok oz slots feasible st"
    "seen_cost st (cost_total (hp_prov held))"
    "swap_passes draw oz feasible slots n held st = (held', st')"
  shows "held_ok oz slots feasible held' \<and> cheapest_ok oz slots feasible st' \<and>
    (\<forall>c. seen_cost st c \<longrightarrow> seen_cost st' c) \<and> seen_cost st' (cost_total (hp_prov held')) \<and>
    hp_score held' \<le> hp_score held"
  using assms
proof (induction n arbitrary: held st)
  case 0
  then show ?case by simp
next
  case (Suc n)
  obtain imp h1 s1 where p: "swap_pass draw oz feasible slots 0 slots False held st = (imp, h1, s1)"
    by (metis prod.collapse)
  note sp = swap_pass_ok[OF Suc.prems(1-3) _ _ p, simplified]
  show ?case
  proof (cases imp)
    case True
    then have "swap_passes draw oz feasible slots n h1 s1 = (held', st')" using Suc.prems(4) p by simp
    from Suc.IH[OF _ _ _ this] sp show ?thesis by (auto intro: order_trans)
  next
    case False
    with Suc.prems(4) p sp show ?thesis by auto
  qed
qed

lemma local_search_ok:
  assumes "plan_ok slots feasible chosen" "cheapest_ok oz slots feasible st"
    "local_search draw oz slots feasible chosen st = (held, st')"
  shows "held_ok oz slots feasible held \<and> cheapest_ok oz slots feasible st' \<and>
    (\<forall>c. seen_cost st c \<longrightarrow> seen_cost st' c) \<and> seen_cost st' (cost_total (hp_prov held)) \<and>
    seen_cost st' (cost_total (plan_provision oz slots chosen)) \<and>
    hp_score held \<le> plan_score oz chosen (plan_provision oz slots chosen) slots"
proof -
  let ?prov = "plan_provision oz slots chosen"
  let ?held = "\<lparr>hp_chosen = chosen, hp_score = plan_score oz chosen ?prov slots, hp_prov = ?prov\<rparr>"
  have h: "held_ok oz slots feasible ?held" using assms(1) by (simp add: held_ok_def)
  have c: "cheapest_ok oz slots feasible (track_cheapest chosen ?prov st)"
    by (rule track_cheapest_ok[OF assms(1,2)])
  have s: "seen_cost (track_cheapest chosen ?prov st) (cost_total ?prov)" by (rule track_cheapest_seen)
  have "swap_passes draw oz feasible slots (oz_max_passes oz) ?held (track_cheapest chosen ?prov st) = (held, st')"
    using assms(3) by (simp add: local_search_def Let_def)
  from swap_passes_ok[OF h c _ this] s track_cheapest_seen(2) show ?thesis by fastforce
qed


section \<open>The greedy seeds\<close>

lemma greedy_loop_ok:
  assumes "plan_ok filled feasible chosen"
    and "list_all (\<lambda>slot. dget feasible (sl_index slot) [] \<noteq> []) slots"
  shows "\<exists>plan st'. greedy_loop draw oz feasible cost_only filled chosen slots st = (Inr plan, st') \<and>
    plan_ok (filled @ slots) feasible plan \<and> se_cheapest_cost st' = se_cheapest_cost st \<and>
    se_cheapest_assignment st' = se_cheapest_assignment st \<and> se_cheapest_provision st' = se_cheapest_provision st"
  using assms
proof (induction slots arbitrary: filled chosen st)
  case Nil
  then show ?case by simp
next
  case (Cons slot slots)
  let ?opts = "dget feasible (sl_index slot) []"
  obtain options st1 where o: "ordered draw ?opts st = (options, st1)" by fastforce
  have so: "set options = set ?opts" using set_ordered[of draw ?opts st] o by simp
  have "options \<noteq> []" using so Cons.prems(2) by auto
  then obtain r where r: "argmin (greedy_key oz cost_only (filled @ [slot]) chosen) options = Some r"
    using argmin_Some_ex by blast
  have "plan_ok (filled @ [slot]) feasible (chosen @ [r])"
    using argmin_Some(1)[OF r] so Cons.prems(1) by (simp add: plan_ok_def list_all2_append list_all2_lengthD)
  from Cons.IH[OF this, of st1] Cons.prems(2) o r ordered_cheapest[of draw ?opts st]
  show ?case by (auto simp: Let_def)
qed

lemma greedy_ok:
  assumes "missing_types slots feasible = []"
  obtains plan st' where "greedy draw oz slots feasible cost_only st = (Inr plan, st')"
    "plan_ok slots feasible plan" "\<And>fm. cheapest_ok oz slots fm st' = cheapest_ok oz slots fm st"
    "\<And>c. seen_cost st' c = seen_cost st c"
proof -
  have "list_all (\<lambda>slot. dget feasible (sl_index slot) [] \<noteq> []) slots"
    using assms by (auto simp: missing_types_def list_all_iff filter_empty_conv)
  from greedy_loop_ok[OF _ this, of "[]" "[]" draw oz cost_only st]
  obtain plan st' where "greedy draw oz slots feasible cost_only st = (Inr plan, st')" "plan_ok slots feasible plan"
    "se_cheapest_cost st' = se_cheapest_cost st" "se_cheapest_assignment st' = se_cheapest_assignment st"
    "se_cheapest_provision st' = se_cheapest_provision st"
    by (auto simp: greedy_def plan_ok_def)
  then show thesis by - (rule that[of plan st'], simp_all add: cheapest_ok_def seen_cost_def split: option.split)
qed


section \<open>Examples\<close>

definition example_slot :: "int \<Rightarrow> meal_slot" where
  "example_slot i = \<lparr>sl_index = i, sl_date = i, sl_meal_type = Lunch, sl_servings = 2,
     sl_maximum_preparation_minutes = None, sl_requires_tupper = False, sl_reheating_available = True\<rparr>"

definition example_optimizer :: "catalog_product_dto list \<Rightarrow> dec \<Rightarrow> string set \<Rightarrow> plan_optimizer" where
  "example_optimizer catalog amount rejected =
     \<lparr>oz_prov = example_provisioner catalog [], oz_weights = default_weights,
      oz_budget = example_budget amount, oz_favorites = {}, oz_rejected = rejected, oz_soft = [],
      oz_max_passes = 4, oz_nutrition_target = None, oz_nutrition_calc = None, oz_num_days = 1,
      oz_comensal_weight = 1\<rparr>"

definition two_products :: "catalog_product_dto list" where
  "two_products = [example_product ''arroz'' {} [example_package ''a1'' 100 1],
     example_product ''bonito'' {} [example_package ''b1'' 100 11]]"

definition dish_a :: candidate_recipe_dto where
  "dish_a = example_recipe ''ra'' 2 [example_ingredient ''arroz'' 100 ''g'']"

definition dish_b :: candidate_recipe_dto where
  "dish_b = example_recipe ''rb'' 2 [example_ingredient ''bonito'' 100 ''g'']"


section \<open>Properties\<close>

text \<open>The plan of a feasible outcome, as the search guarantees it.\<close>

lemma optimize_feasible:
  assumes "missing_types slots feasible = []"
  obtains held over st where "optimize draw oz slots feasible = Inr (feasible_outcome held over st)"
    "held_ok oz slots feasible held" "over = (budget_limit (oz_budget oz) < cost_total (hp_prov held))"
    "cheapest_ok oz slots feasible st" "seen_cost st (cost_total (hp_prov held))"
proof -
  have init: "cheapest_ok oz slots feasible search_init" by (simp add: cheapest_ok_def search_init_def)
  obtain plan s1 where g: "greedy draw oz slots feasible False search_init = (Inr plan, s1)"
    "plan_ok slots feasible plan" "cheapest_ok oz slots feasible s1"
    by (rule greedy_ok[OF assms, of draw oz False search_init]) (use init in auto)
  obtain held s2 where l: "local_search draw oz slots feasible plan s1 = (held, s2)" by fastforce
  note lo = local_search_ok[OF g(2,3) l]
  show thesis
  proof (cases "budget_limit (oz_budget oz) < cost_total (hp_prov held)")
    case False
    show thesis
      by (rule that[of held False s2]) (use assms g(1) l lo False in \<open>simp_all add: optimize_def Let_def\<close>)
  next
    case True
    obtain cheap s3 where g2: "greedy draw oz slots feasible True s2 = (Inr cheap, s3)"
      "plan_ok slots feasible cheap" "cheapest_ok oz slots feasible s3"
      "\<And>c. seen_cost s3 c = seen_cost s2 c"
      by (rule greedy_ok[OF assms, of draw oz True s2]) (use lo in auto)
    obtain fit s4 where l2: "local_search draw oz slots feasible cheap s3 = (fit, s4)" by fastforce
    note lo2 = local_search_ok[OF g2(2,3) l2]
    show thesis
    proof (cases "cost_total (hp_prov fit) \<le> budget_limit (oz_budget oz)")
      case fits: True
      show thesis
        by (rule that[of fit False s4])
          (use assms g(1) l True g2(1) l2 lo2 fits in \<open>simp_all add: optimize_def Let_def\<close>)
    next
      case False
      show thesis
        by (rule that[of held True s4])
          (use assms g(1) l True g2 l2 lo lo2 False in \<open>simp_all add: optimize_def Let_def\<close>)
    qed
  qed
qed

text \<open>The optimizer always answers, and says what is missing. It never fails its assertion;
  it declares a request infeasible exactly when some slot has no feasible recipe, and then the
  missing meal types are exactly the types of those slots, sorted and without repetition.\<close>

theorem optimize_missing:
  "\<exists>out. optimize draw oz slots feasible = Inr out \<and>
     oo_feasible out = list_all (\<lambda>slot. dget feasible (sl_index slot) [] \<noteq> []) slots \<and>
     sorted (oo_missing_meal_types out) \<and> distinct (oo_missing_meal_types out) \<and>
     set (oo_missing_meal_types out) =
       {sl_meal_type slot | slot. slot \<in> set slots \<and> dget feasible (sl_index slot) [] = []}"
proof (cases "missing_types slots feasible = []")
  case True
  then have none: "dget feasible (sl_index s) [] \<noteq> []" if "s \<in> set slots" for s
    using that by (auto simp: missing_types_def filter_empty_conv)
  show ?thesis
    by (rule optimize_feasible[OF True, of draw oz])
      (use none in \<open>auto simp: feasible_outcome_def list_all_iff\<close>)
next
  case False
  then have "\<not> list_all (\<lambda>slot. dget feasible (sl_index slot) [] \<noteq> []) slots"
    by (auto simp: missing_types_def filter_empty_conv list_all_iff)
  moreover have "set (missing_types slots feasible) =
      {sl_meal_type slot | slot. slot \<in> set slots \<and> dget feasible (sl_index slot) [] = []}"
    by (auto simp: missing_types_def)
  ultimately show ?thesis using False
    by (simp add: optimize_def infeasible_outcome_def)
qed

text \<open>C27 What a plan is. When every slot has a feasible recipe, the plan has one recipe per slot,
  each from the slot's own list; its provision and score are those of that very plan; it is
  flagged over budget exactly when its cost exceeds the limit; and the cheapest cost reported is
  the cost of a whole plan over the same lists and is not above the cost of the plan.\<close>

theorem optimize_plan:
  assumes "optimize draw oz slots feasible = Inr out" and "oo_feasible out"
  shows "list_all2 (\<lambda>slot recipe. recipe \<in> set (dget feasible (sl_index slot) [])) slots (oo_assignment out) \<and>
    oo_provision out = Some (plan_provision oz slots (oo_assignment out)) \<and>
    oo_score out = plan_score oz (oo_assignment out) (plan_provision oz slots (oo_assignment out)) slots \<and>
    oo_over_budget out =
      (budget_limit (oz_budget oz) < cost_total (plan_provision oz slots (oo_assignment out))) \<and>
    list_all2 (\<lambda>slot recipe. recipe \<in> set (dget feasible (sl_index slot) [])) slots (oo_cheapest_assignment out) \<and>
    oo_cheapest_provision out = Some (plan_provision oz slots (oo_cheapest_assignment out)) \<and>
    oo_cheapest_cost out = Some (cost_total (plan_provision oz slots (oo_cheapest_assignment out))) \<and>
    cost_total (plan_provision oz slots (oo_cheapest_assignment out))
      \<le> cost_total (plan_provision oz slots (oo_assignment out))"
proof -
  have "missing_types slots feasible = []"
    using assms by (auto simp: optimize_def infeasible_outcome_def Let_def split: if_splits)
  then obtain held over st where o: "optimize draw oz slots feasible = Inr (feasible_outcome held over st)"
    "held_ok oz slots feasible held" "over = (budget_limit (oz_budget oz) < cost_total (hp_prov held))"
    "cheapest_ok oz slots feasible st" "seen_cost st (cost_total (hp_prov held))"
    by (rule optimize_feasible)
  have "out = feasible_outcome held over st" using o(1) assms(1) by simp
  with o(2-5) show ?thesis
    by (auto simp: feasible_outcome_def held_ok_def cheapest_ok_def seen_cost_def plan_ok_def)
qed

theorem optimize_plan_witness:
  "\<exists>out. optimize (\<lambda>_. 0) (example_optimizer two_products 10 {}) [example_slot 0] [(0, [dish_a, dish_b])] = Inr out \<and>
     length (oo_assignment out) = 1 \<and> oo_assignment out ! 0 \<in> {dish_a, dish_b}"
proof -
  let ?oz = "example_optimizer two_products 10 {}" and ?f = "[(0, [dish_a, dish_b])]"
  have "missing_types [example_slot 0] ?f = []"
    by (simp add: missing_types_def example_slot_def dget_def)
  then obtain held over st where o: "optimize (\<lambda>_. 0) ?oz [example_slot 0] ?f = Inr (feasible_outcome held over st)"
    by (rule optimize_feasible)
  moreover have "oo_feasible (feasible_outcome held over st)" by (simp add: feasible_outcome_def)
  ultimately have "list_all2 (\<lambda>slot recipe. recipe \<in> set (dget ?f (sl_index slot) [])) [example_slot 0]
      (oo_assignment (feasible_outcome held over st))"
    using optimize_plan by blast
  then have "length (oo_assignment (feasible_outcome held over st)) = 1"
    "oo_assignment (feasible_outcome held over st) ! 0 \<in> {dish_a, dish_b}"
    by (auto simp: list_all2_Cons1 example_slot_def dget_def)
  with o show ?thesis by blast
qed

text \<open>The local search never worsens its seed. Whatever order the generator draws, the plan
  it returns has a score no higher than the seed's, keeps one feasible recipe per slot, and
  holds its own provision and score.\<close>

theorem local_search_improves:
  assumes "list_all2 (\<lambda>slot recipe. recipe \<in> set (dget feasible (sl_index slot) [])) slots chosen"
  shows "hp_score (fst (local_search draw oz slots feasible chosen search_init))
      \<le> plan_score oz chosen (plan_provision oz slots chosen) slots \<and>
    held_ok oz slots feasible (fst (local_search draw oz slots feasible chosen search_init))"
proof -
  obtain held st where l: "local_search draw oz slots feasible chosen search_init = (held, st)" by fastforce
  have "cheapest_ok oz slots feasible search_init" by (simp add: cheapest_ok_def search_init_def)
  from local_search_ok[OF assms[folded plan_ok_def] this l] show ?thesis by (simp add: l)
qed

theorem local_search_improves_witness:
  "hp_score (fst (local_search (\<lambda>_. 0) (example_optimizer two_products 10 {}) [example_slot 0] [(0, [dish_a, dish_b])] [dish_b] search_init))
     \<le> plan_score (example_optimizer two_products 10 {}) [dish_b]
         (plan_provision (example_optimizer two_products 10 {}) [example_slot 0] [dish_b]) [example_slot 0]"
  by (rule local_search_improves[THEN conjunct1]) (simp add: example_slot_def dget_def)

text \<open>A pass without improvement is a local optimum. If a pass over all slots changes nothing,
  the plan held is returned as it was and no replacement of the recipe of a single slot by
  another of its feasible recipes has a smaller pair of score and id.\<close>

theorem swap_pass_local_optimum:
  assumes "held_ok oz slots feasible held"
    and "swap_pass draw oz feasible slots 0 slots False held (track_cheapest (hp_chosen held) (hp_prov held) search_init)
      = (False, held', st')"
  shows "held' = held \<and>
    (\<forall>i < length slots. no_better oz slots i (dget feasible (sl_index (slots ! i)) []) held)"
proof -
  have "cheapest_ok oz slots feasible (track_cheapest (hp_chosen held) (hp_prov held) search_init)"
    using assms(1) track_cheapest_ok[of slots feasible "hp_chosen held" oz search_init]
    unfolding held_ok_def by (metis cheapest_ok_init)
  from swap_pass_ok[OF assms(1) this track_cheapest_seen(1) _ _ assms(2)] show ?thesis by simp
qed

theorem swap_pass_local_optimum_witness:
  "no_better (example_optimizer two_products 10 {}) [example_slot 0] 0 [dish_a]
     \<lparr>hp_chosen = [dish_a],
      hp_score = plan_score (example_optimizer two_products 10 {}) [dish_a]
        (plan_provision (example_optimizer two_products 10 {}) [example_slot 0] [dish_a]) [example_slot 0],
      hp_prov = plan_provision (example_optimizer two_products 10 {}) [example_slot 0] [dish_a]\<rparr>"
proof -
  let ?oz = "example_optimizer two_products 10 {}"
  let ?prov = "plan_provision ?oz [example_slot 0] [dish_a]"
  let ?held = "\<lparr>hp_chosen = [dish_a], hp_score = plan_score ?oz [dish_a] ?prov [example_slot 0], hp_prov = ?prov\<rparr>"
  have f: "dget [(0, [dish_a])] (sl_index (example_slot 0)) [] = [dish_a]"
    by (simp add: example_slot_def dget_def)
  have "held_ok ?oz [example_slot 0] [(0, [dish_a])] ?held" by (simp add: held_ok_def plan_ok_def f)
  moreover have "swap_pass (\<lambda>_. 0) ?oz [(0, [dish_a])] [example_slot 0] 0 [example_slot 0] False ?held
      (track_cheapest (hp_chosen ?held) (hp_prov ?held) search_init) =
      (False, ?held, snd (ordered (\<lambda>_. 0) [dish_a] (track_cheapest (hp_chosen ?held) (hp_prov ?held) search_init)))"
    by (simp add: f ordered_def Let_def split: prod.split)
  ultimately have "\<forall>i < length [example_slot 0]. no_better ?oz [example_slot 0] i
      (dget [(0, [dish_a])] (sl_index ([example_slot 0] ! i)) []) ?held"
    using swap_pass_local_optimum by blast
  then show ?thesis by (simp add: f)
qed

lemma argmin_unique:
  assumes "set xs = set ys" "inj_on key (set xs)"
  shows "argmin key xs = argmin key ys"
proof (cases "argmin key xs")
  case None
  with assms(1) show ?thesis by (metis argmin_None_iff set_empty)
next
  case (Some a)
  then have "ys \<noteq> []" using assms(1) argmin_Some(1)[OF Some] by auto
  then obtain b where b: "argmin key ys = Some b" using argmin_Some_ex by blast
  have "key a = key b"
    using argmin_Some[OF Some] argmin_Some[OF b] assms(1) by (metis order_antisym)
  then have "a = b" using assms argmin_Some(1)[OF Some] argmin_Some(1)[OF b] by (auto dest: inj_onD)
  with Some b show ?thesis by simp
qed

text \<open>The greedy seed does not depend on the shuffle. If the recipes of each slot have
  distinct ids, two generators, from whatever states, lead to the same greedy plan.\<close>

theorem greedy_order_independent:
  assumes "list_all (\<lambda>slot. distinct (map cr_recipe_id (dget feasible (sl_index slot) []))) slots"
  shows "fst (greedy draw oz slots feasible cost_only st) = fst (greedy draw' oz slots feasible cost_only st')"
proof -
  have "fst (greedy_loop draw oz feasible cost_only filled chosen slots st) =
      fst (greedy_loop draw' oz feasible cost_only filled chosen slots st')" for filled chosen
    using assms
  proof (induction slots arbitrary: filled chosen st st')
    case Nil
    then show ?case by simp
  next
    case (Cons slot slots)
    let ?opts = "dget feasible (sl_index slot) []"
    obtain xs s1 where x: "ordered draw ?opts st = (xs, s1)" by fastforce
    obtain ys s2 where y: "ordered draw' ?opts st' = (ys, s2)" by fastforce
    have sx: "set xs = set ?opts" "set ys = set ?opts"
      using set_ordered[of draw ?opts st] set_ordered[of draw' ?opts st'] x y by simp_all
    have "inj_on (greedy_key oz cost_only (filled @ [slot]) chosen) (set xs)"
      using Cons.prems unfolding sx by (auto simp: inj_on_def greedy_key_def Let_def distinct_map)
    then have a: "argmin (greedy_key oz cost_only (filled @ [slot]) chosen) xs =
        argmin (greedy_key oz cost_only (filled @ [slot]) chosen) ys"
      using sx by (intro argmin_unique) auto
    show ?case
    proof (cases "argmin (greedy_key oz cost_only (filled @ [slot]) chosen) ys")
      case None
      with a x y show ?thesis by (simp del: argmin_None_iff)
    next
      case (Some r)
      with a x y Cons.IH[of "filled @ [slot]" "chosen @ [r]" s1 s2] Cons.prems show ?thesis by simp
    qed
  qed
  then show ?thesis by (simp add: greedy_def)
qed



theorem greedy_order_independent_witness:
  "fst (greedy (\<lambda>_. 0) (example_optimizer two_products 10 {}) [example_slot 0] [(0, [dish_a, dish_b])] False search_init)
   = fst (greedy (\<lambda>k. k + 1) (example_optimizer two_products 10 {}) [example_slot 0] [(0, [dish_a, dish_b])] False search_init)"
  by (rule greedy_order_independent)
    (simp add: example_slot_def dget_def dish_a_def dish_b_def example_recipe_def)

lemma repetition_pairs:
  "2 * repetition recipes + int (length recipes) =
     (\<Sum>rid \<in> set (map cr_recipe_id recipes). int (count_list (map cr_recipe_id recipes) rid) ^ 2)"
proof -
  let ?ids = "map cr_recipe_id recipes"
  have ev: "2 * (int c * (int c - 1) div 2) = int c * (int c - 1)" for c :: nat by simp
  have "2 * repetition recipes = (\<Sum>rid \<in> set ?ids. int (count_list ?ids rid) * (int (count_list ?ids rid) - 1))"
    unfolding repetition_def Let_def
    by (subst sum_list_distinct_conv_sum_set) (simp_all add: sum_distrib_left ev)
  moreover have "int (length recipes) = (\<Sum>rid \<in> set ?ids. int (count_list ?ids rid))"
    using sum_count_set[of ?ids "set ?ids"] by (simp flip: of_nat_sum)
  ultimately show ?thesis by (simp add: sum.distrib[symmetric] power2_eq_square algebra_simps)
qed

lemma repetition_Cons:
  "repetition (r # rs) = repetition rs + int (count_list (map cr_recipe_id rs) (cr_recipe_id r))"
proof -
  let ?ids = "map cr_recipe_id rs" and ?x = "cr_recipe_id r"
  let ?T = "insert ?x (set ?ids)"
  have sq: "int (count_list (?x # ?ids) y) ^ 2 =
      int (count_list ?ids y) ^ 2 + (if y = ?x then 2 * int (count_list ?ids ?x) + 1 else 0)" for y
    by (auto simp: power2_eq_square algebra_simps)
  have "(\<Sum>y \<in> set (?x # ?ids). int (count_list (?x # ?ids) y) ^ 2) =
      (\<Sum>y \<in> ?T. int (count_list ?ids y) ^ 2) + (2 * int (count_list ?ids ?x) + 1)"
    by (simp only: sq sum.distrib) simp
  also have "(\<Sum>y \<in> ?T. int (count_list ?ids y) ^ 2) = (\<Sum>y \<in> set ?ids. int (count_list ?ids y) ^ 2)"
    by (rule sum.mono_neutral_right) (auto simp: count_list_0_iff)
  finally show ?thesis using repetition_pairs[of "r # rs"] repetition_pairs[of rs] by simp
qed

lemma count_list_card: "count_list (map f xs) y = card {j. j < length xs \<and> f (xs ! j) = y}"
  by (simp add: count_list_eq_length_filter filter_map comp_def length_filter_conv_card) (metis (mono_tags))

text \<open>Repetition is charged superlinearly. The repetition penalty of a plan is the number of
  pairs of slots that share a dish, so four times the same dish costs six.\<close>

theorem repetition_spec:
  "repetition recipes = int (card {(i, j). i < j \<and> j < length recipes \<and>
     cr_recipe_id (recipes ! i) = cr_recipe_id (recipes ! j)})"
proof (induction recipes)
  case Nil
  then show ?case by (simp add: repetition_def)
next
  case (Cons r rs)
  let ?P = "\<lambda>xs. {(i, j). i < j \<and> j < length xs \<and> cr_recipe_id (xs ! i) = cr_recipe_id (xs ! j)}"
  let ?J = "{j. j < length rs \<and> cr_recipe_id (rs ! j) = cr_recipe_id r}"
  have split: "?P (r # rs) = (\<lambda>j. (0, Suc j)) ` ?J \<union> (\<lambda>(i, j). (Suc i, Suc j)) ` ?P rs"
  proof (intro set_eqI iffI)
    fix p assume "p \<in> ?P (r # rs)"
    then obtain i j where p: "p = (i, Suc j)" "i < Suc j" "j < length rs"
      "cr_recipe_id ((r # rs) ! i) = cr_recipe_id (rs ! j)" by (cases p; cases "snd p") auto
    then show "p \<in> (\<lambda>j. (0, Suc j)) ` ?J \<union> (\<lambda>(i, j). (Suc i, Suc j)) ` ?P rs"
      by (cases i) (auto simp: image_iff)
  qed auto
  have fin: "finite (?P xs)" for xs :: "candidate_recipe_dto list"
    by (rule finite_subset[of _ "{..<length xs} \<times> {..<length xs}"]) auto
  have "card (?P (r # rs)) = card ?J + card (?P rs)"
    unfolding split using fin[of rs]
    by (subst card_Un_disjoint) (auto simp: card_image inj_on_def)
  then show ?case using Cons.IH by (simp add: repetition_Cons count_list_card)
qed

text \<open>Over budget although a plan within the budget was seen. One slot, a budget of 10, a dish
  that costs 1 but was rejected by a member and one that costs 11: the penalty of a rejected
  recipe outweighs the budget penalty, both seeds end at the dear dish, and the plan is reported
  over budget while the cheapest cost recorded is within the limit.\<close>

theorem over_budget_despite_cheap_plan:
  "case optimize (\<lambda>_. 0) (example_optimizer two_products 10 {''ra''}) [example_slot 0] [(0, [dish_a, dish_b])] of
     Inl _ \<Rightarrow> False
   | Inr out \<Rightarrow> oo_over_budget out \<and> oo_cheapest_cost out = Some 1 \<and>
       1 \<le> budget_limit (oz_budget (example_optimizer two_products 10 {''ra''}))"
  by code_simp

end
