(* ===== verification/Explain.thy ===== *)
theory Explain
  imports Provisioning
begin

text \<open>
  \<open>cestaplan_engine/explain.py\<close>: the reasons given for a meal and the diagnosis of an
  infeasible request. The texts are \<open>message\<close>s; the interpolated amounts go through \<open>_money\<close>,
  which is \<open>quantize_cents\<close>, so its \<open>InvalidOperation\<close> is an \<open>Inl\<close> here too.
\<close>

definition explain_meal ::
  "meal_assignment \<Rightarrow> string set \<Rightarrow> budget_dto \<Rightarrow> dec \<Rightarrow> py_exn + message" where
  "explain_meal meal favorites budget imputable =
     (let recipe = ma_recipe meal;
          favorite = (if cr_recipe_id recipe \<in> favorites then [MarkedFavorite] else []);
          total_minutes = cr_preparation_minutes recipe + cr_cooking_minutes recipe
      in case quantize_cents imputable of
           Inl e \<Rightarrow> Inl e
         | Inr cents \<Rightarrow>
             Inr (MealExplanation (ma_meal_type meal) (ma_date meal) (cr_title recipe)
                    (favorite @ [PrepCookMinutes total_minutes, ImputableCost cents (bg_currency budget)] @
                     (if cr_leftover_reuse recipe then [ReusesLeftovers] else []))))"

text \<open>\<open>sorted(..., reverse=True)\<close> keeps the order of equal keys, as sorting by the negated key
  does.\<close>

definition offending_products :: "provision \<Rightarrow> nat \<Rightarrow> offending_product list" where
  "offending_products prov limit =
     map (\<lambda>line. \<lparr>op_canonical_name = gl_canonical_name line, op_product_id = gl_product_id line,
                  op_display_name = gl_display_name line, op_subtotal = gl_subtotal line\<rparr>)
       (filter (\<lambda>line. \<not> gl_subtotal line \<le> 0)
         (take limit (sort_key (\<lambda>line. - gl_subtotal line) (pv_grocery_lines prov))))"

definition budget_conflict ::
  "budget_dto \<Rightarrow> dec \<Rightarrow> int \<Rightarrow> string list \<Rightarrow> py_exn + (message list \<times> string list \<times> message list)" where
  "budget_conflict budget min_budget_found n_meals soft_active =
     (case quantize_cents (bg_amount budget) of
        Inl e \<Rightarrow> Inl e
      | Inr amount \<Rightarrow>
        (case quantize_cents min_budget_found of
           Inl e \<Rightarrow> Inl e
         | Inr found \<Rightarrow>
             Inr ([BudgetConflict amount (bg_currency budget), MealsConflict n_meals, StoreCatalogPrices],
                  sorted_list_of_set (set soft_active),
                  [RaiseBudgetTo found (bg_currency budget), ReduceMeals, ChangeStore, AcceptEstimatedPrices])))"

definition missing_candidate_conflict ::
  "meal_type list \<Rightarrow> string list \<Rightarrow> message list \<times> message list" where
  "missing_candidate_conflict meal_types hard_tokens =
     (map NoCandidateFor meal_types @ map HardConstraint (sorted_list_of_set (set hard_tokens)),
      [AddRecipes, RelaxSoftPreferences, ChangeStore, ReduceMeals])"


section \<open>Lemmas\<close>

lemma quantize_cents_Inl: "quantize_cents x = Inl e \<Longrightarrow> e = InvalidOperation"
  by (auto simp: quantize_cents_def Let_def split: if_splits)

lemma explain_meal_Inl: "explain_meal m f b i = Inl e \<Longrightarrow> e = InvalidOperation"
  by (auto simp: explain_meal_def Let_def split: sum.splits dest: quantize_cents_Inl)

lemma budget_conflict_Inl: "budget_conflict b m n s = Inl e \<Longrightarrow> e = InvalidOperation"
  by (auto simp: budget_conflict_def split: sum.splits dest: quantize_cents_Inl)

lemma sorted_take_filter:
  "sorted (map f xs) \<Longrightarrow> sorted (map f (filter P (take n xs)))"
  using sorted_filter[of f "take n xs" P] by (simp add: sorted_wrt_take take_map[symmetric])

text \<open>The products named as offenders. They are at most the given number of lines, all with a
  positive subtotal, in descending order of subtotal, and no line left out costs more than one
  that is named when the limit is reached.\<close>

theorem offending_products_top:
  "length (offending_products prov limit) \<le> limit \<and>
   sorted (map (\<lambda>p. - op_subtotal p) (offending_products prov limit)) \<and>
   set (map op_subtotal (offending_products prov limit)) \<subseteq> {x. 0 < x} \<inter> set (map gl_subtotal (pv_grocery_lines prov)) \<and>
   length (offending_products prov limit) =
     min limit (length (filter (\<lambda>l. 0 < gl_subtotal l) (pv_grocery_lines prov)))"
proof -
  let ?s = "sort_key (\<lambda>line. - gl_subtotal line) (pv_grocery_lines prov)"
  have len: "length (filter P (take n xs)) = min n (length (filter P xs))"
    if "sorted (map f xs)" "\<And>x y. f x \<le> f y \<Longrightarrow> P y \<Longrightarrow> P x"
    for n and xs :: "grocery_line_dto list" and f :: "grocery_line_dto \<Rightarrow> dec" and P
    using that(1)
  proof (induction xs arbitrary: n)
    case Nil
    then show ?case by simp
  next
    case (Cons x xs)
    show ?case
    proof (cases n)
      case 0
      then show ?thesis by simp
    next
      case (Suc m)
      have "\<not> P x \<Longrightarrow> \<not> P y" if "y \<in> set xs" for y
        using Cons.prems that that(1) \<open>\<And>x y. f x \<le> f y \<Longrightarrow> P y \<Longrightarrow> P x\<close>[of x y] by auto
      then have "\<not> P x \<Longrightarrow> filter P xs = []" by (auto simp: filter_empty_conv)
      moreover have "\<not> P x \<Longrightarrow> filter P (take m xs) = []"
        using calculation by (metis filter_empty_conv in_set_takeD)
      ultimately show ?thesis using Suc Cons by auto
    qed
  qed
  have "length (filter (\<lambda>l. \<not> gl_subtotal l \<le> 0) (take limit ?s)) =
      min limit (length (filter (\<lambda>l. \<not> gl_subtotal l \<le> 0) ?s))"
    by (rule len[of "\<lambda>l. - gl_subtotal l"]) auto
  also have "length (filter (\<lambda>l. \<not> gl_subtotal l \<le> 0) ?s) = length (filter (\<lambda>l. 0 < gl_subtotal l) (pv_grocery_lines prov))"
    by (simp add: filter_sort not_le)
  finally have l: "length (offending_products prov limit) =
      min limit (length (filter (\<lambda>l. 0 < gl_subtotal l) (pv_grocery_lines prov)))"
    by (simp add: offending_products_def)
  have "sorted (map (\<lambda>p. - op_subtotal p) (offending_products prov limit))"
    unfolding offending_products_def by (simp add: comp_def sorted_take_filter)
  moreover have "set (map op_subtotal (offending_products prov limit)) \<subseteq> {x. 0 < x} \<inter> set (map gl_subtotal (pv_grocery_lines prov))"
    unfolding offending_products_def using set_take_subset[of limit ?s] by auto
  ultimately show ?thesis using l by simp
qed

end
