(* ===== verification/Facade.thy ===== *)
theory Facade
  imports Optimizer Validators Pricing Explain
begin

text \<open>
  \<open>cestaplan_engine/facade.py\<close>: \<open>generate_plan\<close>, the pipeline from the input to a plan or a
  diagnosis. The components are built from the input as the source builds them
  (\<open>provisioner_of\<close>, \<open>optimizer_of\<close>); the exceptions that can leave the pipeline are the \<open>Inl\<close>
  values. \<open>draw\<close> stands for the numbers of the generator seeded with \<open>plan_input.seed\<close>.
\<close>

datatype plan_outcome = Plan plan_result | Infeasible infeasible_result


section \<open>Components of a request\<close>

definition converter_of :: "plan_input \<Rightarrow> unit_converter" where
  "converter_of inp = unit_converter_init (in_conversions inp)"

definition matcher_of :: "plan_input \<Rightarrow> product_matcher" where
  "matcher_of inp = product_matcher_init (in_catalog inp) (substitution_groups (in_candidates inp))"

definition provisioner_of :: "plan_input \<Rightarrow> provisioner" where
  "provisioner_of inp =
     \<lparr>ps_matcher = matcher_of inp,
      ps_pantry = pantry_calculator_init (in_pantry inp) (converter_of inp) (in_as_of inp),
      ps_weights = in_weights inp, ps_converter = converter_of inp, ps_as_of = in_as_of inp\<rparr>"

definition nutrition_calculator_of :: "plan_input \<Rightarrow> nutrition_calculator" where
  "nutrition_calculator_of inp = \<lparr>nc_matcher = matcher_of inp, nc_converter = converter_of inp\<rparr>"

definition comensal_weight :: "plan_input \<Rightarrow> dec" where
  "comensal_weight inp =
     (let total = dsum (map mb_relative_serving (in_members inp)) in if 0 < total then total else 1)"

definition rejected_ids :: "plan_input \<Rightarrow> string set" where
  "rejected_ids inp = fold (\<lambda>m acc. acc \<union> mb_rejected_recipe_ids m) (in_members inp) {}"

definition plan_days :: "meal_slot list \<Rightarrow> int" where
  "plan_days slots = int (length (remdups (map sl_date slots)))"

definition optimizer_of :: "plan_input \<Rightarrow> meal_slot list \<Rightarrow> (string, int) dict \<Rightarrow> plan_optimizer" where
  "optimizer_of inp slots soft_penalty =
     \<lparr>oz_prov = provisioner_of inp, oz_weights = in_weights inp, oz_budget = in_budget inp,
      oz_favorites = in_favorites inp, oz_rejected = rejected_ids inp, oz_soft = soft_penalty,
      oz_max_passes = 4, oz_nutrition_target = in_nutrition_target inp,
      oz_nutrition_calc = Some (nutrition_calculator_of inp),
      oz_num_days = effective_num_days (plan_days slots),
      oz_comensal_weight = effective_comensal_weight (Some (comensal_weight inp))\<rparr>"


section \<open>Hard-constraint filtering\<close>

record filter_state =
  ft_warnings :: "message list"
  ft_seen :: "message set"
  ft_soft_penalty :: "(string, int) dict"
  ft_valid :: "candidate_recipe_dto list"

definition filter_init :: filter_state where
  "filter_init = \<lparr>ft_warnings = [], ft_seen = {}, ft_soft_penalty = [], ft_valid = []\<rparr>"

definition add_warning :: "message \<Rightarrow> filter_state \<Rightarrow> filter_state" where
  "add_warning w st =
     (if w \<in> ft_seen st then st
      else st\<lparr>ft_warnings := ft_warnings st @ [w], ft_seen := insert w (ft_seen st)\<rparr>)"

definition filter_candidate ::
  "plan_input \<Rightarrow> (string, string set) dict \<Rightarrow> candidate_recipe_dto \<Rightarrow> filter_state \<Rightarrow> filter_state" where
  "filter_candidate inp by_ingredient recipe st =
     (let allergen = allergen_validate by_ingredient recipe (in_members inp);
          st = fold add_warning (vr_warnings allergen) st;
          diet = diet_validate by_ingredient recipe (in_members inp);
          equipment_ok = (cr_required_equipment recipe \<subseteq> in_available_equipment inp)
      in if vr_valid allergen \<and> vr_valid diet \<and> equipment_ok
         then st\<lparr>ft_valid := ft_valid st @ [recipe],
                 ft_soft_penalty := dset (cr_recipe_id recipe) (int (length (vr_soft_violations diet))) (ft_soft_penalty st)\<rparr>
         else st)"

definition filter_candidates :: "plan_input \<Rightarrow> filter_state" where
  "filter_candidates inp =
     fold (filter_candidate inp (allergen_validator_init (in_catalog inp))) (in_candidates inp) filter_init"

text \<open>Whether a recipe fits a slot: meal type and time limit.\<close>

definition fits_slot :: "meal_slot \<Rightarrow> candidate_recipe_dto \<Rightarrow> bool" where
  "fits_slot slot r \<longleftrightarrow>
     sl_meal_type slot \<in> cr_meal_types r \<and>
     (case sl_maximum_preparation_minutes slot of
        None \<Rightarrow> True
      | Some limit \<Rightarrow> cr_preparation_minutes r + cr_cooking_minutes r \<le> limit)"

definition feasible_candidates :: "meal_slot list \<Rightarrow> candidate_recipe_dto list \<Rightarrow> feasible_map" where
  "feasible_candidates slots valid_recipes =
     fold (\<lambda>slot d. dset (sl_index slot) (filter (fits_slot slot) valid_recipes) d) slots []"


section \<open>Tokens\<close>

definition soft_tokens :: "plan_input \<Rightarrow> string list" where
  "soft_tokens inp = sorted_list_of_set (fold (\<lambda>m acc. acc \<union> set (mb_soft_preferences m)) (in_members inp) {})"

definition active_hard_tokens :: "plan_input \<Rightarrow> string list" where
  "active_hard_tokens inp =
     sorted_list_of_set (fold (\<lambda>m acc. acc \<union> py_lower ` mb_allergens m \<union> py_lower ` mb_hard_restrictions m)
       (in_members inp) {})"


section \<open>The result of a plan\<close>

definition empty_plan :: "plan_input \<Rightarrow> plan_result" where
  "empty_plan inp =
     \<lparr>pr_planned_meals = [], pr_grocery_lines = [], pr_cost_per_day = [],
      pr_cost_total = \<lparr>ct_known = 0, ct_estimated = 0, ct_total = 0\<rparr>,
      pr_budget_diff = bg_amount (in_budget inp), pr_leftovers = [], pr_pantry_used = [],
      pr_coverage = compute_coverage [], pr_nutrition_summary = None,
      pr_warnings = [NoMealsRequested], pr_explanations = [], pr_seed = in_seed inp\<rparr>"

definition nutrition_tolerance :: dec where
  "nutrition_tolerance = 5 / 100"

definition macro_summary ::
  "nutrition_target_dto \<Rightarrow> totals \<Rightarrow> dec \<Rightarrow> dec \<Rightarrow> macro \<Rightarrow> macro_summary_dto" where
  "macro_summary target totals weight days macro =
     (let actual_per_day = ddiv (dmul (totals macro) weight) days;
          unknown = \<lparr>ms_actual_per_day = Some actual_per_day, ms_target_per_day = None,
                     ms_deviation = None, ms_coverage_ratio = None, ms_status = MacroUnknown\<rparr>
      in case target_macro target macro of
           None \<Rightarrow> unknown
         | Some goal \<Rightarrow>
             if goal \<le> 0 then unknown
             else
               (let deviation = dsub actual_per_day goal;
                    coverage_ratio = ddiv actual_per_day goal;
                    status = (if dabs (dsub coverage_ratio 1) \<le> nutrition_tolerance then MacroMet
                              else if coverage_ratio < 1 then MacroUnder else MacroOver)
                in \<lparr>ms_actual_per_day = Some actual_per_day, ms_target_per_day = Some goal,
                    ms_deviation = Some deviation, ms_coverage_ratio = Some coverage_ratio,
                    ms_status = status\<rparr>))"

definition build_nutrition_summary ::
  "nutrition_target_dto option \<Rightarrow> totals \<Rightarrow> bool \<Rightarrow> int \<Rightarrow> dec \<Rightarrow> nutrition_summary_dto option" where
  "build_nutrition_summary target totals is_complete num_days weight =
     (case target of
        None \<Rightarrow> None
      | Some t \<Rightarrow>
          (let summary = macro_summary t totals weight (of_int num_days) in
           Some \<lparr>ns_days = num_days, ns_complete = is_complete, ns_kcal = summary Kcal,
                 ns_protein_g = summary ProteinG, ns_carbs_g = summary CarbsG, ns_fat_g = summary FatG\<rparr>))"

text \<open>The loop over the meals: those already planned, those to plan, the running total, the
  planned meals and the cost per day. A result holds the planned meals, their explanations and
  the costs.\<close>

record result_state =
  rs_planned :: "planned_meal_dto list"
  rs_explanations :: "message list"
  rs_cost_per_day :: "(date, dec) dict"

definition planned_meal ::
  "plan_input \<Rightarrow> provision \<Rightarrow> meal_assignment \<Rightarrow> dec \<Rightarrow> message \<Rightarrow> planned_meal_dto" where
  "planned_meal inp prov meal marginal explanation =
     (let imputable = dget (pv_imputable_by_meal prov) (ma_slot_index meal) 0;
          (nutrition, complete) = for_meal (nutrition_calculator_of inp) meal
      in \<lparr>pm_recipe_id = cr_recipe_id (ma_recipe meal), pm_title = cr_title (ma_recipe meal),
          pm_date = ma_date meal, pm_meal_type = ma_meal_type meal, pm_servings = ma_servings meal,
          pm_participants = map mb_alias (in_members inp),
          pm_cost = \<lparr>cb_total = imputable, cb_imputable = imputable, cb_marginal = marginal\<rparr>,
          pm_nutrition = nutrition, pm_nutrition_complete = complete, pm_explanation = explanation\<rparr>)"

fun plan_meals_loop ::
  "plan_input \<Rightarrow> provision \<Rightarrow> meal_assignment list \<Rightarrow> meal_assignment list \<Rightarrow> dec \<Rightarrow> result_state \<Rightarrow>
    py_exn + result_state" where
  "plan_meals_loop inp prov earlier [] prev_total rs = Inr rs"
| "plan_meals_loop inp prov earlier (meal # meals) prev_total rs =
     (let step_prov = provision_meals (provisioner_of inp) (earlier @ [meal]);
          marginal = dsub (cost_total step_prov) prev_total;
          imputable = dget (pv_imputable_by_meal prov) (ma_slot_index meal) 0
      in case explain_meal meal (in_favorites inp) (in_budget inp) imputable of
           Inl e \<Rightarrow> Inl e
         | Inr explanation \<Rightarrow>
             plan_meals_loop inp prov (earlier @ [meal]) meals (cost_total step_prov)
               \<lparr>rs_planned = rs_planned rs @ [planned_meal inp prov meal marginal explanation],
                rs_explanations = rs_explanations rs @ [explanation],
                rs_cost_per_day = dset (ma_date meal) (dadd (dget (rs_cost_per_day rs) (ma_date meal) 0) imputable)
                  (rs_cost_per_day rs)\<rparr>)"

definition result_meals :: "plan_input \<Rightarrow> meal_slot list \<Rightarrow> candidate_recipe_dto list \<Rightarrow> meal_assignment list" where
  "result_meals inp slots assignment =
     map (\<lambda>(slot, recipe).
       \<lparr>ma_slot_index = sl_index slot, ma_date = sl_date slot, ma_meal_type = sl_meal_type slot,
        ma_recipe = recipe, ma_servings = sl_servings slot,
        ma_participants = map mb_alias (in_members inp)\<rparr>)
       (zip slots assignment)"

definition coverage_warnings :: "coverage_dto \<Rightarrow> message list" where
  "coverage_warnings cov =
     (if cv_status cov = CovStale then [PlanUsesExpiredPrices] else []) @
     (if cv_status cov = CovInsufficient \<or> cv_status cov = CovNone then [PriceCoverageLow] else [])"

definition build_result ::
  "plan_input \<Rightarrow> meal_slot list \<Rightarrow> optimizer_outcome \<Rightarrow> message list \<Rightarrow> py_exn + plan_result" where
  "build_result inp slots outcome warnings =
     (case oo_provision outcome of
        None \<Rightarrow> Inl AssertionError
      | Some prov \<Rightarrow>
        (let meals = result_meals inp slots (oo_assignment outcome) in
         case plan_meals_loop inp prov [] meals 0 \<lparr>rs_planned = [], rs_explanations = [], rs_cost_per_day = []\<rparr> of
           Inl e \<Rightarrow> Inl e
         | Inr rs \<Rightarrow>
           (let coverage = compute_coverage (pv_grocery_lines prov);
                all_warnings = warnings @ coverage_warnings coverage @ pv_warnings prov;
                num_days = effective_num_days (plan_days slots);
                (totals, complete) = for_meals_per_serving (nutrition_calculator_of inp) meals
            in Inr \<lparr>pr_planned_meals = rs_planned rs, pr_grocery_lines = pv_grocery_lines prov,
                    pr_cost_per_day = sort_key fst (rs_cost_per_day rs),
                    pr_cost_total = \<lparr>ct_known = pv_cost_known prov, ct_estimated = pv_cost_estimated prov,
                                     ct_total = cost_total prov\<rparr>,
                    pr_budget_diff = dsub (bg_amount (in_budget inp)) (cost_total prov),
                    pr_leftovers = pv_leftovers prov, pr_pantry_used = pv_pantry_used prov,
                    pr_coverage = coverage,
                    pr_nutrition_summary = build_nutrition_summary (in_nutrition_target inp) totals complete
                      num_days (comensal_weight inp),
                    pr_warnings = all_warnings, pr_explanations = rs_explanations rs,
                    pr_seed = in_seed inp\<rparr>)))"


section \<open>The entry point\<close>

definition missing_result :: "plan_input \<Rightarrow> meal_type list \<Rightarrow> message list \<Rightarrow> infeasible_result" where
  "missing_result inp meal_types warnings =
     (let (conflict, actions) = missing_candidate_conflict meal_types (active_hard_tokens inp) in
      \<lparr>ir_minimal_conflict = conflict, ir_min_budget_found = None, ir_offending_products = [],
       ir_relaxable_soft_constraints = soft_tokens inp, ir_suggested_actions = actions,
       ir_warnings = warnings, ir_seed = in_seed inp\<rparr>)"

definition over_budget_result ::
  "plan_input \<Rightarrow> meal_slot list \<Rightarrow> optimizer_outcome \<Rightarrow> message list \<Rightarrow> py_exn + infeasible_result" where
  "over_budget_result inp slots outcome warnings =
     (let cheapest_cost = (case oo_cheapest_cost outcome of Some c \<Rightarrow> c | None \<Rightarrow> 0);
          cheapest_prov = (case oo_cheapest_provision outcome of Some p \<Rightarrow> Some p | None \<Rightarrow> oo_provision outcome);
          offenders = (case cheapest_prov of Some p \<Rightarrow> offending_products p 5 | None \<Rightarrow> [])
      in case budget_conflict (in_budget inp) cheapest_cost (int (length slots)) (soft_tokens inp) of
           Inl e \<Rightarrow> Inl e
         | Inr (conflict, relaxable, actions) \<Rightarrow>
             Inr \<lparr>ir_minimal_conflict = conflict, ir_min_budget_found = Some cheapest_cost,
                  ir_offending_products = offenders, ir_relaxable_soft_constraints = relaxable,
                  ir_suggested_actions = actions, ir_warnings = warnings, ir_seed = in_seed inp\<rparr>)"

definition generate_plan :: "random_source \<Rightarrow> plan_input \<Rightarrow> py_exn + plan_outcome" where
  "generate_plan draw inp =
     (let slots = schedule (in_meal_requirements inp) (in_date_range inp);
          filtered = filter_candidates inp;
          warnings = ft_warnings filtered;
          feasible = feasible_candidates slots (ft_valid filtered)
      in if slots = [] then Inr (Plan (empty_plan inp))
         else
           (case optimize draw (optimizer_of inp slots (ft_soft_penalty filtered)) slots feasible of
              Inl e \<Rightarrow> Inl e
            | Inr outcome \<Rightarrow>
                if \<not> oo_feasible outcome
                then Inr (Infeasible (missing_result inp (oo_missing_meal_types outcome) warnings))
                else if oo_over_budget outcome
                then (case over_budget_result inp slots outcome warnings of
                        Inl e \<Rightarrow> Inl e | Inr r \<Rightarrow> Inr (Infeasible r))
                else (case build_result inp slots outcome warnings of
                        Inl e \<Rightarrow> Inl e | Inr r \<Rightarrow> Inr (Plan r))))"


section \<open>Lemmas\<close>

text \<open>The recipes that pass the three hard gates.\<close>

definition admissible :: "plan_input \<Rightarrow> candidate_recipe_dto \<Rightarrow> bool" where
  "admissible inp r \<longleftrightarrow>
     vr_valid (allergen_validate (allergen_validator_init (in_catalog inp)) r (in_members inp)) \<and>
     vr_valid (diet_validate (allergen_validator_init (in_catalog inp)) r (in_members inp)) \<and>
     cr_required_equipment r \<subseteq> in_available_equipment inp"

lemma add_warning_fields [simp]:
  "ft_valid (fold add_warning ws st) = ft_valid st"
  "ft_soft_penalty (fold add_warning ws st) = ft_soft_penalty st"
  by (induction ws arbitrary: st) (simp_all add: add_warning_def)

lemma filter_candidates_valid: "ft_valid (filter_candidates inp) = filter (admissible inp) (in_candidates inp)"
proof -
  have "ft_valid (fold (filter_candidate inp (allergen_validator_init (in_catalog inp))) cs st) =
      ft_valid st @ filter (admissible inp) cs" for cs st
    by (induction cs arbitrary: st) (auto simp: filter_candidate_def Let_def admissible_def)
  then show ?thesis by (simp add: filter_candidates_def filter_init_def)
qed

definition warnings_ok :: "filter_state \<Rightarrow> bool" where
  "warnings_ok st \<longleftrightarrow> distinct (ft_warnings st) \<and> set (ft_warnings st) = ft_seen st"

lemma warnings_ok_fold: "warnings_ok st \<Longrightarrow> warnings_ok (fold add_warning ws st)"
  by (induction ws arbitrary: st) (auto simp: add_warning_def warnings_ok_def)

lemma filter_candidates_warnings: "warnings_ok (filter_candidates inp)"
proof -
  have "warnings_ok st \<Longrightarrow> warnings_ok (fold (filter_candidate inp d) cs st)" for cs st d
  proof (induction cs arbitrary: st)
    case Nil
    then show ?case by simp
  next
    case (Cons c cs)
    have "warnings_ok (filter_candidate inp d c st)"
      using warnings_ok_fold[OF Cons.prems] by (auto simp: filter_candidate_def Let_def warnings_ok_def)
    with Cons.IH show ?case by simp
  qed
  then show ?thesis by (simp add: filter_candidates_def filter_init_def warnings_ok_def)
qed

lemma feasible_candidates_lookup:
  assumes "distinct (map sl_index slots)" "slot \<in> set slots"
  shows "dget (feasible_candidates slots vs) (sl_index slot) [] = filter (fits_slot slot) vs"
proof -
  have other: "dget (fold (\<lambda>slot d. dset (sl_index slot) (filter (fits_slot slot) vs) d) ss d) i [] = dget d i []"
    if "i \<notin> sl_index ` set ss" for ss d i
    using that by (induction ss arbitrary: d) auto
  have "dget (fold (\<lambda>slot d. dset (sl_index slot) (filter (fits_slot slot) vs) d) slots d) (sl_index slot) [] =
      filter (fits_slot slot) vs" for d
    using assms
  proof (induction slots arbitrary: d)
    case Nil
    then show ?case by simp
  next
    case (Cons s ss)
    show ?case
    proof (cases "slot = s")
      case True
      then have "sl_index slot \<notin> sl_index ` set ss" using Cons.prems(1) by simp
      with True other show ?thesis by simp
    next
      case False
      with Cons show ?thesis by simp
    qed
  qed
  then show ?thesis by (simp add: feasible_candidates_def)
qed

lemma distinct_schedule: "distinct (map sl_index (schedule reqs rng))"
  by (simp add: distinct_conv_nth schedule_nth_index)

text \<open>The slots of a request and the lists the optimizer chooses from.\<close>

definition slots_of :: "plan_input \<Rightarrow> meal_slot list" where
  "slots_of inp = schedule (in_meal_requirements inp) (in_date_range inp)"

definition feasible_of :: "plan_input \<Rightarrow> feasible_map" where
  "feasible_of inp = feasible_candidates (slots_of inp) (ft_valid (filter_candidates inp))"

definition request_optimizer :: "plan_input \<Rightarrow> plan_optimizer" where
  "request_optimizer inp = optimizer_of inp (slots_of inp) (ft_soft_penalty (filter_candidates inp))"

lemma feasible_of_lookup:
  "slot \<in> set (slots_of inp) \<Longrightarrow>
   dget (feasible_of inp) (sl_index slot) [] = filter (\<lambda>r. admissible inp r \<and> fits_slot slot r) (in_candidates inp)"
  using feasible_candidates_lookup[of "slots_of inp" slot]
  by (simp add: feasible_of_def filter_candidates_valid slots_of_def distinct_schedule conj_commute)

text \<open>A whole plan over the admissible recipes.\<close>

definition plan_fits :: "plan_input \<Rightarrow> candidate_recipe_dto list \<Rightarrow> bool" where
  "plan_fits inp plan \<longleftrightarrow>
     list_all2 (\<lambda>slot r. r \<in> set (in_candidates inp) \<and> admissible inp r \<and> fits_slot slot r) (slots_of inp) plan"

lemma plan_ok_fits: "plan_ok (slots_of inp) (feasible_of inp) plan \<longleftrightarrow> plan_fits inp plan"
proof -
  have "(r \<in> set (dget (feasible_of inp) (sl_index s) [])) =
      (r \<in> set (in_candidates inp) \<and> admissible inp r \<and> fits_slot s r)" if "s \<in> set (slots_of inp)" for s r
    unfolding feasible_of_lookup[OF that] by auto
  then show ?thesis unfolding plan_ok_def plan_fits_def by (intro list.rel_cong_simp) auto
qed

text \<open>What \<open>generate_plan\<close> does with the optimizer's outcome.\<close>

lemma optimize_cases:
  fixes draw :: random_source
  obtains (missing) "missing_types slots feasible \<noteq> []"
      "optimize draw oz slots feasible = Inr (infeasible_outcome (missing_types slots feasible))"
    | (found) held over st where "missing_types slots feasible = []"
      "optimize draw oz slots feasible = Inr (feasible_outcome held over st)"
      "held_ok oz slots feasible held" "over = (budget_limit (oz_budget oz) < cost_total (hp_prov held))"
      "cheapest_ok oz slots feasible st" "seen_cost st (cost_total (hp_prov held))"
proof (cases "missing_types slots feasible = []")
  case True
  show thesis by (rule optimize_feasible[OF True, of draw oz]) (rule found[OF True])
next
  case False
  then show thesis by (intro missing) (simp_all add: optimize_def)
qed

lemma generate_plan_slots: "slots_of inp = [] \<Longrightarrow> generate_plan draw inp = Inr (Plan (empty_plan inp))"
  by (simp add: generate_plan_def slots_of_def)

lemma generate_plan_optimize:
  assumes "slots_of inp \<noteq> []"
  shows "generate_plan draw inp =
    (case optimize draw (request_optimizer inp) (slots_of inp) (feasible_of inp) of
       Inl e \<Rightarrow> Inl e
     | Inr outcome \<Rightarrow>
         if \<not> oo_feasible outcome
         then Inr (Infeasible (missing_result inp (oo_missing_meal_types outcome) (ft_warnings (filter_candidates inp))))
         else if oo_over_budget outcome
         then (case over_budget_result inp (slots_of inp) outcome (ft_warnings (filter_candidates inp)) of
                 Inl e \<Rightarrow> Inl e | Inr r \<Rightarrow> Inr (Infeasible r))
         else (case build_result inp (slots_of inp) outcome (ft_warnings (filter_candidates inp)) of
                 Inl e \<Rightarrow> Inl e | Inr r \<Rightarrow> Inr (Plan r)))"
  using assms[unfolded slots_of_def]
  unfolding generate_plan_def slots_of_def feasible_of_def request_optimizer_def Let_def by (simp only: if_False)

lemma plan_meals_loop_ok:
  assumes "plan_meals_loop inp prov earlier meals prev rs = Inr rs'"
  shows "\<exists>ps. rs_planned rs' = rs_planned rs @ ps \<and>
    list_all2 (\<lambda>m p. pm_recipe_id p = cr_recipe_id (ma_recipe m) \<and> pm_title p = cr_title (ma_recipe m) \<and>
      pm_date p = ma_date m \<and> pm_meal_type p = ma_meal_type m \<and> pm_servings p = ma_servings m \<and>
      cb_total (pm_cost p) = dget (pv_imputable_by_meal prov) (ma_slot_index m) 0) meals ps \<and>
    rs_explanations rs' = rs_explanations rs @ map pm_explanation ps"
  using assms
proof (induction meals arbitrary: earlier prev rs)
  case Nil
  then show ?case by simp
next
  case (Cons m meals)
  let ?prov = "provision_meals (provisioner_of inp) (earlier @ [m])"
  from Cons.prems obtain e where e: "explain_meal m (in_favorites inp) (in_budget inp)
      (dget (pv_imputable_by_meal prov) (ma_slot_index m) 0) = Inr e"
    by (auto simp: Let_def split: sum.splits)
  let ?p = "planned_meal inp prov m (dsub (cost_total ?prov) prev) e"
  let ?rs = "\<lparr>rs_planned = rs_planned rs @ [?p], rs_explanations = rs_explanations rs @ [e],
      rs_cost_per_day = dset (ma_date m) (dadd (dget (rs_cost_per_day rs) (ma_date m) 0)
        (dget (pv_imputable_by_meal prov) (ma_slot_index m) 0)) (rs_cost_per_day rs)\<rparr>"
  have "plan_meals_loop inp prov (earlier @ [m]) meals (cost_total ?prov) ?rs = Inr rs'"
    using Cons.prems e by (simp add: Let_def)
  from Cons.IH[OF this] obtain ps where "rs_planned rs' = rs_planned ?rs @ ps"
    "list_all2 (\<lambda>m p. pm_recipe_id p = cr_recipe_id (ma_recipe m) \<and> pm_title p = cr_title (ma_recipe m) \<and>
      pm_date p = ma_date m \<and> pm_meal_type p = ma_meal_type m \<and> pm_servings p = ma_servings m \<and>
      cb_total (pm_cost p) = dget (pv_imputable_by_meal prov) (ma_slot_index m) 0) meals ps"
    "rs_explanations rs' = rs_explanations ?rs @ map pm_explanation ps" by blast
  then show ?case
    by (intro exI[of _ "?p # ps"]) (simp add: planned_meal_def Let_def split: prod.split)
qed

lemma plan_meals_loop_Inl: "plan_meals_loop inp prov earlier meals prev rs = Inl e \<Longrightarrow> e = InvalidOperation"
proof (induction meals arbitrary: earlier prev rs)
  case Nil
  then show ?case by simp
next
  case (Cons m meals)
  then show ?case by (auto simp: Let_def split: sum.splits dest: explain_meal_Inl)
qed

lemma over_budget_result_Inl: "over_budget_result inp slots out ws = Inl e \<Longrightarrow> e = InvalidOperation"
  by (auto simp: over_budget_result_def Let_def split: sum.splits dest: budget_conflict_Inl)

lemma build_result_Inl:
  "build_result inp slots out ws = Inl e \<Longrightarrow> oo_provision out \<noteq> None \<Longrightarrow> e = InvalidOperation"
  by (auto simp: build_result_def Let_def split: sum.splits prod.splits dest: plan_meals_loop_Inl)

lemma build_result_ok:
  assumes "build_result inp slots out ws = Inr r" and "length slots = length (oo_assignment out)"
  obtains prov where "oo_provision out = Some prov"
    "list_all2 (\<lambda>(s, c) p. pm_recipe_id p = cr_recipe_id c \<and> pm_title p = cr_title c \<and>
       pm_date p = sl_date s \<and> pm_meal_type p = sl_meal_type s \<and> pm_servings p = sl_servings s)
       (zip slots (oo_assignment out)) (pr_planned_meals r)"
    "pr_explanations r = map pm_explanation (pr_planned_meals r)"
    "pr_grocery_lines r = pv_grocery_lines prov"
    "pr_cost_total r = \<lparr>ct_known = pv_cost_known prov, ct_estimated = pv_cost_estimated prov, ct_total = cost_total prov\<rparr>"
    "pr_budget_diff r = dsub (bg_amount (in_budget inp)) (cost_total prov)"
    "pr_coverage r = compute_coverage (pv_grocery_lines prov)"
    "pr_seed r = in_seed inp"
proof -
  from assms(1) obtain prov where p: "oo_provision out = Some prov" by (auto simp: build_result_def split: option.splits)
  let ?meals = "result_meals inp slots (oo_assignment out)"
  from assms(1) p obtain rs where l: "plan_meals_loop inp prov [] ?meals 0
      \<lparr>rs_planned = [], rs_explanations = [], rs_cost_per_day = []\<rparr> = Inr rs"
    and r: "pr_planned_meals r = rs_planned rs" "pr_explanations r = rs_explanations rs"
    "pr_grocery_lines r = pv_grocery_lines prov"
    "pr_cost_total r = \<lparr>ct_known = pv_cost_known prov, ct_estimated = pv_cost_estimated prov, ct_total = cost_total prov\<rparr>"
    "pr_budget_diff r = dsub (bg_amount (in_budget inp)) (cost_total prov)"
    "pr_coverage r = compute_coverage (pv_grocery_lines prov)" "pr_seed r = in_seed inp"
    by (auto simp: build_result_def Let_def split: sum.splits prod.splits)
  from plan_meals_loop_ok[OF l] obtain ps where ps: "rs_planned rs = ps"
    "list_all2 (\<lambda>m p. pm_recipe_id p = cr_recipe_id (ma_recipe m) \<and> pm_title p = cr_title (ma_recipe m) \<and>
      pm_date p = ma_date m \<and> pm_meal_type p = ma_meal_type m \<and> pm_servings p = ma_servings m \<and>
      cb_total (pm_cost p) = dget (pv_imputable_by_meal prov) (ma_slot_index m) 0) ?meals ps"
    "rs_explanations rs = map pm_explanation ps" by auto
  have "list_all2 (\<lambda>(s, c) p. pm_recipe_id p = cr_recipe_id c \<and> pm_title p = cr_title c \<and>
       pm_date p = sl_date s \<and> pm_meal_type p = sl_meal_type s \<and> pm_servings p = sl_servings s)
       (zip slots (oo_assignment out)) ps"
    using ps(2) unfolding result_meals_def list_all2_map1
    by (rule list_all2_mono) auto
  with p ps r show thesis by (intro that[of prov]) simp_all
qed

text \<open>The three ways \<open>generate_plan\<close> ends when there are slots.\<close>

lemma generate_plan_cases:
  assumes "slots_of inp \<noteq> []" "generate_plan draw inp = res"
  obtains (missing) "missing_types (slots_of inp) (feasible_of inp) \<noteq> []"
      "res = Inr (Infeasible (missing_result inp
         (sorted_list_of_set (set (missing_types (slots_of inp) (feasible_of inp)))) (ft_warnings (filter_candidates inp))))"
    | (over) plan cheapest where "plan_fits inp plan" "plan_fits inp cheapest"
      "budget_limit (in_budget inp) < cost_total (plan_provision (request_optimizer inp) (slots_of inp) plan)"
      "cost_total (plan_provision (request_optimizer inp) (slots_of inp) cheapest) \<le>
        cost_total (plan_provision (request_optimizer inp) (slots_of inp) plan)"
      "(\<exists>e. res = Inl e \<and> e = InvalidOperation) \<or>
       (\<exists>r. res = Inr (Infeasible r) \<and>
         ir_min_budget_found r = Some (cost_total (plan_provision (request_optimizer inp) (slots_of inp) cheapest)) \<and>
         ir_offending_products r = offending_products (plan_provision (request_optimizer inp) (slots_of inp) cheapest) 5)"
    | (plan) out where "plan_fits inp (oo_assignment out)"
      "oo_provision out = Some (plan_provision (request_optimizer inp) (slots_of inp) (oo_assignment out))"
      "cost_total (plan_provision (request_optimizer inp) (slots_of inp) (oo_assignment out)) \<le> budget_limit (in_budget inp)"
      "(\<exists>e. res = Inl e \<and> e = InvalidOperation) \<or>
       (\<exists>r. res = Inr (Plan r) \<and> build_result inp (slots_of inp) out (ft_warnings (filter_candidates inp)) = Inr r)"
proof (cases rule: optimize_cases[of "slots_of inp" "feasible_of inp" draw "request_optimizer inp"])
  case miss: missing
  show thesis
    by (rule missing[OF miss(1)])
      (simp add: assms(2)[symmetric] generate_plan_optimize[OF assms(1)] miss(2) infeasible_outcome_def)
next
  case fnd: (found held ov st)
  let ?out = "feasible_outcome held ov st"
  let ?ws = "ft_warnings (filter_candidates inp)"
  have bud: "oz_budget (request_optimizer inp) = in_budget inp"
    by (simp add: request_optimizer_def optimizer_of_def)
  have held: "plan_fits inp (hp_chosen held)"
    "hp_prov held = plan_provision (request_optimizer inp) (slots_of inp) (hp_chosen held)"
    using fnd(3) by (auto simp: held_ok_def plan_ok_fits)
  show thesis
  proof (cases ov)
    case True
    obtain c where c: "se_cheapest_cost st = Some c" "c \<le> cost_total (hp_prov held)"
      using fnd(6) by (auto simp: seen_cost_def)
    let ?ch = "se_cheapest_assignment st"
    have ch: "plan_fits inp ?ch" "se_cheapest_provision st = Some (plan_provision (request_optimizer inp) (slots_of inp) ?ch)"
      "c = cost_total (plan_provision (request_optimizer inp) (slots_of inp) ?ch)"
      using fnd(5) c(1) by (auto simp: cheapest_ok_def plan_ok_fits)
    have res: "res = (case over_budget_result inp (slots_of inp) ?out ?ws of Inl e \<Rightarrow> Inl e | Inr r \<Rightarrow> Inr (Infeasible r))"
      using True by (simp add: assms(2)[symmetric] generate_plan_optimize[OF assms(1)] fnd(2) feasible_outcome_def)
    show thesis
    proof (rule over[OF held(1) ch(1)])
      show "budget_limit (in_budget inp) < cost_total (plan_provision (request_optimizer inp) (slots_of inp) (hp_chosen held))"
        using fnd(4) True held(2) bud by simp
      show "cost_total (plan_provision (request_optimizer inp) (slots_of inp) ?ch)
          \<le> cost_total (plan_provision (request_optimizer inp) (slots_of inp) (hp_chosen held))"
        using c(2) ch(3) held(2) by simp
      show "(\<exists>e. res = Inl e \<and> e = InvalidOperation) \<or>
       (\<exists>r. res = Inr (Infeasible r) \<and>
         ir_min_budget_found r = Some (cost_total (plan_provision (request_optimizer inp) (slots_of inp) ?ch)) \<and>
         ir_offending_products r = offending_products (plan_provision (request_optimizer inp) (slots_of inp) ?ch) 5)"
      proof (cases "over_budget_result inp (slots_of inp) ?out ?ws")
        case (Inl e)
        then show ?thesis using res over_budget_result_Inl by auto
      next
        case (Inr r)
        then have "ir_min_budget_found r = Some c" "ir_offending_products r = offending_products (plan_provision (request_optimizer inp) (slots_of inp) ?ch) 5"
          using c(1) ch(2) by (auto simp: over_budget_result_def Let_def feasible_outcome_def split: sum.splits)
        with Inr res ch(3) show ?thesis by simp
      qed
    qed
  next
    case False
    have res: "res = (case build_result inp (slots_of inp) ?out ?ws of Inl e \<Rightarrow> Inl e | Inr r \<Rightarrow> Inr (Plan r))"
      using False by (simp add: assms(2)[symmetric] generate_plan_optimize[OF assms(1)] fnd(2) feasible_outcome_def)
    have out: "oo_assignment ?out = hp_chosen held" "oo_provision ?out = Some (hp_prov held)"
      by (simp_all add: feasible_outcome_def)
    show thesis
    proof (rule plan[of ?out])
      show "plan_fits inp (oo_assignment ?out)" using held(1) out by simp
      show "oo_provision ?out = Some (plan_provision (request_optimizer inp) (slots_of inp) (oo_assignment ?out))"
        using held(2) out by simp
      show "cost_total (plan_provision (request_optimizer inp) (slots_of inp) (oo_assignment ?out)) \<le> budget_limit (in_budget inp)"
        using fnd(4) False held(2) bud out by simp
      show "(\<exists>e. res = Inl e \<and> e = InvalidOperation) \<or>
       (\<exists>r. res = Inr (Plan r) \<and> build_result inp (slots_of inp) ?out ?ws = Inr r)"
        using res out(2) build_result_Inl[of inp "slots_of inp" ?out ?ws]
        by (cases "build_result inp (slots_of inp) ?out ?ws") auto
    qed
  qed
qed


lemma list_all2_zip_trans:
  assumes "list_all2 P xs ys" "list_all2 Q (zip xs ys) zs" "\<And>x y z. P x y \<Longrightarrow> Q (x, y) z \<Longrightarrow> R x z"
  shows "list_all2 R xs zs"
  using assms(1,2)
proof (induction xs ys arbitrary: zs rule: list_all2_induct)
  case Nil
  then show ?case by simp
next
  case (Cons x xs y ys)
  then show ?case by (auto simp: list_all2_Cons1 intro: assms(3))
qed

text \<open>A plan that is returned: of a request without meals, or of fitting recipes within the budget.\<close>

lemma generated_plan:
  assumes "generate_plan draw inp = Inr (Plan r)"
  obtains (empty) "slots_of inp = []" "r = empty_plan inp"
    | (plan) cs prov where "plan_fits inp cs" "prov = plan_provision (request_optimizer inp) (slots_of inp) cs"
      "cost_total prov \<le> budget_limit (in_budget inp)"
      "list_all2 (\<lambda>(s, c) p. pm_recipe_id p = cr_recipe_id c \<and> pm_title p = cr_title c \<and>
         pm_date p = sl_date s \<and> pm_meal_type p = sl_meal_type s \<and> pm_servings p = sl_servings s)
         (zip (slots_of inp) cs) (pr_planned_meals r)"
      "pr_explanations r = map pm_explanation (pr_planned_meals r)" "pr_grocery_lines r = pv_grocery_lines prov"
      "pr_cost_total r = \<lparr>ct_known = pv_cost_known prov, ct_estimated = pv_cost_estimated prov, ct_total = cost_total prov\<rparr>"
      "pr_budget_diff r = dsub (bg_amount (in_budget inp)) (cost_total prov)"
      "pr_coverage r = compute_coverage (pv_grocery_lines prov)"
proof (cases "slots_of inp = []")
  case True
  with assms show thesis by (intro empty) (simp_all add: generate_plan_slots)
next
  case False
  from False assms show thesis
  proof (cases rule: generate_plan_cases)
    case (plan out)
    then have b: "build_result inp (slots_of inp) out (ft_warnings (filter_candidates inp)) = Inr r" by auto
    have len: "length (slots_of inp) = length (oo_assignment out)"
      using plan(1) by (auto simp: plan_fits_def dest: list_all2_lengthD)
    show thesis
      by (rule build_result_ok[OF b len]) (rule that(2)[OF plan(1)], use plan(2,3) in simp_all)
  qed auto
qed


definition example_input :: "dec \<Rightarrow> member_dto \<Rightarrow> plan_input" where
  "example_input amount member =
     \<lparr>in_members = [member], in_meal_requirements = [example_requirement Lunch 1],
      in_budget = example_budget amount, in_date_range = (5, 5), in_available_equipment = {},
      in_catalog = two_products, in_candidates = [dish_a], in_pantry = [], in_favorites = {},
      in_conversions = [], in_weights = default_weights, in_nutrition_target = None, in_seed = 7,
      in_as_of = None\<rparr>"


section \<open>Properties\<close>

text \<open>C2 Every plan is safe. Whatever the generator draws, a plan has exactly one meal per
  scheduled slot, with the slot's date, meal type and servings, and each meal is a recipe among
  the candidates that passes the allergen gate and the dietary gate for all members, needs only
  available equipment, has the slot's meal type and keeps its time limit.\<close>

theorem plan_is_safe:
  assumes "generate_plan draw inp = Inr (Plan r)"
  shows "list_all2 (\<lambda>slot meal.
      pm_date meal = sl_date slot \<and> pm_meal_type meal = sl_meal_type slot \<and> pm_servings meal = sl_servings slot \<and>
      list_ex (\<lambda>c. cr_recipe_id c = pm_recipe_id meal \<and> cr_title c = pm_title meal \<and>
        vr_valid (allergen_validate (allergen_validator_init (in_catalog inp)) c (in_members inp)) \<and>
        vr_valid (diet_validate (allergen_validator_init (in_catalog inp)) c (in_members inp)) \<and>
        cr_required_equipment c \<subseteq> in_available_equipment inp \<and> fits_slot slot c) (in_candidates inp))
    (schedule (in_meal_requirements inp) (in_date_range inp)) (pr_planned_meals r)"
  using assms
proof (cases rule: generated_plan)
  case empty
  then show ?thesis by (simp add: slots_of_def empty_plan_def)
next
  case (plan cs prov)
  show ?thesis unfolding slots_of_def[symmetric]
    by (rule list_all2_zip_trans[OF plan(1)[unfolded plan_fits_def] plan(4)])
      (auto simp: list_ex_iff admissible_def)
qed

theorem plan_is_safe_witness:
  "\<exists>r. generate_plan (\<lambda>_. 0) (example_input 10 (example_member ''ana'' {''egg''} {} {''vegano''})) = Inr (Plan r) \<and>
     length (pr_planned_meals r) = length (slots_of (example_input 10 (example_member ''ana'' {''egg''} {} {''vegano''})))"
proof -
  let ?inp = "example_input 10 (example_member ''ana'' {''egg''} {} {''vegano''})"
  have "case generate_plan (\<lambda>_. 0) ?inp of
      Inl _ \<Rightarrow> False | Inr (Plan r) \<Rightarrow> True | Inr (Infeasible _) \<Rightarrow> False"
    by code_simp
  then obtain r where r: "generate_plan (\<lambda>_. 0) ?inp = Inr (Plan r)"
    by (auto split: sum.splits plan_outcome.splits)
  from list_all2_lengthD[OF plan_is_safe[OF r]] r show ?thesis by (auto simp: slots_of_def)
qed

text \<open>C6 The money of a plan. A plan either answers a request without meals, or its total cost
  is within the budget limit; its known and estimated costs are the sums of its lines, the total
  their sum, the budget difference the amount minus the total, the coverage that of its lines,
  and it carries one explanation per meal.\<close>

theorem plan_within_budget:
  assumes "generate_plan draw inp = Inr (Plan r)"
  shows "(schedule (in_meal_requirements inp) (in_date_range inp) = [] \<and> r = empty_plan inp) \<or>
    (ct_total (pr_cost_total r) \<le> budget_limit (in_budget inp) \<and>
     ct_known (pr_cost_total r) = dsum (map gl_subtotal (filter gl_subtotal_known (pr_grocery_lines r))) \<and>
     ct_estimated (pr_cost_total r) = dsum (map gl_subtotal (filter (\<lambda>l. \<not> gl_subtotal_known l) (pr_grocery_lines r))) \<and>
     ct_total (pr_cost_total r) = dadd (ct_known (pr_cost_total r)) (ct_estimated (pr_cost_total r)) \<and>
     pr_budget_diff r = dsub (bg_amount (in_budget inp)) (ct_total (pr_cost_total r)) \<and>
     pr_coverage r = compute_coverage (pr_grocery_lines r) \<and>
     pr_explanations r = map pm_explanation (pr_planned_meals r))"
  using assms
proof (cases rule: generated_plan)
  case empty
  then show ?thesis by (simp add: slots_of_def)
next
  case (plan cs prov)
  then have prov: "prov = provision_meals (oz_prov (request_optimizer inp)) (build_meals (slots_of inp) cs)"
    by (simp add: plan_provision_def)
  have "pv_cost_known prov = dsum (map gl_subtotal (filter gl_subtotal_known (pv_grocery_lines prov)))"
    "pv_cost_estimated prov = dsum (map gl_subtotal (filter (\<lambda>l. \<not> gl_subtotal_known l) (pv_grocery_lines prov)))"
    unfolding prov by (rule provision_lines)+
  with plan(3,5-) show ?thesis by (simp add: cost_total_def)
qed

theorem plan_within_budget_witness:
  "\<exists>r. generate_plan (\<lambda>_. 0) (example_input 10 (example_member ''ana'' {} {} {})) = Inr (Plan r) \<and>
     (schedule (in_meal_requirements (example_input 10 (example_member ''ana'' {} {} {}))) (5, 5) = [] \<or>
      ct_total (pr_cost_total r) \<le> 10)"
proof -
  let ?inp = "example_input 10 (example_member ''ana'' {} {} {})"
  have "case generate_plan (\<lambda>_. 0) ?inp of
      Inl _ \<Rightarrow> False | Inr (Plan r) \<Rightarrow> True | Inr (Infeasible _) \<Rightarrow> False"
    by code_simp
  then obtain r where r: "generate_plan (\<lambda>_. 0) ?inp = Inr (Plan r)"
    by (auto split: sum.splits plan_outcome.splits)
  have "budget_limit (in_budget ?inp) = 10" "in_date_range ?inp = (5, 5)"
    by (simp_all add: example_input_def example_budget_def budget_limit_def)
  with plan_within_budget[OF r] r show ?thesis by auto
qed

text \<open>Of the exceptions modelled here - failed assertions, conversion and value errors, and the
  \<open>decimal.InvalidOperation\<close> of an amount too large to print with two decimals - only the last leaves
  \<open>generate_plan\<close>. Division by zero and the overflow of the exponent are outside the model.\<close>

theorem generate_plan_errors:
  "case generate_plan draw inp of Inl e \<Rightarrow> e = InvalidOperation | Inr _ \<Rightarrow> True"
proof (cases "slots_of inp = []")
  case True
  then show ?thesis by (simp add: generate_plan_slots)
next
  case False
  show ?thesis
    by (cases rule: generate_plan_cases[OF False refl, of draw]) auto
qed

text \<open>C5 The diagnosis is honest. When no plan is possible for lack of recipes, no budget is
  named and the meal types declared without candidates are exactly those of the slots for which
  no admissible candidate fits; when a budget is named, it is the cost of a whole plan of
  admissible, fitting recipes, and some such plan exceeds the limit.\<close>

theorem infeasible_diagnosis:
  assumes "generate_plan draw inp = Inr (Infeasible r)"
  shows "case ir_min_budget_found r of
      None \<Rightarrow> {mt. NoCandidateFor mt \<in> set (ir_minimal_conflict r)} =
          {sl_meal_type slot | slot. slot \<in> set (slots_of inp) \<and>
             filter (\<lambda>c. admissible inp c \<and> fits_slot slot c) (in_candidates inp) = []} \<and>
        {mt. NoCandidateFor mt \<in> set (ir_minimal_conflict r)} \<noteq> {}
    | Some c \<Rightarrow> (\<exists>cheapest plan. plan_fits inp cheapest \<and> plan_fits inp plan \<and>
        c = cost_total (plan_provision (request_optimizer inp) (slots_of inp) cheapest) \<and>
        c \<le> cost_total (plan_provision (request_optimizer inp) (slots_of inp) plan) \<and>
        budget_limit (in_budget inp) < cost_total (plan_provision (request_optimizer inp) (slots_of inp) plan))"
proof (cases "slots_of inp = []")
  case True
  then show ?thesis using assms by (simp add: generate_plan_slots)
next
  case False
  from False assms show ?thesis
  proof (cases rule: generate_plan_cases)
    case missing
    have m: "set (missing_types (slots_of inp) (feasible_of inp)) = {sl_meal_type slot | slot. slot \<in> set (slots_of inp) \<and>
             filter (\<lambda>c. admissible inp c \<and> fits_slot slot c) (in_candidates inp) = []}"
      using feasible_of_lookup[of _ inp] by (auto simp: missing_types_def filter_empty_conv)
    have "{mt. NoCandidateFor mt \<in> set (ir_minimal_conflict r)} = set (missing_types (slots_of inp) (feasible_of inp))"
      "ir_min_budget_found r = None"
      using missing(2) by (auto simp: missing_result_def missing_candidate_conflict_def)
    moreover have "set (missing_types (slots_of inp) (feasible_of inp)) \<noteq> {}" using missing(1) by simp
    ultimately show ?thesis unfolding m[symmetric] by simp
  next
    case (over plan cheapest)
    then have "ir_min_budget_found r = Some (cost_total (plan_provision (request_optimizer inp) (slots_of inp) cheapest))"
      by auto
    with over(1-4) show ?thesis by auto
  qed auto
qed

theorem infeasible_diagnosis_witness:
  "\<exists>r. generate_plan (\<lambda>_. 0) (example_input 10 (example_member ''ana'' {} {} {''arroz''})) = Inr (Infeasible r) \<and>
     ir_min_budget_found r = None \<and> {mt. NoCandidateFor mt \<in> set (ir_minimal_conflict r)} \<noteq> {}"
proof -
  let ?inp = "example_input 10 (example_member ''ana'' {} {} {''arroz''})"
  have "case generate_plan (\<lambda>_. 0) ?inp of
      Inl _ \<Rightarrow> False | Inr (Plan r) \<Rightarrow> False | Inr (Infeasible r) \<Rightarrow> ir_min_budget_found r = None"
    by code_simp
  then obtain r where r: "generate_plan (\<lambda>_. 0) ?inp = Inr (Infeasible r)" "ir_min_budget_found r = None"
    by (auto split: sum.splits plan_outcome.splits)
  from infeasible_diagnosis[OF r(1)] r show ?thesis by auto
qed

end
