(* ===== verification/IngestDb.thy ===== *)
theory IngestDb
  imports Decimals
begin

text \<open>
  The tables of the price ingestion (\<open>models/ingestion.py\<close> and the parts of
  \<open>models/catalog.py\<close> it reads), with the enums of \<open>ingestion/contracts.py\<close>.

  \<^item> A table is the list of its rows in insertion order. A row is a record with the columns of
    the model class; the audit columns of \<open>BaseModel\<close> (\<open>public_id\<close>, \<open>created_at\<close>,
    \<open>updated_at\<close>) take part in no computation and are left out.
  \<^item> The rows of \<open>retailer\<close>, \<open>store\<close>, \<open>data_source\<close>, \<open>product_variant\<close> and \<open>product_price\<close> keep
    the columns that the modelled code reads or writes; of the others only columns that nothing
    modelled here reads are missing (expected values and review data of anomalies, the rollback
    author, the expiry hint).
  \<^item> An ORM object is the row with its primary key: \<open>job.status = x\<close> is \<open>update_row\<close>. New rows
    get the next number of the table's sequence, \<open>add_row\<close>.
  \<^item> A timestamp is the number of microseconds since the epoch in UTC, as PostgreSQL keeps it.
  \<^item> \<open>SELECT ... ORDER BY ... LIMIT 1\<close> is \<open>argmin\<close> over the filtered rows.
\<close>

type_synonym time = int


section \<open>Enums\<close>

datatype connector_status =
    CS_active | CS_degraded | CS_disabled | CS_unsupported | CS_permission_required
  | CS_temporarily_blocked | CS_parser_broken | CS_source_unavailable | CS_partial_only

datatype run_type = RT_discovery | RT_catalog | RT_prices | RT_offers | RT_health

datatype run_status = RS_queued | RS_running | RS_completed | RS_failed | RS_cancelled

datatype job_status =
    JS_queued | JS_locked | JS_completed | JS_failed | JS_dead_letter | JS_cancelled

datatype price_scope =
    PS_exact_store | PS_delivery_zone | PS_postal_code | PS_municipality | PS_province
  | PS_region | PS_national | PS_unknown

datatype price_type =
    PT_regular | PT_promotional | PT_loyalty | PT_manual | PT_receipt | PT_estimated | PT_unknown

datatype promotion_type =
    PM_percentage | PM_fixed | PM_nxm | PM_second_unit | PM_min_quantity | PM_pack

datatype severity = SV_low | SV_medium | SV_high | SV_critical

datatype anomaly_status = AS_open | AS_quarantined | AS_approved | AS_rejected

datatype coverage_grade =
    CG_complete | CG_high | CG_partial | CG_insufficient | CG_stale | CG_none

datatype verification_status =
    VS_unverified | VS_machine_verified | VS_human_verified | VS_disputed

text \<open>The \<open>.value\<close> of the enums whose text takes part in a computation.\<close>

fun run_type_value :: "run_type \<Rightarrow> string" where
  "run_type_value RT_discovery = ''discovery''"
| "run_type_value RT_catalog = ''catalog''"
| "run_type_value RT_prices = ''prices''"
| "run_type_value RT_offers = ''offers''"
| "run_type_value RT_health = ''health''"

lemma run_type_value_inject [simp]: "run_type_value a = run_type_value b \<longleftrightarrow> a = b"
  by (cases a; cases b) auto


section \<open>Values of a JSON column\<close>

text \<open>The payloads of the program are flat dictionaries of strings, numbers and nulls.\<close>

datatype json_value = JNull | JBool bool | JInt int | JStr string

type_synonym payload = "(string, json_value) dict"

function nat_digits :: "nat \<Rightarrow> string" where
  "nat_digits n =
     (if n < 10 then [char_of (n + 48)] else nat_digits (n div 10) @ [char_of (n mod 10 + 48)])"
  by pat_completeness auto
termination
  by (relation "measure id") auto

declare nat_digits.simps [simp del]

definition int_str :: "int \<Rightarrow> string" where
  "int_str i = (if i < 0 then ''-'' @ nat_digits (nat (- i)) else nat_digits (nat i))"

text \<open>Python's \<open>str\<close> of a payload value, and PostgreSQL's text of it (the operator \<open>->>\<close>).\<close>

fun py_str :: "json_value \<Rightarrow> string" where
  "py_str JNull = ''None''"
| "py_str (JBool b) = (if b then ''True'' else ''False'')"
| "py_str (JInt i) = int_str i"
| "py_str (JStr s) = s"

fun pg_text :: "json_value \<Rightarrow> string option" where
  "pg_text JNull = None"
| "pg_text (JBool b) = Some (if b then ''true'' else ''false'')"
| "pg_text (JInt i) = Some (int_str i)"
| "pg_text (JStr s) = Some s"


section \<open>Rows\<close>

record retailer =
  ret_id :: int
  ret_slug :: string
  ret_active :: bool
  ret_name :: string

record store =
  sto_id :: int
  sto_retailer :: int
  sto_active :: bool
  sto_postal_code :: "string option"

record connector_state =
  cst_id :: int
  cst_retailer :: int
  cst_store :: "int option"
  cst_connector_version :: string
  cst_parser_version :: string
  cst_status :: connector_status
  cst_last_attempt_at :: "time option"
  cst_last_success_at :: "time option"
  cst_consecutive_failures :: int
  cst_last_error :: "string option"
  cst_circuit_open_until :: "time option"

record crawl_run =
  run_id :: int
  run_retailer :: int
  run_store :: "int option"
  run_kind :: run_type
  run_state :: run_status
  run_scheduled_at :: "time option"
  run_started_at :: "time option"
  run_completed_at :: "time option"
  run_discovered :: int
  run_fetched :: int
  run_parsed :: int
  run_accepted :: int
  run_rejected :: int
  run_quarantined :: int
  run_errors :: int
  run_coverage_score :: "dec option"
  run_connector_version :: "string option"
  run_parser_version :: "string option"

record crawl_job =
  job_id :: int
  job_run :: int
  job_type :: string
  job_payload :: "payload option"
  job_state :: job_status
  job_priority :: int
  job_attempts :: int
  job_max_attempts :: int
  job_available_at :: time
  job_locked_at :: "time option"
  job_heartbeat_at :: "time option"
  job_locked_by :: "string option"
  job_last_error :: "string option"
  job_completed_at :: "time option"

record product_variant =
  var_id :: int
  var_product :: "int option"
  var_retailer :: int
  var_display_name :: string
  var_package_quantity :: "dec option"
  var_package_unit :: "string option"
  var_net_quantity :: "dec option"
  var_net_unit :: "string option"
  var_active :: bool

record price_observation =
  obs_id :: int
  obs_retailer :: int
  obs_store :: "int option"
  obs_zone :: "int option"
  obs_variant :: int
  obs_scope :: price_scope
  obs_type :: price_type
  obs_amount :: dec
  obs_currency :: string
  obs_unit_amount :: "dec option"
  obs_unit_code :: "string option"
  obs_promotion_text :: "string option"
  obs_loyalty :: bool
  obs_promotion_from :: "time option"
  obs_promotion_until :: "time option"
  obs_available :: "bool option"
  obs_source :: "int option"
  obs_source_url :: "string option"
  obs_observed_at :: time
  obs_imported_at :: time
  obs_valid_from :: time
  obs_valid_until :: "time option"
  obs_confidence :: dec
  obs_raw_capture :: "int option"
  obs_crawl_run :: "int option"
  obs_connector_version :: "string option"
  obs_parser_version :: "string option"
  obs_verification :: verification_status
  obs_staging_only :: bool
  obs_rolled_back_at :: "time option"
  obs_closed_by_run :: "int option"

text \<open>One occasion on which a source confirmed a price.\<close>

record price_occurrence =
  occ_id :: int
  occ_observation :: int
  occ_provider :: "string option"
  occ_source :: "int option"
  occ_source_url :: "string option"
  occ_crawl_run :: "int option"
  occ_raw_capture :: "int option"
  occ_connector_version :: "string option"
  occ_parser_version :: "string option"
  occ_imported_at :: time
  occ_confidence :: "dec option"
  occ_verification :: verification_status
  occ_evidence :: "string option"

record price_anomaly =
  ano_id :: int
  ano_observation :: "int option"
  ano_crawl_run :: "int option"
  ano_type :: string
  ano_severity :: severity
  ano_actual_value :: "dec option"
  ano_status :: anomaly_status

record data_source =
  src_id :: int
  src_type :: string
  src_name :: string

record product_price =
  prc_id :: int
  prc_retailer :: int
  prc_store :: int
  prc_product :: int
  prc_amount :: dec
  prc_currency :: string
  prc_package_quantity :: dec
  prc_package_unit :: string
  prc_unit_price :: "dec option"
  prc_promotion :: "string option"
  prc_availability :: "string option"
  prc_source_type :: string
  prc_source_name :: string
  prc_source_url :: "string option"
  prc_observed_at :: time
  prc_imported_at :: time
  prc_expires_at :: "time option"
  prc_confidence :: dec
  prc_synthetic :: bool

record coverage_snapshot =
  cov_id :: int
  cov_retailer :: int
  cov_store :: "int option"
  cov_observed_at :: time
  cov_expected :: int
  cov_discovered :: int
  cov_priced :: int
  cov_fresh :: int
  cov_stale :: int
  cov_estimated :: int
  cov_unavailable :: int
  cov_ratio :: "dec option"
  cov_weighted_ratio :: "dec option"
  cov_grade :: coverage_grade

text \<open>The database: the tables, each with the next number of its sequence.\<close>

record db =
  retailers :: "retailer list"
  stores :: "store list"
  connector_states :: "connector_state list"
  crawl_runs :: "crawl_run list"
  crawl_jobs :: "crawl_job list"
  variants :: "product_variant list"
  observations :: "price_observation list"
  anomalies :: "price_anomaly list"
  data_sources :: "data_source list"
  product_prices :: "product_price list"
  snapshots :: "coverage_snapshot list"
  occurrences :: "price_occurrence list"

definition empty_db :: db where
  "empty_db = \<lparr>retailers = [], stores = [], connector_states = [], crawl_runs = [],
     crawl_jobs = [], variants = [], observations = [], anomalies = [], data_sources = [],
     product_prices = [], snapshots = [], occurrences = []\<rparr>"


section \<open>Tables\<close>

text \<open>
  Rows are never deleted by the modelled code, so the sequence of a table stands one above the
  largest key in it.
\<close>

definition next_id :: "('r \<Rightarrow> int) \<Rightarrow> 'r list \<Rightarrow> int" where
  "next_id key t = fold (\<lambda>r n. max n (key r + 1)) t 1"

definition find_row :: "('r \<Rightarrow> int) \<Rightarrow> int \<Rightarrow> 'r list \<Rightarrow> 'r option" where
  "find_row key i t = find (\<lambda>r. key r = i) t"

definition update_row :: "('r \<Rightarrow> int) \<Rightarrow> int \<Rightarrow> ('r \<Rightarrow> 'r) \<Rightarrow> 'r list \<Rightarrow> 'r list" where
  "update_row key i f t = map (\<lambda>r. if key r = i then f r else r) t"

definition keys_ok :: "('r \<Rightarrow> int) \<Rightarrow> 'r list \<Rightarrow> bool" where
  "keys_ok key t = distinct (map key t)"

lemma next_id_fold:
  fixes m :: int
  shows "m \<le> fold (\<lambda>r n. max n (key r + 1)) t m \<and>
    (\<forall>r\<in>set t. key r < fold (\<lambda>r n. max n (key r + 1)) t m)"
proof (induction t arbitrary: m)
  case Nil
  then show ?case by simp
next
  case (Cons a t)
  have "max m (key a + 1) \<le> fold (\<lambda>r n. max n (key r + 1)) t (max m (key a + 1))"
    using Cons.IH by blast
  then show ?case using Cons.IH[of "max m (key a + 1)"] by auto
qed

lemma next_id_fresh: "r \<in> set t \<Longrightarrow> key r < next_id key t"
  unfolding next_id_def using next_id_fold[of 1 key t] by blast

lemma next_id_not_in [simp]: "next_id key t \<notin> key ` set t"
proof
  assume "next_id key t \<in> key ` set t"
  then obtain r where "r \<in> set t" and "key r = next_id key t" by auto
  with next_id_fresh[of r t key] show False by simp
qed

lemma keys_ok_Nil [simp]: "keys_ok key []"
  by (simp add: keys_ok_def)

lemma keys_ok_snoc: "keys_ok key t \<Longrightarrow> key r \<notin> key ` set t \<Longrightarrow> keys_ok key (t @ [r])"
  by (auto simp: keys_ok_def)

lemma keys_update_row: "(\<And>r. key (f r) = key r) \<Longrightarrow> map key (update_row key i f t) = map key t"
  by (simp add: update_row_def comp_def)

lemma keys_ok_update_row: "(\<And>r. key (f r) = key r) \<Longrightarrow> keys_ok key (update_row key i f t) = keys_ok key t"
  by (simp add: keys_ok_def keys_update_row)

lemma set_update_row:
  "r \<in> set (update_row key i f t) \<longleftrightarrow>
     (\<exists>q\<in>set t. (if key q = i then f q else q) = r)"
  by (auto simp: update_row_def image_iff)

lemma length_update_row [simp]: "length (update_row key i f t) = length t"
  by (simp add: update_row_def)

lemma find_row_Some: "find_row key i t = Some r \<Longrightarrow> r \<in> set t \<and> key r = i"
  by (auto simp: find_row_def find_Some_iff)

lemma find_row_None: "find_row key i t = None \<longleftrightarrow> i \<notin> key ` set t"
  by (auto simp: find_row_def find_None_iff)

lemma find_row_keys_ok: "keys_ok key t \<Longrightarrow> r \<in> set t \<Longrightarrow> find_row key (key r) t = Some r"
proof -
  assume ok: "keys_ok key t" and r: "r \<in> set t"
  obtain q where q: "find_row key (key r) t = Some q"
    using r find_row_None[of key "key r" t] by (cases "find_row key (key r) t") auto
  with ok r show ?thesis
    using find_row_Some[OF q] by (metis inj_onD keys_ok_def distinct_map)
qed

lemma find_row_update_row:
  assumes "\<And>r. key (f r) = key r"
  shows "find_row key j (update_row key i f t) =
     map_option (\<lambda>r. if key r = i then f r else r) (find_row key j t)"
  using assms by (induction t) (auto simp: find_row_def update_row_def)

lemma find_row_snoc: "find_row key i (t @ [r]) =
    (case find_row key i t of None \<Rightarrow> if key r = i then Some r else None | Some q \<Rightarrow> Some q)"
  by (induction t) (auto simp: find_row_def)

lemma update_row_id: "i \<notin> key ` set t \<Longrightarrow> update_row key i f t = t"
  by (induction t) (auto simp: update_row_def)

text \<open>Sums over a table: an update moves the sum by what it does to its row.\<close>

lemma sum_update_row:
  fixes w :: "'r \<Rightarrow> nat"
  assumes "keys_ok key t" and "r \<in> set t"
  shows "(\<Sum>q\<leftarrow>update_row key (key r) f t. w q) + w r = (\<Sum>q\<leftarrow>t. w q) + w (f r)"
  using assms
proof (induction t)
  case Nil
  then show ?case by simp
next
  case (Cons a t)
  show ?case
  proof (cases "a = r")
    case True
    with Cons.prems have "key r \<notin> key ` set t" by (auto simp: keys_ok_def)
    with True have "update_row key (key r) f (a # t) = f r # t"
      using update_row_id[of "key r" key t f] by (simp add: update_row_def)
    with True show ?thesis by simp
  next
    case False
    with Cons.prems have r: "r \<in> set t" and ne: "key a \<noteq> key r"
      by (auto simp: keys_ok_def)
    from Cons.prems have "keys_ok key t" by (simp add: keys_ok_def)
    with Cons.IH r ne show ?thesis by (simp add: update_row_def)
  qed
qed


section \<open>Dates\<close>

text \<open>
  The UTC day of a timestamp, and \<open>date.isoformat\<close> of a day: the proleptic Gregorian calendar,
  counted from 1 March of year 0 in eras of 146097 days.
\<close>

definition day_us :: int where
  "day_us = 86400000000"

definition day_of :: "time \<Rightarrow> int" where
  "day_of t = t div day_us"

definition start_of_day :: "time \<Rightarrow> time" where
  "start_of_day t = day_of t * day_us"

definition civil :: "int \<Rightarrow> int \<times> int \<times> int" where
  "civil day =
     (let z = day + 719468; era = z div 146097; doe = z mod 146097;
          yoe = (doe - doe div 1460 + doe div 36524 - doe div 146096) div 365;
          doy = doe - (365 * yoe + yoe div 4 - yoe div 100);
          mp = (5 * doy + 2) div 153;
          d = doy - (153 * mp + 2) div 5 + 1;
          m = (if mp < 10 then mp + 3 else mp - 9);
          y = yoe + era * 400 + (if m \<le> 2 then 1 else 0)
      in (y, m, d))"

definition pad :: "nat \<Rightarrow> int \<Rightarrow> string" where
  "pad w i = (let s = int_str i in replicate (w - length s) (CHR ''0'') @ s)"

definition iso_date :: "int \<Rightarrow> string" where
  "iso_date day = (case civil day of (y, m, d) \<Rightarrow> pad 4 y @ ''-'' @ pad 2 m @ ''-'' @ pad 2 d)"

lemma start_of_day_le: "start_of_day t \<le> t"
proof -
  have "t div 86400000000 * 86400000000 \<le> t" by (simp add: minus_mod_eq_div_mult [symmetric])
  then show ?thesis by (simp add: start_of_day_def day_of_def day_us_def)
qed

lemma start_of_day_mono: "s \<le> t \<Longrightarrow> start_of_day s \<le> start_of_day t"
  by (simp add: start_of_day_def day_of_def day_us_def zdiv_mono1)

lemma start_of_day_same: "day_of s = day_of t \<Longrightarrow> start_of_day s = start_of_day t"
  by (simp add: start_of_day_def)


section \<open>Quantization to four places\<close>

definition quantize4_half_up :: "dec \<Rightarrow> py_exn + dec" where
  "quantize4_half_up x =
     (let c = (if x < 0 then - \<lfloor>10000 * \<bar>x\<bar> + 1 / 2\<rfloor> else \<lfloor>10000 * x + 1 / 2\<rfloor>) in
      if \<bar>c\<bar> < 10 ^ 28 then Inr (of_int c / 10000) else Inl InvalidOperation)"

text \<open>Without a rounding argument the context's rounding applies, ties to even.\<close>

definition quantize4 :: "dec \<Rightarrow> py_exn + dec" where
  "quantize4 x =
     (let c = (if x < 0 then - round_half_even (10000 * \<bar>x\<bar>) else round_half_even (10000 * x)) in
      if \<bar>c\<bar> < 10 ^ 28 then Inr (of_int c / 10000) else Inl InvalidOperation)"

lemma quantize4_half_up_unit:
  assumes "0 \<le> x" and "x \<le> 1"
  shows "quantize4_half_up x = Inr (of_int \<lfloor>10000 * x + 1 / 2\<rfloor> / 10000)"
proof -
  have "\<lfloor>10000 * x + 1 / 2\<rfloor> \<le> 10000" "0 \<le> \<lfloor>10000 * x + 1 / 2\<rfloor>"
    using assms by (simp_all add: floor_le_iff)
  then show ?thesis using assms by (simp add: quantize4_half_up_def)
qed

lemma quantize4_err:
  fixes x :: rat
  assumes "0 \<le> x" and "x \<le> 1"
  shows "0 \<le> (of_int \<lfloor>10000 * x + 1 / 2\<rfloor> / 10000 :: rat)"
    and "(of_int \<lfloor>10000 * x + 1 / 2\<rfloor> / 10000 :: rat) \<le> 1"
    and "\<bar>of_int \<lfloor>10000 * x + 1 / 2\<rfloor> / 10000 - x\<bar> \<le> 1 / 20000"
proof -
  have "\<lfloor>10000 * x + 1 / 2\<rfloor> \<le> 10000" using assms by (simp add: floor_le_iff)
  then have "(of_int \<lfloor>10000 * x + 1 / 2\<rfloor> :: rat) \<le> of_int 10000" by (simp only: of_int_le_iff)
  then show "(of_int \<lfloor>10000 * x + 1 / 2\<rfloor> / 10000 :: rat) \<le> 1" by simp
  show "0 \<le> (of_int \<lfloor>10000 * x + 1 / 2\<rfloor> / 10000 :: rat)" using assms by simp
  show "\<bar>of_int \<lfloor>10000 * x + 1 / 2\<rfloor> / 10000 - x\<bar> \<le> 1 / 20000"
    using floor_correct[of "10000 * x + 1 / 2"] unfolding abs_le_iff by linarith
qed


section \<open>Transition systems\<close>

text \<open>
  The processes around the tables are transition systems: an initial condition and a step
  relation labelled by events. What every step keeps, every reachable state has.
\<close>

inductive reachable :: "('s \<Rightarrow> bool) \<Rightarrow> ('e \<Rightarrow> 's \<Rightarrow> 's \<Rightarrow> bool) \<Rightarrow> 's \<Rightarrow> bool"
  for init :: "'s \<Rightarrow> bool" and step :: "'e \<Rightarrow> 's \<Rightarrow> 's \<Rightarrow> bool" where
  start: "init s \<Longrightarrow> reachable init step s"
| step: "reachable init step s \<Longrightarrow> step e s s' \<Longrightarrow> reachable init step s'"

locale invariant_system =
  fixes init :: "'s \<Rightarrow> bool" and step :: "'e \<Rightarrow> 's \<Rightarrow> 's \<Rightarrow> bool" and inv :: "'s \<Rightarrow> bool"
  assumes inv_init: "init s \<Longrightarrow> inv s"
    and inv_step: "inv s \<Longrightarrow> step e s s' \<Longrightarrow> inv s'"
begin

lemma reachable_inv: "reachable init step s \<Longrightarrow> inv s"
  by (induction rule: reachable.induct) (auto intro: inv_init inv_step)

end

end
