(* ===== verification/JobQueue.thy ===== *)
theory JobQueue
  imports IngestDb
begin

text \<open>
  The crawl-job queue, \<open>ingestion/queue.py\<close>. Every function takes the database and returns it
  changed. The clock (\<open>now\<close>), the jitter drawn from \<open>random.uniform\<close> (in microseconds) and the
  set of row locks that \<open>SKIP LOCKED\<close> passes over (\<open>held\<close>, the job ids locked by other open
  transactions) are arguments. The logging calls have no effect on the state; what they would
  write goes through \<open>redact\<close>, which is modelled.
\<close>

named_theorems queue_defs


section \<open>Redaction of log fields\<close>

datatype log_value =
    LAtom json_value
  | LList "log_value list"
  | LMap "(string \<times> log_value) list"

definition secret_hints :: "string list" where
  "secret_hints =
     [''secret'', ''token'', ''password'', ''passwd'', ''api_key'', ''apikey'',
      ''authorization'', ''auth'', ''cookie'', ''credential'']"

fun occurs_in :: "string \<Rightarrow> string \<Rightarrow> bool" where
  "occurs_in s [] = (s = [])"
| "occurs_in s (c # cs) = (starts_with s (c # cs) \<or> occurs_in s cs)"

definition is_secret_key :: "string \<Rightarrow> bool" where
  "is_secret_key key = (let lowered = py_lower key in list_ex (\<lambda>hint. occurs_in hint lowered) secret_hints)"

fun redact :: "log_value \<Rightarrow> log_value" where
  "redact (LMap kvs) =
     LMap (map (\<lambda>(k, v). (k, if is_secret_key k then LAtom (JStr ''***'') else redact v)) kvs)"
| "redact (LList vs) = LList (map redact vs)"
| "redact (LAtom a) = LAtom a"


section \<open>Enqueue\<close>

definition idem_field :: string where
  "idem_field = ''idempotency_key''"

definition find_by_idempotency_key :: "db \<Rightarrow> string \<Rightarrow> crawl_job option" where
  "find_by_idempotency_key db key =
     argmin job_id (filter (\<lambda>j. case job_payload j of None \<Rightarrow> False
         | Some d \<Rightarrow> (case map_of d idem_field of None \<Rightarrow> False | Some v \<Rightarrow> pg_text v = Some key))
       (crawl_jobs db))"

definition insert_job ::
  "int \<Rightarrow> string \<Rightarrow> payload option \<Rightarrow> int \<Rightarrow> int \<Rightarrow> time \<Rightarrow> db \<Rightarrow> crawl_job \<times> db" where
  "insert_job crawl_run kind payload prio max_attempts available_at db =
     (let job = \<lparr>job_id = next_id job_id (crawl_jobs db), job_run = crawl_run, job_type = kind,
                 job_payload = payload, job_state = JS_queued, job_priority = prio,
                 job_attempts = 0, job_max_attempts = max_attempts,
                 job_available_at = available_at, job_locked_at = None,
                 job_heartbeat_at = None, job_locked_by = None, job_last_error = None,
                 job_completed_at = None\<rparr>
      in (job, db\<lparr>crawl_jobs := crawl_jobs db @ [job]\<rparr>))"

text \<open>The key of a call: the argument, or the entry of the payload.\<close>

definition enqueue_key :: "payload option \<Rightarrow> string option \<Rightarrow> string option" where
  "enqueue_key payload idempotency_key =
     (case idempotency_key of Some k \<Rightarrow> Some k
      | None \<Rightarrow> (case payload of None \<Rightarrow> None
          | Some d \<Rightarrow> (case map_of d idem_field of
              None \<Rightarrow> None | Some JNull \<Rightarrow> None | Some raw_key \<Rightarrow> Some (py_str raw_key))))"

definition enqueue_job ::
  "int \<Rightarrow> string \<Rightarrow> payload option \<Rightarrow> int \<Rightarrow> int \<Rightarrow> time option \<Rightarrow> string option \<Rightarrow> time \<Rightarrow> db
     \<Rightarrow> crawl_job \<times> db" where
  "enqueue_job crawl_run kind payload prio max_attempts available_at idempotency_key now db =
     (let payload = (if payload = Some [] then None else payload);
          available_at = (case available_at of None \<Rightarrow> now | Some t \<Rightarrow> t)
      in (case enqueue_key payload idempotency_key of
            None \<Rightarrow> insert_job crawl_run kind payload prio max_attempts available_at db
          | Some key \<Rightarrow>
              (let payload = dsetdefault idem_field (JStr key) (case payload of None \<Rightarrow> [] | Some d \<Rightarrow> d)
               in (case find_by_idempotency_key db key of
                     Some existing \<Rightarrow> (existing, db)
                   | None \<Rightarrow> insert_job crawl_run kind (Some payload) prio max_attempts available_at db))))"


section \<open>Claim\<close>

text \<open>The join of a job with its run, and the jobs in flight for a retailer.\<close>

definition job_retailer :: "db \<Rightarrow> crawl_job \<Rightarrow> int option" where
  "job_retailer db j = map_option run_retailer (find_row run_id (job_run j) (crawl_runs db))"

definition in_flight :: "db \<Rightarrow> int \<Rightarrow> int" where
  "in_flight db r =
     int (length (filter (\<lambda>j. job_state j = JS_locked \<and> job_retailer db j = Some r) (crawl_jobs db)))"

definition retailers_at_capacity :: "db \<Rightarrow> (int, int) dict \<Rightarrow> int list" where
  "retailers_at_capacity db limits =
     (let rows = remdups (List.map_filter (job_retailer db)
                   (filter (\<lambda>j. job_state j = JS_locked) (crawl_jobs db)))
      in filter (\<lambda>r. case map_of limits r of None \<Rightarrow> False | Some limit \<Rightarrow> limit \<le> in_flight db r) rows)"

definition at_capacity :: "db \<Rightarrow> (int, int) dict option \<Rightarrow> int list" where
  "at_capacity db limits =
     (case limits of None \<Rightarrow> [] | Some [] \<Rightarrow> [] | Some l \<Rightarrow> retailers_at_capacity db l)"

definition runnable :: "db \<Rightarrow> (int, int) dict option \<Rightarrow> int list \<Rightarrow> time \<Rightarrow> crawl_job \<Rightarrow> bool" where
  "runnable db limits held now j =
     (job_state j = JS_queued \<and> job_available_at j \<le> now \<and> job_id j \<notin> set held \<and>
      (case job_retailer db j of None \<Rightarrow> False | Some r \<Rightarrow> r \<notin> set (at_capacity db limits)))"

text \<open>\<open>ORDER BY priority DESC, available_at ASC, id ASC\<close>.\<close>

definition claim_order :: "crawl_job \<Rightarrow> int \<times> time \<times> int" where
  "claim_order j = (- job_priority j, job_available_at j, job_id j)"

definition lock_row :: "string \<Rightarrow> time \<Rightarrow> crawl_job \<Rightarrow> crawl_job" where
  "lock_row worker_id now j =
     j\<lparr>job_state := JS_locked, job_locked_at := Some now, job_locked_by := Some worker_id,
       job_heartbeat_at := Some now\<rparr>"

definition update_job :: "int \<Rightarrow> (crawl_job \<Rightarrow> crawl_job) \<Rightarrow> db \<Rightarrow> db" where
  "update_job i f db = db\<lparr>crawl_jobs := update_row job_id i f (crawl_jobs db)\<rparr>"

definition claim_job ::
  "string \<Rightarrow> (int, int) dict option \<Rightarrow> int list \<Rightarrow> time \<Rightarrow> db \<Rightarrow> crawl_job option \<times> db" where
  "claim_job worker_id domain_limits held now db =
     (case argmin claim_order (filter (runnable db domain_limits held now) (crawl_jobs db)) of
        None \<Rightarrow> (None, db)
      | Some job \<Rightarrow>
          (Some (lock_row worker_id now job), update_job (job_id job) (lock_row worker_id now) db))"


section \<open>Lifecycle transitions\<close>

definition heartbeat_row :: "time \<Rightarrow> crawl_job \<Rightarrow> crawl_job" where
  "heartbeat_row now j = j\<lparr>job_heartbeat_at := Some now\<rparr>"

definition complete_row :: "time \<Rightarrow> crawl_job \<Rightarrow> crawl_job" where
  "complete_row now j =
     j\<lparr>job_state := JS_completed, job_completed_at := Some now, job_heartbeat_at := Some now,
       job_locked_at := None, job_locked_by := None, job_last_error := None\<rparr>"

definition cancel_row :: "time \<Rightarrow> crawl_job \<Rightarrow> crawl_job" where
  "cancel_row now j =
     j\<lparr>job_state := JS_cancelled, job_locked_at := None, job_locked_by := None,
       job_heartbeat_at := Some now\<rparr>"

definition second_us :: int where
  "second_us = 1000000"

definition base_backoff_seconds :: int where
  "base_backoff_seconds = 30"

definition max_backoff_seconds :: int where
  "max_backoff_seconds = 3600"

text \<open>
  The delay in microseconds: \<open>None\<close> is \<open>jitter=False\<close>, \<open>Some u\<close> the draw of
  \<open>random.uniform(0, base)\<close>.
\<close>

definition backoff_delay :: "int \<Rightarrow> int \<Rightarrow> int \<Rightarrow> int option \<Rightarrow> int" where
  "backoff_delay attempts base cap jitter =
     (let exponent = nat (max 0 (attempts - 1));
          us = min cap (base * 2 ^ exponent) * second_us
      in (case jitter of None \<Rightarrow> us | Some u \<Rightarrow> min (us + u) ((cap + base) * second_us)))"

definition fail_row :: "string option \<Rightarrow> time \<Rightarrow> int option \<Rightarrow> crawl_job \<Rightarrow> crawl_job" where
  "fail_row error now jitter j =
     (let j = j\<lparr>job_attempts := job_attempts j + 1,
                job_last_error := (case error of None \<Rightarrow> job_last_error j | Some e \<Rightarrow> Some (take 2000 e)),
                job_locked_at := None, job_locked_by := None, job_heartbeat_at := Some now\<rparr>
      in if job_max_attempts j \<le> job_attempts j then j\<lparr>job_state := JS_dead_letter\<rparr>
         else j\<lparr>job_state := JS_queued,
                job_available_at := now +
                  backoff_delay (job_attempts j) base_backoff_seconds max_backoff_seconds jitter\<rparr>)"

definition heartbeat :: "int \<Rightarrow> time \<Rightarrow> db \<Rightarrow> db" where
  "heartbeat i now = update_job i (heartbeat_row now)"

definition complete_job :: "int \<Rightarrow> time \<Rightarrow> db \<Rightarrow> db" where
  "complete_job i now = update_job i (complete_row now)"

definition cancel_job :: "int \<Rightarrow> time \<Rightarrow> db \<Rightarrow> db" where
  "cancel_job i now = update_job i (cancel_row now)"

definition fail_job :: "int \<Rightarrow> string option \<Rightarrow> time \<Rightarrow> int option \<Rightarrow> db \<Rightarrow> db" where
  "fail_job i error now jitter = update_job i (fail_row error now jitter)"

definition stuck :: "time \<Rightarrow> int list \<Rightarrow> crawl_job \<Rightarrow> bool" where
  "stuck cutoff held j =
     (job_state j = JS_locked \<and> job_id j \<notin> set held \<and>
      (case job_heartbeat_at j of None \<Rightarrow> True | Some t \<Rightarrow> t < cutoff))"

definition recover_row :: "time \<Rightarrow> crawl_job \<Rightarrow> crawl_job" where
  "recover_row now j =
     j\<lparr>job_state := JS_queued, job_available_at := now, job_locked_at := None,
       job_locked_by := None, job_heartbeat_at := None\<rparr>"

definition recover_stuck_jobs :: "int \<Rightarrow> int list \<Rightarrow> time \<Rightarrow> db \<Rightarrow> int \<times> db" where
  "recover_stuck_jobs heartbeat_timeout held now db =
     (let cutoff = now - heartbeat_timeout
      in (int (length (filter (stuck cutoff held) (crawl_jobs db))),
          db\<lparr>crawl_jobs := map (\<lambda>j. if stuck cutoff held j then recover_row now j else j) (crawl_jobs db)\<rparr>))"


section \<open>Redaction\<close>

text \<open>No value stands under a secret key, at any depth, except the mask.\<close>

fun masked :: "log_value \<Rightarrow> bool" where
  "masked (LMap kvs) =
     list_all (\<lambda>(k, v). if is_secret_key k then v = LAtom (JStr ''***'') else masked v) kvs"
| "masked (LList vs) = list_all masked vs"
| "masked (LAtom a) = True"

lemma masked_redact: "masked (redact v)"
  by (induction v rule: redact.induct) (auto simp: list_all_iff)

lemma redact_masked: "masked v \<Longrightarrow> redact v = v"
  by (induction v rule: redact.induct) (auto simp: list_all_iff intro!: map_idI)


section \<open>Field lemmas\<close>

lemma job_id_rows [simp]:
  "job_id (lock_row w now j) = job_id j"
  "job_id (heartbeat_row now j) = job_id j"
  "job_id (complete_row now j) = job_id j"
  "job_id (cancel_row now j) = job_id j"
  "job_id (fail_row e now u j) = job_id j"
  "job_id (recover_row now j) = job_id j"
  by (simp_all add: lock_row_def heartbeat_row_def complete_row_def cancel_row_def fail_row_def
      recover_row_def Let_def)

lemma crawl_jobs_update_job [simp]:
  "crawl_jobs (update_job i f db) = update_row job_id i f (crawl_jobs db)"
  by (simp add: update_job_def)

lemma crawl_runs_update_job [simp]: "crawl_runs (update_job i f db) = crawl_runs db"
  by (simp add: update_job_def)

lemma connector_states_update_job [simp]: "connector_states (update_job i f db) = connector_states db"
  by (simp add: update_job_def)

lemma job_retailer_update_job [simp]: "job_retailer (update_job i f db) = job_retailer db"
  by (simp add: job_retailer_def fun_eq_iff)


section \<open>Enqueue\<close>

lemma insert_job_fields [simp]:
  "crawl_jobs (snd (insert_job r k p pr m t db)) = crawl_jobs db @ [fst (insert_job r k p pr m t db)]"
  "crawl_runs (snd (insert_job r k p pr m t db)) = crawl_runs db"
  "job_id (fst (insert_job r k p pr m t db)) = next_id job_id (crawl_jobs db)"
  "job_payload (fst (insert_job r k p pr m t db)) = p"
  "job_state (fst (insert_job r k p pr m t db)) = JS_queued"
  "job_run (fst (insert_job r k p pr m t db)) = r"
  "job_attempts (fst (insert_job r k p pr m t db)) = 0"
  "job_max_attempts (fst (insert_job r k p pr m t db)) = m"
  "job_locked_by (fst (insert_job r k p pr m t db)) = None"
  "job_locked_at (fst (insert_job r k p pr m t db)) = None"
  "job_available_at (fst (insert_job r k p pr m t db)) = t"
  "job_last_error (fst (insert_job r k p pr m t db)) = None"
  by (simp_all add: insert_job_def Let_def)

definition has_key :: "string \<Rightarrow> crawl_job \<Rightarrow> bool" where
  "has_key key j =
     (case job_payload j of None \<Rightarrow> False
      | Some d \<Rightarrow> (case map_of d idem_field of None \<Rightarrow> False | Some v \<Rightarrow> pg_text v = Some key))"

lemma find_by_key_alt: "find_by_idempotency_key db key = argmin job_id (filter (has_key key) (crawl_jobs db))"
  by (simp add: find_by_idempotency_key_def has_key_def [abs_def])

lemma find_by_key_None: "find_by_idempotency_key db key = None \<longleftrightarrow> (\<forall>j\<in>set (crawl_jobs db). \<not> has_key key j)"
  by (simp add: find_by_key_alt filter_empty_conv)

lemma find_by_key_Some:
  assumes "find_by_idempotency_key db key = Some j"
  shows "j \<in> set (crawl_jobs db)" and "has_key key j"
  using argmin_Some(1)[OF assms[unfolded find_by_key_alt]] by auto

lemma enqueue_job_cases:
  obtains (existing) key j where "find_by_idempotency_key db key = Some j"
      and "enqueue_job r k p pr m t ik now db = (j, db)"
  | (new) p' t' where "enqueue_job r k p pr m t ik now db = insert_job r k p' pr m t' db"
  by (cases "enqueue_key (if p = Some [] then None else p) ik";
      cases "find_by_idempotency_key db (the (enqueue_key (if p = Some [] then None else p) ik))")
    (auto simp: enqueue_job_def Let_def)

definition key_agrees :: "payload option \<Rightarrow> string \<Rightarrow> bool" where
  "key_agrees payload key =
     (case payload of None \<Rightarrow> True | Some d \<Rightarrow> map_of d idem_field \<in> {None, Some (JStr key)})"

lemma enqueue_keyed:
  assumes "key_agrees p key" and "find_by_idempotency_key db key = None"
  shows "\<exists>d t'. enqueue_job r k p pr m t (Some key) now db = insert_job r k (Some d) pr m t' db \<and>
     map_of d idem_field = Some (JStr key)"
  using assms by (cases p) (auto simp: enqueue_job_def enqueue_key_def key_agrees_def Let_def)

lemma argmin_single [simp]: "argmin key [x] = Some x"
  by (simp add: argmin_def argmin_step_def)

text \<open>Enqueueing is idempotent in the key. A call with an idempotency key appends one job,
  carrying the key, when no job of any status has it, and otherwise returns a job that has it
  and changes nothing; every later call with the same key, for whatever run, type or payload,
  returns that same job and changes nothing.\<close>

theorem enqueue_idempotent:
  assumes "key_agrees p key"
    and enq: "enqueue_job r k p pr m t (Some key) now db = (j, db1)"
  shows "has_key key j \<and>
    crawl_jobs db1 =
      (if \<exists>q\<in>set (crawl_jobs db). has_key key q then crawl_jobs db else crawl_jobs db @ [j]) \<and>
    enqueue_job r2 k2 p2 pr2 m2 t2 (Some key) now2 db1 = (j, db1)"
proof (cases "find_by_idempotency_key db key")
  case None
  then obtain d t' where ins: "(j, db1) = insert_job r k (Some d) pr m t' db"
      and d: "map_of d idem_field = Some (JStr key)"
    using enqueue_keyed[OF assms(1) None, of r k pr m t now] enq by auto
  have j: "j = fst (insert_job r k (Some d) pr m t' db)" "db1 = snd (insert_job r k (Some d) pr m t' db)"
    by (simp_all flip: ins)
  have key: "has_key key j" using d by (simp add: has_key_def j(1))
  have jobs: "crawl_jobs db1 = crawl_jobs db @ [j]" by (simp add: j)
  have none: "\<forall>q\<in>set (crawl_jobs db). \<not> has_key key q" using None by (simp add: find_by_key_None)
  then have "filter (has_key key) (crawl_jobs db1) = [j]" by (simp add: jobs key filter_empty_conv)
  then have "find_by_idempotency_key db1 key = Some j" by (simp add: find_by_key_alt)
  then show ?thesis using none key jobs by (auto simp: enqueue_job_def enqueue_key_def Let_def)
next
  case (Some q)
  then have "j = q" "db1 = db" using enq by (auto simp: enqueue_job_def enqueue_key_def Let_def)
  then show ?thesis using Some find_by_key_Some[OF Some]
    by (auto simp: enqueue_job_def enqueue_key_def Let_def)
qed


section \<open>Claim\<close>

lemma claim_job_None:
  assumes "claim_job w limits held now db = (None, db')"
  shows "db' = db" and "\<forall>j\<in>set (crawl_jobs db). \<not> runnable db limits held now j"
  using assms by (auto simp: claim_job_def filter_empty_conv split: option.splits)

lemma claim_job_Some:
  assumes "claim_job w limits held now db = (Some j', db')"
  obtains j where "j \<in> set (crawl_jobs db)" and "runnable db limits held now j"
    and "j' = lock_row w now j" and "db' = update_job (job_id j) (lock_row w now) db"
    and "\<forall>k\<in>set (crawl_jobs db). runnable db limits held now k \<longrightarrow> claim_order j \<le> claim_order k"
proof -
  from assms obtain j where a: "argmin claim_order (filter (runnable db limits held now) (crawl_jobs db)) = Some j"
      and e: "j' = lock_row w now j" "db' = update_job (job_id j) (lock_row w now) db"
    by (auto simp: claim_job_def split: option.splits)
  from argmin_Some[OF a] show thesis by (intro that[OF _ _ e]) auto
qed

lemma claim_order_le:
  "claim_order j \<le> claim_order k \<longleftrightarrow>
     job_priority k < job_priority j \<or>
     job_priority k = job_priority j \<and>
       (job_available_at j < job_available_at k \<or>
        job_available_at j = job_available_at k \<and> job_id j \<le> job_id k)"
  by (auto simp: claim_order_def)

lemma not_runnable_locked: "job_state j = JS_locked \<Longrightarrow> \<not> runnable db limits held now j"
  by (simp add: runnable_def)

lemma lock_row_fields [simp]:
  "job_state (lock_row w now j) = JS_locked"
  "job_run (lock_row w now j) = job_run j"
  "job_attempts (lock_row w now j) = job_attempts j"
  "job_max_attempts (lock_row w now j) = job_max_attempts j"
  "job_locked_by (lock_row w now j) = Some w"
  "job_heartbeat_at (lock_row w now j) = Some now"
  by (simp_all add: lock_row_def)

lemma at_capacity_iff:
  assumes "limits \<noteq> []"
  shows "r \<in> set (at_capacity db (Some limits)) \<longleftrightarrow>
     in_flight db r > 0 \<and> (\<exists>l. map_of limits r = Some l \<and> l \<le> in_flight db r)"
proof -
  have "in_flight db r > 0 \<longleftrightarrow>
      r \<in> set (List.map_filter (job_retailer db) (filter (\<lambda>j. job_state j = JS_locked) (crawl_jobs db)))"
    by (auto simp: in_flight_def map_filter_def length_greater_0_conv filter_empty_conv image_iff)
  moreover have "at_capacity db (Some limits) = retailers_at_capacity db limits"
    using assms by (cases limits) (simp_all add: at_capacity_def)
  ultimately show ?thesis
    by (auto simp: retailers_at_capacity_def Let_def split: option.splits)
qed

text \<open>
  Which jobs a worker may take, said of the rows: queued, due and not locked by another transaction,
  of a run whose retailer has no cap, fewer jobs running than its cap, or none running.
\<close>

definition may_claim :: "db \<Rightarrow> (int, int) dict option \<Rightarrow> int list \<Rightarrow> time \<Rightarrow> crawl_job \<Rightarrow> bool" where
  "may_claim db limits held now j \<longleftrightarrow>
     job_state j = JS_queued \<and> job_available_at j \<le> now \<and> job_id j \<notin> set held \<and>
     (case find_row run_id (job_run j) (crawl_runs db) of
        None \<Rightarrow> False
      | Some run \<Rightarrow>
          (let running = length (filter (\<lambda>k. job_state k = JS_locked \<and>
                 map_option run_retailer (find_row run_id (job_run k) (crawl_runs db)) = Some (run_retailer run))
                 (crawl_jobs db))
           in case Option.bind limits (\<lambda>caps. map_of caps (run_retailer run)) of
                None \<Rightarrow> True
              | Some cap \<Rightarrow> running = 0 \<or> int running < cap))"

lemma runnable_may_claim: "runnable db limits held now j \<longleftrightarrow> may_claim db limits held now j"
proof (cases limits)
  case None
  then show ?thesis by (simp add: runnable_def may_claim_def at_capacity_def job_retailer_def split: option.split)
next
  case (Some caps)
  show ?thesis
  proof (cases "caps = []")
    case True
    with Some show ?thesis
      by (simp add: runnable_def may_claim_def at_capacity_def job_retailer_def split: option.split)
  next
    case False
    with Some show ?thesis
      by (auto simp: runnable_def may_claim_def at_capacity_iff job_retailer_def in_flight_def Let_def
          filter_empty_conv split: option.splits)
  qed
qed

text \<open>C31 A claim takes the right job and only that one. Nothing is claimed exactly when no job may
  be taken - queued, due, visible, and of a retailer without a cap, below its cap or with nothing
  running, so that a cap of zero still lets one job through; otherwise the job claimed is such a
  job, of the highest priority, among those the one due longest, among those the oldest; it is
  locked by the worker with a fresh heartbeat, every other row is as it was, and no worker can
  claim the job again from the new state.\<close>

theorem claim_job_spec:
  assumes "keys_ok job_id (crawl_jobs db)" and "claim_job w limits held now db = (r, db')"
  shows "case r of
      None \<Rightarrow> db' = db \<and> (\<forall>j\<in>set (crawl_jobs db). \<not> may_claim db limits held now j)
    | Some j' \<Rightarrow> \<exists>j\<in>set (crawl_jobs db). may_claim db limits held now j \<and>
        (\<forall>k\<in>set (crawl_jobs db). may_claim db limits held now k \<longrightarrow>
           job_priority k < job_priority j \<or>
           job_priority k = job_priority j \<and>
             (job_available_at j < job_available_at k \<or>
              job_available_at j = job_available_at k \<and> job_id j \<le> job_id k)) \<and>
        j' = j\<lparr>job_state := JS_locked, job_locked_at := Some now, job_locked_by := Some w,
              job_heartbeat_at := Some now\<rparr> \<and>
        crawl_jobs db' = map (\<lambda>k. if k = j then j' else k) (crawl_jobs db) \<and>
        \<not> may_claim db' limits2 held2 now2 j'"
proof (cases r)
  case None
  with claim_job_None[of w limits held now db db'] assms(2) show ?thesis by (simp add: runnable_may_claim)
next
  case (Some j')
  with assms(2) obtain j where j: "j \<in> set (crawl_jobs db)" "runnable db limits held now j"
      and e: "j' = lock_row w now j" "db' = update_job (job_id j) (lock_row w now) db"
      and least: "\<forall>k\<in>set (crawl_jobs db). runnable db limits held now k \<longrightarrow> claim_order j \<le> claim_order k"
    by (auto elim: claim_job_Some)
  have "crawl_jobs db' = map (\<lambda>k. if k = j then j' else k) (crawl_jobs db)"
    using assms(1) j(1) e by (auto simp: update_row_def keys_ok_def distinct_map inj_on_def)
  moreover have "\<not> runnable db' limits2 held2 now2 j'" by (simp add: e not_runnable_locked)
  moreover note least [unfolded claim_order_le]
  ultimately show ?thesis using j
    unfolding Some option.case e(1) lock_row_def runnable_may_claim by (intro bexI[of _ j] conjI) simp_all
qed


text \<open>Rows for the concrete instances below.\<close>

definition example_run :: "int \<Rightarrow> int \<Rightarrow> crawl_run" where
  "example_run i r =
     \<lparr>run_id = i, run_retailer = r, run_store = None, run_kind = RT_prices, run_state = RS_queued,
      run_scheduled_at = Some 0, run_started_at = None, run_completed_at = None,
      run_discovered = 0, run_fetched = 0, run_parsed = 0, run_accepted = 0, run_rejected = 0,
      run_quarantined = 0, run_errors = 0, run_coverage_score = None,
      run_connector_version = None, run_parser_version = None\<rparr>"

definition example_job :: "int \<Rightarrow> int \<Rightarrow> int \<Rightarrow> crawl_job" where
  "example_job i r prio =
     \<lparr>job_id = i, job_run = r, job_type = ''prices'', job_payload = None, job_state = JS_queued,
      job_priority = prio, job_attempts = 0, job_max_attempts = 3, job_available_at = 0,
      job_locked_at = None, job_heartbeat_at = None, job_locked_by = None, job_last_error = None,
      job_completed_at = None\<rparr>"

definition example_queue :: db where
  "example_queue = empty_db\<lparr>crawl_runs := [example_run 1 7, example_run 2 8],
     crawl_jobs := [example_job 1 1 0, example_job 2 2 5]\<rparr>"

lemmas queue_examples =
  example_run_def example_job_def example_queue_def empty_db_def

lemma enqueue_idempotent_witness:
  "crawl_jobs (snd (enqueue_job 1 ''prices'' None 0 3 None (Some ''k'') 9 example_queue)) =
     crawl_jobs example_queue @ [fst (enqueue_job 1 ''prices'' None 0 3 None (Some ''k'') 9 example_queue)] \<and>
   snd (enqueue_job 2 ''offers'' (Some [(''a'', JInt 1)]) 1 5 None (Some ''k'') 10
     (snd (enqueue_job 1 ''prices'' None 0 3 None (Some ''k'') 9 example_queue))) =
     snd (enqueue_job 1 ''prices'' None 0 3 None (Some ''k'') 9 example_queue)"
proof -
  have "key_agrees None ''k''" by (simp add: key_agrees_def)
  from enqueue_idempotent[OF this, of 1 "''prices''" 0 3 None 9 example_queue
      "fst (enqueue_job 1 ''prices'' None 0 3 None (Some ''k'') 9 example_queue)"
      "snd (enqueue_job 1 ''prices'' None 0 3 None (Some ''k'') 9 example_queue)"
      2 "''offers''" "Some [(''a'', JInt 1)]" 1 5 None 10]
  show ?thesis by (simp add: has_key_def) (simp add: queue_examples)
qed

lemma claim_job_spec_witness:
  "claim_job ''w'' None [] 9 example_queue =
     (Some (lock_row ''w'' 9 (example_job 2 2 5)),
      update_job 2 (lock_row ''w'' 9) example_queue) \<and>
   \<not> may_claim (update_job 2 (lock_row ''w'' 9) example_queue) None [] 10
       (lock_row ''w'' 9 (example_job 2 2 5))"
proof -
  have claim: "claim_job ''w'' None [] 9 example_queue =
     (Some (lock_row ''w'' 9 (example_job 2 2 5)),
      update_job 2 (lock_row ''w'' 9) example_queue)"
    by (simp add: claim_job_def runnable_def at_capacity_def job_retailer_def find_row_def
        argmin_def argmin_step_def claim_order_def queue_examples)
  have "keys_ok job_id (crawl_jobs example_queue)" by (simp add: keys_ok_def queue_examples)
  from claim_job_spec[OF this claim, where ?limits2.0 = None and ?held2.0 = "[]" and ?now2.0 = 10]
  have "\<not> may_claim (update_job 2 (lock_row ''w'' 9) example_queue) None [] 10
      (lock_row ''w'' 9 (example_job 2 2 5))"
    unfolding option.case by blast
  with claim show ?thesis by blast
qed


subsection \<open>Caps per retailer\<close>

lemma count_update_row:
  assumes "keys_ok key t" and "r \<in> set t"
  shows "length (filter P (update_row key (key r) f t)) + of_bool (P r) =
     length (filter P t) + of_bool (P (f r))"
proof -
  have count: "length (filter P xs) = (\<Sum>x\<leftarrow>xs. of_bool (P x))" for xs
    by (induction xs) auto
  from sum_update_row[OF assms, where f = f and w = "\<lambda>x. of_bool (P x)"] show ?thesis by (simp add: count)
qed

lemma in_flight_lock:
  assumes "keys_ok job_id (crawl_jobs db)" and "j \<in> set (crawl_jobs db)" and "job_state j = JS_queued"
  shows "in_flight (update_job (job_id j) (lock_row w now) db) r =
     in_flight db r + of_bool (job_retailer db j = Some r)"
proof -
  have "job_retailer db (lock_row w now j) = job_retailer db j" by (simp add: job_retailer_def)
  with count_update_row[OF assms(1,2), where P = "\<lambda>j. job_state j = JS_locked \<and> job_retailer db j = Some r"
      and f = "lock_row w now"]
  show ?thesis using assms(3) by (auto simp: in_flight_def of_bool_def split: if_splits)
qed

text \<open>The cap of a retailer bounds its jobs in flight. A claim adds one job in flight to the
  retailer of the job it returns and none to any other, and leaves that retailer within its cap;
  the exception is a cap below one, under which one job is still let through.\<close>

theorem claim_within_capacity:
  assumes "keys_ok job_id (crawl_jobs db)"
    and "claim_job w (Some limits) held now db = (Some j, db')"
  shows "\<exists>r. job_retailer db j = Some r \<and>
    (\<forall>q. in_flight db' q = in_flight db q + (if q = r then 1 else 0)) \<and>
    (\<forall>l. map_of limits r = Some l \<longrightarrow> in_flight db' r \<le> max 1 l)"
proof -
  from assms(2) obtain i where i: "i \<in> set (crawl_jobs db)" "runnable db (Some limits) held now i"
      and e: "j = lock_row w now i" "db' = update_job (job_id i) (lock_row w now) db"
    by (auto elim: claim_job_Some)
  from i(2) obtain r where r: "job_retailer db i = Some r" "r \<notin> set (at_capacity db (Some limits))"
    by (auto simp: runnable_def split: option.splits)
  have ret: "job_retailer db j = Some r" using r(1) by (simp add: e job_retailer_def)
  have fl: "in_flight db' q = in_flight db q + (if q = r then 1 else 0)" for q
    using i r(1) in_flight_lock[OF assms(1) i(1)] by (simp add: e runnable_def)
  have cap: "in_flight db' r \<le> max 1 l" if "map_of limits r = Some l" for l
  proof -
    from that have "limits \<noteq> []" by auto
    with r(2) that have "in_flight db r \<le> 0 \<or> in_flight db r < l" by (auto simp: at_capacity_iff)
    then show ?thesis using fl[of r] by auto
  qed
  show ?thesis by (intro exI[of _ r] conjI allI impI ret fl cap)
qed

lemma claim_within_capacity_witness:
  "in_flight (update_job 2 (lock_row ''w'' 9) example_queue) 8 \<le> max 1 4"
proof -
  have claim: "claim_job ''w'' (Some [(8, 4)]) [] 9 example_queue =
     (Some (lock_row ''w'' 9 (example_job 2 2 5)),
      update_job 2 (lock_row ''w'' 9) example_queue)"
    by (simp add: claim_job_def runnable_def at_capacity_def retailers_at_capacity_def map_filter_def
        job_retailer_def find_row_def argmin_def argmin_step_def claim_order_def queue_examples)
  have "keys_ok job_id (crawl_jobs example_queue)" by (simp add: keys_ok_def queue_examples)
  from claim_within_capacity[OF this claim] obtain r where
      r: "job_retailer example_queue (lock_row ''w'' 9 (example_job 2 2 5)) = Some r"
      and cap: "\<forall>l. map_of [(8, 4)] r = Some l \<longrightarrow>
        in_flight (update_job 2 (lock_row ''w'' 9) example_queue) r \<le> max 1 l"
    by blast
  from r have "r = 8" by (simp add: job_retailer_def find_row_def queue_examples lock_row_def)
  with cap show ?thesis by simp
qed

text \<open>A cap of zero does not stop a retailer. With no job in flight the retailer does not
  appear in the grouped count, so it is not found at its cap and a job of it is claimed.\<close>

theorem zero_cap_still_claims:
  "map_option job_id (fst (claim_job ''w'' (Some [(8, 0)]) [] 9 example_queue)) = Some 2 \<and>
   in_flight example_queue 8 = 0"
  by (simp add: claim_job_def runnable_def at_capacity_def retailers_at_capacity_def map_filter_def
      job_retailer_def find_row_def argmin_def argmin_step_def claim_order_def queue_examples in_flight_def)


section \<open>Retries\<close>

text \<open>The retry delay. It starts at 30 seconds, doubles with every attempt, never decreases
  and stays at an hour from the eighth attempt on; the jitter only lengthens it, by less than the
  base interval, so that no retry waits longer than 3630 seconds.\<close>

theorem backoff_bounds:
  assumes "1 \<le> a" and "a \<le> b" and "0 \<le> u" and "u \<le> base_backoff_seconds * second_us"
  shows "backoff_delay 1 base_backoff_seconds max_backoff_seconds None = 30 * second_us \<and>
    (a < 7 \<longrightarrow> backoff_delay (a + 1) base_backoff_seconds max_backoff_seconds None =
       2 * backoff_delay a base_backoff_seconds max_backoff_seconds None) \<and>
    (8 \<le> a \<longrightarrow> backoff_delay a base_backoff_seconds max_backoff_seconds None = 3600 * second_us) \<and>
    backoff_delay a base_backoff_seconds max_backoff_seconds None \<le>
      backoff_delay b base_backoff_seconds max_backoff_seconds None \<and>
    backoff_delay a base_backoff_seconds max_backoff_seconds None \<le>
      backoff_delay a base_backoff_seconds max_backoff_seconds (Some u) \<and>
    backoff_delay a base_backoff_seconds max_backoff_seconds (Some u) \<le>
      backoff_delay a base_backoff_seconds max_backoff_seconds None + u \<and>
    backoff_delay a base_backoff_seconds max_backoff_seconds (Some u) \<le> 3630 * second_us"
proof -
  have plain: "backoff_delay n base_backoff_seconds max_backoff_seconds None =
      min 3600 (30 * 2 ^ nat (n - 1)) * second_us" if "1 \<le> n" for n
    using that by (simp add: backoff_delay_def base_backoff_seconds_def max_backoff_seconds_def max_def)
  have jit: "backoff_delay n base_backoff_seconds max_backoff_seconds (Some u) =
      min (min 3600 (30 * 2 ^ nat (n - 1)) * second_us + u) (3630 * second_us)" if "1 \<le> n" for n
    using that by (simp add: backoff_delay_def base_backoff_seconds_def max_backoff_seconds_def max_def)
  have double: "backoff_delay (a + 1) base_backoff_seconds max_backoff_seconds None =
      2 * backoff_delay a base_backoff_seconds max_backoff_seconds None" if "a < 7"
  proof -
    have "(2::int) ^ nat (a - 1) \<le> 2 ^ 5" using that by (intro power_increasing) auto
    moreover have "(2::int) ^ nat a = 2 * 2 ^ nat (a - 1)"
      using assms(1) by (simp flip: power_Suc Suc_nat_eq_nat_zadd1)
    ultimately show ?thesis using assms(1) by (simp add: plain)
  qed
  have top: "backoff_delay a base_backoff_seconds max_backoff_seconds None = 3600 * second_us" if "8 \<le> a"
  proof -
    have "(2::int) ^ 7 \<le> 2 ^ nat (a - 1)" using that by (intro power_increasing) auto
    then show ?thesis using assms(1) by (simp add: plain)
  qed
  have "(2::int) ^ nat (a - 1) \<le> 2 ^ nat (b - 1)" using assms(2) by (intro power_increasing) auto
  then have mono: "backoff_delay a base_backoff_seconds max_backoff_seconds None \<le>
      backoff_delay b base_backoff_seconds max_backoff_seconds None"
    unfolding plain[OF assms(1)] plain[OF order_trans[OF assms(1,2)]]
    by (intro mult_right_mono min.mono mult_left_mono) (simp_all add: second_us_def)
  have u: "u \<le> 30000000" using assms(4) by (simp add: base_backoff_seconds_def second_us_def)
  have jitter: "min 3600 m * second_us \<le> min (min 3600 m * second_us + u) (3630 * second_us)"
      "min (min 3600 m * second_us + u) (3630 * second_us) \<le> min 3600 m * second_us + u"
      "min (min 3600 m * second_us + u) (3630 * second_us) \<le> 3630 * second_us" for m
    using assms(3) u unfolding second_us_def by linarith+
  have one: "backoff_delay 1 base_backoff_seconds max_backoff_seconds None = 30 * second_us"
    by (simp add: plain)
  show ?thesis using double top mono one jitter[of "30 * 2 ^ nat (a - 1)"]
    unfolding plain[OF assms(1)] jit[OF assms(1)] by blast
qed

lemma backoff_bounds_witness:
  "backoff_delay 3 base_backoff_seconds max_backoff_seconds None \<le>
     backoff_delay 5 base_backoff_seconds max_backoff_seconds None \<and>
   backoff_delay 3 base_backoff_seconds max_backoff_seconds (Some 20000000) \<le> 3630 * second_us"
proof -
  have "(20000000::int) \<le> base_backoff_seconds * second_us"
    by (simp add: base_backoff_seconds_def second_us_def)
  from backoff_bounds[of 3 5 20000000, OF _ _ _ this] show ?thesis by simp
qed

lemma secret_key_examples:
  "is_secret_key ''X-Api_Key'' \<and> is_secret_key ''refreshTOKEN'' \<and> \<not> is_secret_key idem_field"
  by code_simp

text \<open>Nothing secret is logged. After redaction, at whatever depth of dictionaries and
  lists, the value under a key that hints at a secret is the mask; the keys and all other values
  are as they were, so redacting again changes nothing.\<close>

theorem redact_masks:
  "masked (redact v) \<and> redact (redact v) = redact v \<and>
   is_secret_key ''X-Api_Key'' \<and> is_secret_key ''refreshTOKEN'' \<and> \<not> is_secret_key idem_field"
  using secret_key_examples by (simp add: masked_redact redact_masked)

end
