(* ===== verification/CrawlRuns.thy ===== *)
theory CrawlRuns
  imports JobQueue
begin

text \<open>
  The lifecycle of crawl runs: \<open>CrawlRunService\<close> of \<open>ingestion/run_service.py\<close>, and the two
  operator actions of \<open>routers/ingestion_admin.py\<close> that change runs and jobs together, cancelling
  a run and retrying its dead jobs. An HTTP 409 is the value \<open>None\<close>.
\<close>


section \<open>The run service\<close>

record job_spec =
  spec_type :: string
  spec_payload :: "payload option"
  spec_priority :: int
  spec_max_attempts :: int
  spec_key :: "string option"

definition create_run ::
  "int \<Rightarrow> run_type \<Rightarrow> int option \<Rightarrow> time option \<Rightarrow> string option \<Rightarrow> string option \<Rightarrow> run_status
     \<Rightarrow> time \<Rightarrow> db \<Rightarrow> crawl_run \<times> db" where
  "create_run retailer_id kind store_id scheduled_at connector_version parser_version status now db =
     (let run = \<lparr>run_id = next_id run_id (crawl_runs db), run_retailer = retailer_id,
                 run_store = store_id, run_kind = kind, run_state = status,
                 run_scheduled_at = Some (case scheduled_at of None \<Rightarrow> now | Some t \<Rightarrow> t),
                 run_started_at = None, run_completed_at = None,
                 run_discovered = 0, run_fetched = 0, run_parsed = 0, run_accepted = 0,
                 run_rejected = 0, run_quarantined = 0, run_errors = 0, run_coverage_score = None,
                 run_connector_version = connector_version, run_parser_version = parser_version\<rparr>
      in (run, db\<lparr>crawl_runs := crawl_runs db @ [run]\<rparr>))"

fun enqueue_jobs :: "crawl_run \<Rightarrow> job_spec list \<Rightarrow> time \<Rightarrow> db \<Rightarrow> crawl_job list \<times> db" where
  "enqueue_jobs run [] now db = ([], db)"
| "enqueue_jobs run (spec # specs) now db =
     (let (job, db) = enqueue_job (run_id run) (spec_type spec) (spec_payload spec)
            (spec_priority spec) (spec_max_attempts spec) None (spec_key spec) now db;
          (jobs, db) = enqueue_jobs run specs now db
      in (job # jobs, db))"

definition update_run :: "int \<Rightarrow> (crawl_run \<Rightarrow> crawl_run) \<Rightarrow> db \<Rightarrow> db" where
  "update_run i f db = db\<lparr>crawl_runs := update_row run_id i f (crawl_runs db)\<rparr>"

record outcome_counts =
  oc_discovered :: int
  oc_fetched :: int
  oc_parsed :: int
  oc_accepted :: int
  oc_rejected :: int
  oc_quarantined :: int
  oc_errors :: int

definition record_row :: "outcome_counts \<Rightarrow> crawl_run \<Rightarrow> crawl_run" where
  "record_row c run =
     run\<lparr>run_discovered := run_discovered run + oc_discovered c,
         run_fetched := run_fetched run + oc_fetched c,
         run_parsed := run_parsed run + oc_parsed c,
         run_accepted := run_accepted run + oc_accepted c,
         run_rejected := run_rejected run + oc_rejected c,
         run_quarantined := run_quarantined run + oc_quarantined c,
         run_errors := run_errors run + oc_errors c\<rparr>"

definition record_counts :: "int \<Rightarrow> outcome_counts \<Rightarrow> db \<Rightarrow> db" where
  "record_counts i c = update_run i (record_row c)"

definition start_row :: "time \<Rightarrow> crawl_run \<Rightarrow> crawl_run" where
  "start_row now run =
     run\<lparr>run_state := RS_running,
         run_started_at := (case run_started_at run of None \<Rightarrow> Some now | Some t \<Rightarrow> Some t)\<rparr>"

text \<open>The quantization never raises: its argument has been clamped to the unit interval.\<close>

definition compute_run_coverage :: "crawl_run \<Rightarrow> py_exn + dec option" where
  "compute_run_coverage run =
     (if run_discovered run \<le> 0 then Inr None
      else let ratio = ddiv (of_int (run_accepted run)) (of_int (run_discovered run));
               clamped = min 1 (max 0 ratio)
           in map_sum id Some (quantize4_half_up clamped))"

definition complete_run_row :: "time \<Rightarrow> crawl_run \<Rightarrow> py_exn + crawl_run" where
  "complete_run_row now run =
     map_sum id (\<lambda>score. run\<lparr>run_state := RS_completed, run_completed_at := Some now,
         run_coverage_score := score\<rparr>) (compute_run_coverage run)"

definition fail_run_row :: "time \<Rightarrow> crawl_run \<Rightarrow> crawl_run" where
  "fail_run_row now run = run\<lparr>run_state := RS_failed, run_completed_at := Some now\<rparr>"

definition cancel_run_row :: "time \<Rightarrow> crawl_run \<Rightarrow> crawl_run" where
  "cancel_run_row now run = run\<lparr>run_state := RS_cancelled, run_completed_at := Some now\<rparr>"

definition start_run :: "int \<Rightarrow> time \<Rightarrow> db \<Rightarrow> db" where
  "start_run i now = update_run i (start_row now)"

definition complete_run :: "int \<Rightarrow> time \<Rightarrow> db \<Rightarrow> py_exn + db" where
  "complete_run i now db =
     (case find_row run_id i (crawl_runs db) of
        None \<Rightarrow> Inr db
      | Some run \<Rightarrow> map_sum id (\<lambda>run'. update_run i (\<lambda>_. run') db) (complete_run_row now run))"

definition fail_run :: "int \<Rightarrow> time \<Rightarrow> db \<Rightarrow> db" where
  "fail_run i now = update_run i (fail_run_row now)"

definition cancel_run :: "int \<Rightarrow> time \<Rightarrow> db \<Rightarrow> db" where
  "cancel_run i now = update_run i (cancel_run_row now)"


section \<open>Operator actions\<close>

definition run_terminal :: "run_status list" where
  "run_terminal = [RS_completed, RS_failed, RS_cancelled]"

definition job_cancellable :: "job_status list" where
  "job_cancellable = [JS_queued, JS_locked]"

definition job_retryable :: "job_status list" where
  "job_retryable = [JS_failed, JS_dead_letter]"

definition cancel_crawl :: "crawl_run \<Rightarrow> time \<Rightarrow> db \<Rightarrow> db option" where
  "cancel_crawl run now db =
     (if run_state run \<in> set run_terminal then None
      else let db = db\<lparr>crawl_jobs :=
                 map (\<lambda>j. if job_run j = run_id run \<and> job_state j \<in> set job_cancellable
                          then cancel_row now j else j) (crawl_jobs db)\<rparr>
           in Some (cancel_run (run_id run) now db))"

definition retry_row :: "time \<Rightarrow> crawl_job \<Rightarrow> crawl_job" where
  "retry_row now j =
     j\<lparr>job_state := JS_queued, job_attempts := 0, job_available_at := now, job_locked_at := None,
       job_locked_by := None, job_heartbeat_at := None, job_last_error := None\<rparr>"

definition retry_crawl :: "crawl_run \<Rightarrow> time \<Rightarrow> db \<Rightarrow> db" where
  "retry_crawl run now db =
     (let retry = (\<lambda>j. job_run j = run_id run \<and> job_state j \<in> set job_retryable);
          found = list_ex retry (crawl_jobs db);
          db = db\<lparr>crawl_jobs := map (\<lambda>j. if retry j then retry_row now j else j) (crawl_jobs db)\<rparr>
      in if found \<and> run_state run = RS_failed
         then update_run (run_id run)
                (\<lambda>r. r\<lparr>run_state := RS_queued, run_completed_at := None\<rparr>) db
         else db)"


section \<open>Counters and coverage\<close>

lemma run_id_rows [simp]:
  "run_id (record_row c r) = run_id r" "run_id (start_row now r) = run_id r"
  "run_id (fail_run_row now r) = run_id r" "run_id (cancel_run_row now r) = run_id r"
  by (simp_all add: record_row_def start_row_def fail_run_row_def cancel_run_row_def)

lemma crawl_jobs_update_run [simp]: "crawl_jobs (update_run i f db) = crawl_jobs db"
  by (simp add: update_run_def)

lemma crawl_runs_update_run [simp]:
  "crawl_runs (update_run i f db) = update_row run_id i f (crawl_runs db)"
  by (simp add: update_run_def)

lemma update_row_commute:
  assumes "\<And>r. key (f r) = key r" and "\<And>r. key (g r) = key r" and "\<And>r. f (g r) = g (f r)"
  shows "update_row key i f (update_row key j g t) = update_row key j g (update_row key i f t)"
  using assms by (auto simp: update_row_def)

text \<open>The order in which outcomes are rolled up does not matter.\<close>

lemma record_counts_commute: "record_counts i c (record_counts k d db) = record_counts k d (record_counts i c db)"
proof -
  have "record_row c (record_row d r) = record_row d (record_row c r)" for r
    by (simp add: record_row_def add.commute add.left_commute)
  then show ?thesis
    by (simp add: record_counts_def update_run_def update_row_commute)
qed

text \<open>The coverage score of a run. It is unknown exactly when nothing was discovered;
  otherwise it is defined, lies between 0 and 1, is 1 when everything discovered was accepted,
  and differs from the accepted share by at most half a unit of the fourth place (and the 28-digit
  rounding of the division).\<close>

theorem run_coverage_bounds:
  assumes "0 \<le> run_accepted run" and "run_accepted run \<le> run_discovered run"
  shows "case compute_run_coverage run of
      Inl e \<Rightarrow> False
    | Inr None \<Rightarrow> run_discovered run = 0
    | Inr (Some score) \<Rightarrow> 0 < run_discovered run \<and> 0 \<le> score \<and> score \<le> 1 \<and>
        (run_accepted run = run_discovered run \<longrightarrow> score = 1) \<and>
        \<bar>score - of_int (run_accepted run) / of_int (run_discovered run)\<bar> \<le> 1 / 20000 + 1 / 10 ^ 27"
proof (cases "run_discovered run \<le> 0")
  case True
  with assms show ?thesis by (simp add: compute_run_coverage_def)
next
  case False
  define a d :: rat where "a = of_int (run_accepted run)" and "d = of_int (run_discovered run)"
  have ad: "0 \<le> a" "a \<le> d" "0 < d" using assms False by (simp_all add: a_def d_def)
  define q where "q = ddiv a d"
  have q: "0 \<le> q" "q \<le> 1" using ad by (simp_all add: q_def ddiv_ratio)
  have qe: "\<bar>q - a / d\<bar> \<le> 1 / 10 ^ 27"
  proof -
    have "\<bar>a / d\<bar> \<le> 1" using ad by simp
    then show ?thesis using ddiv_err[of a d] by (simp add: q_def)
  qed
  have score: "compute_run_coverage run = Inr (Some (of_int \<lfloor>10000 * q + 1 / 2\<rfloor> / 10000))"
    using False q by (simp add: compute_run_coverage_def quantize4_half_up_unit flip: a_def d_def q_def)
  have one: "(of_int \<lfloor>10000 * q + 1 / 2\<rfloor> / 10000 :: rat) = 1" if "run_accepted run = run_discovered run"
  proof -
    from that ad have q1: "q = 1" by (simp add: q_def a_def d_def)
    have "\<lfloor>10000 * (1::rat) + 1 / 2\<rfloor> = 10000" by (simp add: floor_eq_iff)
    then show ?thesis by (simp add: q1)
  qed
  have "\<bar>of_int \<lfloor>10000 * q + 1 / 2\<rfloor> / 10000 - a / d\<bar> \<le> 1 / 20000 + 1 / 10 ^ 27"
    using quantize4_err(3)[OF q] qe by linarith
  with quantize4_err(1,2)[OF q] one False show ?thesis
    unfolding score sum.case option.case a_def[symmetric] d_def[symmetric] by linarith
qed

lemma run_coverage_bounds_witness:
  "compute_run_coverage ((example_run 1 7)\<lparr>run_discovered := 8, run_accepted := 8\<rparr>) = Inr (Some 1)"
  using run_coverage_bounds[of "(example_run 1 7)\<lparr>run_discovered := 8, run_accepted := 8\<rparr>"]
  by (auto simp: example_run_def split: sum.splits option.splits)

end
