(* ===== verification/QueueProcess.thy ===== *)
theory QueueProcess
  imports CrawlRuns
begin

text \<open>
  The queue under concurrent use. Every committed transaction of a worker, the scheduler or an
  operator is an event; the process is the transition system whose steps are those events in any
  order. The invariant of the rows holds for every interleaving, whoever calls the lifecycle
  functions; the queue refines a bounded-retry machine, apart from the reports that come for a job
  that is no longer locked, and the last section shows what one of these does.
\<close>


section \<open>Events and steps\<close>

datatype queue_event =
    Ev_enqueue int string "payload option" int int "time option" "string option" time
  | Ev_claim string "(int, int) dict option" "int list" time
  | Ev_heartbeat int time
  | Ev_complete int time
  | Ev_fail int "string option" time "int option"
  | Ev_recover int "int list" time
  | Ev_cancel crawl_run time
  | Ev_retry crawl_run time

fun apply_event :: "queue_event \<Rightarrow> db \<Rightarrow> db" where
  "apply_event (Ev_enqueue r k p prio m t key now) db = snd (enqueue_job r k p prio m t key now db)"
| "apply_event (Ev_claim w limits held now) db = snd (claim_job w limits held now db)"
| "apply_event (Ev_heartbeat i now) db = heartbeat i now db"
| "apply_event (Ev_complete i now) db = complete_job i now db"
| "apply_event (Ev_fail i e now u) db = fail_job i e now u db"
| "apply_event (Ev_recover timeout held now) db = snd (recover_stuck_jobs timeout held now db)"
| "apply_event (Ev_cancel run now) db = (case cancel_crawl run now db of None \<Rightarrow> db | Some db' \<Rightarrow> db')"
| "apply_event (Ev_retry run now) db = retry_crawl run now db"

text \<open>Callers ask for at least one attempt; nothing else is required of an event.\<close>

inductive queue_step :: "queue_event \<Rightarrow> db \<Rightarrow> db \<Rightarrow> bool" where
  "(\<And>r k p prio m t key now. e = Ev_enqueue r k p prio m t key now \<Longrightarrow> 1 \<le> m) \<Longrightarrow>
     queue_step e db (apply_event e db)"

inductive_cases queue_stepE: "queue_step e db db'"

definition no_jobs :: "db \<Rightarrow> bool" where
  "no_jobs db = (crawl_jobs db = [])"


section \<open>The invariant\<close>

definition job_ok :: "crawl_job \<Rightarrow> bool" where
  "job_ok j =
     ((job_locked_by j \<noteq> None) = (job_state j = JS_locked) \<and>
      (job_locked_at j \<noteq> None) = (job_state j = JS_locked) \<and>
      (job_state j = JS_locked \<longrightarrow> job_heartbeat_at j \<noteq> None) \<and>
      (job_state j \<in> {JS_queued, JS_locked} \<longrightarrow> job_attempts j < job_max_attempts j) \<and>
      (job_state j = JS_dead_letter \<longrightarrow> job_max_attempts j \<le> job_attempts j) \<and>
      (job_state j = JS_completed \<longrightarrow> job_completed_at j \<noteq> None) \<and>
      job_state j \<noteq> JS_failed \<and> 0 \<le> job_attempts j \<and> 1 \<le> job_max_attempts j \<and>
      (case job_last_error j of None \<Rightarrow> True | Some e \<Rightarrow> length e \<le> 2000))"

definition queue_inv :: "db \<Rightarrow> bool" where
  "queue_inv db = (keys_ok job_id (crawl_jobs db) \<and> (\<forall>j\<in>set (crawl_jobs db). job_ok j))"

lemma job_ok_heartbeat [intro]: "job_ok j \<Longrightarrow> job_ok (heartbeat_row now j)"
  by (simp add: job_ok_def heartbeat_row_def)

lemma job_ok_complete [intro]: "job_ok j \<Longrightarrow> job_ok (complete_row now j)"
  by (simp add: job_ok_def complete_row_def)

lemma job_ok_cancel [intro]: "job_ok j \<Longrightarrow> job_ok (cancel_row now j)"
  by (simp add: job_ok_def cancel_row_def)

lemma job_ok_retry [intro]: "job_ok j \<Longrightarrow> job_ok (retry_row now j)"
  by (simp add: job_ok_def retry_row_def)

lemma job_ok_fail [intro]: "job_ok j \<Longrightarrow> job_ok (fail_row e now u j)"
  by (auto simp: job_ok_def fail_row_def Let_def split: option.splits)

lemma job_ok_recover [intro]: "job_ok j \<Longrightarrow> job_state j = JS_locked \<Longrightarrow> job_ok (recover_row now j)"
  by (simp add: job_ok_def recover_row_def)

lemma job_ok_lock [intro]: "job_ok j \<Longrightarrow> job_state j = JS_queued \<Longrightarrow> job_ok (lock_row w now j)"
  by (simp add: job_ok_def lock_row_def)

lemma job_ok_insert: "1 \<le> m \<Longrightarrow> job_ok (fst (insert_job r k p prio m t db))"
  by (simp add: job_ok_def)

lemma job_id_retry_row [simp]: "job_id (retry_row now j) = job_id j"
  by (simp add: retry_row_def)

lemma fresh_key: "next_id key t = key r \<Longrightarrow> r \<in> set t \<Longrightarrow> False"
  using next_id_not_in[of key t] by (metis image_eqI)

lemma queue_inv_map:
  assumes "queue_inv db" and "crawl_jobs db' = map f (crawl_jobs db)"
    and "\<And>j. job_id (f j) = job_id j" and "\<And>j. j \<in> set (crawl_jobs db) \<Longrightarrow> job_ok j \<Longrightarrow> job_ok (f j)"
  shows "queue_inv db'"
  using assms by (auto simp: queue_inv_def keys_ok_def comp_def)

text \<open>Every event but enqueueing maps the rows one by one.\<close>

definition event_row :: "queue_event \<Rightarrow> db \<Rightarrow> crawl_job \<Rightarrow> crawl_job" where
  "event_row e db j =
     (case e of
        Ev_enqueue r k p prio m t key now \<Rightarrow> j
      | Ev_claim w limits held now \<Rightarrow>
          (case argmin claim_order (filter (runnable db limits held now) (crawl_jobs db)) of
             Some c \<Rightarrow> if job_id j = job_id c then lock_row w now j else j | None \<Rightarrow> j)
      | Ev_heartbeat i now \<Rightarrow> if job_id j = i then heartbeat_row now j else j
      | Ev_complete i now \<Rightarrow> if job_id j = i then complete_row now j else j
      | Ev_fail i err now u \<Rightarrow> if job_id j = i then fail_row err now u j else j
      | Ev_recover timeout held now \<Rightarrow> if stuck (now - timeout) held j then recover_row now j else j
      | Ev_cancel run now \<Rightarrow>
          if run_state run \<notin> set run_terminal \<and> job_run j = run_id run \<and> job_state j \<in> set job_cancellable
          then cancel_row now j else j
      | Ev_retry run now \<Rightarrow>
          if job_run j = run_id run \<and> job_state j \<in> set job_retryable then retry_row now j else j)"

lemma job_id_event_row [simp]: "job_id (event_row e db j) = job_id j"
  by (cases e) (auto simp: event_row_def split: option.splits)

lemma apply_event_rows:
  "(\<exists>new. crawl_jobs (apply_event e db) = crawl_jobs db @ new \<and>
      (new = [] \<or> (\<exists>r k p prio m t key now p' t'. e = Ev_enqueue r k p prio m t key now \<and>
         new = [fst (insert_job r k p' prio m t' db)]))) \<and> (\<forall>j. event_row e db j = j) \<or>
   crawl_jobs (apply_event e db) = map (event_row e db) (crawl_jobs db)"
proof (cases e)
  case (Ev_enqueue r k p prio m t key now)
  then show ?thesis
    by (cases rule: enqueue_job_cases[of db r k p prio m t key now]) (force simp: event_row_def)+
next
  case (Ev_claim w limits held now)
  then show ?thesis
    by (cases "argmin claim_order (filter (runnable db limits held now) (crawl_jobs db))")
      (simp_all add: claim_job_def event_row_def update_row_def del: argmin_None_iff)
qed (auto simp: heartbeat_def complete_job_def fail_job_def update_row_def recover_stuck_jobs_def
    cancel_crawl_def retry_crawl_def cancel_run_def event_row_def Let_def)

lemma claimed_row:
  assumes "queue_inv db" and "j \<in> set (crawl_jobs db)"
    and "argmin claim_order (filter (runnable db limits held now) (crawl_jobs db)) = Some c"
    and "job_id j = job_id c"
  shows "j = c" and "job_state j = JS_queued"
proof -
  have c: "c \<in> set (crawl_jobs db)" "job_state c = JS_queued"
    using argmin_Some(1)[OF assms(3)] by (auto simp: runnable_def)
  then show "j = c" using assms(1,2,4) by (auto simp: queue_inv_def keys_ok_def distinct_map inj_on_def)
  with c show "job_state j = JS_queued" by simp
qed

lemma job_ok_event_row:
  assumes "queue_inv db" and "j \<in> set (crawl_jobs db)"
  shows "job_ok (event_row e db j)"
proof -
  have ok: "job_ok j" using assms by (simp add: queue_inv_def)
  show ?thesis
  proof (cases e)
    case (Ev_claim w limits held now)
    with ok claimed_row[OF assms, of limits held now] show ?thesis
      by (auto simp: event_row_def split: option.splits)
  qed (use ok in \<open>auto simp: event_row_def stuck_def\<close>)
qed

lemma queue_inv_step: "queue_inv db \<Longrightarrow> queue_step e db db' \<Longrightarrow> queue_inv db'"
proof (erule queue_stepE)
  assume inv: "queue_inv db" and db': "db' = apply_event e db"
    and m: "\<And>r k p prio m t key now. e = Ev_enqueue r k p prio m t key now \<Longrightarrow> 1 \<le> m"
  from apply_event_rows[of e db] show "queue_inv db'"
  proof (elim disjE conjE exE)
    fix new r k p prio m' t key now p' t'
    assume "crawl_jobs (apply_event e db) = crawl_jobs db @ new"
      and "e = Ev_enqueue r k p prio m' t key now" and "new = [fst (insert_job r k p' prio m' t' db)]"
    then show ?thesis using inv m
      by (auto simp: queue_inv_def db' intro!: keys_ok_snoc job_ok_insert dest: fresh_key)
  next
    assume "crawl_jobs (apply_event e db) = map (event_row e db) (crawl_jobs db)"
    then show ?thesis using inv job_ok_event_row[OF inv]
      by (intro queue_inv_map[OF inv, of db' "event_row e db"]) (auto simp: db')
  qed (use inv in \<open>auto simp: queue_inv_def db'\<close>)
qed

interpretation queue: invariant_system no_jobs queue_step queue_inv
proof unfold_locales
  show "queue_inv db" if "no_jobs db" for db
    using that by (simp add: no_jobs_def queue_inv_def)
  show "queue_inv db'" if "queue_inv db" and "queue_step e db db'" for e db db'
    using that by (rule queue_inv_step)
qed

text \<open>C26 The rows of the queue are consistent in every reachable state. Whatever the
  interleaving of enqueues, claims, reports, recoveries, cancellations and retries, job ids are
  unique, a row carries a worker and a lock time exactly while it is locked, a locked row has a
  heartbeat, a job that waits or runs has attempts left, a dead letter has none, a completed job
  has its completion time, no job is in the unused state failed, and errors are cut to 2000
  characters.\<close>

theorem queue_rows_consistent:
  assumes "reachable no_jobs queue_step db" and "j \<in> set (crawl_jobs db)"
  shows "distinct (map job_id (crawl_jobs db)) \<and>
    (job_locked_by j \<noteq> None \<longleftrightarrow> job_state j = JS_locked) \<and>
    (job_locked_at j \<noteq> None \<longleftrightarrow> job_state j = JS_locked) \<and>
    (job_state j = JS_locked \<longrightarrow> job_heartbeat_at j \<noteq> None) \<and>
    (job_state j \<in> {JS_queued, JS_locked} \<longrightarrow> job_attempts j < job_max_attempts j) \<and>
    (job_state j = JS_dead_letter \<longrightarrow> job_max_attempts j \<le> job_attempts j) \<and>
    (job_state j = JS_completed \<longrightarrow> job_completed_at j \<noteq> None) \<and> job_state j \<noteq> JS_failed \<and>
    (\<forall>e. job_last_error j = Some e \<longrightarrow> length e \<le> 2000)"
proof -
  from queue.reachable_inv[OF assms(1)] have "keys_ok job_id (crawl_jobs db)" and "job_ok j"
    using assms(2) by (auto simp: queue_inv_def)
  then show ?thesis by (auto simp: keys_ok_def job_ok_def)
qed


definition example_idle :: db where
  "example_idle = example_queue\<lparr>crawl_jobs := []\<rparr>"

lemma queue_rows_consistent_witness:
  "\<exists>j\<in>set (crawl_jobs (apply_event (Ev_enqueue 1 ''prices'' None 0 3 None None 9) example_idle)).
     job_state j = JS_queued \<and> job_attempts j < job_max_attempts j \<and> job_locked_by j = None"
proof -
  let ?e = "Ev_enqueue 1 ''prices'' None 0 3 None None 9"
  obtain j where j: "j \<in> set (crawl_jobs (apply_event ?e example_idle))" "job_state j = JS_queued"
    by (auto simp: example_idle_def enqueue_job_def enqueue_key_def insert_job_def Let_def)
  have "no_jobs example_idle" by (simp add: no_jobs_def example_idle_def)
  moreover have "queue_step ?e example_idle (apply_event ?e example_idle)"
    by (rule queue_step.intros) simp
  ultimately have "reachable no_jobs queue_step (apply_event ?e example_idle)"
    by (rule reachable.step[OF reachable.start])
  from queue_rows_consistent[OF this j(1)] j(2)
  have "job_attempts j < job_max_attempts j" "job_locked_by j = None" by auto
  with j show ?thesis by blast
qed


section \<open>Refinement of a bounded-retry machine\<close>

text \<open>
  The contract of the queue for one job, with nothing of its representation: it waits or runs
  with some attempts left, and ends finished, dead or withdrawn. Only an operator's retry leaves
  one of the final phases.
\<close>

datatype phase = Waiting nat | Running nat | Finished | Dead | Withdrawn

datatype queue_action = A_claim | A_complete | A_fail | A_recover | A_cancel | A_retry | A_none

inductive phase_step :: "queue_action \<Rightarrow> phase \<Rightarrow> phase \<Rightarrow> bool" where
  claim: "phase_step A_claim (Waiting n) (Running n)"
| finish: "phase_step A_complete (Running n) Finished"
| again: "phase_step A_fail (Running (Suc (Suc n))) (Waiting (Suc n))"
| give_up: "phase_step A_fail (Running (Suc 0)) Dead"
| recover: "phase_step A_recover (Running n) (Waiting n)"
| withdraw: "phase_step A_cancel (Waiting n) Withdrawn"
| withdraw_running: "phase_step A_cancel (Running n) Withdrawn"
| retry: "phase_step A_retry Dead (Waiting (Suc n))"

inductive_simps phase_step_final [simp]:
  "phase_step a Finished p" "phase_step a Withdrawn p" "phase_step a p (Running n)"

text \<open>What an event does to the jobs it concerns, and whether it reports on a given job.\<close>

definition action_of :: "queue_event \<Rightarrow> queue_action" where
  "action_of e =
     (case e of
        Ev_claim w limits held now \<Rightarrow> A_claim
      | Ev_complete k now \<Rightarrow> A_complete
      | Ev_fail k err now u \<Rightarrow> A_fail
      | Ev_recover timeout held now \<Rightarrow> A_recover
      | Ev_cancel run now \<Rightarrow> A_cancel
      | Ev_retry run now \<Rightarrow> A_retry
      | _ \<Rightarrow> A_none)"

definition reports_on :: "queue_event \<Rightarrow> int \<Rightarrow> bool" where
  "reports_on e i \<longleftrightarrow> (case e of Ev_complete k now \<Rightarrow> k = i | Ev_fail k err now u \<Rightarrow> k = i | _ \<Rightarrow> False)"

definition attempts_left :: "crawl_job \<Rightarrow> nat" where
  "attempts_left j = nat (job_max_attempts j - job_attempts j)"

definition phase_of :: "crawl_job \<Rightarrow> phase" where
  "phase_of j =
     (case job_state j of
        JS_queued \<Rightarrow> Waiting (attempts_left j)
      | JS_locked \<Rightarrow> Running (attempts_left j)
      | JS_completed \<Rightarrow> Finished
      | JS_failed \<Rightarrow> Dead
      | JS_dead_letter \<Rightarrow> Dead
      | JS_cancelled \<Rightarrow> Withdrawn)"

definition phase_at :: "db \<Rightarrow> int \<Rightarrow> phase option" where
  "phase_at db i = map_option phase_of (find_row job_id i (crawl_jobs db))"

text \<open>
  A report for a job that no longer runs, which the abstract machine does not have: the job that a
  worker completes is finished whatever it was, and the one it fails loses an attempt, or is dead or
  waits again although it was over.
\<close>

fun is_running :: "phase \<Rightarrow> bool" where
  "is_running (Running n) = True"
| "is_running p = False"

definition late_report :: "queue_event \<Rightarrow> int \<Rightarrow> phase \<Rightarrow> phase \<Rightarrow> bool" where
  "late_report e i p q \<longleftrightarrow> \<not> is_running p \<and>
     (case e of
        Ev_complete k now \<Rightarrow> k = i \<and> q = Finished
      | Ev_fail k err now u \<Rightarrow> k = i \<and>
          (case p of
             Waiting n \<Rightarrow> q = (if n = 1 then Dead else Waiting (n - 1))
           | _ \<Rightarrow> (case q of Dead \<Rightarrow> True | Waiting n \<Rightarrow> True | _ \<Rightarrow> False))
      | _ \<Rightarrow> False)"

lemma phase_fail:
  assumes "job_ok j" and "job_state j = JS_locked"
  shows "phase_step A_fail (phase_of j) (phase_of (fail_row err now u j))"
proof (cases "job_max_attempts j \<le> job_attempts j + 1")
  case True
  with assms have "job_max_attempts j - job_attempts j = 1" by (simp add: job_ok_def)
  then have "attempts_left j = Suc 0" by (simp add: attempts_left_def)
  moreover have "job_state (fail_row err now u j) = JS_dead_letter"
    using True by (simp add: fail_row_def)
  ultimately show ?thesis using assms(2) by (simp add: phase_of_def give_up)
next
  case False
  then have "2 \<le> attempts_left j" by (simp add: attempts_left_def)
  then obtain n where n: "attempts_left j = Suc (Suc n)" by (metis add_2_eq_Suc le_Suc_ex)
  moreover have "job_state (fail_row err now u j) = JS_queued"
    and "attempts_left (fail_row err now u j) = attempts_left j - 1"
    using False by (simp_all add: fail_row_def attempts_left_def Let_def nat_diff_distrib')
  ultimately show ?thesis using assms(2) by (simp add: phase_of_def again)
qed


lemma phase_late_fail:
  assumes ok: "job_ok j" and late: "job_state j \<noteq> JS_locked"
  shows "late_report (Ev_fail (job_id j) err now u) (job_id j) (phase_of j) (phase_of (fail_row err now u j))"
proof (cases "job_state j = JS_queued")
  case True
  with ok have "0 < job_max_attempts j - job_attempts j" by (simp add: job_ok_def)
  with True show ?thesis
    by (auto simp: late_report_def phase_of_def fail_row_def attempts_left_def Let_def nat_eq_iff nat_diff_distrib')
next
  case False
  with late show ?thesis
    by (cases "job_state j"; cases "job_max_attempts j \<le> job_attempts j + 1")
      (simp_all add: late_report_def phase_of_def fail_row_def Let_def)
qed

lemma phase_event_row:
  assumes inv: "queue_inv db" and j: "j \<in> set (crawl_jobs db)"
  shows "phase_of (event_row e db j) = phase_of j \<and> \<not> reports_on e (job_id j) \<or>
    phase_step (action_of e) (phase_of j) (phase_of (event_row e db j)) \<or>
    late_report e (job_id j) (phase_of j) (phase_of (event_row e db j))"
proof -
  note act = action_of_def reports_on_def
  have ok: "job_ok j" using inv j by (simp add: queue_inv_def)
  show ?thesis
  proof (cases e)
    case (Ev_claim w limits held now)
    show ?thesis
    proof (cases "argmin claim_order (filter (runnable db limits held now) (crawl_jobs db))")
      case None
      with Ev_claim show ?thesis by (simp add: act event_row_def del: argmin_None_iff)
    next
      case (Some c)
      with claimed_row[OF inv j Some] Ev_claim show ?thesis
        by (auto simp: act event_row_def phase_of_def attempts_left_def intro: claim)
    qed
  next
    case (Ev_complete i now)
    then show ?thesis
      by (cases "job_state j") (simp_all add: act event_row_def phase_of_def complete_row_def late_report_def finish)
  next
    case (Ev_fail i err now u)
    with phase_fail[OF ok] phase_late_fail[OF ok] show ?thesis
      by (cases "job_state j = JS_locked") (auto simp: act event_row_def)
  next
    case (Ev_recover timeout held now)
    then show ?thesis
      by (auto simp: act event_row_def stuck_def phase_of_def recover_row_def attempts_left_def intro: recover)
  next
    case (Ev_cancel run now)
    then show ?thesis
      by (auto simp: act event_row_def job_cancellable_def phase_of_def cancel_row_def
          intro: withdraw withdraw_running)
  next
    case (Ev_retry run now)
    obtain n where "nat (job_max_attempts j) = Suc n"
      using ok by (cases "nat (job_max_attempts j)") (auto simp: job_ok_def)
    with Ev_retry ok show ?thesis
      by (auto simp: act event_row_def job_retryable_def phase_of_def retry_row_def attempts_left_def
          job_ok_def intro: retry)
  next
    case (Ev_heartbeat i now)
    have "attempts_left (heartbeat_row now j) = attempts_left j" "job_state (heartbeat_row now j) = job_state j"
      by (simp_all add: attempts_left_def heartbeat_row_def)
    then have "phase_of (heartbeat_row now j) = phase_of j" unfolding phase_of_def by (simp only:)
    with Ev_heartbeat show ?thesis by (simp add: act event_row_def)
  qed (simp add: act event_row_def)
qed

lemma find_row_map: "(\<And>r. key (f r) = key r) \<Longrightarrow> find_row key i (map f t) = map_option f (find_row key i t)"
  by (induction t) (auto simp: find_row_def)

lemma phase_at_insert:
  assumes "crawl_jobs db' = crawl_jobs db @ [fst (insert_job r k p prio m t db)]"
  shows "phase_at db' i = phase_at db i \<or> phase_at db i = None \<and> phase_at db' i = Some (Waiting (nat m))"
  using assms
  by (auto simp: phase_at_def find_row_snoc phase_of_def attempts_left_def split: option.split)

text \<open>C24 The queue refines the bounded-retry machine. In every step of a consistent queue, every
  job either keeps its phase, when the event is no report on it, or makes the step of the abstract
  machine for that event, or is newly enqueued and waiting - or a worker reports late on a job that no
  longer runs, and then on that job alone. In particular a failure of a running job consumes exactly
  one attempt, the last one is final, a recovery consumes none, and a finished or withdrawn job
  stays so unless a late report comes for it: completion makes it finished, and failure puts it
  back in the queue or into the dead letters.\<close>

theorem queue_refines_retry_machine:
  assumes "queue_inv db" and "queue_step e db db'"
  shows "phase_at db' i = phase_at db i \<and> (phase_at db i = None \<or> \<not> reports_on e i) \<or>
    (\<exists>p q. phase_at db i = Some p \<and> phase_at db' i = Some q \<and> (phase_step (action_of e) p q \<or> late_report e i p q)) \<or>
    phase_at db i = None \<and> action_of e = A_none \<and> (\<exists>n. phase_at db' i = Some (Waiting n))"
proof -
  from assms(2) have db': "db' = apply_event e db" by (rule queue_stepE)
  have mapped: ?thesis if "crawl_jobs db' = map (event_row e db) (crawl_jobs db)"
  proof -
    from that have at: "phase_at db' i = map_option (\<lambda>j. phase_of (event_row e db j)) (find_row job_id i (crawl_jobs db))"
      by (simp add: phase_at_def find_row_map option.map_comp comp_def)
    show ?thesis
    proof (cases "find_row job_id i (crawl_jobs db)")
      case None
      with at have "phase_at db' i = phase_at db i" "phase_at db i = None" by (simp_all add: phase_at_def)
      then show ?thesis by blast
    next
      case (Some j)
      have "phase_at db i = Some (phase_of j)" "phase_at db' i = Some (phase_of (event_row e db j))"
        using at Some by (simp_all add: phase_at_def)
      moreover from find_row_Some[OF Some] have "j \<in> set (crawl_jobs db)" "job_id j = i" by blast+
      ultimately show ?thesis using phase_event_row[OF assms(1), of j e] by auto
    qed
  qed
  consider (same) "crawl_jobs db' = crawl_jobs db" "\<forall>j. event_row e db j = j"
    | (insert) r k p prio m t where "crawl_jobs db' = crawl_jobs db @ [fst (insert_job r k p prio m t db)]"
        "action_of e = A_none" "\<not> reports_on e i"
    | (rows) "crawl_jobs db' = map (event_row e db) (crawl_jobs db)"
    using apply_event_rows[of e db] unfolding db'
  proof (elim disjE conjE exE)
    fix new r k p prio m t key now p' t'
    assume new: "crawl_jobs (apply_event e db) = crawl_jobs db @ new"
      "new = [fst (insert_job r k p' prio m t' db)]" "e = Ev_enqueue r k p prio m t key now"
    show thesis by (rule that(2)) (use new db' in \<open>simp_all add: action_of_def reports_on_def\<close>)
  qed (use db' that(1,3) in auto)
  then show ?thesis
  proof cases
    case same
    have "crawl_jobs db' = map (event_row e db) (crawl_jobs db)" using same by (simp add: map_idI)
    then show ?thesis by (rule mapped)
  next
    case insert
    from phase_at_insert[OF insert(1), of i] insert(2,3) show ?thesis by auto
  next
    case rows
    then show ?thesis by (rule mapped)
  qed
qed

lemma queue_refines_retry_machine_witness:
  "phase_at example_queue 2 = Some (Waiting 3) \<and>
   phase_at (apply_event (Ev_claim ''w'' None [] 9) example_queue) 2 = Some (Running 3) \<and>
   phase_step (action_of (Ev_claim ''w'' None [] 9)) (Waiting 3) (Running 3)"
proof -
  let ?e = "Ev_claim ''w'' None [] 9"
  have start: "phase_at example_queue 2 = Some (Waiting 3)" by code_simp
  have run: "phase_at (apply_event ?e example_queue) 2 = Some (Running 3)" by code_simp
  have "queue_inv example_queue" by code_simp
  moreover have "queue_step ?e example_queue (apply_event ?e example_queue)"
    by (rule queue_step.intros) simp
  ultimately have "phase_at (apply_event ?e example_queue) 2 = phase_at example_queue 2 \<and>
       (phase_at example_queue 2 = None \<or> \<not> reports_on ?e 2) \<or>
     (\<exists>p q. phase_at example_queue 2 = Some p \<and> phase_at (apply_event ?e example_queue) 2 = Some q \<and>
        (phase_step (action_of ?e) p q \<or> late_report ?e 2 p q)) \<or>
     phase_at example_queue 2 = None \<and> action_of ?e = A_none \<and> (\<exists>n. phase_at (apply_event ?e example_queue) 2 = Some (Waiting n))"
    by (rule queue_refines_retry_machine)
  moreover have "\<not> late_report ?e 2 p q" for p q by (simp add: late_report_def)
  ultimately show ?thesis using start run by fastforce
qed


section \<open>Late reports\<close>

text \<open>A late report brings a cancelled job back. A worker claims a job, an operator cancels
  the run, which marks the job and the run cancelled, and then the worker reports its failure:
  the job waits again although its run is cancelled, and the next worker runs it.\<close>

theorem cancelled_job_requeued:
  "(let db1 = apply_event (Ev_claim ''a'' None [] 9) example_queue;
        db2 = apply_event (Ev_cancel (example_run 2 8) 10) db1;
        db3 = apply_event (Ev_fail 2 (Some ''timeout'') 11 None) db2
    in (phase_at db1 2, phase_at db2 2, phase_at db3 2) =
         (Some (Running 3), Some Withdrawn, Some (Waiting 2)) \<and>
       map_option run_state (find_row run_id 2 (crawl_runs db3)) = Some RS_cancelled \<and>
       map_option job_id (fst (claim_job ''b'' None [] (11 + 60 * second_us) db3)) = Some 2)"
  by code_simp

end
