(* ===== verification/CrawlSchedule.thy ===== *)
theory CrawlSchedule
  imports CrawlRuns
begin

text \<open>
  The crawl scheduler, \<open>ingestion/scheduler.py\<close>. The result of the advisory lock
  (\<open>pg_try_advisory_xact_lock\<close>) is an argument of a pass. The report lists the ids of the runs in
  place of their public UUIDs. Tables of retailers and stores are read only.
\<close>


section \<open>Policies\<close>

record frequency_config =
  fc_run_types :: "run_type list"
  fc_cadence_days :: "(run_type, int) dict"
  fc_default_cadence :: int
  fc_priority :: int
  fc_max_attempts :: int

definition default_frequency :: frequency_config where
  "default_frequency =
     \<lparr>fc_run_types = [RT_discovery, RT_catalog, RT_prices, RT_offers],
      fc_cadence_days = [(RT_discovery, 7), (RT_catalog, 3), (RT_prices, 1), (RT_offers, 1)],
      fc_default_cadence = 1, fc_priority = 0, fc_max_attempts = 3\<rparr>"

definition cadence_for :: "frequency_config \<Rightarrow> run_type \<Rightarrow> int" where
  "cadence_for cfg t = dget (fc_cadence_days cfg) t (fc_default_cadence cfg)"

definition mercadona_monthly :: frequency_config where
  "mercadona_monthly =
     \<lparr>fc_run_types = [RT_catalog, RT_prices], fc_cadence_days = [(RT_catalog, 30), (RT_prices, 30)],
      fc_default_cadence = 30, fc_priority = 0, fc_max_attempts = 3\<rparr>"

definition dia_monthly :: frequency_config where
  "dia_monthly =
     \<lparr>fc_run_types = [RT_catalog, RT_prices], fc_cadence_days = [(RT_catalog, 30), (RT_prices, 30)],
      fc_default_cadence = 30, fc_priority = 0, fc_max_attempts = 3\<rparr>"

record scheduler_config =
  sc_default :: frequency_config
  sc_per_retailer :: "(string, frequency_config) dict"

definition default_scheduler :: scheduler_config where
  "default_scheduler =
     \<lparr>sc_default = default_frequency,
      sc_per_retailer = [(''mercadona'', mercadona_monthly), (''dia'', dia_monthly)]\<rparr>"

definition for_retailer :: "scheduler_config \<Rightarrow> string \<Rightarrow> frequency_config" where
  "for_retailer sc slug = dget (sc_per_retailer sc) slug (sc_default sc)"

record schedule_report =
  sr_acquired_lock :: bool
  sr_runs_created :: nat
  sr_jobs_created :: nat
  sr_skipped_existing :: nat
  sr_skipped_retailers :: nat
  sr_run_ids :: "int list"

definition empty_report :: schedule_report where
  "empty_report = \<lparr>sr_acquired_lock = True, sr_runs_created = 0, sr_jobs_created = 0,
     sr_skipped_existing = 0, sr_skipped_retailers = 0, sr_run_ids = []\<rparr>"


section \<open>Queries\<close>

definition schedule_key :: "string \<Rightarrow> int option \<Rightarrow> run_type \<Rightarrow> int \<Rightarrow> string" where
  "schedule_key slug store_id kind day =
     slug @ '':'' @ (case store_id of None \<Rightarrow> ''None'' | Some i \<Rightarrow> int_str i) @ '':'' @
     run_type_value kind @ '':'' @ iso_date day"

definition recent_cutoff :: "int \<Rightarrow> time \<Rightarrow> time" where
  "recent_cutoff cadence now = start_of_day now - max 0 (cadence - 1) * day_us"

definition recent_run_exists :: "db \<Rightarrow> int \<Rightarrow> int option \<Rightarrow> run_type \<Rightarrow> int \<Rightarrow> time \<Rightarrow> bool" where
  "recent_run_exists db retailer_id store_id kind cadence now =
     list_ex (\<lambda>r. run_retailer r = retailer_id \<and> run_kind r = kind \<and>
         (case run_scheduled_at r of None \<Rightarrow> False | Some t \<Rightarrow> recent_cutoff cadence now \<le> t) \<and>
         run_store r = store_id) (crawl_runs db)"

definition active_retailers :: "db \<Rightarrow> retailer list" where
  "active_retailers db = sort_key ret_id (filter ret_active (retailers db))"

definition stores_for :: "db \<Rightarrow> retailer \<Rightarrow> store option list" where
  "stores_for db r =
     (case sort_key sto_id (filter (\<lambda>s. sto_retailer s = ret_id r \<and> sto_active s) (stores db)) of
        [] \<Rightarrow> [None] | ss \<Rightarrow> map Some ss)"

definition usable_connector :: "time \<Rightarrow> connector_state \<Rightarrow> bool" where
  "usable_connector now c =
     (let blocked_status = cst_status c \<in> {CS_disabled, CS_unsupported};
          circuit_open = (case cst_circuit_open_until c of None \<Rightarrow> False | Some t \<Rightarrow> now < t)
      in \<not> blocked_status \<and> \<not> circuit_open)"

definition connector_blocked :: "db \<Rightarrow> int \<Rightarrow> time \<Rightarrow> bool" where
  "connector_blocked db retailer_id now =
     (let states = filter (\<lambda>c. cst_retailer c = retailer_id) (connector_states db)
      in states \<noteq> [] \<and> \<not> list_ex (usable_connector now) states)"


section \<open>Scheduling\<close>

definition schedule_run ::
  "retailer \<Rightarrow> int option \<Rightarrow> frequency_config \<Rightarrow> time \<Rightarrow> bool \<Rightarrow> run_type
     \<Rightarrow> schedule_report \<times> db \<Rightarrow> schedule_report \<times> db" where
  "schedule_run r store_id cfg now force kind st =
     (case st of (report, db) \<Rightarrow>
        if \<not> force \<and> recent_run_exists db (ret_id r) store_id kind (cadence_for cfg kind) now
        then (report\<lparr>sr_skipped_existing := sr_skipped_existing report + 1\<rparr>, db)
        else let (run, db) = create_run (ret_id r) kind store_id (Some now) None None RS_queued now db;
                 spec = \<lparr>spec_type = run_type_value kind,
                         spec_payload = Some [(''retailer_slug'', JStr (ret_slug r)),
                           (''store_id'', case store_id of None \<Rightarrow> JNull | Some i \<Rightarrow> JInt i),
                           (''run_type'', JStr (run_type_value kind))],
                         spec_priority = fc_priority cfg, spec_max_attempts = fc_max_attempts cfg,
                         spec_key = Some (schedule_key (ret_slug r) store_id kind (day_of now))\<rparr>;
                 (_, db) = enqueue_jobs run [spec] now db
             in (report\<lparr>sr_runs_created := sr_runs_created report + 1,
                        sr_jobs_created := sr_jobs_created report + 1,
                        sr_run_ids := sr_run_ids report @ [run_id run]\<rparr>, db))"

definition schedule_store_runs ::
  "retailer \<Rightarrow> frequency_config \<Rightarrow> time \<Rightarrow> bool \<Rightarrow> store option
     \<Rightarrow> schedule_report \<times> db \<Rightarrow> schedule_report \<times> db" where
  "schedule_store_runs r cfg now force store st =
     fold (schedule_run r (map_option sto_id store) cfg now force) (fc_run_types cfg) st"

definition schedule_one ::
  "scheduler_config \<Rightarrow> time \<Rightarrow> retailer \<Rightarrow> schedule_report \<times> db \<Rightarrow> schedule_report \<times> db" where
  "schedule_one sc now r st =
     (case st of (report, db) \<Rightarrow>
        if connector_blocked db (ret_id r) now
        then (report\<lparr>sr_skipped_retailers := sr_skipped_retailers report + 1\<rparr>, db)
        else fold (schedule_store_runs r (for_retailer sc (ret_slug r)) now False)
               (stores_for db r) (report, db))"

definition schedule_daily :: "scheduler_config \<Rightarrow> bool \<Rightarrow> time \<Rightarrow> db \<Rightarrow> schedule_report \<times> db" where
  "schedule_daily sc acquired now db =
     (if \<not> acquired then (empty_report\<lparr>sr_acquired_lock := False\<rparr>, db)
      else fold (schedule_one sc now) (active_retailers db) (empty_report, db))"

definition schedule_retailer ::
  "scheduler_config \<Rightarrow> retailer \<Rightarrow> bool \<Rightarrow> time \<Rightarrow> db \<Rightarrow> schedule_report \<times> db" where
  "schedule_retailer sc r force now db =
     fold (schedule_store_runs r (for_retailer sc (ret_slug r)) now force) (stores_for db r)
       (empty_report, db)"

definition schedule_store ::
  "scheduler_config \<Rightarrow> store \<Rightarrow> bool \<Rightarrow> time \<Rightarrow> db \<Rightarrow> schedule_report \<times> db" where
  "schedule_store sc s force now db =
     (case find_row ret_id (sto_retailer s) (retailers db) of
        None \<Rightarrow> (empty_report, db)
      | Some r \<Rightarrow> schedule_store_runs r (for_retailer sc (ret_slug r)) now force (Some s) (empty_report, db))"


section \<open>One run type\<close>

text \<open>What scheduling leaves alone, and what it appends.\<close>

definition same_frame :: "db \<Rightarrow> db \<Rightarrow> bool" where
  "same_frame db db' = (retailers db' = retailers db \<and> stores db' = stores db \<and>
     connector_states db' = connector_states db)"

lemma same_frame_refl [simp]: "same_frame db db"
  by (simp add: same_frame_def)

lemma same_frame_trans: "same_frame a b \<Longrightarrow> same_frame b c \<Longrightarrow> same_frame a c"
  by (simp add: same_frame_def)

lemma enqueue_job_frame:
  assumes "enqueue_job r k p pr m t ik now db = (j, db')"
  shows "same_frame db db'" and "crawl_runs db' = crawl_runs db"
proof -
  have "same_frame db (snd (enqueue_job r k p pr m t ik now db)) \<and>
      crawl_runs (snd (enqueue_job r k p pr m t ik now db)) = crawl_runs db"
    by (cases rule: enqueue_job_cases[of db r k p pr m t ik now])
      (simp_all add: insert_job_def same_frame_def Let_def)
  then show "same_frame db db'" "crawl_runs db' = crawl_runs db" by (simp_all add: assms)
qed

lemma schedule_run_cases:
  obtains (skip) "\<not> force" "recent_run_exists db (ret_id r) sid kind (cadence_for cfg kind) now"
      "schedule_run r sid cfg now force kind (rep, db) = (rep\<lparr>sr_skipped_existing := sr_skipped_existing rep + 1\<rparr>, db)"
  | (create) run rep' db' where "force \<or> \<not> recent_run_exists db (ret_id r) sid kind (cadence_for cfg kind) now"
      "schedule_run r sid cfg now force kind (rep, db) = (rep', db')"
      "same_frame db db'" "crawl_runs db' = crawl_runs db @ [run]"
      "run_retailer run = ret_id r" "run_store run = sid" "run_kind run = kind"
      "run_scheduled_at run = Some now" "sr_runs_created rep' = sr_runs_created rep + 1"
proof (cases "\<not> force \<and> recent_run_exists db (ret_id r) sid kind (cadence_for cfg kind) now")
  case True
  then show thesis by (intro skip) (simp_all add: schedule_run_def)
next
  case False
  define run db1 where "run = fst (create_run (ret_id r) kind sid (Some now) None None RS_queued now db)"
    and "db1 = snd (create_run (ret_id r) kind sid (Some now) None None RS_queued now db)"
  obtain rep' db' where st: "schedule_run r sid cfg now force kind (rep, db) = (rep', db')"
    by (cases "schedule_run r sid cfg now force kind (rep, db)")
  obtain p pr m ik j where enq: "enqueue_job (run_id run) (run_type_value kind) p pr m None ik now db1 = (j, db')"
      and rep': "sr_runs_created rep' = sr_runs_created rep + 1"
    using st False by (auto simp: schedule_run_def run_def db1_def split: prod.splits)
  have db1: "same_frame db db1" "crawl_runs db1 = crawl_runs db @ [run]"
    by (simp_all add: db1_def run_def create_run_def same_frame_def Let_def)
  have run: "run_retailer run = ret_id r" "run_store run = sid" "run_kind run = kind" "run_scheduled_at run = Some now"
    by (simp_all add: run_def create_run_def Let_def)
  show thesis
  proof (rule create[OF _ st _ _ run rep'])
    show "force \<or> \<not> recent_run_exists db (ret_id r) sid kind (cadence_for cfg kind) now" using False by blast
    show "same_frame db db'" using db1(1) enqueue_job_frame(1)[OF enq] by (rule same_frame_trans)
    show "crawl_runs db' = crawl_runs db @ [run]" using db1(2) enqueue_job_frame(2)[OF enq] by simp
  qed
qed


section \<open>A pass is idempotent\<close>

definition covered :: "scheduler_config \<Rightarrow> time \<Rightarrow> retailer \<Rightarrow> store option \<Rightarrow> run_type \<Rightarrow> db \<Rightarrow> bool" where
  "covered sc now r store kind db =
     recent_run_exists db (ret_id r) (map_option sto_id store) kind
       (cadence_for (for_retailer sc (ret_slug r)) kind) now"

text \<open>Every scope of a retailer that is not blocked has a run inside its window.\<close>

definition retailer_covered :: "scheduler_config \<Rightarrow> time \<Rightarrow> retailer \<Rightarrow> db \<Rightarrow> bool" where
  "retailer_covered sc now r db =
     (connector_blocked db (ret_id r) now \<or>
      (\<forall>store\<in>set (stores_for db r). \<forall>kind\<in>set (fc_run_types (for_retailer sc (ret_slug r))).
         covered sc now r store kind db))"

lemma recent_cutoff_le: "recent_cutoff c now \<le> now"
proof -
  have "0 \<le> max 0 (c - 1) * day_us" by (simp add: day_us_def)
  with start_of_day_le[of now] show ?thesis by (simp add: recent_cutoff_def)
qed

lemma recent_run_same_day:
  assumes "day_of now2 = day_of now1"
  shows "recent_run_exists db r sid k c now2 = recent_run_exists db r sid k c now1"
  unfolding recent_run_exists_def recent_cutoff_def start_of_day_def assms ..

lemma recent_run_append:
  "recent_run_exists db r sid k c now \<Longrightarrow> crawl_runs db' = crawl_runs db @ rs \<Longrightarrow>
     recent_run_exists db' r sid k c now"
  by (simp add: recent_run_exists_def)

lemma same_frame_blocked: "same_frame db db' \<Longrightarrow> connector_blocked db' r now = connector_blocked db r now"
  by (simp add: same_frame_def connector_blocked_def)

lemma same_frame_stores: "same_frame db db' \<Longrightarrow> stores_for db' r = stores_for db r"
  by (simp add: same_frame_def stores_for_def)

lemma same_frame_active: "same_frame db db' \<Longrightarrow> active_retailers db' = active_retailers db"
  by (simp add: same_frame_def active_retailers_def)

text \<open>A growing database: the frame is kept and runs are only appended.\<close>

definition grows :: "db \<Rightarrow> db \<Rightarrow> bool" where
  "grows db db' = (same_frame db db' \<and> (\<exists>rs. crawl_runs db' = crawl_runs db @ rs))"

lemma grows_refl [simp]: "grows db db"
  by (simp add: grows_def)

lemma grows_trans: "grows a b \<Longrightarrow> grows b c \<Longrightarrow> grows a c"
  unfolding grows_def using same_frame_trans append.assoc by metis

lemma grows_fold:
  assumes "\<And>x st. x \<in> set xs \<Longrightarrow> grows (snd st) (snd (f x st))"
  shows "grows (snd st) (snd (fold f xs st))"
  using assms
proof (induction xs arbitrary: st)
  case Nil
  then show ?case by simp
next
  case (Cons x xs)
  have "grows (snd st) (snd (f x st))" using Cons.prems by simp
  moreover have "grows (snd (f x st)) (snd (fold f xs (f x st)))" using Cons by simp
  ultimately show ?case by (simp add: grows_trans)
qed

lemma schedule_run_grows: "grows (snd st) (snd (schedule_run r sid cfg now force kind st))"
proof (cases st)
  case (Pair rep db)
  show ?thesis
    by (cases rule: schedule_run_cases[of force db r sid kind cfg now rep]) (simp_all add: Pair grows_def)
qed

lemma schedule_store_grows: "grows (snd st) (snd (schedule_store_runs r cfg now force store st))"
  unfolding schedule_store_runs_def by (rule grows_fold) (rule schedule_run_grows)

lemma schedule_one_grows: "grows (snd st) (snd (schedule_one sc now r st))"
proof (cases st)
  case (Pair rep db)
  have "grows (snd st) (snd (fold (schedule_store_runs r cfg now False) ss st))" for cfg ss
    by (rule grows_fold) (rule schedule_store_grows)
  then show ?thesis by (simp add: schedule_one_def Pair)
qed

lemma fold_establishes:
  assumes "\<And>x st. x \<in> set xs \<Longrightarrow> Q x (f x st)"
    and "\<And>x y st. x \<in> set xs \<Longrightarrow> y \<in> set xs \<Longrightarrow> Q x st \<Longrightarrow> Q x (f y st)"
  shows "\<forall>x\<in>set xs. Q x (fold f xs st)"
  using assms
proof (induction xs arbitrary: st)
  case Nil
  then show ?case by simp
next
  case (Cons x xs)
  have "Q x (fold f ys (f x st))" if "set ys \<subseteq> set (x # xs)" for ys
    using that Cons.prems by (induction ys rule: rev_induct) auto
  moreover have "\<forall>y\<in>set xs. Q y (fold f xs (f x st))" using Cons by auto
  ultimately show ?case by auto
qed

lemma covered_run:
  "covered sc now r store kind
     (snd (schedule_run r (map_option sto_id store) (for_retailer sc (ret_slug r)) now False kind st))"
proof (cases st)
  case (Pair rep db)
  show ?thesis
  proof (cases rule: schedule_run_cases[of False db r "map_option sto_id store" kind
        "for_retailer sc (ret_slug r)" now rep])
    case skip
    then show ?thesis by (simp add: Pair covered_def)
  next
    case (create run rep' db')
    then show ?thesis using recent_cutoff_le by (simp add: Pair covered_def recent_run_exists_def)
  qed
qed

lemma covered_grows: "covered sc now r store kind db \<Longrightarrow> grows db db' \<Longrightarrow> covered sc now r store kind db'"
  unfolding covered_def grows_def by (blast intro: recent_run_append)

lemma covered_store:
  "\<forall>kind\<in>set (fc_run_types (for_retailer sc (ret_slug r))).
     covered sc now r store kind (snd (schedule_store_runs r (for_retailer sc (ret_slug r)) now False store st))"
  unfolding schedule_store_runs_def
  by (rule fold_establishes) (auto intro: covered_run covered_grows schedule_run_grows)

lemma retailer_covered_grows:
  "retailer_covered sc now r db \<Longrightarrow> grows db db' \<Longrightarrow> retailer_covered sc now r db'"
proof -
  assume cov: "retailer_covered sc now r db" and gr: "grows db db'"
  then have "same_frame db db'" by (simp add: grows_def)
  then show ?thesis using cov covered_grows[OF _ gr]
    by (auto simp: retailer_covered_def same_frame_blocked same_frame_stores)
qed

lemma retailer_covered_one: "retailer_covered sc now r (snd (schedule_one sc now r st))"
proof (cases st)
  case (Pair rep db)
  let ?cfg = "for_retailer sc (ret_slug r)"
  show ?thesis
  proof (cases "connector_blocked db (ret_id r) now")
    case True
    then show ?thesis by (simp add: Pair schedule_one_def retailer_covered_def)
  next
    case False
    let ?st = "fold (schedule_store_runs r ?cfg now False) (stores_for db r) (rep, db)"
    have "\<forall>store\<in>set (stores_for db r). \<forall>kind\<in>set (fc_run_types ?cfg). covered sc now r store kind (snd ?st)"
      by (rule fold_establishes[where Q = "\<lambda>store st. \<forall>kind\<in>set (fc_run_types ?cfg). covered sc now r store kind (snd st)"])
        (use covered_store covered_grows schedule_store_grows in blast)+
    moreover have "stores_for (snd ?st) r = stores_for db r"
      using grows_fold[of "stores_for db r" "schedule_store_runs r ?cfg now False" "(rep, db)"]
        schedule_store_grows same_frame_stores by (metis grows_def snd_conv)
    ultimately show ?thesis using False by (simp add: Pair schedule_one_def retailer_covered_def)
  qed
qed

definition no_news :: "db \<Rightarrow> schedule_report \<times> db \<Rightarrow> bool" where
  "no_news db st = (snd st = db \<and> sr_runs_created (fst st) = 0 \<and> sr_jobs_created (fst st) = 0 \<and>
     sr_run_ids (fst st) = [])"

lemma no_news_run:
  assumes "no_news db st" and "covered sc now r store kind db"
  shows "no_news db (schedule_run r (map_option sto_id store) (for_retailer sc (ret_slug r)) now False kind st)"
proof -
  obtain rep where st: "st = (rep, db)" using assms(1) by (cases st) (auto simp: no_news_def)
  show ?thesis
  proof (cases rule: schedule_run_cases[of False db r "map_option sto_id store" kind
        "for_retailer sc (ret_slug r)" now rep])
    case skip
    with assms(1) show ?thesis by (simp add: st no_news_def)
  next
    case (create run rep' db')
    with assms(2) show ?thesis by (simp add: covered_def)
  qed
qed

lemma no_news_one:
  assumes "no_news db st" and "retailer_covered sc now r db"
  shows "no_news db (schedule_one sc now r st)"
proof (cases st)
  case (Pair rep db0)
  with assms(1) have db0: "db0 = db" by (simp add: no_news_def)
  let ?cfg = "for_retailer sc (ret_slug r)"
  show ?thesis
  proof (cases "connector_blocked db (ret_id r) now")
    case True
    with assms(1) show ?thesis by (simp add: Pair db0 schedule_one_def no_news_def)
  next
    case False
    with assms(2) have cov: "\<forall>store\<in>set (stores_for db r). \<forall>kind\<in>set (fc_run_types ?cfg). covered sc now r store kind db"
      by (simp add: retailer_covered_def)
    have "no_news db (schedule_store_runs r ?cfg now False store st)"
      if "no_news db st" "store \<in> set (stores_for db r)" for store st
      unfolding schedule_store_runs_def
      by (rule fold_invariant[where Q = "\<lambda>kind. kind \<in> set (fc_run_types ?cfg)"])
        (use that cov in \<open>auto intro: no_news_run\<close>)
    then have "no_news db (fold (schedule_store_runs r ?cfg now False) (stores_for db r) st)"
      using assms(1)
      by (intro fold_invariant[where Q = "\<lambda>store. store \<in> set (stores_for db r)" and P = "no_news db"])
    then show ?thesis using False by (simp add: Pair db0 schedule_one_def)
  qed
qed

text \<open>Scheduling twice a day creates the work once. After a pass every run type of every
  scope of an active retailer that is not blocked has a run inside its window; a second pass on
  the same day, if no circuit has closed in between, creates no run and no job and leaves the
  database as it is.\<close>

theorem schedule_daily_idempotent:
  assumes pass: "schedule_daily sc True now1 db = (rep1, db1)"
    and "day_of now2 = day_of now1"
    and "\<forall>r\<in>set (retailers db). connector_blocked db (ret_id r) now1 \<longrightarrow> connector_blocked db (ret_id r) now2"
  shows "(\<forall>r\<in>set (active_retailers db). retailer_covered sc now1 r db1) \<and>
    snd (schedule_daily sc True now2 db1) = db1 \<and>
    sr_runs_created (fst (schedule_daily sc True now2 db1)) = 0 \<and>
    sr_jobs_created (fst (schedule_daily sc True now2 db1)) = 0"
proof -
  have db1: "db1 = snd (fold (schedule_one sc now1) (active_retailers db) (empty_report, db))"
    using pass by (simp add: schedule_daily_def)
  have "grows db db1" unfolding db1
    using grows_fold[of _ "schedule_one sc now1" "(empty_report, db)"] schedule_one_grows by simp
  then have frame: "same_frame db db1" by (simp add: grows_def)
  have cov: "\<forall>r\<in>set (active_retailers db). retailer_covered sc now1 r db1"
    unfolding db1
    by (rule fold_establishes[where Q = "\<lambda>r st. retailer_covered sc now1 r (snd st)"])
      (use retailer_covered_one retailer_covered_grows schedule_one_grows in blast)+
  have cov2: "retailer_covered sc now2 r db1" if r: "r \<in> set (active_retailers db)" for r
  proof -
    from r have "r \<in> set (retailers db)" by (simp add: active_retailers_def)
    with assms(3) have "connector_blocked db1 (ret_id r) now1 \<Longrightarrow> connector_blocked db1 (ret_id r) now2"
      by (simp add: same_frame_blocked[OF frame])
    moreover have "covered sc now2 r store kind db1 = covered sc now1 r store kind db1" for store kind
      by (simp add: covered_def recent_run_same_day[OF assms(2)])
    ultimately show ?thesis using cov r by (auto simp: retailer_covered_def)
  qed
  have "no_news db1 (fold (schedule_one sc now2) (active_retailers db1) (empty_report, db1))"
    by (rule fold_invariant[where Q = "\<lambda>r. r \<in> set (active_retailers db)"])
      (use cov2 no_news_one in \<open>auto simp: no_news_def empty_report_def same_frame_active[OF frame]\<close>)
  with cov show ?thesis by (simp add: schedule_daily_def no_news_def)
qed


text \<open>A chain with the monthly policy and one shop.\<close>

definition example_store :: store where
  "example_store = \<lparr>sto_id = 5, sto_retailer = 7, sto_active = True, sto_postal_code = None\<rparr>"

definition example_market :: db where
  "example_market = empty_db\<lparr>retailers := [\<lparr>ret_id = 7, ret_slug = ''mercadona'', ret_active = True, ret_name = ''Mercadona''\<rparr>],
     stores := [example_store]\<rparr>"

definition example_day :: "int \<Rightarrow> time" where
  "example_day d = (20000 + d) * day_us + 6 * 3600 * second_us"

lemma schedule_daily_idempotent_witness:
  "sr_runs_created (fst (schedule_daily default_scheduler True (example_day 0) example_market)) = 2 \<and>
   sr_runs_created (fst (schedule_daily default_scheduler True (example_day 0 + second_us)
     (snd (schedule_daily default_scheduler True (example_day 0) example_market)))) = 0"
proof -
  let ?pass = "schedule_daily default_scheduler True (example_day 0) example_market"
  have "?pass = (fst ?pass, snd ?pass)" by simp
  moreover have "day_of (example_day 0 + second_us) = day_of (example_day 0)" by code_simp
  moreover have "\<forall>r\<in>set (retailers example_market).
     connector_blocked example_market (ret_id r) (example_day 0) \<longrightarrow>
     connector_blocked example_market (ret_id r) (example_day 0 + second_us)"
    by (simp add: example_market_def connector_blocked_def empty_db_def)
  ultimately have "sr_runs_created (fst (schedule_daily default_scheduler True (example_day 0 + second_us) (snd ?pass))) = 0"
    using schedule_daily_idempotent by blast
  moreover have "sr_runs_created (fst ?pass) = 2" by code_simp
  ultimately show ?thesis by simp
qed


section \<open>The courtesy of the cadence\<close>

text \<open>
  The scheduler in the life of the system: passes at any time, with or without the lock, and
  everything else that happens to the database, as long as retailers and the identity of runs
  stay.
\<close>

definition run_identity :: "crawl_run \<Rightarrow> int \<times> int option \<times> run_type \<times> time option" where
  "run_identity run = (run_retailer run, run_store run, run_kind run, run_scheduled_at run)"

datatype schedule_event = Ev_pass bool time | Ev_other db

inductive schedule_step :: "scheduler_config \<Rightarrow> schedule_event \<Rightarrow> db \<Rightarrow> db \<Rightarrow> bool" for sc where
  "schedule_step sc (Ev_pass acquired now) db (snd (schedule_daily sc acquired now db))"
| "retailers db' = retailers db \<Longrightarrow> map run_identity (crawl_runs db') = map run_identity (crawl_runs db) \<Longrightarrow>
     schedule_step sc (Ev_other db') db db'"

definition no_runs :: "db \<Rightarrow> bool" where
  "no_runs db = (crawl_runs db = [] \<and> keys_ok ret_id (retailers db))"

text \<open>The cadence in force for a retailer and a run type.\<close>

definition cadence_of :: "scheduler_config \<Rightarrow> db \<Rightarrow> int \<Rightarrow> run_type \<Rightarrow> int" where
  "cadence_of sc db retailer_id kind =
     (case find_row ret_id retailer_id (retailers db) of None \<Rightarrow> 0
      | Some r \<Rightarrow> cadence_for (for_retailer sc (ret_slug r)) kind)"

definition spaced_pair ::
  "scheduler_config \<Rightarrow> db \<Rightarrow> int \<times> int option \<times> run_type \<times> time option
     \<Rightarrow> int \<times> int option \<times> run_type \<times> time option \<Rightarrow> bool" where
  "spaced_pair sc db a b =
     (case (a, b) of ((ra, sa, ka, ta), (rb, sb, kb, tb)) \<Rightarrow>
        ra = rb \<and> sa = sb \<and> ka = kb \<longrightarrow>
        (case (ta, tb) of (Some t, Some u) \<Rightarrow> day_of t + max 1 (cadence_of sc db rb kb) \<le> day_of u
         | _ \<Rightarrow> False))"

definition spaced :: "scheduler_config \<Rightarrow> db \<Rightarrow> bool" where
  "spaced sc db =
     (keys_ok ret_id (retailers db) \<and> list_all (\<lambda>run. run_scheduled_at run \<noteq> None) (crawl_runs db) \<and>
      sorted_wrt (spaced_pair sc db) (map run_identity (crawl_runs db)))"

lemma day_before_cutoff: "t < recent_cutoff c now \<Longrightarrow> day_of t + max 1 c \<le> day_of now"
proof -
  assume "t < recent_cutoff c now"
  then have "t < (day_of now - max 0 (c - 1)) * day_us"
    by (simp add: recent_cutoff_def start_of_day_def left_diff_distrib)
  moreover have "day_of t * day_us \<le> t" using start_of_day_le[of t] by (simp add: start_of_day_def)
  ultimately have "day_of t * day_us < (day_of now - max 0 (c - 1)) * day_us" by (rule order_le_less_trans[rotated])
  then have "day_of t < day_of now - max 0 (c - 1)" by (simp only: mult_less_cancel_right) (simp add: day_us_def)
  then show ?thesis by linarith
qed

lemma spaced_pair_cong:
  assumes "retailers db' = retailers db"
  shows "spaced_pair sc db' = spaced_pair sc db"
proof (intro ext)
  fix a b
  show "spaced_pair sc db' a b = spaced_pair sc db a b"
    unfolding spaced_pair_def cadence_of_def assms ..
qed

lemma spaced_run:
  assumes "spaced sc db" and r: "r \<in> set (retailers db)"
  shows "spaced sc (snd (schedule_run r sid (for_retailer sc (ret_slug r)) now False kind (rep, db)))"
proof (cases rule: schedule_run_cases[of False db r sid kind "for_retailer sc (ret_slug r)" now rep])
  case skip
  then show ?thesis using assms(1) by simp
next
  case (create run rep' db')
  have ret: "retailers db' = retailers db" using create(3) by (simp add: same_frame_def)
  from ret have pair: "spaced_pair sc db' = spaced_pair sc db" by (rule spaced_pair_cong)
  have own: "cadence_of sc db (ret_id r) kind = cadence_for (for_retailer sc (ret_slug r)) kind"
    using assms find_row_keys_ok[of ret_id "retailers db" r] by (simp add: cadence_of_def spaced_def)
  have "spaced_pair sc db (run_identity old) (run_identity run)" if old: "old \<in> set (crawl_runs db)" for old
  proof (cases "run_retailer old = ret_id r \<and> run_store old = sid \<and> run_kind old = kind")
    case True
    from assms(1) old obtain t where t: "run_scheduled_at old = Some t"
      by (auto simp: spaced_def list_all_iff)
    with True old create(1) have "t < recent_cutoff (cadence_for (for_retailer sc (ret_slug r)) kind) now"
      by (auto simp: recent_run_exists_def list_ex_iff)
    with day_before_cutoff[OF this] True t show ?thesis
      by (simp add: spaced_pair_def run_identity_def create(5-8) own)
  next
    case False
    then show ?thesis by (auto simp: spaced_pair_def run_identity_def create(5-8))
  qed
  then show ?thesis using assms(1)
    by (simp add: create(2,4,8) spaced_def ret pair sorted_wrt_append)
qed

lemma spaced_pass: "spaced sc db \<Longrightarrow> spaced sc (snd (schedule_daily sc acquired now db))"
proof (cases acquired)
  case True
  assume sp: "spaced sc db"
  define I where "I = (\<lambda>st :: schedule_report \<times> db. spaced sc (snd st) \<and> retailers (snd st) = retailers db)"
  have run: "I (schedule_run r sid (for_retailer sc (ret_slug r)) now False kind st)"
    if "I st" "r \<in> set (retailers db)" for r sid kind st
    using that spaced_run[of sc "snd st" r sid now kind "fst st"]
      schedule_run_grows[of st r sid "for_retailer sc (ret_slug r)" now False kind]
    by (simp add: I_def grows_def same_frame_def)
  have store: "I (schedule_store_runs r (for_retailer sc (ret_slug r)) now False store st)"
    if "I st" "r \<in> set (retailers db)" for r store st
    unfolding schedule_store_runs_def using that
    by (intro fold_invariant[where Q = "\<lambda>_. True" and P = I]) (auto intro: run)
  have one: "I (schedule_one sc now r st)" if "I st" "r \<in> set (retailers db)" for r st
  proof (cases st)
    case (Pair rep db1)
    have "I (fold (schedule_store_runs r (for_retailer sc (ret_slug r)) now False) ss st)" for ss
      using that by (intro fold_invariant[where Q = "\<lambda>_. True" and P = I]) (auto intro: store)
    then show ?thesis using that by (simp add: schedule_one_def Pair I_def)
  qed
  have "I (empty_report, db)" using sp by (simp add: I_def)
  then have "I (fold (schedule_one sc now) (active_retailers db) (empty_report, db))"
    by (intro fold_invariant[where Q = "\<lambda>r. r \<in> set (retailers db)" and P = I])
      (auto intro: one simp: active_retailers_def)
  then show ?thesis using True by (simp add: schedule_daily_def I_def)
qed (simp add: schedule_daily_def)

lemma spaced_other:
  assumes "spaced sc db" and "retailers db' = retailers db"
    and "map run_identity (crawl_runs db') = map run_identity (crawl_runs db)"
  shows "spaced sc db'"
proof -
  from assms(2) have pair: "spaced_pair sc db' = spaced_pair sc db" by (rule spaced_pair_cong)
  have "list_all (\<lambda>run. run_scheduled_at run \<noteq> None) (crawl_runs x) \<longleftrightarrow>
     list_all (\<lambda>i. snd (snd (snd i)) \<noteq> None) (map run_identity (crawl_runs x))" for x
    by (simp add: list_all_iff run_identity_def)
  note scheduled = this[of db] this[of db']
  show ?thesis using assms(1) unfolding spaced_def scheduled pair assms(2,3) .
qed

interpretation schedule: invariant_system no_runs "schedule_step sc" "spaced sc" for sc
proof unfold_locales
  show "spaced sc db" if "no_runs db" for db
    using that by (simp add: no_runs_def spaced_def)
  show "spaced sc db'" if "spaced sc db" and "schedule_step sc e db db'" for e db db'
    using that(2,1) by cases (auto intro: spaced_pass spaced_other)
qed

text \<open>C33 The cadence is honoured over the whole history. However often and whenever the daily
  pass runs, two runs of the same retailer, store and type are at least the retailer's cadence
  (and never less than one) in calendar days apart, the later one being later in the table; with
  the shipped configuration the chains with the monthly policy get no catalogue or price crawl
  more often than every 30 days.\<close>

theorem cadence_honoured:
  assumes "reachable no_runs (schedule_step sc) db"
    and "i < j" and "j < length (crawl_runs db)"
    and "a = crawl_runs db ! i" and "b = crawl_runs db ! j"
    and "run_retailer a = run_retailer b" and "run_store a = run_store b" and "run_kind a = run_kind b"
  shows "\<exists>t u. run_scheduled_at a = Some t \<and> run_scheduled_at b = Some u \<and>
      day_of t + max 1 (cadence_of sc db (run_retailer b) (run_kind b)) \<le> day_of u \<and>
      (sc = default_scheduler \<and> run_kind b \<in> {RT_catalog, RT_prices} \<and>
       find_row ret_id (run_retailer b) (retailers db) = Some r \<and> ret_slug r \<in> {''mercadona'', ''dia''} \<longrightarrow>
         day_of t + 30 \<le> day_of u)"
proof -
  from schedule.reachable_inv[OF assms(1)] have sp: "spaced sc db" .
  have "spaced_pair sc db (map run_identity (crawl_runs db) ! i) (map run_identity (crawl_runs db) ! j)"
    using sp assms(2,3) by (auto simp: spaced_def sorted_wrt_iff_nth_less)
  then have pair: "spaced_pair sc db (run_identity a) (run_identity b)" using assms(2-5) by simp
  then obtain t u where tu: "run_scheduled_at a = Some t" "run_scheduled_at b = Some u"
      "day_of t + max 1 (cadence_of sc db (run_retailer b) (run_kind b)) \<le> day_of u"
    using assms(6-8) by (auto simp: spaced_pair_def run_identity_def split: option.splits)
  have "cadence_of sc db (run_retailer b) (run_kind b) = 30"
    if "sc = default_scheduler" "run_kind b \<in> {RT_catalog, RT_prices}"
      "find_row ret_id (run_retailer b) (retailers db) = Some r" "ret_slug r \<in> {''mercadona'', ''dia''}"
    using that by (auto simp: cadence_of_def for_retailer_def default_scheduler_def cadence_for_def
        dget_def mercadona_monthly_def dia_monthly_def)
  with tu show ?thesis by auto
qed


definition example_month :: db where
  "example_month = snd (schedule_daily default_scheduler True (example_day 30)
     (snd (schedule_daily default_scheduler True (example_day 0) example_market)))"

lemma pass_reachable:
  assumes "reachable no_runs (schedule_step sc) db"
  shows "reachable no_runs (schedule_step sc) (snd (schedule_daily sc acquired now db))"
  using assms schedule_step.intros(1)[of sc acquired now db] by (rule reachable.step)

lemma example_month_runs:
  "map run_identity (crawl_runs example_month) =
     [(7, Some 5, RT_catalog, Some (example_day 0)), (7, Some 5, RT_prices, Some (example_day 0)),
      (7, Some 5, RT_catalog, Some (example_day 30)), (7, Some 5, RT_prices, Some (example_day 30))]"
  by code_simp

lemma example_month_retailers:
  "retailers example_month = [\<lparr>ret_id = 7, ret_slug = ''mercadona'', ret_active = True, ret_name = ''Mercadona''\<rparr>]"
  by code_simp

lemma cadence_honoured_witness:
  "\<exists>t u. run_scheduled_at (crawl_runs example_month ! 0) = Some t \<and>
     run_scheduled_at (crawl_runs example_month ! 2) = Some u \<and> day_of t + 30 \<le> day_of u"
proof -
  have "no_runs example_market" by code_simp
  then have "reachable no_runs (schedule_step default_scheduler) example_month"
    unfolding example_month_def by (intro pass_reachable reachable.start)
  moreover have len: "length (crawl_runs example_month) = 4"
    using arg_cong[OF example_month_runs, of length] by simp
  moreover have "run_identity (crawl_runs example_month ! 0) = (7, Some 5, RT_catalog, Some (example_day 0))"
    and "run_identity (crawl_runs example_month ! 2) = (7, Some 5, RT_catalog, Some (example_day 30))"
    using arg_cong[OF example_month_runs, of "\<lambda>xs. xs ! 0"] arg_cong[OF example_month_runs, of "\<lambda>xs. xs ! 2"]
    by (simp_all add: len)
  moreover have "find_row ret_id 7 (retailers example_month) =
     Some \<lparr>ret_id = 7, ret_slug = ''mercadona'', ret_active = True, ret_name = ''Mercadona''\<rparr>"
    by (simp add: example_month_retailers find_row_def)
  ultimately show ?thesis
    using cadence_honoured[of default_scheduler example_month 0 2 "crawl_runs example_month ! 0"
        "crawl_runs example_month ! 2" "\<lparr>ret_id = 7, ret_slug = ''mercadona'', ret_active = True, ret_name = ''Mercadona''\<rparr>"]
    by (auto simp: run_identity_def)
qed


section \<open>A second forced sync\<close>

text \<open>A second forced sync of the day enqueues nothing. Forcing a store twice on one day
  creates new runs and reports new jobs the second time as well, but the idempotency key of the
  day is taken: no job is added, and no job belongs to the new runs, which nothing will ever
  execute.\<close>

theorem forced_resync_creates_empty_runs:
  "(let (rep1, db1) = schedule_store default_scheduler example_store True (example_day 0) example_market;
        (rep2, db2) = schedule_store default_scheduler example_store True (example_day 0 + second_us) db1
    in sr_jobs_created rep1 = 2 \<and> length (crawl_jobs db1) = 2 \<and>
       sr_runs_created rep2 = 2 \<and> sr_jobs_created rep2 = 2 \<and> crawl_jobs db2 = crawl_jobs db1 \<and>
       list_all (\<lambda>i. list_all (\<lambda>j. job_run j \<noteq> i) (crawl_jobs db2)) (sr_run_ids rep2))"
  by code_simp

end
