(* ===== verification/CrawlWorker.thy ===== *)
theory CrawlWorker
  imports QueueProcess CrawlSchedule
begin

text \<open>
  The crawl worker, \<open>ingestion/crawl_worker.py\<close>: claim one job, hand it to a connector, report
  the outcome, and keep the circuit breaker of the connector. The connectors are the argument
  \<open>handler\<close> of the model, a function of the database and the job that returns an outcome or
  raises, and may change the database. A poll carries the readings of the clock, the row locks of
  other transactions and the jitter that the calls inside it draw.
\<close>


section \<open>Dispatch\<close>

record job_outcome =
  jo_ok :: bool
  jo_retailer_code :: "string option"
  jo_error :: "string option"

datatype handler_result = Returned job_outcome | Raised string string

type_synonym job_handler = "db \<Rightarrow> crawl_job \<Rightarrow> handler_result \<times> db"

definition echo_handler :: job_handler where
  "echo_handler db job = (Returned \<lparr>jo_ok = True, jo_retailer_code = None, jo_error = None\<rparr>, db)"

record connector_registry =
  cr_default :: job_handler
  cr_by_job_type :: "(string, job_handler) dict"

definition register_handler :: "string \<Rightarrow> job_handler \<Rightarrow> connector_registry \<Rightarrow> connector_registry" where
  "register_handler kind h reg = reg\<lparr>cr_by_job_type := dset kind h (cr_by_job_type reg)\<rparr>"

definition resolve_handler :: "connector_registry \<Rightarrow> crawl_job \<Rightarrow> job_handler" where
  "resolve_handler reg job = dget (cr_by_job_type reg) (job_type job) (cr_default reg)"

definition registry_call :: "connector_registry \<Rightarrow> job_handler" where
  "registry_call reg db job = resolve_handler reg job db job"

definition process_job :: "db \<Rightarrow> crawl_job \<Rightarrow> job_handler \<Rightarrow> job_outcome \<times> db" where
  "process_job db job handler =
     (case handler db job of
        (Returned outcome, db') \<Rightarrow> (outcome, db')
      | (Raised exc_type msg, db') \<Rightarrow>
          (\<lparr>jo_ok = False, jo_retailer_code = None, jo_error = Some (exc_type @ '': '' @ msg)\<rparr>, db'))"


section \<open>The circuit breaker\<close>

record worker_config =
  wc_handler :: job_handler
  wc_domain_limits :: "(int, int) dict option"
  wc_heartbeat_timeout :: int
  wc_circuit_threshold :: int
  wc_circuit_cooldown :: int
  wc_worker_id :: string

definition default_worker :: worker_config where
  "default_worker =
     \<lparr>wc_handler = echo_handler, wc_domain_limits = None, wc_heartbeat_timeout = 300 * second_us,
      wc_circuit_threshold = 5, wc_circuit_cooldown = 900 * second_us, wc_worker_id = ''crawl-worker''\<rparr>"

definition unknown_version :: string where
  "unknown_version = ''unknown''"

definition version_or_unknown :: "string option \<Rightarrow> string" where
  "version_or_unknown v = (case v of None \<Rightarrow> unknown_version | Some [] \<Rightarrow> unknown_version | Some s \<Rightarrow> s)"

definition find_state :: "db \<Rightarrow> crawl_run \<Rightarrow> connector_state option" where
  "find_state db run =
     find (\<lambda>c. cst_retailer c = run_retailer run \<and> cst_store c = run_store run \<and>
       cst_connector_version c = version_or_unknown (run_connector_version run)) (connector_states db)"

definition get_or_create_state :: "crawl_run \<Rightarrow> db \<Rightarrow> connector_state \<times> db" where
  "get_or_create_state run db =
     (case find_state db run of
        Some c \<Rightarrow> (c, db)
      | None \<Rightarrow>
          (let c = \<lparr>cst_id = next_id cst_id (connector_states db), cst_retailer = run_retailer run,
                    cst_store = run_store run,
                    cst_connector_version = version_or_unknown (run_connector_version run),
                    cst_parser_version = version_or_unknown (run_parser_version run),
                    cst_status = CS_active, cst_last_attempt_at = None, cst_last_success_at = None,
                    cst_consecutive_failures = 0, cst_last_error = None,
                    cst_circuit_open_until = None\<rparr>
           in (c, db\<lparr>connector_states := connector_states db @ [c]\<rparr>)))"

definition update_state :: "int \<Rightarrow> (connector_state \<Rightarrow> connector_state) \<Rightarrow> db \<Rightarrow> db" where
  "update_state i f db = db\<lparr>connector_states := update_row cst_id i f (connector_states db)\<rparr>"

definition success_row :: "time \<Rightarrow> connector_state \<Rightarrow> connector_state" where
  "success_row now c =
     c\<lparr>cst_consecutive_failures := 0, cst_last_attempt_at := Some now, cst_last_success_at := Some now,
       cst_last_error := None, cst_circuit_open_until := None, cst_status := CS_active\<rparr>"

definition failure_row :: "int \<Rightarrow> int \<Rightarrow> time \<Rightarrow> string option \<Rightarrow> connector_state \<Rightarrow> connector_state" where
  "failure_row threshold cooldown now error c =
     (let c = c\<lparr>cst_consecutive_failures := cst_consecutive_failures c + 1,
                cst_last_attempt_at := Some now,
                cst_last_error := (case error of None \<Rightarrow> cst_last_error c | Some e \<Rightarrow> Some (take 2000 e))\<rparr>
      in if threshold \<le> cst_consecutive_failures c
         then c\<lparr>cst_status := CS_temporarily_blocked, cst_circuit_open_until := Some (now + cooldown)\<rparr>
         else c\<lparr>cst_status := CS_degraded\<rparr>)"

definition record_connector_success :: "crawl_run \<Rightarrow> time \<Rightarrow> db \<Rightarrow> db" where
  "record_connector_success run now db =
     (case get_or_create_state run db of (c, db) \<Rightarrow> update_state (cst_id c) (success_row now) db)"

definition record_connector_failure ::
  "worker_config \<Rightarrow> crawl_run \<Rightarrow> string option \<Rightarrow> time \<Rightarrow> db \<Rightarrow> db" where
  "record_connector_failure w run error now db =
     (case get_or_create_state run db of (c, db) \<Rightarrow>
        update_state (cst_id c) (failure_row (wc_circuit_threshold w) (wc_circuit_cooldown w) now error) db)"


section \<open>The loop\<close>

record worker_stats =
  ws_processed :: nat
  ws_completed :: nat
  ws_failed :: nat
  ws_recovered :: int

definition empty_stats :: worker_stats where
  "empty_stats = \<lparr>ws_processed = 0, ws_completed = 0, ws_failed = 0, ws_recovered = 0\<rparr>"

record poll =
  po_claim :: time
  po_heartbeat :: time
  po_report :: time
  po_state :: time
  po_held :: "int list"
  po_jitter :: int

definition handle_claimed ::
  "worker_config \<Rightarrow> poll \<Rightarrow> crawl_job \<Rightarrow> worker_stats \<times> db \<Rightarrow> worker_stats \<times> db" where
  "handle_claimed w p job st =
     (case st of (stats, db) \<Rightarrow>
        let db = heartbeat (job_id job) (po_heartbeat p) db;
            (outcome, db) = process_job db (heartbeat_row (po_heartbeat p) job) (wc_handler w);
            run = find_row run_id (job_run job) (crawl_runs db);
            (stats, db) =
              (if jo_ok outcome
               then (stats\<lparr>ws_completed := ws_completed stats + 1\<rparr>,
                     (let db = complete_job (job_id job) (po_report p) db
                      in case run of None \<Rightarrow> db | Some r \<Rightarrow> record_connector_success r (po_state p) db))
               else (stats\<lparr>ws_failed := ws_failed stats + 1\<rparr>,
                     (let db = fail_job (job_id job) (jo_error outcome) (po_report p) (Some (po_jitter p)) db
                      in case run of None \<Rightarrow> db
                         | Some r \<Rightarrow> record_connector_failure w r (jo_error outcome) (po_state p) db)))
        in (stats\<lparr>ws_processed := ws_processed stats + 1\<rparr>, db))"

definition process_next :: "worker_config \<Rightarrow> poll \<Rightarrow> worker_stats \<times> db \<Rightarrow> bool \<times> worker_stats \<times> db" where
  "process_next w p st =
     (case st of (stats, db) \<Rightarrow>
        (case claim_job (wc_worker_id w) (wc_domain_limits w) (po_held p) (po_claim p) db of
           (None, db) \<Rightarrow> (False, stats, db)
         | (Some job, db) \<Rightarrow> (True, handle_claimed w p job (stats, db))))"

text \<open>
  The loop of \<open>run\<close> over the polls until the stop flag is seen, the end of the list, or until
  \<open>max_idle_loops\<close> idle polls in a row; the first component tells which.
\<close>

fun worker_loop ::
  "worker_config \<Rightarrow> nat option \<Rightarrow> poll list \<Rightarrow> nat \<Rightarrow> worker_stats \<times> db \<Rightarrow> bool \<times> worker_stats \<times> db" where
  "worker_loop w max_idle [] idle st = (False, st)"
| "worker_loop w max_idle (p # ps) idle st =
     (case process_next w p st of (processed, st) \<Rightarrow>
        if processed then worker_loop w max_idle ps 0 st
        else if (case max_idle of None \<Rightarrow> False | Some k \<Rightarrow> k \<le> idle + 1) then (True, st)
        else worker_loop w max_idle ps (idle + 1) st)"

definition worker_run ::
  "worker_config \<Rightarrow> nat option \<Rightarrow> bool \<Rightarrow> time \<Rightarrow> int list \<Rightarrow> poll list \<Rightarrow> db \<Rightarrow> bool \<times> worker_stats \<times> db" where
  "worker_run w max_idle recover_on_start now held ps db =
     (let (stats, db) =
        (if recover_on_start
         then (case recover_stuck_jobs (wc_heartbeat_timeout w) held now db of
                 (n, db) \<Rightarrow> (empty_stats\<lparr>ws_recovered := n\<rparr>, db))
         else (empty_stats, db))
      in worker_loop w max_idle ps 0 (stats, db))"


section \<open>Work left\<close>

text \<open>
  The attempts that waiting and running jobs still have. A handler of the program does not touch
  the queue, only catalogue and price tables.
\<close>

definition job_work :: "crawl_job \<Rightarrow> nat" where
  "job_work j = (if job_state j \<in> {JS_queued, JS_locked} then attempts_left j else 0)"

definition work_left :: "db \<Rightarrow> nat" where
  "work_left db = (\<Sum>j\<leftarrow>crawl_jobs db. job_work j)"

definition keeps_queue :: "job_handler \<Rightarrow> bool" where
  "keeps_queue h = (\<forall>db job. crawl_jobs (snd (h db job)) = crawl_jobs db)"

lemma crawl_jobs_state_update [simp]: "crawl_jobs (update_state i f db) = crawl_jobs db"
  by (simp add: update_state_def)

lemma crawl_jobs_success [simp]: "crawl_jobs (record_connector_success run now db) = crawl_jobs db"
  by (simp add: record_connector_success_def get_or_create_state_def Let_def split: option.split prod.split)

lemma crawl_jobs_failure [simp]: "crawl_jobs (record_connector_failure w run e now db) = crawl_jobs db"
  by (simp add: record_connector_failure_def get_or_create_state_def Let_def split: option.split prod.split)

lemma process_job_queue:
  assumes "keeps_queue h" and "process_job db job h = (outcome, db')"
  shows "crawl_jobs db' = crawl_jobs db"
proof -
  from assms(2) have "db' = snd (h db job)"
    by (auto simp: process_job_def split: prod.splits handler_result.splits)
  with assms(1) show ?thesis by (simp add: keeps_queue_def)
qed

lemma update_row_update_row:
  assumes "\<And>r. key (f r) = key r"
  shows "update_row key i g (update_row key i f t) = update_row key i (\<lambda>r. g (f r)) t"
  using assms by (auto simp: update_row_def)

text \<open>What a report does to the row of the job.\<close>

definition report_row :: "poll \<Rightarrow> job_outcome \<Rightarrow> crawl_job \<Rightarrow> crawl_job" where
  "report_row p outcome j =
     (if jo_ok outcome then complete_row (po_report p) j
      else fail_row (jo_error outcome) (po_report p) (Some (po_jitter p)) j)"

lemma handle_claimed_jobs:
  assumes "keeps_queue (wc_handler w)"
  shows "\<exists>outcome. crawl_jobs (snd (handle_claimed w p job (stats, db))) =
      update_row job_id (job_id job) (\<lambda>j. report_row p outcome (heartbeat_row (po_heartbeat p) j)) (crawl_jobs db) \<and>
    ws_processed (fst (handle_claimed w p job (stats, db))) = Suc (ws_processed stats)"
proof -
  obtain outcome db2 where pj: "process_job (heartbeat (job_id job) (po_heartbeat p) db)
      (heartbeat_row (po_heartbeat p) job) (wc_handler w) = (outcome, db2)" by fastforce
  from process_job_queue[OF assms pj]
  have "crawl_jobs db2 = update_row job_id (job_id job) (heartbeat_row (po_heartbeat p)) (crawl_jobs db)"
    by (simp add: heartbeat_def)
  with pj show ?thesis
    by (intro exI[of _ outcome])
      (simp add: handle_claimed_def report_row_def complete_job_def fail_job_def update_row_update_row
        Let_def split: option.split)
qed


lemma job_work_heartbeat [simp]: "job_work (heartbeat_row now j) = job_work j"
  by (simp add: job_work_def heartbeat_row_def attempts_left_def)

lemma job_work_lock: "job_state j = JS_queued \<Longrightarrow> job_work (lock_row w now j) = job_work j"
  by (simp add: job_work_def attempts_left_def)

lemma job_work_report:
  assumes "job_ok j" and "job_state j = JS_locked"
  shows "job_work (report_row p outcome (heartbeat_row t j)) < job_work j"
proof -
  have "0 < attempts_left j" using assms by (simp add: job_ok_def attempts_left_def)
  then show ?thesis using assms
    by (auto simp: job_work_def report_row_def complete_row_def fail_row_def heartbeat_row_def
        attempts_left_def Let_def)
qed

lemma job_ok_report [intro]: "job_ok j \<Longrightarrow> job_ok (report_row p outcome (heartbeat_row t j))"
  by (auto simp: report_row_def)

lemma job_id_report [simp]: "job_id (report_row p outcome j) = job_id j"
  by (simp add: report_row_def)

text \<open>A poll that finds a job uses up at least one attempt; the others change nothing.\<close>

lemma process_next_work:
  assumes inv: "queue_inv db" and keeps: "keeps_queue (wc_handler w)"
    and poll: "process_next w p (stats, db) = (processed, stats', db')"
  shows "queue_inv db'"
    and "if processed then work_left db' < work_left db \<and> ws_processed stats' = Suc (ws_processed stats)
         else db' = db \<and> stats' = stats"
proof -
  have "queue_inv db' \<and> (if processed then work_left db' < work_left db \<and> ws_processed stats' = Suc (ws_processed stats)
         else db' = db \<and> stats' = stats)"
  proof (cases "claim_job (wc_worker_id w) (wc_domain_limits w) (po_held p) (po_claim p) db")
    case (Pair found db1)
    show ?thesis
    proof (cases found)
      case None
      with Pair poll inv claim_job_None[of "wc_worker_id w" "wc_domain_limits w" "po_held p" "po_claim p" db db1]
      show ?thesis by (simp add: process_next_def)
    next
      case (Some job)
      from Pair Some obtain j where j: "j \<in> set (crawl_jobs db)" and run: "runnable db (wc_domain_limits w) (po_held p) (po_claim p) j"
          and job: "job = lock_row (wc_worker_id w) (po_claim p) j"
          and db1: "db1 = update_job (job_id j) (lock_row (wc_worker_id w) (po_claim p)) db"
        by (auto elim: claim_job_Some)
      from poll Pair Some have st': "processed" "(stats', db') = handle_claimed w p job (stats, db1)"
        by (simp_all add: process_next_def)
      obtain outcome where rows: "crawl_jobs (snd (handle_claimed w p job (stats, db1))) =
          update_row job_id (job_id job) (\<lambda>j. report_row p outcome (heartbeat_row (po_heartbeat p) j)) (crawl_jobs db1)"
        and n: "ws_processed (fst (handle_claimed w p job (stats, db1))) = Suc (ws_processed stats)"
        using handle_claimed_jobs[OF keeps, of p job stats db1] by blast
      define f where "f = (\<lambda>j. report_row p outcome (heartbeat_row (po_heartbeat p)
          (lock_row (wc_worker_id w) (po_claim p) j)))"
      have jobs': "crawl_jobs db' = update_row job_id (job_id j) f (crawl_jobs db)"
        using rows unfolding st'(2)[symmetric] by (simp add: job db1 f_def update_row_update_row)
      have q: "job_state j = JS_queued" using run by (simp add: runnable_def)
      have okj: "job_ok j" and keys: "keys_ok job_id (crawl_jobs db)" using inv j by (simp_all add: queue_inv_def)
      have okl: "job_ok (lock_row (wc_worker_id w) (po_claim p) j)" using okj q by (rule job_ok_lock)
      have "queue_inv db'"
        unfolding queue_inv_def jobs'
      proof (intro conjI ballI)
        show "keys_ok job_id (update_row job_id (job_id j) f (crawl_jobs db))"
          using keys by (simp add: keys_ok_update_row f_def)
        fix x assume "x \<in> set (update_row job_id (job_id j) f (crawl_jobs db))"
        then obtain y where y: "y \<in> set (crawl_jobs db)" "x = (if job_id y = job_id j then f y else y)"
          by (auto simp: set_update_row)
        moreover from y keys j have "job_id y = job_id j \<Longrightarrow> y = j"
          by (auto simp: keys_ok_def distinct_map inj_on_def)
        ultimately show "job_ok x" using okl inv by (auto simp: queue_inv_def f_def)
      qed
      moreover have "job_work (f j) < job_work j"
        using job_work_report[OF okl, of p outcome "po_heartbeat p"] job_work_lock[OF q]
        by (simp add: f_def)
      then have "work_left db' < work_left db"
        using sum_update_row[OF keys j, where w = job_work and f = f] by (simp add: work_left_def jobs')
      ultimately show ?thesis using st' n by (metis fst_conv)
    qed
  qed
  then show "queue_inv db'" and "if processed then work_left db' < work_left db \<and> ws_processed stats' = Suc (ws_processed stats)
         else db' = db \<and> stats' = stats" by blast+
qed

lemma worker_loop_bound:
  assumes "queue_inv db" and "keeps_queue (wc_handler w)"
    and "worker_loop w max_idle ps idle (stats, db) = (stopped, stats', db')"
  shows "queue_inv db' \<and> ws_processed stats' + work_left db' \<le> ws_processed stats + work_left db"
  using assms(1,3)
proof (induction ps arbitrary: idle stats db)
  case Nil
  then show ?case by simp
next
  case (Cons p ps)
  obtain processed stats1 db1 where poll: "process_next w p (stats, db) = (processed, stats1, db1)"
    by (cases "process_next w p (stats, db)")
  note work = process_next_work[OF Cons.prems(1) assms(2) poll]
  have step: "queue_inv db1 \<and> ws_processed stats1 + work_left db1 \<le> ws_processed stats + work_left db"
    using work by (auto split: if_splits)
  from Cons.prems(2) poll consider "(stats', db') = (stats1, db1)"
    | i where "worker_loop w max_idle ps i (stats1, db1) = (stopped, stats', db')"
    by (auto split: if_splits option.splits)
  then show ?case
  proof cases
    case 2
    from Cons.IH[OF _ this] step show ?thesis by fastforce
  qed (use step in simp)
qed

lemma worker_loop_stops:
  assumes "queue_inv db" and "keeps_queue (wc_handler w)" and "1 \<le> k" and "idle < k"
    and "work_left db * k + (k - idle) \<le> length ps"
  shows "fst (worker_loop w (Some k) ps idle (stats, db))"
  using assms(1,4,5)
proof (induction ps arbitrary: idle stats db)
  case Nil
  then show ?case by simp
next
  case (Cons p ps)
  obtain processed stats1 db1 where poll: "process_next w p (stats, db) = (processed, stats1, db1)"
    by (cases "process_next w p (stats, db)")
  note work = process_next_work[OF Cons.prems(1) assms(2) poll]
  show ?case
  proof (cases processed)
    case True
    with work have less: "Suc (work_left db1) \<le> work_left db" by simp
    then have "Suc (work_left db1) * k \<le> work_left db * k" by (rule mult_le_mono1)
    with Cons.prems(2,3) have "work_left db1 * k + (k - 0) \<le> length ps" by simp
    from Cons.IH[OF work(1) _ this] assms(3) True poll show ?thesis by simp
  next
    case False
    with work have same: "db1 = db" by simp
    show ?thesis
    proof (cases "k \<le> idle + 1")
      case True
      with False poll show ?thesis by simp
    next
      case more: False
      with Cons.prems have "idle + 1 < k" "work_left db1 * k + (k - (idle + 1)) \<le> length ps"
        by (simp_all add: same)
      from Cons.IH[OF work(1) this] False more poll show ?thesis by simp
    qed
  qed
qed

text \<open>C32 The worker terminates. On a consistent queue and with handlers that leave the queue
  alone, whatever they return or raise, a worker processes at most as many jobs as the waiting and
  running jobs have attempts left, and a loop with an idle limit ends by that limit as soon as it
  is given that many polls times the limit, and the limit once more.\<close>

theorem worker_terminates:
  assumes "queue_inv db" and "keeps_queue (wc_handler w)"
  shows "ws_processed (fst (snd (worker_run w max_idle False now held ps db))) \<le> work_left db \<and>
    (1 \<le> k \<and> (work_left db + 1) * k \<le> length ps \<longrightarrow>
      fst (worker_run w (Some k) False now held ps db))"
proof -
  obtain stopped stats' db' where run: "worker_loop w max_idle ps 0 (empty_stats, db) = (stopped, stats', db')"
    by (cases "worker_loop w max_idle ps 0 (empty_stats, db)")
  from worker_loop_bound[OF assms run] run
  have "ws_processed (fst (snd (worker_run w max_idle False now held ps db))) \<le> work_left db"
    by (simp add: worker_run_def empty_stats_def)
  moreover have "fst (worker_run w (Some k) False now held ps db)"
    if "1 \<le> k" "(work_left db + 1) * k \<le> length ps"
    using worker_loop_stops[OF assms that(1), of 0 ps empty_stats] that by (simp add: worker_run_def)
  ultimately show ?thesis by blast
qed


definition failing_handler :: job_handler where
  "failing_handler db job = (Raised ''TimeoutError'' ''slow'', db)"

definition example_worker :: worker_config where
  "example_worker = default_worker\<lparr>wc_handler := failing_handler, wc_circuit_threshold := 1\<rparr>"

definition example_poll :: "time \<Rightarrow> poll" where
  "example_poll t = \<lparr>po_claim = t, po_heartbeat = t, po_report = t, po_state = t, po_held = [], po_jitter = 0\<rparr>"

lemma keeps_queue_examples: "keeps_queue echo_handler" "keeps_queue failing_handler"
  by (simp_all add: keeps_queue_def echo_handler_def failing_handler_def)

lemma worker_terminates_witness:
  "fst (worker_run example_worker (Some 1) False 0 [] (map (\<lambda>n. example_poll (int n * 3600 * second_us)) [0..<7]) example_queue)"
proof -
  have "work_left example_queue = 6" "queue_inv example_queue" by code_simp+
  moreover have "keeps_queue (wc_handler example_worker)"
    by (simp add: example_worker_def keeps_queue_examples)
  ultimately show ?thesis
    using worker_terminates[where db = example_queue and w = example_worker and k = 1 and max_idle = None
        and now = 0 and held = "[]" and
        ps = "map (\<lambda>n. example_poll (int n * 3600 * second_us)) [0..<7]"]
    by simp
qed


section \<open>The breaker and the scheduler\<close>

text \<open>
  The reports of one connector in a row: \<open>None\<close> a success, \<open>Some e\<close> a failure with its error.
\<close>

type_synonym report = "string option option \<times> time"

definition report_connector :: "worker_config \<Rightarrow> crawl_run \<Rightarrow> report \<Rightarrow> db \<Rightarrow> db" where
  "report_connector w run r db =
     (case r of (None, t) \<Rightarrow> record_connector_success run t db
      | (Some e, t) \<Rightarrow> record_connector_failure w run e t db)"

definition report_state_row :: "worker_config \<Rightarrow> report \<Rightarrow> connector_state \<Rightarrow> connector_state" where
  "report_state_row w r =
     (case r of (None, t) \<Rightarrow> success_row t
      | (Some e, t) \<Rightarrow> failure_row (wc_circuit_threshold w) (wc_circuit_cooldown w) t e)"

text \<open>The failures since the last success.\<close>

definition tail_failures :: "report list \<Rightarrow> nat" where
  "tail_failures rs = length (takeWhile (\<lambda>r. fst r \<noteq> None) (rev rs))"

lemma report_row_scope [simp]:
  "cst_id (report_state_row w r c) = cst_id c"
  "cst_retailer (report_state_row w r c) = cst_retailer c"
  "cst_store (report_state_row w r c) = cst_store c"
  "cst_connector_version (report_state_row w r c) = cst_connector_version c"
  by (auto simp: report_state_row_def success_row_def failure_row_def Let_def split: prod.split option.split)

lemma report_connector_alt:
  "report_connector w run r db =
     update_state (cst_id (fst (get_or_create_state run db))) (report_state_row w r) (snd (get_or_create_state run db))"
  by (auto simp: report_connector_def report_state_row_def record_connector_success_def
      record_connector_failure_def split: prod.split option.split)

definition in_scope :: "crawl_run \<Rightarrow> connector_state \<Rightarrow> bool" where
  "in_scope run c = (cst_retailer c = run_retailer run \<and> cst_store c = run_store run \<and>
     cst_connector_version c = version_or_unknown (run_connector_version run))"

lemma in_scope_report [simp]: "in_scope run (report_state_row w r c) = in_scope run c"
  by (simp add: in_scope_def)

text \<open>A retailer with one connector: its state is the only one of the table for it.\<close>

definition only_state :: "crawl_run \<Rightarrow> connector_state \<Rightarrow> db \<Rightarrow> bool" where
  "only_state run c db =
     (in_scope run c \<and> keys_ok cst_id (connector_states db) \<and>
      filter (\<lambda>c. cst_retailer c = run_retailer run) (connector_states db) = [c])"

lemma find_filter: "(\<And>x. P x \<Longrightarrow> Q x) \<Longrightarrow> find P (filter Q xs) = find P xs"
  by (induction xs) auto

lemma find_state_alt: "find_state db run = find (in_scope run) (connector_states db)"
  by (simp add: find_state_def in_scope_def [abs_def])

lemma only_state_found:
  assumes "only_state run c db"
  shows "find_state db run = Some c"
proof -
  have "find_state db run =
      find (in_scope run) (filter (\<lambda>c. cst_retailer c = run_retailer run) (connector_states db))"
    unfolding find_state_alt by (rule find_filter[symmetric]) (simp add: in_scope_def)
  with assms show ?thesis by (simp add: only_state_def)
qed

lemma filter_update_row:
  assumes "\<And>x. Q (f x) = Q x" and "\<And>x. key (f x) = key x"
  shows "filter Q (update_row key i f xs) = update_row key i f (filter Q xs)"
  using assms by (induction xs) (auto simp: update_row_def)

lemma report_only_state:
  assumes "only_state run c db"
  shows "only_state run (report_state_row w r c) (report_connector w run r db)"
proof -
  have "get_or_create_state run db = (c, db)"
    using only_state_found[OF assms] by (simp add: get_or_create_state_def)
  then have "report_connector w run r db = update_state (cst_id c) (report_state_row w r) db"
    by (simp add: report_connector_alt)
  with assms show ?thesis
    by (simp add: only_state_def update_state_def keys_ok_update_row filter_update_row)
      (simp add: update_row_def)
qed

lemma first_report_only_state:
  assumes "keys_ok cst_id (connector_states db)"
    and "filter (\<lambda>c. cst_retailer c = run_retailer run) (connector_states db) = []"
  shows "only_state run (fst (get_or_create_state run db)) (snd (get_or_create_state run db)) \<and>
    cst_consecutive_failures (fst (get_or_create_state run db)) = 0 \<and>
    cst_circuit_open_until (fst (get_or_create_state run db)) = None \<and>
    report_connector w run r db = report_connector w run r (snd (get_or_create_state run db))"
proof -
  have "find_state db run = None"
    using assms(2) by (auto simp: find_state_def find_None_iff filter_empty_conv)
  then have new: "only_state run (fst (get_or_create_state run db)) (snd (get_or_create_state run db))"
      "cst_consecutive_failures (fst (get_or_create_state run db)) = 0"
      "cst_circuit_open_until (fst (get_or_create_state run db)) = None"
    using assms by (auto simp: get_or_create_state_def only_state_def in_scope_def Let_def intro!: keys_ok_snoc
        dest: fresh_key)
  moreover have "get_or_create_state run (snd (get_or_create_state run db)) = get_or_create_state run db"
    using only_state_found[OF new(1)]
    by (cases "get_or_create_state run db") (simp add: get_or_create_state_def)
  ultimately show ?thesis by (simp add: report_connector_alt)
qed

lemma fold_report_only_state:
  "only_state run c db \<Longrightarrow> only_state run (fold (report_state_row w) rs c) (fold (report_connector w run) rs db)"
  by (induction rs arbitrary: c db) (simp_all add: report_only_state)

lemma tail_failures_snoc:
  "tail_failures (rs @ [r]) = (if fst r = None then 0 else Suc (tail_failures rs))"
  by (simp add: tail_failures_def)

lemma fold_report_rows:
  assumes "cst_consecutive_failures c = 0" and "rs \<noteq> []"
  shows "cst_consecutive_failures (fold (report_state_row w) rs c) = int (tail_failures rs) \<and>
    cst_status (fold (report_state_row w) rs c) =
      (if tail_failures rs = 0 then CS_active
       else if wc_circuit_threshold w \<le> int (tail_failures rs) then CS_temporarily_blocked else CS_degraded) \<and>
    (0 < tail_failures rs \<and> wc_circuit_threshold w \<le> int (tail_failures rs) \<longrightarrow>
       cst_circuit_open_until (fold (report_state_row w) rs c) = Some (snd (last rs) + wc_circuit_cooldown w)) \<and>
    (tail_failures rs = 0 \<or> cst_circuit_open_until c = None \<and> int (tail_failures rs) < wc_circuit_threshold w \<longrightarrow>
       cst_circuit_open_until (fold (report_state_row w) rs c) = None)"
  using assms(2)
proof (induction rs rule: rev_induct)
  case Nil
  then show ?case by simp
next
  case (snoc r rs)
  obtain out t where r: "r = (out, t)" by (cases r)
  show ?case
  proof (cases "rs = []")
    case True
    then show ?thesis using assms(1)
      by (auto simp: r report_state_row_def success_row_def failure_row_def Let_def tail_failures_def
          split: option.split)
  next
    case False
    from snoc.IH[OF this] show ?thesis
      by (cases out) (auto simp: r report_state_row_def success_row_def failure_row_def Let_def tail_failures_snoc)
  qed
qed

text \<open>C34 The circuit breaker, from the worker to the scheduler. Take a retailer without a
  connector state and the reports of its one connector, in order. Its state counts the failures
  since the last success; the scheduler skips the retailer exactly when that count has reached the
  threshold and the cooldown since the last report has not passed, and one success closes the
  circuit.\<close>

theorem circuit_breaker:
  assumes "keys_ok cst_id (connector_states db)"
    and "\<forall>c\<in>set (connector_states db). cst_retailer c \<noteq> run_retailer run"
    and "1 \<le> wc_circuit_threshold w" and "rs \<noteq> []"
  shows "\<exists>c. find_state (fold (report_connector w run) rs db) run = Some c \<and>
    cst_consecutive_failures c = int (tail_failures rs) \<and>
    (cst_status c = CS_active \<longleftrightarrow> tail_failures rs = 0) \<and>
    (connector_blocked (fold (report_connector w run) rs db) (run_retailer run) now \<longleftrightarrow>
       wc_circuit_threshold w \<le> int (tail_failures rs) \<and> now < snd (last rs) + wc_circuit_cooldown w)"
proof -
  obtain r rs' where rs: "rs = r # rs'" using assms(4) by (cases rs) auto
  have "filter (\<lambda>c. cst_retailer c = run_retailer run) (connector_states db) = []"
    using assms(2) by (simp add: filter_empty_conv)
  from first_report_only_state[OF assms(1) this, of w r]
  obtain c0 db0 where first: "only_state run c0 db0" "cst_consecutive_failures c0 = 0"
      "cst_circuit_open_until c0 = None" "report_connector w run r db = report_connector w run r db0"
    by blast
  define c where "c = fold (report_state_row w) rs c0"
  have "fold (report_connector w run) rs db = fold (report_connector w run) rs db0"
    by (simp add: rs first(4))
  with fold_report_only_state[OF first(1), of w rs]
  have only: "only_state run c (fold (report_connector w run) rs db)" by (simp add: c_def)
  note rows = fold_report_rows[OF first(2) assms(4), of w, folded c_def]
  have blocked: "connector_blocked (fold (report_connector w run) rs db) (run_retailer run) now \<longleftrightarrow>
      \<not> usable_connector now c"
    using only by (simp add: connector_blocked_def only_state_def)
  have "\<not> usable_connector now c \<longleftrightarrow>
      wc_circuit_threshold w \<le> int (tail_failures rs) \<and> now < snd (last rs) + wc_circuit_cooldown w"
    using rows first(3) assms(3)
    by (cases "wc_circuit_threshold w \<le> int (tail_failures rs)")
      (auto simp: usable_connector_def not_le split: if_splits)
  with only_state_found[OF only] rows blocked show ?thesis by auto
qed

lemma circuit_breaker_witness:
  "connector_blocked (fold (report_connector default_worker (example_run 1 7))
      [(None, 0), (Some None, 1), (Some None, 2), (Some None, 3), (Some None, 4), (Some (Some ''x''), 5)]
      empty_db) 7 60"
proof -
  let ?rs = "[(None, 0), (Some None, 1), (Some None, 2), (Some None, 3), (Some None, 4), (Some (Some ''x''), 5)]"
  have "keys_ok cst_id (connector_states empty_db)" and "1 \<le> wc_circuit_threshold default_worker"
    by (simp_all add: empty_db_def default_worker_def)
  moreover have "\<forall>c\<in>set (connector_states empty_db). cst_retailer c \<noteq> run_retailer (example_run 1 7)"
    by (simp add: empty_db_def)
  moreover have "?rs \<noteq> []" by simp
  ultimately have "connector_blocked (fold (report_connector default_worker (example_run 1 7)) ?rs empty_db)
      (run_retailer (example_run 1 7)) 60 \<longleftrightarrow>
    wc_circuit_threshold default_worker \<le> int (tail_failures ?rs) \<and>
      60 < snd (last ?rs) + wc_circuit_cooldown default_worker"
    using circuit_breaker by blast
  then show ?thesis
    by (simp add: example_run_def default_worker_def tail_failures_def second_us_def)
qed


section \<open>Disabled connectors\<close>

text \<open>
  The operator's switches of \<open>routers/ingestion_admin.py\<close> act on the retailer-wide state, the
  one without a store. The recency that picks it among several versions is the position in the
  table, and the version a new state gets is that of the retailer's adapter.
\<close>

definition retailer_wide_state :: "int \<Rightarrow> db \<Rightarrow> connector_state option" where
  "retailer_wide_state retailer_id db =
     find (\<lambda>c. cst_retailer c = retailer_id \<and> cst_store c = None) (rev (connector_states db))"

definition get_or_create_retailer_state :: "int \<Rightarrow> string \<Rightarrow> db \<Rightarrow> connector_state \<times> db" where
  "get_or_create_retailer_state retailer_id version db =
     (case retailer_wide_state retailer_id db of
        Some c \<Rightarrow> (c, db)
      | None \<Rightarrow>
          (let c = \<lparr>cst_id = next_id cst_id (connector_states db), cst_retailer = retailer_id,
                    cst_store = None, cst_connector_version = version, cst_parser_version = version,
                    cst_status = CS_disabled, cst_last_attempt_at = None, cst_last_success_at = None,
                    cst_consecutive_failures = 0, cst_last_error = None,
                    cst_circuit_open_until = None\<rparr>
           in (c, db\<lparr>connector_states := connector_states db @ [c]\<rparr>)))"

text \<open>A refusal (HTTP 409) is \<open>None\<close>; otherwise whether the status changed.\<close>

definition enable_connector :: "bool \<Rightarrow> int \<Rightarrow> string \<Rightarrow> db \<Rightarrow> (bool \<times> db) option" where
  "enable_connector legal_blocked retailer_id version db =
     (if legal_blocked then None
      else case get_or_create_retailer_state retailer_id version db of (c, db) \<Rightarrow>
        if cst_status c = CS_unsupported then None
        else if cst_status c = CS_active then Some (False, db)
        else Some (True, update_state (cst_id c) (\<lambda>c. c\<lparr>cst_status := CS_active\<rparr>) db))"

definition disable_connector :: "int \<Rightarrow> string \<Rightarrow> db \<Rightarrow> bool \<times> db" where
  "disable_connector retailer_id version db =
     (case get_or_create_retailer_state retailer_id version db of (c, db) \<Rightarrow>
        if cst_status c = CS_disabled then (False, db)
        else (True, update_state (cst_id c) (\<lambda>c. c\<lparr>cst_status := CS_disabled\<rparr>) db))"

text \<open>Disabling a connector does not hold. After an operator disables it, the report of a job
  that was already queued makes the connector active again, and the scheduler goes on; and for a
  retailer whose reports go to the state of a shop, the disabled retailer-wide state does not
  block the scheduler at all.\<close>

theorem disabled_connector_reactivated:
  "(let db1 = snd (disable_connector 8 ''unknown'' example_queue);
        db2 = snd (snd (process_next default_worker (example_poll 9) (empty_stats, db1)))
    in connector_blocked db1 8 9 \<and> \<not> connector_blocked db2 8 10 \<and>
       map cst_status (connector_states db2) = [CS_active]) \<and>
   (let run = (example_run 3 8)\<lparr>run_store := Some 5\<rparr>;
        db1 = report_connector default_worker run (None, 9) example_queue;
        db2 = snd (disable_connector 8 ''unknown'' db1)
    in map cst_status (connector_states db2) = [CS_active, CS_disabled] \<and> \<not> connector_blocked db2 8 10)"
  by code_simp

end
