(* ===== verification/PriceHistory.thy ===== *)
theory PriceHistory
  imports IngestDb
begin

text \<open>
  The append-only price history, \<open>ingestion/price_history.py\<close>, with the observation values of
  \<open>ingestion/contracts.py\<close>. A \<^emph>\<open>line\<close> is what a price is the price of: variant, shop, scope and
  type. Amounts are values of the \<open>numeric(12, 4)\<close> columns they are stored in.
\<close>


section \<open>Observations\<close>

record source_ref =
  sref_slug :: "string option"
  sref_url :: "string option"
  sref_connector_version :: "string option"
  sref_parser_version :: "string option"
  sref_raw_capture_ref :: "string option"

record promotion_info =
  pro_type :: promotion_type
  pro_raw_text :: "string option"
  pro_required_quantity :: "int option"
  pro_charged_quantity :: "int option"
  pro_percentage_discount :: "dec option"
  pro_fixed_discount :: "dec option"
  pro_loyalty_required :: bool
  pro_valid_from :: "time option"
  pro_valid_until :: "time option"

record normalized_observation =
  no_variant_ref :: string
  no_amount :: dec
  no_currency :: string
  no_price_scope :: price_scope
  no_price_type :: price_type
  no_observed_at :: time
  no_unit_amount :: "dec option"
  no_unit_code :: "string option"
  no_promotion :: "promotion_info option"
  no_requires_loyalty :: bool
  no_available :: "bool option"
  no_confidence :: dec
  no_source :: "source_ref option"

text \<open>The keyword arguments of \<open>record_observation\<close>.\<close>

record record_context =
  rc_variant :: int
  rc_retailer :: int
  rc_as_of :: time
  rc_store :: "int option"
  rc_source :: "int option"
  rc_crawl_run :: "int option"
  rc_raw_capture :: "int option"
  rc_quarantined :: bool
  rc_anomaly_type :: string
  rc_anomaly_severity :: severity


section \<open>Recording\<close>

definition promotion_text :: "normalized_observation \<Rightarrow> string option" where
  "promotion_text obs = (case no_promotion obs of None \<Rightarrow> None | Some p \<Rightarrow> pro_raw_text p)"

definition open_in_line ::
  "int \<Rightarrow> int option \<Rightarrow> price_scope \<Rightarrow> price_type \<Rightarrow> price_observation \<Rightarrow> bool" where
  "open_in_line variant_id store_id scope kind p =
     (obs_variant p = variant_id \<and> obs_scope p = scope \<and> obs_type p = kind \<and>
      obs_valid_until p = None \<and> obs_verification p \<noteq> VS_disputed \<and> obs_store p = store_id)"

definition latest_open ::
  "db \<Rightarrow> int \<Rightarrow> int option \<Rightarrow> price_scope \<Rightarrow> price_type \<Rightarrow> price_observation option" where
  "latest_open db variant_id store_id scope kind =
     argmin (\<lambda>p. (- obs_valid_from p, - obs_id p))
       (filter (open_in_line variant_id store_id scope kind) (observations db))"

definition build_row ::
  "normalized_observation \<Rightarrow> record_context \<Rightarrow> time option \<Rightarrow> verification_status \<Rightarrow> int \<Rightarrow> price_observation" where
  "build_row obs c valid_until status i =
     \<lparr>obs_id = i, obs_retailer = rc_retailer c, obs_store = rc_store c, obs_zone = None,
      obs_variant = rc_variant c, obs_scope = no_price_scope obs, obs_type = no_price_type obs,
      obs_amount = no_amount obs, obs_currency = no_currency obs,
      obs_unit_amount = no_unit_amount obs, obs_unit_code = no_unit_code obs,
      obs_promotion_text = promotion_text obs, obs_loyalty = no_requires_loyalty obs,
      obs_promotion_from = Option.bind (no_promotion obs) pro_valid_from,
      obs_promotion_until = Option.bind (no_promotion obs) pro_valid_until,
      obs_available = no_available obs, obs_source = rc_source c,
      obs_source_url = Option.bind (no_source obs) sref_url,
      obs_observed_at = no_observed_at obs, obs_imported_at = rc_as_of c,
      obs_valid_from = rc_as_of c, obs_valid_until = valid_until,
      obs_confidence = no_confidence obs, obs_raw_capture = rc_raw_capture c,
      obs_crawl_run = rc_crawl_run c,
      obs_connector_version = Option.bind (no_source obs) sref_connector_version,
      obs_parser_version = Option.bind (no_source obs) sref_parser_version,
      obs_verification = status, obs_staging_only = False, obs_rolled_back_at = None,
      obs_closed_by_run = None\<rparr>"

definition is_unchanged :: "price_observation \<Rightarrow> normalized_observation \<Rightarrow> bool" where
  "is_unchanged current obs =
     (obs_amount current = no_amount obs \<and> obs_currency current = no_currency obs \<and>
      obs_promotion_text current = promotion_text obs \<and>
      obs_loyalty current = no_requires_loyalty obs)"

definition revalidate_row :: "normalized_observation \<Rightarrow> time \<Rightarrow> price_observation \<Rightarrow> price_observation" where
  "revalidate_row obs as_of p = p\<lparr>obs_observed_at := no_observed_at obs, obs_imported_at := as_of\<rparr>"

definition close_row :: "time \<Rightarrow> price_observation \<Rightarrow> price_observation" where
  "close_row as_of p = p\<lparr>obs_valid_until := Some as_of\<rparr>"

definition insert_row ::
  "normalized_observation \<Rightarrow> record_context \<Rightarrow> time option \<Rightarrow> verification_status \<Rightarrow> db \<Rightarrow> price_observation \<times> db" where
  "insert_row obs c valid_until status db =
     (let row = build_row obs c valid_until status (next_id obs_id (observations db))
      in (row, db\<lparr>observations := observations db @ [row]\<rparr>))"

definition record_observation ::
  "normalized_observation \<Rightarrow> record_context \<Rightarrow> db \<Rightarrow> price_observation \<times> db" where
  "record_observation obs c db =
     (let current = latest_open db (rc_variant c) (rc_store c) (no_price_scope obs) (no_price_type obs)
      in if rc_quarantined c
         then let (row, db) = insert_row obs c (Some (rc_as_of c)) VS_disputed db;
                  anomaly = \<lparr>ano_id = next_id ano_id (anomalies db), ano_observation = Some (obs_id row),
                             ano_crawl_run = rc_crawl_run c, ano_type = rc_anomaly_type c,
                             ano_severity = rc_anomaly_severity c,
                             ano_actual_value = Some (no_amount obs), ano_status = AS_quarantined\<rparr>
              in (row, db\<lparr>anomalies := anomalies db @ [anomaly]\<rparr>)
         else (case current of
             None \<Rightarrow> insert_row obs c None VS_unverified db
           | Some cur \<Rightarrow>
               if is_unchanged cur obs
               then (revalidate_row obs (rc_as_of c) cur,
                     db\<lparr>observations := update_row obs_id (obs_id cur) (revalidate_row obs (rc_as_of c))
                          (observations db)\<rparr>)
               else insert_row obs c None VS_unverified
                      (db\<lparr>observations := update_row obs_id (obs_id cur) (close_row (rc_as_of c))
                           (observations db)\<rparr>)))"


section \<open>Lines and intervals\<close>

type_synonym line = "int \<times> int option \<times> price_scope \<times> price_type"

definition line_of_row :: "price_observation \<Rightarrow> line" where
  "line_of_row p = (obs_variant p, obs_store p, obs_scope p, obs_type p)"

definition line_of_call :: "normalized_observation \<Rightarrow> record_context \<Rightarrow> line" where
  "line_of_call obs c = (rc_variant c, rc_store c, no_price_scope obs, no_price_type obs)"

text \<open>A row speaks for its line unless it is disputed; its interval is half open.\<close>

definition live :: "line \<Rightarrow> price_observation \<Rightarrow> bool" where
  "live l p = (line_of_row p = l \<and> obs_verification p \<noteq> VS_disputed)"

definition covers :: "time \<Rightarrow> price_observation \<Rightarrow> bool" where
  "covers t p = (obs_valid_from p \<le> t \<and> (case obs_valid_until p of None \<Rightarrow> True | Some u \<Rightarrow> t < u))"

text \<open>The rows of a line follow one another without overlap, and only the last can be open.\<close>

definition before :: "price_observation \<Rightarrow> price_observation \<Rightarrow> bool" where
  "before p q =
     (line_of_row p = line_of_row q \<and> obs_verification p \<noteq> VS_disputed \<and> obs_verification q \<noteq> VS_disputed \<longrightarrow>
      (case obs_valid_until p of None \<Rightarrow> False | Some u \<Rightarrow> u \<le> obs_valid_from q))"

definition history_inv :: "db \<Rightarrow> bool" where
  "history_inv db =
     (keys_ok obs_id (observations db) \<and> sorted_wrt before (observations db) \<and>
      (\<forall>p\<in>set (observations db). case obs_valid_until p of
         None \<Rightarrow> obs_verification p \<noteq> VS_disputed | Some u \<Rightarrow> obs_valid_from p \<le> u))"

text \<open>The clock does not run backwards on the line.\<close>

definition timely :: "line \<Rightarrow> time \<Rightarrow> db \<Rightarrow> bool" where
  "timely l as_of db =
     (\<forall>p\<in>set (observations db). live l p \<longrightarrow> obs_valid_from p \<le> as_of \<and>
        (case obs_valid_until p of None \<Rightarrow> True | Some u \<Rightarrow> u \<le> as_of))"

lemma open_in_line_alt:
  "open_in_line v s sc k p \<longleftrightarrow> live (v, s, sc, k) p \<and> obs_valid_until p = None"
  by (auto simp: open_in_line_def live_def line_of_row_def)

lemma latest_open_None:
  "latest_open db v s sc k = None \<longleftrightarrow>
     (\<forall>p\<in>set (observations db). live (v, s, sc, k) p \<longrightarrow> obs_valid_until p \<noteq> None)"
  by (auto simp: latest_open_def filter_empty_conv open_in_line_alt)

lemma latest_open_Some:
  assumes "latest_open db v s sc k = Some p"
  shows "p \<in> set (observations db)" and "live (v, s, sc, k) p" and "obs_valid_until p = None"
  using argmin_Some(1)[OF assms[unfolded latest_open_def]] by (auto simp: open_in_line_alt)

text \<open>An open row is the only one of its line that is open.\<close>

lemma open_row_unique:
  assumes inv: "history_inv db" and p: "p \<in> set (observations db)" "live l p" "obs_valid_until p = None"
    and q: "q \<in> set (observations db)" "live l q" "q \<noteq> p"
  shows "\<exists>u. obs_valid_until q = Some u \<and> u \<le> obs_valid_from p"
proof -
  from p(1) q(1) obtain i j where ij: "i < length (observations db)" "observations db ! i = p"
      "j < length (observations db)" "observations db ! j = q"
    by (metis in_set_conv_nth)
  with q(3) have "i < j \<or> j < i" by (metis linorder_neqE_nat)
  then show ?thesis
  proof
    assume "i < j"
    with inv ij have "before p q" by (auto simp: history_inv_def sorted_wrt_iff_nth_less)
    with p q show ?thesis by (simp add: before_def live_def)
  next
    assume "j < i"
    with inv ij have "before q p" by (auto simp: history_inv_def sorted_wrt_iff_nth_less)
    with p q show ?thesis by (auto simp: before_def live_def split: option.splits)
  qed
qed

lemma build_row_fields [simp]:
  "obs_id (build_row obs c vu st i) = i"
  "obs_valid_from (build_row obs c vu st i) = rc_as_of c"
  "obs_valid_until (build_row obs c vu st i) = vu"
  "obs_verification (build_row obs c vu st i) = st"
  "line_of_row (build_row obs c vu st i) = line_of_call obs c"
  "obs_variant (build_row obs c vu st i) = rc_variant c"
  "obs_store (build_row obs c vu st i) = rc_store c"
  "obs_observed_at (build_row obs c vu st i) = no_observed_at obs"
  "obs_amount (build_row obs c vu st i) = no_amount obs"
  "obs_rolled_back_at (build_row obs c vu st i) = None"
  "obs_staging_only (build_row obs c vu st i) = False"
  by (simp_all add: build_row_def line_of_row_def line_of_call_def)

lemma row_update_fields [simp]:
  "obs_id (revalidate_row obs t p) = obs_id p" "obs_id (close_row t p) = obs_id p"
  "line_of_row (revalidate_row obs t p) = line_of_row p" "line_of_row (close_row t p) = line_of_row p"
  "obs_verification (revalidate_row obs t p) = obs_verification p" "obs_verification (close_row t p) = obs_verification p"
  "obs_valid_from (revalidate_row obs t p) = obs_valid_from p" "obs_valid_from (close_row t p) = obs_valid_from p"
  "obs_valid_until (revalidate_row obs t p) = obs_valid_until p" "obs_valid_until (close_row t p) = Some t"
  by (simp_all add: revalidate_row_def close_row_def line_of_row_def)

lemma ids_map: "(\<And>p. key (f p) = key p) \<Longrightarrow> key ` set (map f xs) = key ` set xs"
  by (simp add: image_image)

lemma keys_ok_map: "(\<And>p. key (f p) = key p) \<Longrightarrow> keys_ok key (map f xs) = keys_ok key xs"
  by (simp add: keys_ok_def comp_def)

text \<open>The four outcomes of a call, as what they do to the rows.\<close>

lemma record_cases [consumes 1]:
  assumes "history_inv db"
  obtains (quarantine) i where "rc_quarantined c" "i \<notin> obs_id ` set (observations db)"
      "observations (snd (record_observation obs c db)) =
         observations db @ [build_row obs c (Some (rc_as_of c)) VS_disputed i]"
  | (first) i where "\<not> rc_quarantined c" "i \<notin> obs_id ` set (observations db)"
      "\<forall>p\<in>set (observations db). live (line_of_call obs c) p \<longrightarrow> obs_valid_until p \<noteq> None"
      "observations (snd (record_observation obs c db)) =
         observations db @ [build_row obs c None VS_unverified i]"
  | (unchanged) cur where "\<not> rc_quarantined c" "cur \<in> set (observations db)" "live (line_of_call obs c) cur"
      "obs_valid_until cur = None" "is_unchanged cur obs"
      "observations (snd (record_observation obs c db)) =
         map (\<lambda>p. if p = cur then revalidate_row obs (rc_as_of c) p else p) (observations db)"
  | (change) cur i where "\<not> rc_quarantined c" "cur \<in> set (observations db)" "live (line_of_call obs c) cur"
      "obs_valid_until cur = None" "\<not> is_unchanged cur obs" "i \<notin> obs_id ` set (observations db)"
      "observations (snd (record_observation obs c db)) =
         map (\<lambda>p. if p = cur then close_row (rc_as_of c) p else p) (observations db) @
           [build_row obs c None VS_unverified i]"
proof -
  have upd: "update_row obs_id (obs_id cur) f (observations db) =
      map (\<lambda>p. if p = cur then f p else p) (observations db)" if "cur \<in> set (observations db)" for cur f
    using assms that by (auto simp: update_row_def history_inv_def keys_ok_def distinct_map inj_on_def)
  show thesis
  proof (cases "rc_quarantined c")
    case True
    then show thesis
      by (intro quarantine[of "next_id obs_id (observations db)"])
        (simp_all add: record_observation_def insert_row_def Let_def)
  next
    case nq: False
    show thesis
    proof (cases "latest_open db (rc_variant c) (rc_store c) (no_price_scope obs) (no_price_type obs)")
      case None
      with nq have rows: "observations (snd (record_observation obs c db)) =
          observations db @ [build_row obs c None VS_unverified (next_id obs_id (observations db))]"
        by (simp add: record_observation_def insert_row_def Let_def)
      note none = None[unfolded latest_open_None, folded line_of_call_def]
      show thesis by (rule first[OF nq _ none rows]) simp
    next
      case (Some cur)
      note cur = latest_open_Some[OF Some, folded line_of_call_def]
      show thesis
      proof (cases "is_unchanged cur obs")
        case True
        with nq Some have "observations (snd (record_observation obs c db)) =
            update_row obs_id (obs_id cur) (revalidate_row obs (rc_as_of c)) (observations db)"
          by (simp add: record_observation_def Let_def)
        with nq cur True show thesis unfolding upd[OF cur(1)] by (intro unchanged)
      next
        case False
        let ?t = "map (\<lambda>p. if p = cur then close_row (rc_as_of c) p else p) (observations db)"
        have "obs_id ` set ?t = obs_id ` set (observations db)" by (rule ids_map) simp
        moreover have "next_id obs_id ?t \<notin> obs_id ` set ?t" by (rule next_id_not_in)
        ultimately have "next_id obs_id ?t \<notin> obs_id ` set (observations db)" by simp
        moreover from False nq Some have "observations (snd (record_observation obs c db)) =
            ?t @ [build_row obs c None VS_unverified (next_id obs_id ?t)]"
          unfolding upd[OF cur(1), symmetric] by (simp add: record_observation_def insert_row_def Let_def)
        ultimately show thesis using nq cur False by (intro change)
      qed
    qed
  qed
qed


lemma live_build_row: "live l (build_row obs c vu VS_unverified i) \<longleftrightarrow> line_of_call obs c = l"
  "\<not> live l (build_row obs c vu VS_disputed i)"
  by (simp_all add: live_def)

lemma live_row_updates [simp]:
  "live l (revalidate_row obs t p) = live l p" "live l (close_row t p) = live l p"
  by (simp_all add: live_def)

lemma before_map:
  assumes "sorted_wrt before ps"
    and "\<And>p q. p \<in> set ps \<Longrightarrow> q \<in> set ps \<Longrightarrow> before p q \<Longrightarrow> before (f p) (f q)"
  shows "sorted_wrt before (map f ps)"
  unfolding sorted_wrt_map using assms(1) by (rule sorted_wrt_mono_rel[rotated]) (rule assms(2))

lemma before_close:
  assumes "obs_valid_until cur = None" and "before p q"
  shows "before (if p = cur then close_row t p else p) (if q = cur then close_row t q else q)"
  using assms by (auto simp: before_def split: option.splits)

lemma timelyD: "timely l as_of db \<Longrightarrow> p \<in> set (observations db) \<Longrightarrow> live l p \<Longrightarrow> obs_valid_from p \<le> as_of"
  by (auto simp: timely_def)

lemma history_inv_record:
  assumes inv: "history_inv db" and time: "timely (line_of_call obs c) (rc_as_of c) db"
  shows "history_inv (snd (record_observation obs c db))"
  using inv
proof (cases rule: record_cases[where c = c and obs = obs])
  case (quarantine i)
  with inv show ?thesis by (simp add: history_inv_def keys_ok_def sorted_wrt_append before_def)
next
  case (first i)
  have "before p (build_row obs c None VS_unverified i)" if "p \<in> set (observations db)" for p
    using that first(3) time by (auto simp: before_def live_def timely_def split: option.splits)
  with first inv show ?thesis by (simp add: history_inv_def keys_ok_def sorted_wrt_append)
next
  case (unchanged cur)
  let ?f = "\<lambda>p. if p = cur then revalidate_row obs (rc_as_of c) p else p"
  have "sorted_wrt before (map ?f (observations db))"
    using inv by (intro before_map) (auto simp: history_inv_def before_def split: option.splits)
  moreover have "keys_ok obs_id (map ?f (observations db))"
    using inv by (subst keys_ok_map) (simp_all add: history_inv_def)
  ultimately show ?thesis using unchanged inv
    by (auto simp: history_inv_def split: option.splits)
next
  case (change cur i)
  let ?f = "\<lambda>p. if p = cur then close_row (rc_as_of c) p else p"
  let ?new = "build_row obs c None VS_unverified i"
  have new: "before (?f p) ?new" if p: "p \<in> set (observations db)" for p
  proof (cases "live (line_of_call obs c) p \<and> p \<noteq> cur")
    case True
    with open_row_unique[OF inv change(2-4) p] obtain u where "obs_valid_until p = Some u" "u \<le> obs_valid_from cur"
      by blast
    moreover have "obs_valid_from cur \<le> rc_as_of c" using timelyD[OF time change(2,3)] .
    ultimately show ?thesis using True by (simp add: before_def)
  next
    case False
    then show ?thesis by (auto simp: before_def live_def)
  qed
  have "sorted_wrt before (map ?f (observations db))"
    using inv change(4) by (intro before_map before_close) (simp_all add: history_inv_def)
  then have "sorted_wrt before (map ?f (observations db) @ [?new])"
    unfolding sorted_wrt_append
  proof (intro conjI ballI)
    fix q r
    assume q: "q \<in> set (map ?f (observations db))" and r: "r \<in> set [?new]"
    from q obtain p where p: "p \<in> set (observations db)" "q = ?f p" unfolding set_map by (rule imageE) blast
    from r have "r = ?new" by simp
    with new[OF p(1)] p(2) show "before q r" by (simp only:)
  qed simp_all
  moreover have "keys_ok obs_id (map ?f (observations db) @ [?new])"
  proof (rule keys_ok_snoc)
    show "keys_ok obs_id (map ?f (observations db))"
      using inv by (subst keys_ok_map) (simp_all add: history_inv_def)
    show "obs_id ?new \<notin> obs_id ` set (map ?f (observations db))"
      using change(6) by (subst ids_map) simp_all
  qed
  moreover have "obs_valid_from cur \<le> rc_as_of c" using timelyD[OF time change(2,3)] .
  ultimately show ?thesis using change(7) inv
    unfolding history_inv_def change(7) by (auto split: option.splits)
qed


section \<open>The history as a process\<close>

inductive history_step :: "normalized_observation \<times> record_context \<Rightarrow> db \<Rightarrow> db \<Rightarrow> bool" where
  "timely (line_of_call obs c) (rc_as_of c) db \<Longrightarrow>
     history_step (obs, c) db (snd (record_observation obs c db))"

definition no_observations :: "db \<Rightarrow> bool" where
  "no_observations db = (observations db = [])"

interpretation history: invariant_system no_observations history_step history_inv
proof unfold_locales
  show "history_inv db" if "no_observations db" for db
    using that by (simp add: no_observations_def history_inv_def)
  show "history_inv db'" if "history_inv db" and "history_step e db db'" for e db db'
    using that(2,1) by cases (auto intro: history_inv_record)
qed

lemma live_rows_disjoint:
  assumes "sorted_wrt before ps" and "list_all (live l) ps" and "list_all (covers t) ps"
  shows "length ps \<le> 1"
proof (rule ccontr)
  assume "\<not> length ps \<le> 1"
  then obtain p q rest where ps: "ps = p # q # rest"
    by (cases ps; cases "tl ps") auto
  with assms show False by (auto simp: before_def live_def covers_def split: option.splits)
qed

lemma history_inv_live_rows:
  assumes "history_inv db"
  shows "length (filter (\<lambda>p. live l p \<and> covers t p) (observations db)) \<le> 1"
proof (rule live_rows_disjoint)
  show "sorted_wrt before (filter (\<lambda>p. live l p \<and> covers t p) (observations db))"
    using assms by (simp add: history_inv_def sorted_wrt_filter)
qed (auto simp: list_all_iff)

text \<open>C30 A price history never contradicts itself. In every history built by recording
  observations with a clock that does not run backwards on a line, at every instant at most one
  row that is not disputed is in force for a variant, shop, scope and price type, at most one such
  row is open, and every disputed row is closed.\<close>

theorem history_consistent:
  assumes "reachable no_observations history_step db"
  shows "length (filter (\<lambda>p. live l p \<and> covers t p) (observations db)) \<le> 1 \<and>
    length (filter (\<lambda>p. live l p \<and> obs_valid_until p = None) (observations db)) \<le> 1 \<and>
    list_all (\<lambda>p. obs_verification p = VS_disputed \<longrightarrow> obs_valid_until p \<noteq> None) (observations db)"
proof -
  from history.reachable_inv[OF assms] have inv: "history_inv db" .
  let ?open = "filter (\<lambda>p. live l p \<and> obs_valid_until p = None) (observations db)"
  have "length ?open \<le> 1"
  proof (cases ?open)
    case (Cons p rest)
    define m where "m = Max (obs_valid_from ` set ?open)"
    have "list_all (covers m) ?open" by (auto simp: list_all_iff covers_def m_def)
    then show ?thesis using inv
      by (intro live_rows_disjoint[of _ l m]) (auto simp: history_inv_def sorted_wrt_filter list_all_iff)
  qed simp
  with history_inv_live_rows[OF inv, of l t] inv show ?thesis
    by (auto simp: history_inv_def list_all_iff split: option.splits)
qed


section \<open>Refinement of a timeline\<close>

text \<open>
  What the history is for: the price of a line as a function of time. A price is the part of a
  row that \<open>_is_unchanged\<close> compares.
\<close>

type_synonym price = "dec \<times> string \<times> string option \<times> bool"

definition row_price :: "price_observation \<Rightarrow> price" where
  "row_price p = (obs_amount p, obs_currency p, obs_promotion_text p, obs_loyalty p)"

definition call_price :: "normalized_observation \<Rightarrow> price" where
  "call_price obs = (no_amount obs, no_currency obs, promotion_text obs, no_requires_loyalty obs)"

definition price_at :: "db \<Rightarrow> line \<Rightarrow> time \<Rightarrow> price option" where
  "price_at db l t = map_option row_price (find (\<lambda>p. live l p \<and> covers t p) (observations db))"

lemma is_unchanged_price: "is_unchanged p obs \<longleftrightarrow> row_price p = call_price obs"
  by (simp add: is_unchanged_def row_price_def call_price_def)

lemma row_price_updates [simp]:
  "row_price (revalidate_row obs t p) = row_price p" "row_price (close_row t p) = row_price p"
  "row_price (build_row obs c vu st i) = call_price obs"
  "covers t (revalidate_row obs u p) = covers t p"
  by (simp_all add: row_price_def call_price_def revalidate_row_def close_row_def build_row_def covers_def)

lemma find_append: "find P (xs @ ys) = (case find P xs of None \<Rightarrow> find P ys | Some x \<Rightarrow> Some x)"
  by (induction xs) auto

lemma find_map: "find P (map f xs) = map_option f (find (\<lambda>x. P (f x)) xs)"
  by (induction xs) auto

lemma price_map:
  assumes "\<And>p. row_price (f p) = row_price p"
    and "\<And>p. p \<in> set ps \<Longrightarrow> live l (f p) \<and> covers t (f p) \<longleftrightarrow> live l p \<and> covers t p"
  shows "map_option row_price (find (\<lambda>p. live l p \<and> covers t p) (map f ps)) =
     map_option row_price (find (\<lambda>p. live l p \<and> covers t p) ps)"
proof -
  have "find (\<lambda>p. live l (f p) \<and> covers t (f p)) ps = find (\<lambda>p. live l p \<and> covers t p) ps"
    using assms(2) by (intro find_cong) auto
  then show ?thesis by (simp add: find_map option.map_comp comp_def assms(1))
qed

lemma not_covering:
  assumes "\<And>p. p \<in> set ps \<Longrightarrow> live l p \<Longrightarrow> \<exists>u. obs_valid_until p = Some u \<and> u \<le> t"
  shows "find (\<lambda>p. live l p \<and> covers t p) ps = None"
  using assms by (force simp: find_None_iff covers_def)

lemma price_at_open:
  assumes inv: "history_inv db" and cur: "cur \<in> set (observations db)" "live l cur" "obs_valid_until cur = None"
    and "obs_valid_from cur \<le> t"
  shows "price_at db l t = Some (row_price cur)"
proof -
  have cov: "covers t cur" using assms by (simp add: covers_def)
  then obtain p where p: "find (\<lambda>p. live l p \<and> covers t p) (observations db) = Some p"
    using cur by (cases "find (\<lambda>p. live l p \<and> covers t p) (observations db)") (auto simp: find_None_iff)
  then have "p \<in> set (observations db)" "live l p" "covers t p" by (auto simp: find_Some_iff)
  with open_row_unique[OF inv cur, of p] assms(5) have "p = cur"
    by (auto simp: covers_def split: option.splits)
  with p show ?thesis by (simp add: price_at_def)
qed

text \<open>Closing the open row of a line ends its price and leaves every other price as it was.\<close>

lemma closed_line_uncovered:
  assumes inv: "history_inv db" and time: "timely l as_of db"
    and cur: "cur \<in> set (observations db)" "live l cur" "obs_valid_until cur = None" and "as_of \<le> t"
  shows "find (\<lambda>p. live l p \<and> covers t p)
    (map (\<lambda>p. if p = cur then close_row as_of p else p) (observations db)) = None"
proof (rule not_covering)
  let ?f = "\<lambda>p. if p = cur then close_row as_of p else p"
  fix q assume "q \<in> set (map ?f (observations db))" and q: "live l q"
  then obtain p where p: "p \<in> set (observations db)" "q = ?f p" by (auto simp only: set_map)
  show "\<exists>u. obs_valid_until q = Some u \<and> u \<le> t"
  proof (cases "p = cur")
    case False
    with p q have "live l p" by simp
    from open_row_unique[OF inv cur p(1) this False] False p(2)
      timelyD[OF time cur(1,2)] assms(6) show ?thesis by auto
  qed (use p assms(6) in simp)
qed

lemma closed_line_elsewhere:
  assumes "live k cur" and "obs_valid_until cur = None" and "\<not> (l = k \<and> as_of \<le> t)"
  shows "map_option row_price (find (\<lambda>p. live l p \<and> covers t p)
    (map (\<lambda>p. if p = cur then close_row as_of p else p) (observations db))) = price_at db l t"
  unfolding price_at_def
proof (rule price_map)
  show "live l (if p = cur then close_row as_of p else p) \<and> covers t (if p = cur then close_row as_of p else p)
      \<longleftrightarrow> live l p \<and> covers t p" for p
    using assms by (auto simp: live_def covers_def)
qed simp

text \<open>C25 The history refines a timeline of prices. Recording an observation at an instant sets
  the price of its line from that instant on, whether the call appends a row or only confirms the
  open one, and changes no price before it and no price of another line; a quarantined observation
  changes no price at all.\<close>

theorem history_refines_timeline:
  assumes inv: "history_inv db" and time: "timely (line_of_call obs c) (rc_as_of c) db"
  shows "price_at (snd (record_observation obs c db)) l t =
    (if l = line_of_call obs c \<and> \<not> rc_quarantined c \<and> rc_as_of c \<le> t then Some (call_price obs)
     else price_at db l t)"
  using inv
proof (cases rule: record_cases[where c = c and obs = obs])
  case (quarantine i)
  then show ?thesis by (simp add: price_at_def find_append live_build_row split: option.split)
next
  case (first i)
  show ?thesis
  proof (cases "l = line_of_call obs c \<and> rc_as_of c \<le> t")
    case True
    have "find (\<lambda>p. live l p \<and> covers t p) (observations db) = None"
      using first(3) time True by (intro not_covering) (force simp: timely_def split: option.splits)
    with True first show ?thesis
      by (simp add: price_at_def find_append live_build_row) (simp add: covers_def)
  next
    case False
    then have "\<not> (live l (build_row obs c None VS_unverified i) \<and> covers t (build_row obs c None VS_unverified i))"
      by (auto simp: live_build_row covers_def)
    with False first show ?thesis by (auto simp: price_at_def find_append split: option.split)
  qed
next
  case (unchanged cur)
  have same: "price_at (snd (record_observation obs c db)) l t = price_at db l t"
    unfolding price_at_def unchanged(6) by (rule price_map) auto
  show ?thesis
  proof (cases "l = line_of_call obs c \<and> rc_as_of c \<le> t")
    case True
    have "obs_valid_from cur \<le> t" using timelyD[OF time unchanged(2,3)] True by simp
    with price_at_open[OF inv unchanged(2,3,4)] True unchanged(1,5) same show ?thesis
      by (simp add: is_unchanged_price)
  qed (use same unchanged(1) in auto)
next
  case (change cur i)
  show ?thesis
  proof (cases "l = line_of_call obs c \<and> rc_as_of c \<le> t")
    case True
    with closed_line_uncovered[OF inv time change(2,3,4)] change show ?thesis
      by (simp add: price_at_def find_append live_build_row) (simp add: covers_def)
  next
    case False
    have "\<not> (live l (build_row obs c None VS_unverified i) \<and> covers t (build_row obs c None VS_unverified i))"
      using False by (auto simp: live_build_row covers_def)
    with closed_line_elsewhere[OF change(3,4) False, of db] show ?thesis using False change(1)
      by (auto simp: price_at_def change(7) find_append split: option.split)
  qed
qed


text \<open>Two observations of one price line for the concrete instances.\<close>

definition example_observation :: "dec \<Rightarrow> time \<Rightarrow> normalized_observation" where
  "example_observation amount t =
     \<lparr>no_variant_ref = ''v'', no_amount = amount, no_currency = ''EUR'',
      no_price_scope = PS_national, no_price_type = PT_regular, no_observed_at = t,
      no_unit_amount = None, no_unit_code = None, no_promotion = None, no_requires_loyalty = False,
      no_available = None, no_confidence = 1, no_source = None\<rparr>"

definition example_context :: "time \<Rightarrow> bool \<Rightarrow> record_context" where
  "example_context t quarantined =
     \<lparr>rc_variant = 4, rc_retailer = 7, rc_as_of = t, rc_store = Some 5, rc_source = None,
      rc_crawl_run = None, rc_raw_capture = None, rc_quarantined = quarantined,
      rc_anomaly_type = ''quarantined'', rc_anomaly_severity = SV_high\<rparr>"

definition example_history :: db where
  "example_history = snd (record_observation (example_observation 2 10) (example_context 10 False) empty_db)"

lemma example_history_reachable: "reachable no_observations history_step example_history"
proof -
  have "no_observations empty_db" by (simp add: no_observations_def empty_db_def)
  moreover have "timely (line_of_call (example_observation 2 10) (example_context 10 False))
      (rc_as_of (example_context 10 False)) empty_db"
    by (simp add: timely_def empty_db_def)
  ultimately show ?thesis
    unfolding example_history_def
    using reachable.step[where step = history_step, OF reachable.start history_step.intros] by blast
qed

lemma history_consistent_witness:
  "length (filter (\<lambda>p. live (4, Some 5, PS_national, PT_regular) p \<and> obs_valid_until p = None)
     (observations example_history)) \<le> 1"
  using history_consistent[OF example_history_reachable] by blast

lemma history_refines_timeline_witness:
  "price_at (snd (record_observation (example_observation 3 20) (example_context 20 False) example_history))
     (4, Some 5, PS_national, PT_regular) 25 = Some (3, ''EUR'', None, False) \<and>
   price_at (snd (record_observation (example_observation 3 20) (example_context 20 False) example_history))
     (4, Some 5, PS_national, PT_regular) 15 = Some (2, ''EUR'', None, False)"
proof -
  have line: "line_of_call (example_observation 3 20) (example_context 20 False) = (4, Some 5, PS_national, PT_regular)"
    "call_price (example_observation 3 20) = (3, ''EUR'', None, False)"
    "rc_as_of (example_context 20 False) = 20" "\<not> rc_quarantined (example_context 20 False)"
    by (simp_all add: line_of_call_def example_observation_def example_context_def call_price_def promotion_text_def)
  have inv: "history_inv example_history"
    using history.reachable_inv[OF example_history_reachable] .
  have time: "timely (line_of_call (example_observation 3 20) (example_context 20 False))
      (rc_as_of (example_context 20 False)) example_history"
    unfolding line by code_simp
  have "price_at example_history (4, Some 5, PS_national, PT_regular) 15 = Some (2, ''EUR'', None, False)"
    by code_simp
  with history_refines_timeline[OF inv time] show ?thesis by (simp add: line)
qed


section \<open>Nothing is rewritten\<close>

text \<open>The columns that a later call never touches.\<close>

definition fixed_columns :: "price_observation \<Rightarrow> price_observation \<Rightarrow> bool" where
  "fixed_columns p q =
     (obs_id q = obs_id p \<and> line_of_row q = line_of_row p \<and> row_price q = row_price p \<and>
      obs_valid_from q = obs_valid_from p \<and> obs_verification q = obs_verification p \<and>
      obs_source q = obs_source p \<and> obs_crawl_run q = obs_crawl_run p)"

lemma fixed_columns_updates [simp]:
  "fixed_columns p p" "fixed_columns p (revalidate_row obs t p)" "fixed_columns p (close_row t p)"
  by (simp_all add: fixed_columns_def) (simp_all add: revalidate_row_def close_row_def)

lemma record_leaves_open:
  assumes inv: "history_inv db" and nq: "\<not> rc_quarantined c"
  shows "\<exists>q\<in>set (observations (snd (record_observation obs c db))).
    live (line_of_call obs c) q \<and> obs_valid_until q = None \<and> row_price q = call_price obs"
  using inv
proof (cases rule: record_cases[where c = c and obs = obs])
  case (unchanged cur)
  then show ?thesis by (intro bexI[of _ "revalidate_row obs (rc_as_of c) cur"]) (auto simp: is_unchanged_price)
next
  case (first i)
  then show ?thesis by (auto simp: live_build_row)
next
  case (change cur i)
  then show ?thesis by (auto simp: live_build_row)
qed (use nq in simp)

text \<open>The history is append-only and re-recording is idempotent. A call keeps every row at its
  place with its price, its source and its start; at most it gives one open row an end, the instant of the call;
  it appends at most one row. Recording the same observation again, whenever, appends nothing and
  closes nothing.\<close>

theorem history_append_only:
  assumes inv: "history_inv db" and time: "timely (line_of_call obs c) (rc_as_of c) db"
  shows "list_all2 (\<lambda>p q. fixed_columns p q \<and>
        (obs_valid_until q = obs_valid_until p \<or>
         obs_valid_until p = None \<and> obs_valid_until q = Some (rc_as_of c)))
      (observations db) (take (length (observations db)) (observations (snd (record_observation obs c db)))) \<and>
    length (observations (snd (record_observation obs c db))) \<le> Suc (length (observations db)) \<and>
    (\<not> rc_quarantined c \<and> \<not> rc_quarantined c' \<and> line_of_call obs c' = line_of_call obs c \<longrightarrow>
      list_all2 (\<lambda>p q. fixed_columns p q \<and> obs_valid_until q = obs_valid_until p)
        (observations (snd (record_observation obs c db)))
        (observations (snd (record_observation obs c' (snd (record_observation obs c db))))))"
proof -
  have map: "list_all2 (\<lambda>p q. fixed_columns p q \<and> R p q) ps (map f ps)"
    if "\<And>p. p \<in> set ps \<Longrightarrow> fixed_columns p (f p) \<and> R p (f p)" for f R ps
    using that by (simp add: list_all2_map2 list.rel_refl_strong)
  have refl: "list_all2 (\<lambda>p q. fixed_columns p q \<and> R p q) ps ps" if "\<And>p. p \<in> set ps \<Longrightarrow> R p p" for R ps
    using map[of ps "\<lambda>p. p" R] that by simp
  have once: "list_all2 (\<lambda>p q. fixed_columns p q \<and>
        (obs_valid_until q = obs_valid_until p \<or>
         obs_valid_until p = None \<and> obs_valid_until q = Some (rc_as_of c)))
      (observations db) (take (length (observations db)) (observations (snd (record_observation obs c db)))) \<and>
    length (observations (snd (record_observation obs c db))) \<le> Suc (length (observations db))"
    using inv by (cases rule: record_cases[where c = c and obs = obs]) (auto intro!: map refl split: if_splits)
  have twice: "list_all2 (\<lambda>p q. fixed_columns p q \<and> obs_valid_until q = obs_valid_until p)
        (observations (snd (record_observation obs c db)))
        (observations (snd (record_observation obs c' (snd (record_observation obs c db)))))"
    if nq: "\<not> rc_quarantined c" "\<not> rc_quarantined c'" and line: "line_of_call obs c' = line_of_call obs c"
  proof -
    let ?db1 = "snd (record_observation obs c db)"
    obtain q where q: "q \<in> set (observations ?db1)" "live (line_of_call obs c) q" "obs_valid_until q = None"
        "row_price q = call_price obs"
      using record_leaves_open[OF inv nq(1)] by blast
    have inv1: "history_inv ?db1" using history_inv_record[OF inv time] .
    then show ?thesis
    proof (cases rule: record_cases[where c = c' and obs = obs])
      case (first i)
      with q line show ?thesis by auto
    next
      case (change cur i)
      with open_row_unique[OF inv1 q(1-3), of cur] q(4) line show ?thesis
        by (cases "cur = q") (auto simp: is_unchanged_price)
    next
      case (unchanged cur)
      then show ?thesis by (auto intro!: map)
    qed (use nq in simp)
  qed
  from once twice show ?thesis by blast
qed

lemma history_append_only_witness:
  "length (observations (snd (record_observation (example_observation 2 10) (example_context 30 False) example_history))) \<le>
     Suc (length (observations example_history))"
proof -
  have "timely (line_of_call (example_observation 2 10) (example_context 30 False))
      (rc_as_of (example_context 30 False)) example_history"
    by code_simp
  from history_append_only[OF history.reachable_inv[OF example_history_reachable] this] show ?thesis by blast
qed

end
