(* ===== verification/Normalization.thy ===== *)
theory Normalization
  imports IngestDb
begin

text \<open>
  The parts of \<open>ingestion/normalization.py\<close> that the pipeline computes prices with: package
  units, the per-measure price of \<open>PriceNormalizer\<close>, and the pack size read off the name of an
  egg product. The regular expressions of \<open>egg_pack_size\<close> are scanners over the words of the
  name. Quantities arrive as Decimals; the parsing of numbers out of strings is not modelled, nor
  are the regular expressions for multipacks and promotions.
\<close>


section \<open>Units\<close>

definition unit_synonyms :: "(string, string) dict" where
  "unit_synonyms =
    [(''g'', ''g''), (''gr'', ''g''), (''grs'', ''g''), (''gram'', ''g''), (''grams'', ''g''),
     (''gramo'', ''g''), (''gramos'', ''g''),
     (''kg'', ''kg''), (''kgs'', ''kg''), (''kilo'', ''kg''), (''kilos'', ''kg''),
     (''kilogramo'', ''kg''), (''kilogramos'', ''kg''),
     (''mg'', ''mg''), (''miligramo'', ''mg''), (''miligramos'', ''mg''),
     (''ml'', ''ml''), (''mililitro'', ''ml''), (''mililitros'', ''ml''), (''cc'', ''ml''),
     (''cl'', ''cl''), (''centilitro'', ''cl''), (''centilitros'', ''cl''),
     (''l'', ''l''), (''lt'', ''l''), (''lts'', ''l''), (''litro'', ''l''), (''litros'', ''l''),
     (''unit'', ''unit''), (''units'', ''unit''), (''u'', ''unit''), (''ud'', ''unit''),
     (''uds'', ''unit''), (''unidad'', ''unit''), (''unidades'', ''unit''), (''piece'', ''unit''),
     (''pieces'', ''unit''), (''pcs'', ''unit''), (''pack'', ''unit'')]"

definition base_unit_factor :: "(string, string \<times> dec) dict" where
  "base_unit_factor =
    [(''mg'', (''kg'', 1 / 1000000)), (''g'', (''kg'', 1 / 1000)), (''kg'', (''kg'', 1)),
     (''ml'', (''l'', 1 / 1000)), (''cl'', (''l'', 1 / 100)), (''l'', (''l'', 1)),
     (''unit'', (''unit'', 1))]"

text \<open>\<open>strip().lower()\<close>, and then every white space inside removed.\<close>

definition canonical_unit :: "string option \<Rightarrow> string option" where
  "canonical_unit unit =
     (case unit of None \<Rightarrow> None
      | Some u \<Rightarrow> map_of unit_synonyms (filter (\<lambda>c. \<not> py_space c) (py_lower (py_strip u))))"


section \<open>Prices\<close>

datatype norm_exn = UnknownCurrency | UnrecognisedUnit | NotQuantizable

record normalized_price =
  np_amount :: "dec option"
  np_currency :: string
  np_unit_amount :: "dec option"
  np_unit_code :: "string option"

definition py_upper_char :: "char \<Rightarrow> char" where
  "py_upper_char c = (let n = of_char c :: nat in if 97 \<le> n \<and> n \<le> 122 then char_of (n - 32) else c)"

text \<open>Currency codes are ASCII.\<close>

definition py_upper :: "string \<Rightarrow> string" where
  "py_upper s = map py_upper_char s"

definition unit_price ::
  "dec option \<Rightarrow> dec option \<Rightarrow> string option \<Rightarrow> int option \<Rightarrow> norm_exn + dec option \<times> string option" where
  "unit_price money quantity package_unit package_count =
     (let canon = canonical_unit package_unit in
      if package_unit \<noteq> None \<and> canon = None then Inl UnrecognisedUnit
      else let count = (case package_count of None \<Rightarrow> 1 | Some n \<Rightarrow> if 0 < n then n else 1)
        in (case (canon, quantity) of
              (None, _) \<Rightarrow> Inr (None, None)
            | (Some c, None) \<Rightarrow> Inr (None, map_option fst (map_of base_unit_factor c))
            | (Some c, Some q) \<Rightarrow>
                (case map_of base_unit_factor c of None \<Rightarrow> Inr (None, None)
                 | Some (base_unit, factor) \<Rightarrow>
                     if q \<le> 0 then Inr (None, Some base_unit)
                     else let total_base = dmul (dmul q factor) (of_int count)
                       in (case money of
                             None \<Rightarrow> Inr (None, Some base_unit)
                           | Some m \<Rightarrow>
                               if total_base \<le> 0 then Inr (None, Some base_unit)
                               else (case quantize4_half_up (ddiv m total_base) of
                                       Inl _ \<Rightarrow> Inl NotQuantizable
                                     | Inr p \<Rightarrow> Inr (Some p, Some base_unit))))))"

definition normalize_price ::
  "string list \<Rightarrow> dec option \<Rightarrow> string option \<Rightarrow> dec option \<Rightarrow> string option \<Rightarrow> int option
     \<Rightarrow> norm_exn + normalized_price" where
  "normalize_price allowed amount currency package_quantity package_unit package_count =
     (let code = py_upper (py_strip (case currency of None \<Rightarrow> ''EUR'' | Some [] \<Rightarrow> ''EUR'' | Some c \<Rightarrow> c))
      in if code \<notin> set (map py_upper allowed) then Inl UnknownCurrency
         else (case (case amount of None \<Rightarrow> Inr None | Some a \<Rightarrow> map_sum id (\<lambda>c. Some (of_int c / 100)) (quantize_cents a)) of
             Inl _ \<Rightarrow> Inl NotQuantizable
           | Inr money \<Rightarrow>
               (case unit_price money package_quantity package_unit package_count of
                  Inl e \<Rightarrow> Inl e
                | Inr (unit_amount, unit_code) \<Rightarrow>
                    Inr \<lparr>np_amount = money, np_currency = code, np_unit_amount = unit_amount,
                         np_unit_code = unit_code\<rparr>)))"


section \<open>Egg packs\<close>

definition word_char :: "char \<Rightarrow> bool" where
  "word_char c =
     (let n = of_char c :: nat in
      (48 \<le> n \<and> n \<le> 57) \<or> (65 \<le> n \<and> n \<le> 90) \<or> n = 95 \<or> (97 \<le> n \<and> n \<le> 122) \<or>
      n \<in> {170, 178, 179, 181, 185, 186, 188, 189, 190} \<or> (192 \<le> n \<and> n \<noteq> 215 \<and> n \<noteq> 247))"

definition digit_char :: "char \<Rightarrow> bool" where
  "digit_char c = (let n = of_char c :: nat in 48 \<le> n \<and> n \<le> 57)"

text \<open>\<open>search\<close> of a pattern that starts with \<open>\b\<close> and a word character.\<close>

fun scan_words :: "(string \<Rightarrow> 'a option) \<Rightarrow> bool \<Rightarrow> string \<Rightarrow> 'a option" where
  "scan_words f inside [] = None"
| "scan_words f inside (c # cs) =
     (case (if \<not> inside \<and> word_char c then f (c # cs) else None) of
        Some v \<Rightarrow> Some v | None \<Rightarrow> scan_words f (word_char c) cs)"

text \<open>The word at the front, in lower case, and what follows it.\<close>

definition front_word :: "string \<Rightarrow> string" where
  "front_word s = py_lower (takeWhile word_char s)"

definition is_egg_word :: "string \<Rightarrow> bool" where
  "is_egg_word w = (w \<in> {''huevo'', ''huevos''})"

definition docena_at :: "string \<Rightarrow> dec option" where
  "docena_at s =
     (let w = front_word s; rest = dropWhile word_char s in
      if w = ''docena'' then Some 12
      else if w = ''media'' \<and> rest \<noteq> [] \<and> py_space (hd rest) \<and>
              front_word (dropWhile py_space rest) = ''docena'' then Some 6
      else None)"

definition digits_value :: "string \<Rightarrow> int" where
  "digits_value ds = fold (\<lambda>c n. 10 * n + (of_char c - 48)) ds 0"

definition count_at :: "string \<Rightarrow> int option" where
  "count_at s =
     (let ds = takeWhile digit_char s; rest = dropWhile py_space (dropWhile digit_char s) in
      if 1 \<le> length ds \<and> length ds \<le> 3 \<and>
         front_word rest \<in> {''ud'', ''uds'', ''u'', ''unidad'', ''unidades'', ''huevo'', ''huevos''}
      then Some (digits_value ds) else None)"

definition egg_pack_size :: "string \<Rightarrow> dec option" where
  "egg_pack_size name =
     (let is_egg = is_egg_word (front_word (dropWhile py_space name)) \<or>
            scan_words (\<lambda>s. if is_egg_word (front_word s) then Some () else None) False name \<noteq> None \<and>
            scan_words docena_at False name \<noteq> None
      in if name = [] \<or> \<not> is_egg then None
         else (case scan_words docena_at False name of
                 Some n \<Rightarrow> Some n
               | None \<Rightarrow>
                   (case scan_words count_at False name of
                      Some n \<Rightarrow> if 0 < n then Some (of_int n) else Some 12
                    | None \<Rightarrow> Some 12)))"

lemma egg_pack_examples:
  "egg_pack_size ''Huevos camperos L'' = Some 12"
  "egg_pack_size ''Huevos M 30 ud'' = Some 30"
  "egg_pack_size ''Media  Docena de huevos'' = Some 6"
  "egg_pack_size ''Pasta al huevo'' = None"
  "egg_pack_size ''huevos XL 10uds'' = Some 10"
  by code_simp+

lemma scan_words_Some: "scan_words f inside s = Some v \<Longrightarrow> \<exists>t. f t = Some v"
  by (induction f inside s rule: scan_words.induct) (auto split: option.splits if_splits)

lemma egg_pack_size_pos: "egg_pack_size name = Some n \<Longrightarrow> 0 < n"
  by (auto simp: egg_pack_size_def Let_def docena_at_def dest!: scan_words_Some split: if_splits option.splits)

end
