(* ===== verification/CurrentPrice.thy ===== *)
theory CurrentPrice
  imports PriceHistory Normalization
begin

text \<open>
  Reading the history: the current price of a variant with its freshness, and the projection into
  the price table of the planner, \<open>ingestion/current_price.py\<close>. The thresholds come from the
  settings and are arguments. The age in hours is the exact quotient; the binary quotient of the
  code compares in the same way with whole hours below a million, because ages are whole
  microseconds.
\<close>


section \<open>Freshness\<close>

datatype freshness_status = FS_fresh | FS_stale | FS_expired | FS_unknown

definition age_hours :: "int \<Rightarrow> rat" where
  "age_hours age = of_int age / 3600000000"

definition freshness :: "int \<Rightarrow> int \<Rightarrow> int \<Rightarrow> freshness_status" where
  "freshness stale_hours expired_hours age =
     (let hours = age_hours age in
      if hours < 0 then FS_fresh
      else if hours < of_int stale_hours then FS_fresh
      else if hours < of_int expired_hours then FS_stale
      else FS_expired)"


section \<open>The current price\<close>

record current_price =
  cp_variant :: int
  cp_amount :: dec
  cp_currency :: string
  cp_scope :: price_scope
  cp_type :: price_type
  cp_store :: "int option"
  cp_zone :: "int option"
  cp_source :: "int option"
  cp_observed_at :: time
  cp_age :: int
  cp_status :: freshness_status
  cp_confidence :: dec
  cp_promotion_text :: "string option"
  cp_available :: "bool option"

definition eligible ::
  "int \<Rightarrow> int option \<Rightarrow> price_scope option \<Rightarrow> bool \<Rightarrow> time option \<Rightarrow> price_observation \<Rightarrow> bool" where
  "eligible variant_id store_id scope staging as_of p =
     (obs_variant p = variant_id \<and> obs_rolled_back_at p = None \<and> obs_verification p \<noteq> VS_disputed \<and>
      obs_staging_only p = staging \<and>
      (case store_id of None \<Rightarrow> True | Some s \<Rightarrow> obs_store p = Some s) \<and>
      (case scope of None \<Rightarrow> True | Some sc \<Rightarrow> obs_scope p = sc) \<and>
      (case as_of of Some t \<Rightarrow> staging \<longrightarrow> obs_valid_from p \<le> t \<and>
           (case obs_valid_until p of None \<Rightarrow> True | Some u \<Rightarrow> t < u)
       | None \<Rightarrow> True))"

text \<open>Open rows first, then the last seen, then the last stored.\<close>

definition recency :: "price_observation \<Rightarrow> bool \<times> int \<times> int" where
  "recency p = (obs_valid_until p \<noteq> None, - obs_observed_at p, - obs_id p)"

definition latest_valid ::
  "db \<Rightarrow> int \<Rightarrow> int option \<Rightarrow> price_scope option \<Rightarrow> bool \<Rightarrow> time option \<Rightarrow> price_observation option" where
  "latest_valid db variant_id store_id scope staging as_of =
     argmin recency (filter (eligible variant_id store_id scope staging as_of) (observations db))"

definition to_current :: "int \<Rightarrow> int \<Rightarrow> time \<Rightarrow> price_observation \<Rightarrow> current_price" where
  "to_current stale_hours expired_hours as_of p =
     (let age = as_of - obs_observed_at p
      in \<lparr>cp_variant = obs_variant p, cp_amount = obs_amount p, cp_currency = obs_currency p,
          cp_scope = obs_scope p, cp_type = obs_type p, cp_store = obs_store p, cp_zone = obs_zone p,
          cp_source = obs_source p, cp_observed_at = obs_observed_at p, cp_age = age,
          cp_status = freshness stale_hours expired_hours age, cp_confidence = obs_confidence p,
          cp_promotion_text = obs_promotion_text p, cp_available = obs_available p\<rparr>)"

definition current ::
  "int \<times> int \<Rightarrow> db \<Rightarrow> int \<Rightarrow> int option \<Rightarrow> price_scope option \<Rightarrow> time \<Rightarrow> bool \<Rightarrow> current_price option" where
  "current thresholds db variant_id store_id scope as_of staging =
     map_option (to_current (fst thresholds) (snd thresholds) as_of)
       (latest_valid db variant_id store_id scope staging (Some as_of))"

definition active_variants :: "db \<Rightarrow> int \<Rightarrow> product_variant list" where
  "active_variants db retailer_id =
     filter (\<lambda>v. var_retailer v = retailer_id \<and> var_active v) (variants db)"

definition current_for_retailer :: "int \<times> int \<Rightarrow> db \<Rightarrow> int \<Rightarrow> int option \<Rightarrow> time \<Rightarrow> current_price list" where
  "current_for_retailer thresholds db retailer_id store_id as_of =
     List.map_filter (\<lambda>v. current thresholds db (var_id v) store_id None as_of False)
       (active_variants db retailer_id)"


section \<open>The projection\<close>

definition price_exists :: "db \<Rightarrow> int \<Rightarrow> int \<Rightarrow> time \<Rightarrow> bool" where
  "price_exists db store_id product_id observed_at =
     list_ex (\<lambda>p. prc_store p = store_id \<and> prc_product p = product_id \<and> prc_observed_at p = observed_at)
       (product_prices db)"

definition source_provenance :: "db \<Rightarrow> int option \<Rightarrow> string \<times> string" where
  "source_provenance db source_id =
     (case Option.bind source_id (\<lambda>i. find_row src_id i (data_sources db)) of
        None \<Rightarrow> (''community_connector'', ''ingestion'')
      | Some s \<Rightarrow> (src_type s, src_name s))"

definition package_dims :: "product_variant \<Rightarrow> dec \<times> string" where
  "package_dims v =
     (case (var_package_quantity v, var_package_unit v) of
        (Some q, Some (c # cs)) \<Rightarrow> (q, c # cs)
      | _ \<Rightarrow>
          (case (var_net_quantity v, var_net_unit v) of
             (Some q, Some u) \<Rightarrow>
               if u \<in> {''g'', ''kg'', ''ml'', ''l''} then (q, u)
               else (case egg_pack_size (var_display_name v) of Some n \<Rightarrow> (n, ''unit'') | None \<Rightarrow> (1, ''unit''))
           | _ \<Rightarrow> (case egg_pack_size (var_display_name v) of Some n \<Rightarrow> (n, ''unit'') | None \<Rightarrow> (1, ''unit''))))"

definition availability_text :: "bool option \<Rightarrow> string option" where
  "availability_text available =
     (case available of None \<Rightarrow> None | Some True \<Rightarrow> Some ''in_stock'' | Some False \<Rightarrow> Some ''out_of_stock'')"

definition project_variant :: "time \<Rightarrow> product_variant \<Rightarrow> nat \<times> db \<Rightarrow> nat \<times> db" where
  "project_variant now v st =
     (case st of (written, db) \<Rightarrow>
        (case (var_product v, latest_valid db (var_id v) None None False None) of
           (Some product, Some p) \<Rightarrow>
             (case obs_store p of
                None \<Rightarrow> (written, db)
              | Some sid \<Rightarrow>
                  if price_exists db sid product (obs_observed_at p) then (written, db)
                  else let (source_type, source_name) = source_provenance db (obs_source p);
                           (package_quantity, package_unit) = package_dims v;
                           row = \<lparr>prc_id = next_id prc_id (product_prices db), prc_retailer = obs_retailer p,
                                  prc_store = sid, prc_product = product, prc_amount = obs_amount p,
                                  prc_currency = obs_currency p, prc_package_quantity = package_quantity,
                                  prc_package_unit = package_unit, prc_unit_price = obs_unit_amount p,
                                  prc_promotion = obs_promotion_text p,
                                  prc_availability = availability_text (obs_available p),
                                  prc_source_type = source_type, prc_source_name = source_name,
                                  prc_source_url = obs_source_url p, prc_observed_at = obs_observed_at p,
                                  prc_imported_at = now, prc_expires_at = None, prc_confidence = obs_confidence p,
                                  prc_synthetic = False\<rparr>
                       in (written + 1, db\<lparr>product_prices := product_prices db @ [row]\<rparr>))
         | _ \<Rightarrow> (written, db)))"

definition project_current_prices :: "time \<Rightarrow> int \<Rightarrow> db \<Rightarrow> nat \<times> db" where
  "project_current_prices now retailer_id db =
     fold (project_variant now) (sort_key var_id (active_variants db retailer_id)) (0, db)"


section \<open>The price just recorded is the current one\<close>

lemma latest_valid_Some:
  assumes "latest_valid db v s sc st t = Some p"
  shows "p \<in> set (observations db)" and "eligible v s sc st t p"
    and "\<And>q. q \<in> set (observations db) \<Longrightarrow> eligible v s sc st t q \<Longrightarrow> recency p \<le> recency q"
  using argmin_Some[OF assms[unfolded latest_valid_def]] by auto

lemma recency_unique: "recency p = recency q \<Longrightarrow> obs_id p = obs_id q"
  by (simp add: recency_def)

lemma latest_valid_eq:
  assumes "keys_ok obs_id (observations db)" and "p \<in> set (observations db)" and "eligible v s sc st t p"
    and least: "\<And>q. q \<in> set (observations db) \<Longrightarrow> eligible v s sc st t q \<Longrightarrow> q \<noteq> p \<Longrightarrow> recency p < recency q"
  shows "latest_valid db v s sc st t = Some p"
proof -
  have "filter (eligible v s sc st t) (observations db) \<noteq> []"
    using assms(2,3) by (auto simp: filter_empty_conv)
  then obtain q where q: "latest_valid db v s sc st t = Some q"
    unfolding latest_valid_def using argmin_Some_ex by blast
  with latest_valid_Some[OF q] assms(2,3) have "recency q \<le> recency p" by blast
  with least latest_valid_Some(1,2)[OF q] have "q = p" by (metis leD)
  with q show ?thesis by simp
qed

text \<open>A production history: no staging rows and nothing rolled back.\<close>

definition production_rows :: "db \<Rightarrow> bool" where
  "production_rows db = list_all (\<lambda>p. \<not> obs_staging_only p \<and> obs_rolled_back_at p = None) (observations db)"

text \<open>The price line of the variant is the only one, and was last seen before.\<close>

definition older_line :: "normalized_observation \<Rightarrow> record_context \<Rightarrow> db \<Rightarrow> bool" where
  "older_line obs c db =
     list_all (\<lambda>p. obs_variant p = rc_variant c \<and> obs_verification p \<noteq> VS_disputed \<longrightarrow>
         line_of_row p = line_of_call obs c) (observations db)"

lemma eligible_production:
  "eligible v None None False (Some t) p \<longleftrightarrow>
     obs_variant p = v \<and> obs_rolled_back_at p = None \<and> obs_verification p \<noteq> VS_disputed \<and> \<not> obs_staging_only p"
  by (auto simp: eligible_def)

lemma recency_open_closed:
  "obs_valid_until p = None \<Longrightarrow> obs_valid_until q \<noteq> None \<Longrightarrow> recency p < recency q"
  by (auto simp: recency_def)

lemma record_open_row:
  assumes inv: "history_inv db" and nq: "\<not> rc_quarantined c"
  shows "\<exists>q\<in>set (observations (snd (record_observation obs c db))).
    live (line_of_call obs c) q \<and> obs_valid_until q = None \<and> row_price q = call_price obs \<and>
    obs_observed_at q = no_observed_at obs"
  using inv
proof (cases rule: record_cases[where c = c and obs = obs])
  case (unchanged cur)
  then show ?thesis
    by (intro bexI[of _ "revalidate_row obs (rc_as_of c) cur"])
      (auto simp: is_unchanged_price, simp add: revalidate_row_def)
next
  case (first i)
  then show ?thesis by (auto simp: live_build_row)
next
  case (change cur i)
  then show ?thesis by (auto simp: live_build_row)
qed (use nq in simp)

lemma record_production:
  assumes "history_inv db" and "production_rows db"
  shows "production_rows (snd (record_observation obs c db))"
  using assms(1)
proof (cases rule: record_cases[where c = c and obs = obs])
  case (unchanged cur)
  with assms(2) show ?thesis by (auto simp: production_rows_def list_all_iff revalidate_row_def)
next
  case (change cur i)
  with assms(2) show ?thesis by (auto simp: production_rows_def list_all_iff close_row_def)
qed (use assms(2) in \<open>auto simp: production_rows_def\<close>)

lemma obs_variant_updates [simp]:
  "obs_variant (revalidate_row obs t p) = obs_variant p" "obs_variant (close_row t p) = obs_variant p"
  by (simp_all add: revalidate_row_def close_row_def)

lemma record_older_line:
  assumes "history_inv db" and "older_line obs c db"
  shows "older_line obs c (snd (record_observation obs c db))"
  using assms(1)
proof (cases rule: record_cases[where c = c and obs = obs])
  case (unchanged cur)
  with assms(2) show ?thesis
    by (auto simp: older_line_def list_all_iff)
next
  case (change cur i)
  with assms(2) show ?thesis by (auto simp: older_line_def list_all_iff)
qed (use assms(2) in \<open>auto simp: older_line_def\<close>)

text \<open>What was recorded is what is read. After an observation of a variant with one price line
  is recorded, the current price of the variant has the observed amount, currency and promotion,
  its age is counted from the observation, and it is fresh, stale or expired as that age in hours is
  below the first threshold, below the second, or neither; a quarantined observation leaves the
  current price of every variant as it was.\<close>

theorem current_after_record:
  assumes inv: "history_inv db" and time: "timely (line_of_call obs c) (rc_as_of c) db"
    and prod: "production_rows db" and one: "older_line obs c db"
  shows "if rc_quarantined c
    then current th (snd (record_observation obs c db)) v s sc as_of False = current th db v s sc as_of False
    else \<exists>p. current th (snd (record_observation obs c db)) (rc_variant c) None None as_of False = Some p \<and>
      cp_amount p = no_amount obs \<and> cp_currency p = no_currency obs \<and>
      cp_promotion_text p = promotion_text obs \<and> cp_age p = as_of - no_observed_at obs \<and>
      (0 \<le> fst th \<longrightarrow> cp_status p =
        (if cp_age p < fst th * 3600000000 then FS_fresh
         else if cp_age p < snd th * 3600000000 then FS_stale else FS_expired))"
proof (cases "rc_quarantined c")
  case True
  from inv have "filter (eligible v s sc False (Some as_of)) (observations (snd (record_observation obs c db))) =
      filter (eligible v s sc False (Some as_of)) (observations db)"
    by (cases rule: record_cases[where c = c and obs = obs]) (use True in \<open>auto simp: eligible_def\<close>)
  with True show ?thesis by (simp add: current_def latest_valid_def)
next
  case False
  let ?db = "snd (record_observation obs c db)"
  obtain q where q: "q \<in> set (observations ?db)" "live (line_of_call obs c) q" "obs_valid_until q = None"
      "row_price q = call_price obs" "obs_observed_at q = no_observed_at obs"
    using record_open_row[OF inv False] by blast
  have inv1: "history_inv ?db" using history_inv_record[OF inv time] .
  have prod1: "production_rows ?db" using record_production[OF inv prod] .
  have one1: "older_line obs c ?db" using record_older_line[OF inv one] .
  have el: "eligible (rc_variant c) None None False (Some as_of) q"
    using q prod1 by (auto simp: eligible_production production_rows_def list_all_iff live_def
        line_of_row_def line_of_call_def)
  have "latest_valid ?db (rc_variant c) None None False (Some as_of) = Some q"
  proof (rule latest_valid_eq[OF _ q(1) el])
    show "keys_ok obs_id (observations ?db)" using inv1 by (simp add: history_inv_def)
    fix r assume r: "r \<in> set (observations ?db)" "eligible (rc_variant c) None None False (Some as_of) r" "r \<noteq> q"
    then have "live (line_of_call obs c) r"
      using one1 by (auto simp: older_line_def list_all_iff eligible_production live_def)
    from open_row_unique[OF inv1 q(1-3) r(1) this r(3)] show "recency q < recency r"
      using q(3) by (intro recency_open_closed) auto
  qed
  moreover have "age_hours a < of_int h \<longleftrightarrow> a < h * 3600000000" for a h
    by (simp add: age_hours_def divide_less_eq flip: of_int_less_iff[where 'a = rat])
  moreover have "age_hours a < 0 \<longleftrightarrow> a < 0" for a by (simp add: age_hours_def divide_less_eq)
  ultimately show ?thesis using False q(4,5)
    by (auto simp: current_def to_current_def Let_def freshness_def row_price_def call_price_def)
qed

lemma current_after_record_witness:
  "\<exists>p. current (24, 48) (snd (record_observation (example_observation 3 20) (example_context 20 False) example_history))
      4 None None 25 False = Some p \<and> cp_amount p = 3 \<and> cp_age p = 5"
proof -
  have "history_inv example_history" using history.reachable_inv[OF example_history_reachable] .
  moreover have "timely (line_of_call (example_observation 3 20) (example_context 20 False))
      (rc_as_of (example_context 20 False)) example_history"
    and "production_rows example_history"
    and "older_line (example_observation 3 20) (example_context 20 False) example_history"
    by code_simp+
  moreover have "\<not> rc_quarantined (example_context 20 False)" "rc_variant (example_context 20 False) = 4"
    "no_amount (example_observation 3 20) = 3" "no_observed_at (example_observation 3 20) = 20"
    by (simp_all add: example_context_def example_observation_def)
  ultimately show ?thesis
    using current_after_record[of example_history "example_observation 3 20" "example_context 20 False" "(24, 48)"
        0 None None 25] by auto
qed

end
