(* ===== verification/Validation.thy ===== *)
theory Validation
  imports Normalization PriceHistory
begin

text \<open>
  Validation of one observation before it is stored, \<open>ingestion/validation.py\<close>. The messages of
  the errors are constructors with the values the code formats into them. The fields that the
  contract declares as required are values, so the code's defensive test for a missing amount has
  no counterpart.
\<close>

datatype anomaly_type =
    AT_price_spike | AT_price_drop | AT_zero_or_negative | AT_unit_mismatch
  | AT_currency_mismatch | AT_duplicate | AT_stale | AT_outlier | AT_missing_field | AT_block_page

definition severity_rank :: "severity \<Rightarrow> int" where
  "severity_rank s = (case s of SV_low \<Rightarrow> 0 | SV_medium \<Rightarrow> 1 | SV_high \<Rightarrow> 2 | SV_critical \<Rightarrow> 3)"

datatype error_message =
    M_block_page
  | M_amount_not_positive
  | M_unknown_currency string
  | M_missing_reference
  | M_package norm_exn
  | M_invalid_package
  | M_unit_code string string
  | M_incoherent dec dec
  | M_future
  | M_scope_unknown
  | M_scope_without_store
  | M_promotion_window

record field_error =
  fe_field :: string
  fe_message :: error_message
  fe_severity :: severity
  fe_anomaly :: "anomaly_type option"

datatype warning = W_no_unit_amount | W_expected_unit_amount dec

record validation_context =
  vc_has_store_link :: bool
  vc_is_block_page :: bool
  vc_status_code :: "int option"
  vc_now :: "time option"
  vc_package_quantity :: "dec option"
  vc_package_unit :: "string option"
  vc_package_count :: int
  vc_known_currencies :: "string list"
  vc_max_future_skew :: int
  vc_coherence_tolerance :: dec

definition default_context :: validation_context where
  "default_context =
     \<lparr>vc_has_store_link = False, vc_is_block_page = False, vc_status_code = None, vc_now = None,
      vc_package_quantity = None, vc_package_unit = None, vc_package_count = 1,
      vc_known_currencies = [''EUR''], vc_max_future_skew = 24 * 3600 * 1000000,
      vc_coherence_tolerance = 2 / 100\<rparr>"

record validation_report =
  vr_valid :: bool
  vr_errors :: "field_error list"
  vr_warnings :: "warning list"

definition block_status :: "int list" where
  "block_status = [401, 403, 407, 429, 451, 500, 502, 503]"

definition mk_error :: "string \<Rightarrow> error_message \<Rightarrow> severity \<Rightarrow> anomaly_type option \<Rightarrow> field_error" where
  "mk_error f m s a = \<lparr>fe_field = f, fe_message = m, fe_severity = s, fe_anomaly = a\<rparr>"

text \<open>The first error of the worst severity.\<close>

definition worst_step :: "field_error \<Rightarrow> field_error option \<Rightarrow> field_error option" where
  "worst_step e best =
     (case best of None \<Rightarrow> Some e
      | Some b \<Rightarrow> if severity_rank (fe_severity b) < severity_rank (fe_severity e) then Some e else best)"

definition worst :: "field_error list \<Rightarrow> (anomaly_type option \<times> severity) option" where
  "worst errors = map_option (\<lambda>e. (fe_anomaly e, fe_severity e)) (fold worst_step errors None)"

record observation_result =
  vres_valid :: bool
  vres_errors :: "field_error list"
  vres_warnings :: "warning list"
  vres_anomaly_type :: "anomaly_type option"
  vres_severity :: "severity option"

definition to_result :: "validation_report \<Rightarrow> observation_result" where
  "to_result r =
     (let w = worst (vr_errors r)
      in \<lparr>vres_valid = vr_valid r, vres_errors = vr_errors r, vres_warnings = vr_warnings r,
          vres_anomaly_type = Option.bind w fst, vres_severity = map_option snd w\<rparr>)"

text \<open>
  The check of package and unit price; the exception that is not caught, a number too long to
  quantize, is \<open>None\<close>.
\<close>

definition check_package ::
  "normalized_observation \<Rightarrow> validation_context \<Rightarrow> (field_error list \<times> warning list) option" where
  "check_package obs ctx =
     (if vc_package_unit ctx = None \<and> vc_package_quantity ctx = None
      then Some ([], if no_unit_amount obs = None then [W_no_unit_amount] else [])
      else (case normalize_price [''EUR''] (Some (no_amount obs)) (Some (no_currency obs))
               (vc_package_quantity ctx) (vc_package_unit ctx) (Some (vc_package_count ctx)) of
          Inl NotQuantizable \<Rightarrow> None
        | Inl e \<Rightarrow> Some ([mk_error ''package'' (M_package e) SV_high (Some AT_unit_mismatch)], [])
        | Inr recomputed \<Rightarrow>
            (case np_unit_amount recomputed of
               None \<Rightarrow> Some ([mk_error ''package'' M_invalid_package SV_high (Some AT_missing_field)], [])
             | Some expected \<Rightarrow>
                 (let code_errors =
                    (case (no_unit_code obs, np_unit_code recomputed) of
                       (Some c, Some d) \<Rightarrow>
                         if c \<noteq> d then [mk_error ''unit_code'' (M_unit_code c d) SV_high (Some AT_unit_mismatch)]
                         else []
                     | _ \<Rightarrow> [])
                  in (case no_unit_amount obs of
                        None \<Rightarrow> Some (code_errors, [W_expected_unit_amount expected])
                      | Some u \<Rightarrow>
                          if 0 < expected \<and>
                             vc_coherence_tolerance ctx < ddiv (dabs (dsub u expected)) expected
                          then Some (code_errors @
                            [mk_error ''unit_amount'' (M_incoherent u expected) SV_high (Some AT_unit_mismatch)], [])
                          else Some (code_errors, []))))))"

definition amount_errors :: "normalized_observation \<Rightarrow> field_error list" where
  "amount_errors obs =
     (if no_amount obs \<le> 0
      then [mk_error ''amount'' M_amount_not_positive SV_critical (Some AT_zero_or_negative)] else [])"

definition currency_errors :: "normalized_observation \<Rightarrow> validation_context \<Rightarrow> field_error list" where
  "currency_errors obs ctx =
     (if py_upper (no_currency obs) \<notin> set (map py_upper (vc_known_currencies ctx))
      then [mk_error ''currency'' (M_unknown_currency (no_currency obs)) SV_high (Some AT_currency_mismatch)]
      else [])"

definition reference_errors :: "normalized_observation \<Rightarrow> field_error list" where
  "reference_errors obs =
     (if py_strip (no_variant_ref obs) = []
      then [mk_error ''variant_ref'' M_missing_reference SV_high (Some AT_missing_field)] else [])"

definition time_errors :: "normalized_observation \<Rightarrow> validation_context \<Rightarrow> time \<Rightarrow> field_error list" where
  "time_errors obs ctx now =
     (if now + vc_max_future_skew ctx < no_observed_at obs
      then [mk_error ''observed_at'' M_future SV_high (Some AT_stale)] else [])"

definition scope_errors :: "normalized_observation \<Rightarrow> validation_context \<Rightarrow> field_error list" where
  "scope_errors obs ctx =
     (if no_price_scope obs = PS_unknown
      then [mk_error ''price_scope'' M_scope_unknown SV_high (Some AT_missing_field)]
      else if no_price_scope obs = PS_exact_store \<and> \<not> vc_has_store_link ctx
      then [mk_error ''price_scope'' M_scope_without_store SV_high (Some AT_missing_field)]
      else [])"

definition promotion_errors :: "normalized_observation \<Rightarrow> field_error list" where
  "promotion_errors obs =
     (case no_promotion obs of None \<Rightarrow> []
      | Some p \<Rightarrow> (case (pro_valid_from p, pro_valid_until p) of
            (Some f, Some u) \<Rightarrow>
              if u < f then [mk_error ''promotion'' M_promotion_window SV_medium None] else []
          | _ \<Rightarrow> []))"

definition validate_report ::
  "normalized_observation \<Rightarrow> validation_context \<Rightarrow> time \<Rightarrow> validation_report option" where
  "validate_report obs ctx clock =
     (let now = (case vc_now ctx of None \<Rightarrow> clock | Some t \<Rightarrow> t) in
      if vc_is_block_page ctx \<or> (case vc_status_code ctx of None \<Rightarrow> False | Some s \<Rightarrow> s \<in> set block_status)
      then Some \<lparr>vr_valid = False,
             vr_errors = [mk_error ''source'' M_block_page SV_critical (Some AT_block_page)],
             vr_warnings = []\<rparr>
      else (case check_package obs ctx of
          None \<Rightarrow> None
        | Some (package_errors, warnings) \<Rightarrow>
            (let errors = amount_errors obs @ currency_errors obs ctx @ reference_errors obs @
                   package_errors @ time_errors obs ctx now @ scope_errors obs ctx @ promotion_errors obs
             in Some \<lparr>vr_valid = (errors = []), vr_errors = errors, vr_warnings = warnings\<rparr>)))"

definition validate :: "normalized_observation \<Rightarrow> validation_context \<Rightarrow> time \<Rightarrow> observation_result option" where
  "validate obs ctx clock = map_option to_result (validate_report obs ctx clock)"


section \<open>What a valid observation guarantees\<close>

lemma error_lists_empty [simp]:
  "amount_errors obs = [] \<longleftrightarrow> 0 < no_amount obs"
  "currency_errors obs ctx = [] \<longleftrightarrow> py_upper (no_currency obs) \<in> set (map py_upper (vc_known_currencies ctx))"
  "reference_errors obs = [] \<longleftrightarrow> py_strip (no_variant_ref obs) \<noteq> []"
  "time_errors obs ctx now = [] \<longleftrightarrow> no_observed_at obs \<le> now + vc_max_future_skew ctx"
  "scope_errors obs ctx = [] \<longleftrightarrow>
     no_price_scope obs \<noteq> PS_unknown \<and> (no_price_scope obs = PS_exact_store \<longrightarrow> vc_has_store_link ctx)"
  by (auto simp: amount_errors_def currency_errors_def reference_errors_def time_errors_def scope_errors_def)

lemma promotion_errors_empty:
  "promotion_errors obs = [] \<longleftrightarrow>
     (\<forall>p f u. no_promotion obs = Some p \<and> pro_valid_from p = Some f \<and> pro_valid_until p = Some u \<longrightarrow> f \<le> u)"
  by (auto simp: promotion_errors_def not_less split: option.splits)

text \<open>The package check passes exactly when there is no package or the unit price fits it.\<close>

definition package_coherent :: "normalized_observation \<Rightarrow> validation_context \<Rightarrow> bool" where
  "package_coherent obs ctx =
     (vc_package_unit ctx = None \<and> vc_package_quantity ctx = None \<or>
      (\<exists>np expected. normalize_price [''EUR''] (Some (no_amount obs)) (Some (no_currency obs))
           (vc_package_quantity ctx) (vc_package_unit ctx) (Some (vc_package_count ctx)) = Inr np \<and>
         np_unit_amount np = Some expected \<and>
         (\<forall>c d. no_unit_code obs = Some c \<and> np_unit_code np = Some d \<longrightarrow> c = d) \<and>
         (\<forall>u. no_unit_amount obs = Some u \<and> 0 < expected \<longrightarrow>
            ddiv (dabs (dsub u expected)) expected \<le> vc_coherence_tolerance ctx)))"

lemma check_package_coherent:
  "(\<exists>ws. check_package obs ctx = Some ([], ws)) \<longleftrightarrow> package_coherent obs ctx"
  by (simp add: check_package_def package_coherent_def Let_def not_less
      split: sum.split norm_exn.split option.split if_split)

text \<open>What it takes for an observation to be accepted. The validation reports an observation
  as valid exactly when its response is not a block page, its amount is positive, its currency
  known, its product reference not blank, its time not too far ahead, its scope declared (and an
  exact shop linked), its promotion window in order and its unit price within the tolerance of
  the one that amount and package give.\<close>

theorem valid_observation_iff:
  "(\<exists>r. validate obs ctx clock = Some r \<and> vres_valid r) \<longleftrightarrow>
    \<not> vc_is_block_page ctx \<and> vc_status_code ctx \<notin> Some ` set block_status \<and>
    0 < no_amount obs \<and>
    py_upper (no_currency obs) \<in> set (map py_upper (vc_known_currencies ctx)) \<and>
    py_strip (no_variant_ref obs) \<noteq> [] \<and>
    no_observed_at obs \<le> (case vc_now ctx of None \<Rightarrow> clock | Some t \<Rightarrow> t) + vc_max_future_skew ctx \<and>
    no_price_scope obs \<noteq> PS_unknown \<and>
    (no_price_scope obs = PS_exact_store \<longrightarrow> vc_has_store_link ctx) \<and>
    (\<forall>p f u. no_promotion obs = Some p \<and> pro_valid_from p = Some f \<and> pro_valid_until p = Some u \<longrightarrow> f \<le> u) \<and>
    package_coherent obs ctx"
proof (cases "vc_is_block_page ctx \<or> (case vc_status_code ctx of None \<Rightarrow> False | Some s \<Rightarrow> s \<in> set block_status)")
  case True
  then show ?thesis by (auto simp: validate_def validate_report_def to_result_def Let_def split: option.splits)
next
  case False
  then have "(\<exists>r. validate obs ctx clock = Some r \<and> vres_valid r) \<longleftrightarrow>
      (\<exists>ws. check_package obs ctx = Some ([], ws)) \<and>
      amount_errors obs = [] \<and> currency_errors obs ctx = [] \<and> reference_errors obs = [] \<and>
      time_errors obs ctx (case vc_now ctx of None \<Rightarrow> clock | Some t \<Rightarrow> t) = [] \<and>
      scope_errors obs ctx = [] \<and> promotion_errors obs = []"
    by (cases "check_package obs ctx") (auto simp: validate_def validate_report_def to_result_def Let_def)
  moreover have "vc_status_code ctx \<notin> Some ` set block_status" using False by (auto split: option.splits)
  ultimately show ?thesis using False
    by (auto simp: check_package_coherent promotion_errors_empty)
qed


lemma valid_observation_iff_witness:
  "\<exists>r. validate (example_observation 2 10) default_context 20 = Some r \<and> vres_valid r"
proof -
  have "py_upper ''EUR'' = ''EUR''" "py_strip ''v'' = ''v''" by code_simp+
  then show ?thesis
    unfolding valid_observation_iff
    by (simp add: default_context_def example_observation_def package_coherent_def)
qed

end
