(* ===== verification/Anomaly.thy ===== *)
theory Anomaly
  imports Validation
begin

text \<open>
  Detection of suspect batches, \<open>ingestion/anomaly.py\<close>. A batch of fresh observations is compared
  with the last good snapshot; what is found is a list of anomalies in the order of the checks.
  The free-form details are the named figures the code puts there.
\<close>

datatype anomaly_kind =
    Known anomaly_type
  | Catalog_drop | Catalog_growth | All_same_price | Empty_catalog | Parser_zero
  | Package_change | Coverage_drop

datatype figure = Fig_int int | Fig_dec dec | Fig_str string

record found_anomaly =
  fa_kind :: anomaly_kind
  fa_severity :: severity
  fa_expected :: "figure option"
  fa_actual :: "figure option"
  fa_details :: "(string \<times> figure) list"
  fa_variant_ref :: "string option"

record prior_stats =
  ps_catalog_size :: int
  ps_prices :: "(string, dec) dict"
  ps_units :: "(string, string) dict"
  ps_packages :: "(string, dec) dict"
  ps_external :: "(string, string) dict"
  ps_currency :: string
  ps_coverage :: "dec option"

definition empty_stats_prior :: prior_stats where
  "empty_stats_prior = \<lparr>ps_catalog_size = 0, ps_prices = [], ps_units = [], ps_packages = [],
     ps_external = [], ps_currency = ''EUR'', ps_coverage = None\<rparr>"

record batch =
  ba_observations :: "normalized_observation list"
  ba_is_block_page :: bool
  ba_parser_zero :: bool
  ba_coverage :: "dec option"
  ba_packages :: "(string, dec) dict"
  ba_external :: "(string, string) dict"

record detector =
  de_catalog_drop :: dec
  de_catalog_growth :: dec
  de_extreme_factor :: dec
  de_x100_tolerance :: dec
  de_same_price_min :: nat
  de_same_price_fraction :: dec
  de_coverage_drop :: dec
  de_quarantine_severity :: severity

definition default_detector :: detector where
  "default_detector =
     \<lparr>de_catalog_drop = 9 / 10, de_catalog_growth = 10, de_extreme_factor = 3,
      de_x100_tolerance = 5 / 100, de_same_price_min = 5, de_same_price_fraction = 95 / 100,
      de_coverage_drop = 3 / 10, de_quarantine_severity = SV_high\<rparr>"

definition anomaly ::
  "anomaly_kind \<Rightarrow> severity \<Rightarrow> figure option \<Rightarrow> figure option \<Rightarrow> (string \<times> figure) list \<Rightarrow> string option
     \<Rightarrow> found_anomaly" where
  "anomaly k s e a d v =
     \<lparr>fa_kind = k, fa_severity = s, fa_expected = e, fa_actual = a, fa_details = d, fa_variant_ref = v\<rparr>"


section \<open>The checks\<close>

definition catalog_size_check :: "detector \<Rightarrow> int \<Rightarrow> prior_stats \<Rightarrow> found_anomaly list" where
  "catalog_size_check de found_total prior =
     (if ps_catalog_size prior \<le> 0 then []
      else let expected = Some (Fig_int (ps_catalog_size prior));
               fall = ddiv (of_int (ps_catalog_size prior - found_total)) (of_int (ps_catalog_size prior))
        in (if 0 < found_total \<and> de_catalog_drop de \<le> fall
            then [anomaly Catalog_drop SV_critical expected (Some (Fig_int found_total))
                    [(''drop_fraction'', Fig_dec fall)] None] else []) @
           (if dmul (of_int (ps_catalog_size prior)) (de_catalog_growth de) < of_int found_total
            then [anomaly Catalog_growth SV_high expected (Some (Fig_int found_total))
                    [(''growth_factor'', Fig_dec (ddiv (of_int found_total) (of_int (ps_catalog_size prior))))] None]
            else []))"

text \<open>\<open>Counter(amounts).most_common(1)\<close>: the first amount with the highest count.\<close>

definition counter :: "dec list \<Rightarrow> (dec, nat) dict" where
  "counter xs = fold (\<lambda>x d. dset x (dget d x 0 + 1) d) xs []"

definition same_price_check :: "detector \<Rightarrow> batch \<Rightarrow> found_anomaly list" where
  "same_price_check de b =
     (let amounts = map no_amount (ba_observations b) in
      if length amounts < de_same_price_min de then []
      else (case argmin (\<lambda>(p, n). - int n) (counter amounts) of
          None \<Rightarrow> []
        | Some (top_price, top_count) \<Rightarrow>
            (let fraction = ddiv (of_nat top_count) (of_nat (length amounts)) in
             if de_same_price_fraction de \<le> fraction
             then [anomaly All_same_price SV_high None (Some (Fig_dec top_price))
                     [(''fraction'', Fig_dec fraction), (''price'', Fig_dec top_price)] None]
             else [])))"

definition currency_check :: "batch \<Rightarrow> prior_stats \<Rightarrow> found_anomaly list" where
  "currency_check b prior =
     (let expected = py_upper (ps_currency prior) in
      map (\<lambda>o'. anomaly (Known AT_currency_mismatch) SV_high (Some (Fig_str expected))
               (Some (Fig_str (no_currency o'))) [] (Some (no_variant_ref o')))
        (filter (\<lambda>o'. no_currency o' \<noteq> [] \<and> py_upper (no_currency o') \<noteq> expected) (ba_observations b)))"

definition price_move :: "detector \<Rightarrow> string \<Rightarrow> dec \<Rightarrow> dec \<Rightarrow> found_anomaly list" where
  "price_move de ref old new =
     (let ratio = ddiv new old;
          found = (\<lambda>k s d. [anomaly (Known k) s (Some (Fig_dec old)) (Some (Fig_dec new)) d (Some ref)])
      in if dabs (dsub ratio 100) \<le> dmul 100 (de_x100_tolerance de)
         then found AT_price_spike SV_critical [(''kind'', Fig_str ''price_x100''), (''ratio'', Fig_dec ratio)]
         else if dabs (dsub ratio (1 / 100)) \<le> dmul (1 / 100) (de_x100_tolerance de)
         then found AT_price_drop SV_critical [(''kind'', Fig_str ''price_x100''), (''ratio'', Fig_dec ratio)]
         else if de_extreme_factor de \<le> ratio
         then found AT_price_spike SV_high [(''ratio'', Fig_dec ratio)]
         else if ratio \<le> ddiv 1 (de_extreme_factor de)
         then found AT_price_drop SV_high [(''ratio'', Fig_dec ratio)]
         else [])"

definition observation_check :: "detector \<Rightarrow> batch \<Rightarrow> prior_stats \<Rightarrow> normalized_observation \<Rightarrow> found_anomaly list" where
  "observation_check de b prior obs =
     (let ref = no_variant_ref obs in
      (if no_amount obs \<le> 0
       then [anomaly (Known AT_zero_or_negative) SV_critical None (Some (Fig_dec (no_amount obs))) [] (Some ref)]
       else []) @
      (case map_of (ps_prices prior) ref of None \<Rightarrow> []
       | Some p \<Rightarrow> if 0 < p then price_move de ref p (no_amount obs) else []) @
      (case (map_of (ps_units prior) ref, no_unit_code obs) of
         (Some u, Some c) \<Rightarrow>
           if u \<noteq> c
           then [anomaly (Known AT_unit_mismatch) SV_high (Some (Fig_str u)) (Some (Fig_str c)) [] (Some ref)]
           else []
       | _ \<Rightarrow> []) @
      (case (map_of (ps_packages prior) ref, map_of (ba_packages b) ref) of
         (Some p, Some q) \<Rightarrow>
           if p \<noteq> q \<and> map_of (ps_external prior) ref = map_of (ba_external b) ref \<and>
              map_of (ps_external prior) ref \<noteq> None
           then [anomaly Package_change SV_high (Some (Fig_dec p)) (Some (Fig_dec q)) [] (Some ref)]
           else []
       | _ \<Rightarrow> []))"

definition coverage_check :: "detector \<Rightarrow> batch \<Rightarrow> prior_stats \<Rightarrow> found_anomaly list" where
  "coverage_check de b prior =
     (case (ps_coverage prior, ba_coverage b) of
        (Some p, Some c) \<Rightarrow>
          if de_coverage_drop de \<le> dsub p c
          then [anomaly Coverage_drop SV_high (Some (Fig_dec p)) (Some (Fig_dec c))
                  [(''drop'', Fig_dec (dsub p c))] None]
          else []
      | _ \<Rightarrow> [])"

definition detect :: "detector \<Rightarrow> batch \<Rightarrow> prior_stats \<Rightarrow> found_anomaly list" where
  "detect de b prior =
     (let found_total = int (length (ba_observations b)) in
      (if ba_is_block_page b then [anomaly (Known AT_block_page) SV_critical None None [] None] else []) @
      (if ba_parser_zero b then [anomaly Parser_zero SV_high None None [] None] else []) @
      (if found_total = 0 \<and> \<not> ba_parser_zero b
       then [anomaly Empty_catalog SV_high (Some (Fig_int (ps_catalog_size prior))) (Some (Fig_int 0)) [] None]
       else []) @
      catalog_size_check de found_total prior @ same_price_check de b @ currency_check b prior @
      concat (map (observation_check de b prior) (ba_observations b)) @ coverage_check de b prior)"

definition should_quarantine :: "detector \<Rightarrow> found_anomaly list \<Rightarrow> bool" where
  "should_quarantine de as =
     list_ex (\<lambda>a. severity_rank (de_quarantine_severity de) \<le> severity_rank (fa_severity a)) as"


section \<open>What is flagged\<close>

definition grave :: "found_anomaly \<Rightarrow> bool" where
  "grave a = (fa_severity a \<in> {SV_high, SV_critical})"

lemma grave_anomaly [simp]: "grave (anomaly k s e a d v) \<longleftrightarrow> s \<in> {SV_high, SV_critical}"
  by (simp add: grave_def anomaly_def)

lemma grave_checks:
  "list_all grave (catalog_size_check de n prior)" "list_all grave (same_price_check de b)"
  "list_all grave (currency_check b prior)" "list_all grave (price_move de ref old new)"
  "list_all grave (coverage_check de b prior)"
  by (auto simp: catalog_size_check_def same_price_check_def currency_check_def price_move_def
      coverage_check_def Let_def list_all_iff split: option.splits if_splits)

lemma grave_observation: "list_all grave (observation_check de b prior obs)"
  using grave_checks(4)[of de]
  by (auto simp: observation_check_def Let_def list_all_iff split: option.splits if_splits)

lemma grave_detect: "list_all grave (detect de b prior)"
  using grave_checks grave_observation
  by (auto simp: detect_def Let_def list_all_iff split: if_splits)

text \<open>With the shipped thresholds a move is flagged exactly when it reaches a factor of three.\<close>

lemma price_move_default:
  "price_move default_detector ref old new = [] \<longleftrightarrow> ddiv 1 3 < ddiv new old \<and> ddiv new old < 3"
proof -
  let ?r = "ddiv new old"
  have far: "?r < 3 \<Longrightarrow> \<not> dabs (dsub ?r 100) \<le> dmul 100 (5 / 100)"
  proof -
    assume "?r < 3"
    then have "dsub ?r 100 \<le> dsub 3 100" unfolding dsub_def by (intro dround_mono) simp
    moreover have "dsub 3 100 = -97" by code_simp
    ultimately have "97 \<le> \<bar>dsub ?r 100\<bar>" by linarith
    then have "dround 97 \<le> dabs (dsub ?r 100)" unfolding dabs_def by (rule dround_mono)
    moreover have "dround 97 = 97" "dmul 100 (5 / 100) = 5" by code_simp+
    ultimately show ?thesis by linarith
  qed
  have near: "ddiv 1 3 < ?r \<Longrightarrow> \<not> dabs (dsub ?r (1 / 100)) \<le> dmul (1 / 100) (5 / 100)"
  proof -
    assume "ddiv 1 3 < ?r"
    then have "dsub (ddiv 1 3) (1 / 100) \<le> dsub ?r (1 / 100)" unfolding dsub_def by (intro dround_mono) simp
    moreover have "3 / 10 \<le> dsub (ddiv 1 3) (1 / 100)" by code_simp
    ultimately have "3 / 10 \<le> \<bar>dsub ?r (1 / 100)\<bar>" by linarith
    then have "dround (3 / 10) \<le> dabs (dsub ?r (1 / 100))" unfolding dabs_def by (rule dround_mono)
    moreover have "dround (3 / 10) = 3 / 10" "dmul (1 / 100) (5 / 100) < 3 / 10" by code_simp+
    ultimately show ?thesis by linarith
  qed
  show ?thesis using far near by (auto simp: price_move_def default_detector_def Let_def)
qed

text \<open>The counter holds how often each amount occurs, and its top is the most frequent.\<close>

lemma counter_fold:
  "map_of (fold (\<lambda>x d. dset x (dget d x 0 + 1) d) xs d) x =
     (if count_list xs x = 0 then map_of d x else Some (dget d x 0 + count_list xs x))" for d :: "(dec, nat) dict"
proof (induction xs arbitrary: d)
  case (Cons y xs)
  then show ?case by (simp add: map_of_dset dget_def split: option.split)
qed simp

lemma dict_ok_counter: "dict_ok (counter xs)"
proof -
  have "dict_ok d \<Longrightarrow> dict_ok (fold (\<lambda>x d. dset x (dget d x 0 + 1) d) xs d)" for d :: "(dec, nat) dict"
    by (induction xs arbitrary: d) (simp_all add: dict_ok_dset)
  then show ?thesis by (simp add: counter_def)
qed

lemma counter_entry: "(x, n) \<in> set (counter xs) \<longleftrightarrow> x \<in> set xs \<and> n = count_list xs x"
proof -
  have "(x, n) \<in> set (counter xs) \<longleftrightarrow> map_of (counter xs) x = Some n"
    using dict_ok_counter[of xs] by (simp add: dict_ok_def)
  moreover have "map_of (counter xs) x = (if count_list xs x = 0 then None else Some (count_list xs x))"
    unfolding counter_def counter_fold[of xs "[]"] by simp
  ultimately show ?thesis by (auto simp: count_list_0_iff)
qed

lemma top_count:
  assumes "argmin (\<lambda>(p, n). - int n) (counter xs) = Some (p, n)"
  shows "p \<in> set xs" "n = count_list xs p" "\<And>x. x \<in> set xs \<Longrightarrow> count_list xs x \<le> n"
proof -
  note top = argmin_Some[OF assms]
  show "p \<in> set xs" "n = count_list xs p" using top(1) by (simp_all add: counter_entry)
  fix x assume "x \<in> set xs"
  then have "(x, count_list xs x) \<in> set (counter xs)" by (simp add: counter_entry)
  from top(2)[OF this] show "count_list xs x \<le> n" by simp
qed

text \<open>
  A clean observation and a clean batch, with the figures of the shipped detector. A price may move by
  less than a factor of three, and a package may change only with the product behind the reference.
\<close>

definition clean_observation :: "batch \<Rightarrow> prior_stats \<Rightarrow> normalized_observation \<Rightarrow> bool" where
  "clean_observation b prior obs \<longleftrightarrow>
     (let ref = no_variant_ref obs in
      0 < no_amount obs \<and>
      (no_currency obs = [] \<or> py_upper (no_currency obs) = py_upper (ps_currency prior)) \<and>
      (case map_of (ps_prices prior) ref of
         None \<Rightarrow> True
       | Some old \<Rightarrow> old \<le> 0 \<or> ddiv 1 3 < ddiv (no_amount obs) old \<and> ddiv (no_amount obs) old < 3) \<and>
      (case (map_of (ps_units prior) ref, no_unit_code obs) of (Some u, Some c) \<Rightarrow> u = c | _ \<Rightarrow> True) \<and>
      (case (map_of (ps_packages prior) ref, map_of (ba_packages b) ref) of
         (Some p, Some q) \<Rightarrow> p = q \<or> map_of (ps_external prior) ref = None \<or>
           map_of (ps_external prior) ref \<noteq> map_of (ba_external b) ref
       | _ \<Rightarrow> True))"

definition clean_batch :: "batch \<Rightarrow> prior_stats \<Rightarrow> bool" where
  "clean_batch b prior \<longleftrightarrow>
     (let amounts = map no_amount (ba_observations b);
          size = of_nat (length amounts) :: dec;
          known = of_int (ps_catalog_size prior) :: dec
      in \<not> ba_is_block_page b \<and> \<not> ba_parser_zero b \<and> amounts \<noteq> [] \<and>
         (known \<le> 0 \<or> ddiv (known - size) known < 9 / 10 \<and> size \<le> dmul known 10) \<and>
         (length amounts < 5 \<or> list_all (\<lambda>a. ddiv (of_nat (count_list amounts a)) size < 95 / 100) amounts) \<and>
         list_all (clean_observation b prior) (ba_observations b) \<and>
         (case (ps_coverage prior, ba_coverage b) of (Some p, Some c) \<Rightarrow> dsub p c < 3 / 10 | _ \<Rightarrow> True))"

lemma same_price_clean:
  "same_price_check default_detector b = [] \<longleftrightarrow>
     (let amounts = map no_amount (ba_observations b) in
      length amounts < 5 \<or> list_all (\<lambda>a. ddiv (of_nat (count_list amounts a)) (of_nat (length amounts)) < 95 / 100) amounts)"
proof -
  let ?as = "map no_amount (ba_observations b)" and ?share = "\<lambda>n. ddiv (of_nat n) (of_nat (length (ba_observations b)))"
  show ?thesis
  proof (cases "argmin (\<lambda>(p, n). - int n) (counter ?as)")
    case None
    then have "counter ?as = []" by simp
    then have "?as = []" using counter_entry[of "hd ?as" _ ?as] by (cases ?as) auto
    then show ?thesis by (simp add: same_price_check_def default_detector_def Let_def)
  next
    case (Some top)
    obtain p n where pn: "top = (p, n)" by (cases top)
    note top = top_count[OF Some[unfolded pn]]
    have mono: "?share k \<le> ?share n" if "k \<le> n" for k
      unfolding ddiv_def using that by (intro dround_mono divide_right_mono) simp_all
    have "list_all (\<lambda>a. ?share (count_list ?as a) < 95 / 100) ?as \<longleftrightarrow> ?share n < 95 / 100"
      unfolding list_all_iff using top(1,2) mono[OF top(3)] by (meson le_less_trans)
    then show ?thesis using Some by (simp add: same_price_check_def default_detector_def Let_def pn not_le)
  qed
qed

lemma observation_clean:
  "observation_check default_detector b prior obs = [] \<and>
     (no_currency obs = [] \<or> py_upper (no_currency obs) = py_upper (ps_currency prior)) \<longleftrightarrow> clean_observation b prior obs"
  unfolding observation_check_def clean_observation_def Let_def
  by (auto simp: price_move_default not_less split: option.splits)

lemma found_nothing:
  "detect default_detector b prior = [] \<longleftrightarrow> clean_batch b prior"
proof -
  have size: "catalog_size_check default_detector (int (length (ba_observations b))) prior = [] \<longleftrightarrow>
      ps_catalog_size prior \<le> 0 \<or>
      ddiv (of_int (ps_catalog_size prior) - of_nat (length (ba_observations b))) (of_int (ps_catalog_size prior)) < 9 / 10 \<and>
      of_nat (length (ba_observations b)) \<le> dmul (of_int (ps_catalog_size prior)) 10" if "ba_observations b \<noteq> []"
    using that by (auto simp: catalog_size_check_def default_detector_def Let_def not_le not_less)
  have coverage: "coverage_check default_detector b prior = [] \<longleftrightarrow>
      (case (ps_coverage prior, ba_coverage b) of (Some p, Some c) \<Rightarrow> dsub p c < 3 / 10 | _ \<Rightarrow> True)"
    by (auto simp: coverage_check_def default_detector_def Let_def not_le split: option.splits)
  have each: "currency_check b prior = [] \<and> concat (map (observation_check default_detector b prior) (ba_observations b)) = [] \<longleftrightarrow>
      list_all (clean_observation b prior) (ba_observations b)"
    unfolding observation_clean[symmetric] list_all_iff currency_check_def Let_def by (auto simp: filter_empty_conv)
  show ?thesis
    using size same_price_clean[of b] each coverage
    unfolding detect_def clean_batch_def Let_def by (cases "ba_observations b = []") auto
qed

text \<open>C40 A batch is promoted only when nothing at all is wrong with it. Every finding is of high or
  critical severity, so with the shipped thresholds the batch is quarantined exactly when something
  is found; and it is quarantined exactly unless it is clean, which is said of the figures of the
  batch and of the last good snapshot: no block page, a parser that returned something, not empty; a
  catalogue that neither shrank by nine tenths nor grew more than ten times; fewer than five prices,
  or none that 95 in 100 share; only positive amounts in the expected currency, no known price moved
  by a factor of three or more, no unit changed, no package changed behind the same product; and a
  coverage that did not drop by three tenths.\<close>

theorem quarantine_unless_clean:
  "(should_quarantine default_detector (detect default_detector b prior) \<longleftrightarrow>
      detect default_detector b prior \<noteq> []) \<and>
   (should_quarantine default_detector (detect default_detector b prior) \<longleftrightarrow> \<not> clean_batch b prior)"
proof -
  have "should_quarantine default_detector (detect default_detector b prior) \<longleftrightarrow> detect default_detector b prior \<noteq> []"
    using grave_detect[of default_detector b prior]
    by (cases "detect default_detector b prior")
      (auto simp: should_quarantine_def default_detector_def grave_def severity_rank_def list_all_iff list_ex_iff)
  then show ?thesis by (simp add: found_nothing)
qed

definition example_batch :: batch where
  "example_batch = \<lparr>ba_observations = [example_observation 2 10], ba_is_block_page = False,
     ba_parser_zero = False, ba_coverage = None, ba_packages = [], ba_external = []\<rparr>"

theorem quarantine_unless_clean_witness:
  "should_quarantine default_detector
     (detect default_detector example_batch (empty_stats_prior\<lparr>ps_coverage := Some 1\<rparr>)) = False \<and>
   should_quarantine default_detector
     (detect default_detector (example_batch\<lparr>ba_coverage := Some (1 / 2)\<rparr>) (empty_stats_prior\<lparr>ps_coverage := Some 1\<rparr>))"
proof -
  have "clean_batch example_batch (empty_stats_prior\<lparr>ps_coverage := Some 1\<rparr>)"
    "\<not> clean_batch (example_batch\<lparr>ba_coverage := Some (1 / 2)\<rparr>) (empty_stats_prior\<lparr>ps_coverage := Some 1\<rparr>)" by code_simp+
  then show ?thesis
    using quarantine_unless_clean[of example_batch "empty_stats_prior\<lparr>ps_coverage := Some 1\<rparr>"]
      quarantine_unless_clean[of "example_batch\<lparr>ba_coverage := Some (1 / 2)\<rparr>" "empty_stats_prior\<lparr>ps_coverage := Some 1\<rparr>"]
    by blast
qed

end
