(* ===== verification/PriceCoverage.thy ===== *)
theory PriceCoverage
  imports CurrentPrice
begin

text \<open>
  Coverage snapshots of a retailer's catalogue, \<open>ingestion/coverage.py\<close>. The sums and ratios are
  in the rounded arithmetic of the code; a quantization that raises is \<open>Inl\<close>.
\<close>

definition price_ratio :: "dec \<Rightarrow> dec \<Rightarrow> py_exn + dec option" where
  "price_ratio numerator denominator =
     (if denominator \<le> 0 then Inr None
      else map_sum id Some (quantize4 (ddiv numerator denominator)))"

definition grade :: "int \<Rightarrow> int \<Rightarrow> int \<Rightarrow> dec option \<Rightarrow> coverage_grade" where
  "grade expected priced fresh ratio =
     (if expected \<le> 0 \<or> priced \<le> 0 then CG_none
      else if fresh \<le> 0 then CG_stale
      else (case ratio of None \<Rightarrow> CG_none
          | Some r \<Rightarrow> if 1 \<le> r then CG_complete else if 9 / 10 \<le> r then CG_high
              else if 5 / 10 \<le> r then CG_partial else CG_insufficient))"

record snapshot_counts =
  cc_priced :: int
  cc_fresh :: int
  cc_stale :: int
  cc_estimated :: int
  cc_unavailable :: int
  cc_priced_value :: dec
  cc_fresh_value :: dec

definition no_counts :: snapshot_counts where
  "no_counts = \<lparr>cc_priced = 0, cc_fresh = 0, cc_stale = 0, cc_estimated = 0, cc_unavailable = 0,
     cc_priced_value = 0, cc_fresh_value = 0\<rparr>"

definition count_price :: "int \<Rightarrow> time \<Rightarrow> price_observation \<Rightarrow> snapshot_counts \<Rightarrow> snapshot_counts" where
  "count_price stale_hours as_of p c =
     (let is_fresh = age_hours (as_of - obs_observed_at p) < of_int stale_hours;
          b = (\<lambda>x :: bool. if x then 1 else 0 :: int)
      in \<lparr>cc_priced = cc_priced c + 1,
          cc_fresh = cc_fresh c + b is_fresh,
          cc_stale = cc_stale c + b (\<not> is_fresh),
          cc_estimated = cc_estimated c + b (obs_type p = PT_estimated),
          cc_unavailable = cc_unavailable c + b (obs_available p = Some False),
          cc_priced_value = dadd (cc_priced_value c) (obs_amount p),
          cc_fresh_value = (if is_fresh then dadd (cc_fresh_value c) (obs_amount p) else cc_fresh_value c)\<rparr>)"

text \<open>The query of \<open>_latest_valid\<close> is the production view of the current-price read.\<close>

definition count_variant :: "int \<Rightarrow> time \<Rightarrow> int option \<Rightarrow> db \<Rightarrow> product_variant \<Rightarrow> snapshot_counts \<Rightarrow> snapshot_counts" where
  "count_variant stale_hours as_of store_id db v c =
     (case latest_valid db (var_id v) store_id None False None of
        None \<Rightarrow> c | Some p \<Rightarrow> count_price stale_hours as_of p c)"

definition snapshot ::
  "int \<Rightarrow> db \<Rightarrow> int \<Rightarrow> int option \<Rightarrow> time \<Rightarrow> py_exn + coverage_snapshot \<times> db" where
  "snapshot stale_hours db retailer_id store_id as_of =
     (let vs = active_variants db retailer_id;
          discovered = int (length vs);
          c = fold (count_variant stale_hours as_of store_id db) vs no_counts;
          expected = discovered
      in (case price_ratio (of_int (cc_priced c)) (of_int expected) of
            Inl e \<Rightarrow> Inl e
          | Inr coverage_ratio \<Rightarrow>
              (case price_ratio (cc_fresh_value c) (cc_priced_value c) of
                 Inl e \<Rightarrow> Inl e
               | Inr weighted \<Rightarrow>
                   (let row = \<lparr>cov_id = next_id cov_id (snapshots db), cov_retailer = retailer_id,
                               cov_store = store_id, cov_observed_at = as_of, cov_expected = expected,
                               cov_discovered = discovered, cov_priced = cc_priced c,
                               cov_fresh = cc_fresh c, cov_stale = cc_stale c,
                               cov_estimated = cc_estimated c, cov_unavailable = cc_unavailable c,
                               cov_ratio = coverage_ratio, cov_weighted_ratio = weighted,
                               cov_grade = grade expected (cc_priced c) (cc_fresh c) coverage_ratio\<rparr>
                    in Inr (row, db\<lparr>snapshots := snapshots db @ [row]\<rparr>)))))"

definition latest_coverage :: "db \<Rightarrow> int \<Rightarrow> int option \<Rightarrow> coverage_snapshot option" where
  "latest_coverage db retailer_id store_id =
     argmin (\<lambda>s. (- cov_observed_at s, - cov_id s))
       (filter (\<lambda>s. cov_retailer s = retailer_id \<and> cov_store s = store_id) (snapshots db))"


section \<open>What the figures mean\<close>

definition priced_rows :: "db \<Rightarrow> int option \<Rightarrow> product_variant list \<Rightarrow> price_observation list" where
  "priced_rows db store_id vs = List.map_filter (\<lambda>v. latest_valid db (var_id v) store_id None False None) vs"

lemma count_fold:
  "fold (count_variant sh t s db) vs c = fold (count_price sh t) (priced_rows db s vs) c"
  by (induction vs arbitrary: c) (simp_all add: priced_rows_def count_variant_def List.map_filter_simps split: option.split)

lemma count_figures:
  "cc_priced (fold (count_price sh t) ps c) = cc_priced c + int (length ps)"
  "cc_fresh (fold (count_price sh t) ps c) =
     cc_fresh c + int (length (filter (\<lambda>p. age_hours (t - obs_observed_at p) < of_int sh) ps))"
  "cc_stale (fold (count_price sh t) ps c) =
     cc_stale c + int (length (filter (\<lambda>p. \<not> age_hours (t - obs_observed_at p) < of_int sh) ps))"
  "cc_estimated (fold (count_price sh t) ps c) =
     cc_estimated c + int (length (filter (\<lambda>p. obs_type p = PT_estimated) ps))"
  "cc_unavailable (fold (count_price sh t) ps c) =
     cc_unavailable c + int (length (filter (\<lambda>p. obs_available p = Some False) ps))"
  by (induction ps arbitrary: c) (simp_all add: count_price_def Let_def)

lemma length_priced_rows: "length (priced_rows db s vs) \<le> length vs"
  by (simp add: priced_rows_def List.map_filter_def)

lemma priced_rows_all: "length (priced_rows db s vs) = length vs \<longleftrightarrow>
    list_all (\<lambda>v. latest_valid db (var_id v) s None False None \<noteq> None) vs"
proof (induction vs)
  case (Cons v vs)
  show ?case using length_priced_rows[of db s vs] Cons.IH
    by (cases "latest_valid db (var_id v) s None False None")
      (simp_all add: priced_rows_def List.map_filter_simps)
qed (simp add: priced_rows_def List.map_filter_simps)

lemma quantize4_value: "quantize4 x = Inr r \<Longrightarrow> 0 \<le> x \<Longrightarrow> r = of_int (round_half_even (10000 * x)) / 10000"
  by (auto simp: quantize4_def Let_def split: if_splits)

lemma quantize4_one:
  assumes "quantize4 x = Inr r" and "0 \<le> x" and "1 \<le> r"
  shows "19999 / 20000 \<le> x"
proof -
  have "10000 \<le> (of_int (round_half_even (10000 * x)) :: rat)"
    using assms quantize4_value[OF assms(1,2)] by simp
  with round_half_even_err[of "10000 * x"] show ?thesis by linarith
qed

lemma quantize4_1: "quantize4 1 = Inr 1"
  using round_half_even_of_int[of 10000] by (simp add: quantize4_def)

text \<open>A share of fewer than twenty thousand that is not everything does not round up to one.\<close>

lemma small_share:
  assumes "0 \<le> k" and "k < n" and "n < 20000"
  shows "ddiv (of_int k) (of_int n) < 19999 / 20000"
proof -
  have n: "0 < (of_int n :: rat)" using assms by simp
  have "k \<le> n - 1" using assms(2) by simp
  then have "(of_int k :: rat) \<le> of_int (n - 1)" by (simp only: of_int_le_iff)
  then have "of_int k \<le> (of_int n - 1 :: rat)" by simp
  then have "of_int k / of_int n \<le> ((of_int n - 1) / of_int n :: rat)" using n by (intro divide_right_mono) simp_all
  also have "\<dots> = 1 - 1 / of_int n" using n by (simp add: field_simps)
  also have "\<dots> \<le> 1 - 1 / (19999 :: rat)"
  proof -
    have "(of_int n :: rat) \<le> of_int 19999" using assms(3) by (simp only: of_int_le_iff)
    then show ?thesis using n by (simp add: frac_le)
  qed
  finally have q: "of_int k / of_int n \<le> 1 - 1 / (19999 :: rat)" .
  have "0 \<le> (of_int k / of_int n :: rat)" using assms(1) n by simp
  then have "\<bar>of_int k / of_int n :: rat\<bar> \<le> 1" using q by linarith
  with ddiv_err[of "of_int k" "of_int n"] have "\<bar>ddiv (of_int k) (of_int n) - of_int k / of_int n\<bar> \<le> 1 / 10000000000"
    by simp
  with q show ?thesis by linarith
qed

text \<open>The snapshot is honest for catalogues below twenty thousand variants. Its counts are those
  of the active variants with a current price, fresh and stale partition them, and it is graded
  complete exactly when every active variant has a price and one of them is fresh.\<close>

theorem snapshot_honest:
  assumes snap: "snapshot sh db r s t = Inr (row, db')" and small: "length (active_variants db r) < 20000"
  shows "cov_priced row \<le> cov_expected row \<and> cov_fresh row + cov_stale row = cov_priced row \<and>
    (cov_grade row = CG_complete \<longleftrightarrow>
       0 < cov_fresh row \<and> list_all (\<lambda>v. latest_valid db (var_id v) s None False None \<noteq> None) (active_variants db r))"
proof -
  let ?vs = "active_variants db r" and ?ps = "priced_rows db s (active_variants db r)"
  define c where "c = fold (count_price sh t) ?ps no_counts"
  have fig: "cc_priced c = int (length ?ps)"
    "cc_fresh c = int (length (filter (\<lambda>p. age_hours (t - obs_observed_at p) < of_int sh) ?ps))"
    "cc_stale c = int (length (filter (\<lambda>p. \<not> age_hours (t - obs_observed_at p) < of_int sh) ?ps))"
    by (simp_all add: c_def count_figures) (simp_all add: no_counts_def)
  obtain ratio where ratio: "price_ratio (of_int (cc_priced c)) (of_int (int (length ?vs))) = Inr ratio"
    and row: "cov_priced row = cc_priced c" "cov_fresh row = cc_fresh c" "cov_stale row = cc_stale c"
      "cov_expected row = int (length ?vs)"
      "cov_grade row = grade (int (length ?vs)) (cc_priced c) (cc_fresh c) ratio"
    using snap by (auto simp: snapshot_def Let_def count_fold c_def split: sum.splits)
  have le: "cc_priced c \<le> int (length ?vs)" using length_priced_rows by (simp add: fig(1))
  have split: "cc_fresh c + cc_stale c = cc_priced c"
    unfolding fig using sum_length_filter_compl[of "\<lambda>p. age_hours (t - obs_observed_at p) < of_int sh" ?ps] by linarith
  have "cov_grade row = CG_complete \<longleftrightarrow> 0 < cc_fresh c \<and> cc_priced c = int (length ?vs)"
  proof (cases "0 < cc_fresh c \<and> ?vs \<noteq> []")
    case True
    then have pos: "0 < cc_priced c" using split fig(3) by linarith
    from True ratio obtain q where q: "ratio = Some q" "quantize4 (ddiv (of_int (cc_priced c)) (of_int (int (length ?vs)))) = Inr q"
      by (cases "quantize4 (ddiv (of_int (cc_priced c)) (of_int (int (length ?vs))))") (auto simp: price_ratio_def)
    have "1 \<le> q \<longleftrightarrow> cc_priced c = int (length ?vs)"
    proof
      assume "1 \<le> q"
      with quantize4_one[OF q(2)] pos True have "19999 / 20000 \<le> ddiv (of_int (cc_priced c)) (of_int (int (length ?vs)))"
        by simp
      with small_share[of "cc_priced c" "int (length ?vs)"] small pos le show "cc_priced c = int (length ?vs)"
        by linarith
    next
      assume "cc_priced c = int (length ?vs)"
      with q(2) True have "q = 1" by (simp add: quantize4_1)
      then show "1 \<le> q" by simp
    qed
    with True pos q(1) show ?thesis by (auto simp: row grade_def)
  next
    case False
    then show ?thesis by (auto simp: row grade_def fig)
  qed
  then show ?thesis using le split priced_rows_all[of db s ?vs] by (simp add: row fig(1))
qed

definition example_variant :: "int \<Rightarrow> product_variant" where
  "example_variant i = \<lparr>var_id = i, var_product = Some i, var_retailer = 7, var_display_name = ''Huevos'',
     var_package_quantity = None, var_package_unit = None, var_net_quantity = None,
     var_net_unit = None, var_active = True\<rparr>"

lemma snapshot_honest_witness:
  "map_sum id (\<lambda>p. cov_grade (fst p)) (snapshot 24 (example_history\<lparr>variants := [example_variant 4, example_variant 5]\<rparr>)
      7 None 20) \<noteq> Inr CG_complete"
proof (cases "snapshot 24 (example_history\<lparr>variants := [example_variant 4, example_variant 5]\<rparr>) 7 None 20")
  case (Inr res)
  then obtain row db' where snap: "snapshot 24 (example_history\<lparr>variants := [example_variant 4, example_variant 5]\<rparr>) 7 None 20 =
      Inr (row, db')" by (cases res) auto
  have small: "length (active_variants (example_history\<lparr>variants := [example_variant 4, example_variant 5]\<rparr>) 7) < 20000"
    by code_simp
  have "\<not> list_all (\<lambda>v. latest_valid (example_history\<lparr>variants := [example_variant 4, example_variant 5]\<rparr>) (var_id v)
      None None False None \<noteq> None)
      (active_variants (example_history\<lparr>variants := [example_variant 4, example_variant 5]\<rparr>) 7)"
    by code_simp
  with snapshot_honest[OF snap small] snap show ?thesis by simp
qed simp


section \<open>Large catalogues\<close>

text \<open>A large catalogue is graded complete although a price is missing. With 19999 of 20000
  variants priced the ratio 0.99995 is a tie that rounds to the even neighbour 1.0000, and the
  grade is complete.\<close>

theorem complete_with_missing_price:
  "price_ratio (of_int 19999) (of_int 20000) = Inr (Some 1) \<and>
   grade 20000 19999 19999 (Some 1) = CG_complete"
proof -
  have "ddiv 19999 20000 = 19999 / 20000" by code_simp
  moreover have "round_half_even (19999 / 2) = 10000"
  proof -
    have "\<lfloor>19999 / 2 :: rat\<rfloor> = 9999" by (simp add: floor_eq_iff)
    then show ?thesis by (simp add: round_half_even_def)
  qed
  moreover have "10000 * (19999 / 20000) = (19999 / 2 :: rat)" by simp
  ultimately have "quantize4 (ddiv 19999 20000) = Inr 1" unfolding quantize4_def Let_def by (simp only:) simp
  then show ?thesis by (simp add: price_ratio_def grade_def)
qed

end
