(* ===== verification/PriceFacts.thy ===== *)
theory PriceFacts
  imports IngestDb
begin

text \<open>
  The two-layer persistence of price facts: the identity of a fact and of an occurrence
  (\<open>services/observation_identity.py\<close>), the temporal invariants of a history lane
  (\<open>services/price_history_lane.py\<close>), and the idempotent recording that places a fact into its
  lane by the time it was observed (\<open>services/observation_persistence.py\<close>).

  \<^item> An identity is the tuple of its fields. The code compares SHA-256 digests of a canonical
    rendering of that tuple; digests are taken to collide only on equal tuples.
  \<^item> The advisory locks make the reading of a lane and its change one step, so a call is one step
    here; lock keys and waiting times are not modelled.
  \<^item> The candidate is a row together with what the ORM knows of the object.
\<close>

section \<open>Identities\<close>

type_synonym price_fact =
  "int \<times> int option \<times> int option \<times> int \<times> price_scope \<times> price_type \<times> dec \<times> string \<times> dec option \<times>
   string option \<times> string option \<times> bool \<times> time option \<times> time option \<times> bool option \<times> time"

definition price_fact_identity :: "price_observation \<Rightarrow> price_fact" where
  "price_fact_identity r =
     (obs_retailer r, obs_store r, obs_zone r, obs_variant r, obs_scope r, obs_type r, obs_amount r,
      obs_currency r, obs_unit_amount r, obs_unit_code r, map_option py_strip (obs_promotion_text r),
      obs_loyalty r, obs_promotion_from r, obs_promotion_until r, obs_available r, obs_observed_at r)"

type_synonym lane =
  "bool \<times> int \<times> int \<times> int option \<times> int option \<times> price_scope \<times> price_type \<times> string"

definition price_history_lane_identity :: "price_observation \<Rightarrow> lane" where
  "price_history_lane_identity r =
     (obs_staging_only r, obs_retailer r, obs_variant r, obs_store r, obs_zone r, obs_scope r,
      obs_type r, obs_currency r)"

record occurrence_provenance =
  prv_provider :: "string option"
  prv_source :: "int option"
  prv_source_url :: "string option"
  prv_crawl_run :: "int option"
  prv_raw_capture :: "int option"
  prv_connector_version :: "string option"
  prv_parser_version :: "string option"
  prv_confidence :: "dec option"
  prv_verification :: verification_status
  prv_evidence :: "string option"

type_synonym occurrence_key =
  "int \<times> string option \<times> int option \<times> int option \<times> int option \<times> string option \<times> string option"

definition occurrence_identity :: "price_occurrence \<Rightarrow> occurrence_key" where
  "occurrence_identity o1 =
     (occ_observation o1, occ_provider o1, occ_source o1, occ_crawl_run o1, occ_raw_capture o1,
      occ_connector_version o1, occ_parser_version o1)"

text \<open>The same fields of a provenance, for the fact it confirms.\<close>

definition provenance_identity :: "int \<Rightarrow> occurrence_provenance \<Rightarrow> occurrence_key" where
  "provenance_identity i p =
     (i, prv_provider p, prv_source p, prv_crawl_run p, prv_raw_capture p, prv_connector_version p,
      prv_parser_version p)"


section \<open>The invariants of a lane\<close>

definition group_by_lane :: "price_observation list \<Rightarrow> (lane, price_observation list) dict" where
  "group_by_lane rows =
     fold (\<lambda>r d. dset (price_history_lane_identity r)
                   (dget d (price_history_lane_identity r) [] @ [r]) d) rows []"

definition is_disputed :: "price_observation \<Rightarrow> bool" where
  "is_disputed r = (obs_verification r = VS_disputed)"

record lane_report =
  lr_lanes :: nat
  lr_rows :: nat
  lr_multiple_open :: nat
  lr_repeated_timestamp :: nat
  lr_overlapping :: nat
  lr_non_positive :: nat
  lr_disputed_non_empty :: nat
  lr_lanes_crossing :: nat
  lr_crossing :: nat
  lr_unexpected_coverage :: nat
  lr_blocked_gaps :: nat

fun overlapping :: "price_observation list \<Rightarrow> bool" where
  "overlapping (a # b # rs) =
     ((case obs_valid_until a of None \<Rightarrow> True | Some u \<Rightarrow> obs_valid_from b < u) \<or> overlapping (b # rs))"
| "overlapping _ = False"

definition crosses :: "time \<Rightarrow> price_observation \<Rightarrow> bool" where
  "crosses d a =
     (obs_valid_from a < d \<and> (case obs_valid_until a of None \<Rightarrow> True | Some u \<Rightarrow> d < u))"

text \<open>One barrier: the flags of the lane and its report so far.\<close>

definition report_barrier ::
  "price_observation list \<Rightarrow> time \<Rightarrow> bool \<times> bool \<times> lane_report \<Rightarrow> bool \<times> bool \<times> lane_report" where
  "report_barrier active d st =
     (case st of (lane_crosses, unexpected, rep) \<Rightarrow>
        let crossers = filter (crosses d) active in
        if crossers \<noteq> []
        then (True, unexpected \<or> list_ex (\<lambda>a. obs_valid_until a = None) crossers,
              rep\<lparr>lr_crossing := lr_crossing rep + length crossers\<rparr>)
        else (lane_crosses, unexpected, rep\<lparr>lr_blocked_gaps := lr_blocked_gaps rep + 1\<rparr>))"

definition report_lane :: "price_observation list \<Rightarrow> lane_report \<Rightarrow> lane_report" where
  "report_lane lane_rows rep =
     (let active = filter (\<lambda>r. \<not> is_disputed r) lane_rows;
          disputed = filter is_disputed lane_rows;
          rep = (if 1 < length (filter (\<lambda>r. obs_valid_until r = None) active)
                 then rep\<lparr>lr_multiple_open := lr_multiple_open rep + 1\<rparr> else rep);
          rep = (if \<not> distinct (map obs_valid_from active)
                 then rep\<lparr>lr_repeated_timestamp := lr_repeated_timestamp rep + 1\<rparr> else rep);
          rep = (if overlapping (sort_key obs_valid_from active)
                 then rep\<lparr>lr_overlapping := lr_overlapping rep + 1\<rparr> else rep);
          rep = rep\<lparr>lr_non_positive := lr_non_positive rep +
                   length (filter (\<lambda>r. case obs_valid_until r of None \<Rightarrow> False
                                    | Some u \<Rightarrow> \<not> obs_valid_from r < u) active)\<rparr>;
          rep = rep\<lparr>lr_disputed_non_empty := lr_disputed_non_empty rep +
                   length (filter (\<lambda>r. obs_valid_until r \<noteq> Some (obs_valid_from r)) disputed)\<rparr>;
          (lane_crosses, unexpected, rep) =
            fold (report_barrier active) (remdups (map obs_valid_from disputed)) (False, False, rep);
          rep = (if lane_crosses then rep\<lparr>lr_lanes_crossing := lr_lanes_crossing rep + 1\<rparr> else rep)
      in if unexpected then rep\<lparr>lr_unexpected_coverage := lr_unexpected_coverage rep + 1\<rparr> else rep)"

definition lane_invariant_report :: "price_observation list \<Rightarrow> lane_report" where
  "lane_invariant_report rows =
     (let lanes = group_by_lane rows in
      fold (\<lambda>(_, lane_rows) rep. report_lane lane_rows rep) lanes
        \<lparr>lr_lanes = length lanes, lr_rows = length rows, lr_multiple_open = 0,
         lr_repeated_timestamp = 0, lr_overlapping = 0, lr_non_positive = 0,
         lr_disputed_non_empty = 0, lr_lanes_crossing = 0, lr_crossing = 0,
         lr_unexpected_coverage = 0, lr_blocked_gaps = 0\<rparr>)"

definition lane_invariants_hold :: "price_observation list \<Rightarrow> bool" where
  "lane_invariants_hold rows =
     (let r = lane_invariant_report rows in
      lr_multiple_open r = 0 \<and> lr_repeated_timestamp r = 0 \<and> lr_overlapping r = 0 \<and>
      lr_non_positive r = 0 \<and> lr_disputed_non_empty r = 0 \<and> lr_crossing r = 0)"


section \<open>Recording a fact\<close>

record lane_causes =
  lc_multiple_open :: nat
  lc_overlap :: nat
  lc_repeated_timestamp :: nat
  lc_non_positive :: nat
  lc_crossing_disputed :: nat
  lc_disputed_non_empty :: nat

datatype invalid_reason = Candidate_rolled_back | Candidate_deleted | Candidate_persistent
  | Candidate_detached | Candidate_pending | Candidate_session_associated | Candidate_primary_key_set

datatype fact_error = Invalid_candidate invalid_reason | Lane_anomaly lane_causes | Multiple_active_exact nat

datatype orm_state = Orm_transient | Orm_pending | Orm_persistent | Orm_detached | Orm_deleted

record fact_candidate =
  fc_row :: price_observation
  fc_id :: "int option"
  fc_orm :: orm_state
  fc_in_session :: bool
  fc_loyalty :: "bool option"
  fc_imported_at :: "time option"

record record_metrics =
  me_observations_created :: int
  me_observations_reused :: int
  me_occurrences_created :: int
  me_occurrences_reused :: int
  me_facts_reused_after_lane_lock :: int
  me_occurrences_reused_after_lock :: int
  me_out_of_order_inserts :: int
  me_same_timestamp_conflicts :: int
  me_blocked_gaps :: int
  me_lane_preflight_checked :: int
  me_lane_preexisting_anomaly :: int
  me_lane_preexisting_multiple_open :: int
  me_lane_preexisting_overlap :: int
  me_lane_preexisting_repeated_timestamp :: int
  me_lane_preexisting_crossing_disputed :: int
  me_write_blocked_by_lane_anomaly :: int
  me_rolled_back_exact_matches_ignored :: int
  me_active_exact_fact_reused :: int
  me_new_fact_created_after_rolled_back_match :: int
  me_multiple_active_exact_fact_blocked :: int
  me_invalid_candidate_state_blocked :: int

record lock_diagnostics =
  dg_fact_reused :: bool
  dg_occurrence_reused :: bool
  dg_predecessor_found :: bool
  dg_successor_found :: bool
  dg_out_of_order :: bool
  dg_same_timestamp_conflict :: bool
  dg_blocked_gap_before :: bool

definition no_diagnostics :: lock_diagnostics where
  "no_diagnostics =
     \<lparr>dg_fact_reused = False, dg_occurrence_reused = False, dg_predecessor_found = False,
      dg_successor_found = False, dg_out_of_order = False, dg_same_timestamp_conflict = False,
      dg_blocked_gap_before = False\<rparr>"

record record_result =
  rr_observation :: price_observation
  rr_occurrence :: price_occurrence
  rr_fact_created :: bool
  rr_occurrence_created :: bool
  rr_diagnostics :: lock_diagnostics

definition validate_candidate_state :: "fact_candidate \<Rightarrow> invalid_reason option" where
  "validate_candidate_state c =
     (if obs_rolled_back_at (fc_row c) \<noteq> None then Some Candidate_rolled_back
      else case fc_orm c of
        Orm_deleted \<Rightarrow> Some Candidate_deleted
      | Orm_persistent \<Rightarrow> Some Candidate_persistent
      | Orm_detached \<Rightarrow> Some Candidate_detached
      | Orm_pending \<Rightarrow> Some Candidate_pending
      | Orm_transient \<Rightarrow>
          if fc_in_session c then Some Candidate_session_associated
          else if fc_id c \<noteq> None then Some Candidate_primary_key_set else None)"

text \<open>The columns that the query compares before the identities are compared.\<close>

definition fact_prefilter :: "price_observation \<Rightarrow> price_observation \<Rightarrow> bool" where
  "fact_prefilter c r =
     (obs_retailer r = obs_retailer c \<and> obs_variant r = obs_variant c \<and> obs_store r = obs_store c \<and>
      obs_scope r = obs_scope c \<and> obs_type r = obs_type c \<and> obs_amount r = obs_amount c \<and>
      obs_currency r = obs_currency c \<and> obs_observed_at r = obs_observed_at c)"

record fact_lookup =
  fl_active_fact :: "price_observation option"
  fl_active_matches :: nat
  fl_rolled_back_ignored :: nat

definition find_existing_fact :: "db \<Rightarrow> price_observation \<Rightarrow> bool \<Rightarrow> nat + fact_lookup" where
  "find_existing_fact db c staging =
     (let rows = filter (\<lambda>r. fact_prefilter c r \<and> obs_staging_only r = staging) (observations db);
          exact = filter (\<lambda>r. price_fact_identity r = price_fact_identity c) rows;
          active = filter (\<lambda>r. obs_rolled_back_at r = None) exact;
          rolled_back = length (filter (\<lambda>r. obs_rolled_back_at r \<noteq> None) exact)
      in if 1 < length active then Inl (length active)
         else Inr \<lparr>fl_active_fact = (case active of [] \<Rightarrow> None | r # _ \<Rightarrow> Some r),
                   fl_active_matches = length active, fl_rolled_back_ignored = rolled_back\<rparr>)"

definition lane_rows :: "db \<Rightarrow> lane \<Rightarrow> price_observation list" where
  "lane_rows db l =
     filter (\<lambda>r. price_history_lane_identity r = l \<and> obs_rolled_back_at r = None) (observations db)"

definition preexisting_lane_anomaly :: "price_observation list \<Rightarrow> lane_causes option" where
  "preexisting_lane_anomaly rows =
     (let rep = lane_invariant_report rows;
          causes = \<lparr>lc_multiple_open = lr_multiple_open rep, lc_overlap = lr_overlapping rep,
                    lc_repeated_timestamp = lr_repeated_timestamp rep,
                    lc_non_positive = lr_non_positive rep,
                    lc_crossing_disputed = lr_lanes_crossing rep,
                    lc_disputed_non_empty = lr_disputed_non_empty rep\<rparr>
      in if lc_multiple_open causes \<noteq> 0 \<or> lc_overlap causes \<noteq> 0 \<or> lc_repeated_timestamp causes \<noteq> 0 \<or>
            lc_non_positive causes \<noteq> 0 \<or> lc_crossing_disputed causes \<noteq> 0 \<or> lc_disputed_non_empty causes \<noteq> 0
         then Some causes else None)"

definition add_conflict_anomaly :: "int \<Rightarrow> db \<Rightarrow> db" where
  "add_conflict_anomaly i db =
     db\<lparr>anomalies := anomalies db @
        [\<lparr>ano_id = next_id ano_id (anomalies db), ano_observation = Some i, ano_crawl_run = None,
          ano_type = ''same_timestamp_conflict'', ano_severity = SV_high, ano_actual_value = None,
          ano_status = AS_open\<rparr>]\<rparr>"

definition collapse_row :: "price_observation \<Rightarrow> price_observation" where
  "collapse_row r = r\<lparr>obs_verification := VS_disputed, obs_valid_until := Some (obs_valid_from r)\<rparr>"

definition dispute_sibling :: "price_observation \<Rightarrow> db \<Rightarrow> db" where
  "dispute_sibling e db =
     (if is_disputed e then db
      else add_conflict_anomaly (obs_id e)
             (db\<lparr>observations := update_row obs_id (obs_id e) collapse_row (observations db)\<rparr>))"

definition next_anchor :: "price_observation list \<Rightarrow> time \<Rightarrow> time option" where
  "next_anchor rows t =
     (let later = filter (\<lambda>u. t < u) (map obs_valid_from rows) in
      if later = [] then None else Some (Min (set later)))"

definition previous_anchor :: "price_observation list \<Rightarrow> time \<Rightarrow> time option" where
  "previous_anchor rows t =
     (let earlier = filter (\<lambda>u. u < t) (map obs_valid_from rows) in
      if earlier = [] then None else Some (Max (set earlier)))"

definition end_row :: "time \<Rightarrow> int option \<Rightarrow> price_observation \<Rightarrow> price_observation" where
  "end_row t run r = r\<lparr>obs_valid_until := Some t, obs_closed_by_run := run\<rparr>"

definition end_predecessor :: "time \<Rightarrow> int option \<Rightarrow> time \<Rightarrow> price_observation list \<Rightarrow> db \<Rightarrow> db" where
  "end_predecessor t run prev rows db =
     fold (\<lambda>r db. if obs_valid_from r = prev \<and> \<not> is_disputed r
                  then db\<lparr>observations := update_row obs_id (obs_id r) (end_row t run) (observations db)\<rparr>
                  else db) rows db"

definition place_in_temporal_sequence ::
  "price_observation \<Rightarrow> int option \<Rightarrow> lock_diagnostics \<Rightarrow> db \<Rightarrow> price_observation \<times> lock_diagnostics \<times> db" where
  "place_in_temporal_sequence c closed_by_run_id diag db =
     (let t = obs_observed_at c;
          c = c\<lparr>obs_valid_from := t\<rparr>;
          rows = lane_rows db (price_history_lane_identity c);
          at_t = filter (\<lambda>r. obs_valid_from r = t) rows
      in if at_t \<noteq> []
         then (c\<lparr>obs_valid_until := Some t, obs_verification := VS_disputed\<rparr>,
               diag\<lparr>dg_same_timestamp_conflict := True\<rparr>, fold dispute_sibling at_t db)
         else
           let disputed_ts = map obs_valid_from (filter is_disputed rows);
               prev = previous_anchor rows t;
               nxt = next_anchor rows t;
               c = c\<lparr>obs_valid_until := nxt\<rparr>;
               (db, diag) = (case prev of
                   None \<Rightarrow> (db, diag)
                 | Some p \<Rightarrow>
                     if p \<notin> set disputed_ts
                     then (end_predecessor t closed_by_run_id p rows db, diag\<lparr>dg_predecessor_found := True\<rparr>)
                     else (db, diag))
           in (c, diag\<lparr>dg_successor_found := (nxt \<noteq> None), dg_out_of_order := (nxt \<noteq> None),
                       dg_blocked_gap_before := (case prev of None \<Rightarrow> False | Some p \<Rightarrow> p \<in> set disputed_ts)\<rparr>, db))"

definition find_existing_occurrence :: "db \<Rightarrow> int \<Rightarrow> occurrence_provenance \<Rightarrow> price_occurrence option" where
  "find_existing_occurrence db i prov =
     find (\<lambda>oc. occurrence_identity oc = provenance_identity i prov) (occurrences db)"

definition blocked_metrics :: "lane_causes \<Rightarrow> record_metrics \<Rightarrow> record_metrics" where
  "blocked_metrics causes m =
     m\<lparr>me_lane_preexisting_anomaly := me_lane_preexisting_anomaly m + 1,
       me_write_blocked_by_lane_anomaly := me_write_blocked_by_lane_anomaly m + 1,
       me_lane_preexisting_multiple_open := me_lane_preexisting_multiple_open m +
         (if lc_multiple_open causes \<noteq> 0 then 1 else 0),
       me_lane_preexisting_overlap := me_lane_preexisting_overlap m +
         (if lc_overlap causes \<noteq> 0 then 1 else 0),
       me_lane_preexisting_repeated_timestamp := me_lane_preexisting_repeated_timestamp m +
         (if lc_repeated_timestamp causes \<noteq> 0 then 1 else 0),
       me_lane_preexisting_crossing_disputed := me_lane_preexisting_crossing_disputed m +
         (if lc_crossing_disputed causes \<noteq> 0 then 1 else 0)\<rparr>"

text \<open>The first half of the call: reuse the exact fact, or place and insert the candidate.\<close>

definition store_fact ::
  "price_observation \<Rightarrow> occurrence_provenance \<Rightarrow> fact_lookup \<Rightarrow> record_metrics \<Rightarrow> db
     \<Rightarrow> price_observation \<times> bool \<times> lock_diagnostics \<times> record_metrics \<times> db" where
  "store_fact c prov found m db =
     (case fl_active_fact found of
        Some r \<Rightarrow>
          (r, False, no_diagnostics\<lparr>dg_fact_reused := True\<rparr>,
           m\<lparr>me_observations_reused := me_observations_reused m + 1,
             me_facts_reused_after_lane_lock := me_facts_reused_after_lane_lock m + 1,
             me_active_exact_fact_reused := me_active_exact_fact_reused m + 1\<rparr>, db)
      | None \<Rightarrow>
          (let (c, diag, db) = place_in_temporal_sequence c (prv_crawl_run prov) no_diagnostics db;
               row = c\<lparr>obs_id := next_id obs_id (observations db)\<rparr>;
               db = db\<lparr>observations := observations db @ [row]\<rparr>;
               db = (if dg_same_timestamp_conflict diag then add_conflict_anomaly (obs_id row) db else db)
           in (row, True, diag,
               m\<lparr>me_same_timestamp_conflicts := me_same_timestamp_conflicts m +
                   (if dg_same_timestamp_conflict diag then 1 else 0),
                 me_out_of_order_inserts := me_out_of_order_inserts m + (if dg_out_of_order diag then 1 else 0),
                 me_blocked_gaps := me_blocked_gaps m + (if dg_blocked_gap_before diag then 1 else 0),
                 me_observations_created := me_observations_created m + 1,
                 me_new_fact_created_after_rolled_back_match := me_new_fact_created_after_rolled_back_match m +
                   (if fl_rolled_back_ignored found \<noteq> 0 then 1 else 0)\<rparr>, db)))"

text \<open>The second half: the one occurrence of this provenance.\<close>

definition store_occurrence ::
  "int \<Rightarrow> occurrence_provenance \<Rightarrow> time \<Rightarrow> record_metrics \<Rightarrow> db
     \<Rightarrow> price_occurrence \<times> bool \<times> record_metrics \<times> db" where
  "store_occurrence i prov imported_at m db =
     (case find_existing_occurrence db i prov of
        Some oc \<Rightarrow> (oc, False,
          m\<lparr>me_occurrences_reused := me_occurrences_reused m + 1,
            me_occurrences_reused_after_lock := me_occurrences_reused_after_lock m + 1\<rparr>, db)
      | None \<Rightarrow>
          (let oc = \<lparr>occ_id = next_id occ_id (occurrences db), occ_observation = i,
                     occ_provider = prv_provider prov, occ_source = prv_source prov,
                     occ_source_url = prv_source_url prov, occ_crawl_run = prv_crawl_run prov,
                     occ_raw_capture = prv_raw_capture prov,
                     occ_connector_version = prv_connector_version prov,
                     occ_parser_version = prv_parser_version prov, occ_imported_at = imported_at,
                     occ_confidence = prv_confidence prov, occ_verification = prv_verification prov,
                     occ_evidence = prv_evidence prov\<rparr>
           in (oc, True, m\<lparr>me_occurrences_created := me_occurrences_created m + 1\<rparr>,
               db\<lparr>occurrences := occurrences db @ [oc]\<rparr>)))"

text \<open>The row that is stored, before it is placed: the defaults of the candidate filled in.\<close>

definition candidate_row :: "fact_candidate \<Rightarrow> time \<Rightarrow> price_observation" where
  "candidate_row c imported_at =
     (fc_row c)\<lparr>obs_loyalty := (case fc_loyalty c of None \<Rightarrow> False | Some b \<Rightarrow> b),
       obs_imported_at := (case fc_imported_at c of None \<Rightarrow> imported_at | Some t \<Rightarrow> t)\<rparr>"

definition record_price_fact ::
  "fact_candidate \<Rightarrow> occurrence_provenance \<Rightarrow> time \<Rightarrow> record_metrics \<Rightarrow> db
     \<Rightarrow> (fact_error + record_result) \<times> record_metrics \<times> db" where
  "record_price_fact cand prov imported_at m db =
     (case validate_candidate_state cand of
        Some reason \<Rightarrow>
          (Inl (Invalid_candidate reason),
           m\<lparr>me_invalid_candidate_state_blocked := me_invalid_candidate_state_blocked m + 1\<rparr>, db)
      | None \<Rightarrow>
          (let c = candidate_row cand imported_at;
               m = m\<lparr>me_lane_preflight_checked := me_lane_preflight_checked m + 1\<rparr>
           in case preexisting_lane_anomaly (lane_rows db (price_history_lane_identity c)) of
                Some causes \<Rightarrow> (Inl (Lane_anomaly causes), blocked_metrics causes m, db)
              | None \<Rightarrow>
                  (case find_existing_fact db c (obs_staging_only c) of
                     Inl n \<Rightarrow>
                       (Inl (Multiple_active_exact n),
                        m\<lparr>me_multiple_active_exact_fact_blocked := me_multiple_active_exact_fact_blocked m + 1\<rparr>, db)
                   | Inr found \<Rightarrow>
                       (let m = m\<lparr>me_rolled_back_exact_matches_ignored :=
                                    me_rolled_back_exact_matches_ignored m + int (fl_rolled_back_ignored found)\<rparr>;
                            (stored, created, diag, m, db) = store_fact c prov found m db;
                            (oc, oc_created, m, db) = store_occurrence (obs_id stored) prov imported_at m db
                        in (Inr \<lparr>rr_observation = stored, rr_occurrence = oc, rr_fact_created = created,
                                 rr_occurrence_created = oc_created,
                                 rr_diagnostics = (if oc_created then diag else diag\<lparr>dg_occurrence_reused := True\<rparr>)\<rparr>,
                            m, db)))))"


section \<open>What the report checks\<close>

text \<open>
  The invariants of one lane, said of its rows and not of the way the report counts: timestamps
  do not repeat, intervals are not empty, an active row ends before the next active row and before
  the next disputed instant begins, and disputed rows are empty.
\<close>

definition ends_by :: "time \<Rightarrow> price_observation \<Rightarrow> bool" where
  "ends_by t r = (case obs_valid_until r of None \<Rightarrow> False | Some u \<Rightarrow> u \<le> t)"

definition active_rows :: "price_observation list \<Rightarrow> price_observation list" where
  "active_rows rows = filter (\<lambda>r. \<not> is_disputed r) rows"

definition lane_clean :: "price_observation list \<Rightarrow> bool" where
  "lane_clean rows \<longleftrightarrow>
     distinct (map obs_valid_from (active_rows rows)) \<and>
     (\<forall>a\<in>set (active_rows rows). \<forall>u. obs_valid_until a = Some u \<longrightarrow> obs_valid_from a < u) \<and>
     (\<forall>a\<in>set (active_rows rows). \<forall>b\<in>set rows. obs_valid_from a < obs_valid_from b \<longrightarrow> ends_by (obs_valid_from b) a) \<and>
     (\<forall>d\<in>set rows. is_disputed d \<longrightarrow> obs_valid_until d = Some (obs_valid_from d))"

text \<open>The counters of the report, lane by lane.\<close>

definition lane_counts :: "price_observation list \<Rightarrow> nat list" where
  "lane_counts rows =
     (let active = active_rows rows; disputed = filter is_disputed rows;
          ds = remdups (map obs_valid_from disputed)
      in [if 1 < length (filter (\<lambda>r. obs_valid_until r = None) active) then 1 else 0,
          if \<not> distinct (map obs_valid_from active) then 1 else 0,
          if overlapping (sort_key obs_valid_from active) then 1 else 0,
          length (filter (\<lambda>r. case obs_valid_until r of None \<Rightarrow> False | Some u \<Rightarrow> \<not> obs_valid_from r < u) active),
          length (filter (\<lambda>r. obs_valid_until r \<noteq> Some (obs_valid_from r)) disputed),
          (\<Sum>d\<leftarrow>ds. length (filter (crosses d) active)),
          if \<exists>d\<in>set ds. \<exists>a\<in>set active. crosses d a then 1 else 0])"

definition violations :: "lane_report \<Rightarrow> nat list" where
  "violations rep =
     [lr_multiple_open rep, lr_repeated_timestamp rep, lr_overlapping rep, lr_non_positive rep,
      lr_disputed_non_empty rep, lr_crossing rep, lr_lanes_crossing rep]"

lemma barrier_fold:
  "fold (report_barrier active) ds (b, c, rep) = (b', c', rep') \<Longrightarrow>
     b' = (b \<or> (\<exists>d\<in>set ds. \<exists>a\<in>set active. crosses d a)) \<and>
     violations rep' = list_update (violations rep) 5
       (lr_crossing rep + (\<Sum>d\<leftarrow>ds. length (filter (crosses d) active)))"
proof (induction ds arbitrary: b c rep)
  case Nil
  then show ?case by (simp add: violations_def)
next
  case (Cons d ds)
  obtain b1 c1 rep1 where s: "report_barrier active d (b, c, rep) = (b1, c1, rep1)" by (metis prod_cases3)
  have "b1 = (b \<or> (\<exists>a\<in>set active. crosses d a))"
    and "violations rep1 = list_update (violations rep) 5 (lr_crossing rep + length (filter (crosses d) active))"
    using s by (auto simp: report_barrier_def Let_def violations_def filter_empty_conv split: if_splits)
  moreover from this(2) have "lr_crossing rep1 = lr_crossing rep + length (filter (crosses d) active)"
    by (simp add: violations_def)
  ultimately show ?case using Cons.IH[of b1 c1 rep1] Cons.prems s by (auto simp: add.assoc)
qed

lemma violations_lane: "violations (report_lane rows rep) = map2 (+) (violations rep) (lane_counts rows)"
proof -
  let ?active = "filter (\<lambda>r. \<not> is_disputed r) rows"
  let ?ds = "remdups (map obs_valid_from (filter is_disputed rows))"
  define rep0 where "rep0 =
     rep\<lparr>lr_multiple_open := lr_multiple_open rep +
           (if 1 < length (filter (\<lambda>r. obs_valid_until r = None) ?active) then 1 else 0),
         lr_repeated_timestamp := lr_repeated_timestamp rep +
           (if \<not> distinct (map obs_valid_from ?active) then 1 else 0),
         lr_overlapping := lr_overlapping rep + (if overlapping (sort_key obs_valid_from ?active) then 1 else 0),
         lr_non_positive := lr_non_positive rep + length (filter (\<lambda>r. case obs_valid_until r of None \<Rightarrow> False
                                    | Some u \<Rightarrow> \<not> obs_valid_from r < u) ?active),
         lr_disputed_non_empty := lr_disputed_non_empty rep +
           length (filter (\<lambda>r. obs_valid_until r \<noteq> Some (obs_valid_from r)) (filter is_disputed rows))\<rparr>"
  obtain b c rep1 where f: "fold (report_barrier ?active) ?ds (False, False, rep0) = (b, c, rep1)"
    by (metis prod_cases3)
  have "report_lane rows rep =
     (let rep2 = (if b then rep1\<lparr>lr_lanes_crossing := lr_lanes_crossing rep1 + 1\<rparr> else rep1)
      in if c then rep2\<lparr>lr_unexpected_coverage := lr_unexpected_coverage rep2 + 1\<rparr> else rep2)"
    using f by (simp add: report_lane_def Let_def rep0_def split: if_splits)
  with barrier_fold[OF f] show ?thesis
    by (auto simp: Let_def violations_def lane_counts_def active_rows_def rep0_def)
qed

lemma violations_fold:
  assumes "\<And>rows rep. violations (F rows rep) = map2 (+) (violations rep) (lane_counts rows)"
  shows "violations (fold F xs rep) = violations rep \<longleftrightarrow> (\<forall>rows\<in>set xs. set (lane_counts rows) \<subseteq> {0})"
proof -
  have len: "length (violations rep) = 7" "length (lane_counts rows) = 7" for rep rows
    by (simp_all add: violations_def lane_counts_def Let_def)
  have step: "list_all2 (\<le>) (violations rep) (violations (F rows rep))" for rows rep
    by (simp add: assms list_all2_conv_all_nth len)
  have mono: "list_all2 (\<le>) (violations rep) (violations (fold F ys rep))" for ys rep
  proof (induction ys arbitrary: rep)
    case (Cons x ys)
    show ?case using list_all2_trans[OF _ step[of rep x] Cons.IH[of "F x rep"], of "(\<le>)"] by force
  qed (simp add: list.rel_refl)
  have same: "violations (F rows rep) = violations rep \<longleftrightarrow> set (lane_counts rows) \<subseteq> {0}" for rows rep
    by (auto simp: assms list_eq_iff_nth_eq len set_conv_nth subset_iff)
  show ?thesis
  proof (induction xs arbitrary: rep)
    case (Cons x xs)
    have "violations (fold F xs (F x rep)) = violations rep \<longleftrightarrow>
        violations (F x rep) = violations rep \<and> violations (fold F xs (F x rep)) = violations (F x rep)"
    proof (intro iffI conjI)
      assume e: "violations (fold F xs (F x rep)) = violations rep"
      show "violations (F x rep) = violations rep"
        using list_all2_antisym[of "(\<le>)" "(\<le>)", OF _ _ step[of rep x]] mono[of "F x rep" xs] e
        by simp
      with e show "violations (fold F xs (F x rep)) = violations (F x rep)" by simp
    qed simp
    then show ?case using Cons.IH[of "F x rep"] same[of x rep] by auto
  qed simp
qed

lemma group_by_lane_map:
  "map_of (group_by_lane rows) l =
     (let own = filter (\<lambda>r. price_history_lane_identity r = l) rows in if own = [] then None else Some own)"
  unfolding group_by_lane_def
  by (induction rows rule: rev_induct) (auto simp: dget_def Let_def split: option.splits if_splits)

lemma group_by_lane_set:
  "snd ` set (group_by_lane rows) =
     {filter (\<lambda>r. price_history_lane_identity r = l) rows | l. \<exists>r\<in>set rows. price_history_lane_identity r = l}"
proof -
  have ok: "dict_ok (group_by_lane rows)"
    unfolding group_by_lane_def by (induction rows rule: rev_induct) auto
  then have entry: "(l, x) \<in> set (group_by_lane rows) \<longleftrightarrow>
      x = filter (\<lambda>r. price_history_lane_identity r = l) rows \<and> (\<exists>r\<in>set rows. price_history_lane_identity r = l)" for l x
    by (auto simp: dict_ok_def map_of_eq_Some_iff [symmetric] group_by_lane_map Let_def filter_empty_conv)
  have "x \<in> snd ` set d \<longleftrightarrow> (\<exists>l. (l, x) \<in> set d)" for x and d :: "(lane, price_observation list) dict"
    by force
  then show ?thesis by (intro set_eqI) (simp add: entry del: split_paired_Ex)
qed

lemma overlapping_sorted:
  assumes "sorted (map obs_valid_from xs)"
  shows "\<not> overlapping xs \<longleftrightarrow> sorted_wrt (\<lambda>a b. ends_by (obs_valid_from b) a) xs"
  using assms
proof (induction xs rule: overlapping.induct)
  case (1 a b rs)
  have "ends_by (obs_valid_from c) a" if "ends_by (obs_valid_from b) a" "c \<in> set rs" for c
    using that "1.prems" by (force simp: ends_by_def split: option.splits)
  with 1 show ?case by (auto simp: ends_by_def not_less split: option.splits)
qed simp_all

lemma two_distinct:
  fixes f :: "'a \<Rightarrow> 'b::linorder"
  assumes "1 < length xs" and "distinct (map f xs)"
  shows "\<exists>a\<in>set xs. \<exists>b\<in>set xs. f a < f b"
proof -
  obtain a b rs where "xs = a # b # rs" using assms(1) by (cases xs; cases "tl xs") auto
  with assms(2) show ?thesis by (cases "f a" "f b" rule: linorder_cases) auto
qed

lemma lane_counts_zero: "set (lane_counts rows) \<subseteq> {0} \<longleftrightarrow> lane_clean rows"
proof
  assume "lane_clean rows"
  then have d: "distinct (map obs_valid_from (active_rows rows))"
    and pos: "\<forall>a\<in>set (active_rows rows). \<forall>u. obs_valid_until a = Some u \<longrightarrow> obs_valid_from a < u"
    and ends: "\<forall>a\<in>set (active_rows rows). \<forall>b\<in>set rows. obs_valid_from a < obs_valid_from b \<longrightarrow> ends_by (obs_valid_from b) a"
    and emp: "\<forall>d\<in>set rows. is_disputed d \<longrightarrow> obs_valid_until d = Some (obs_valid_from d)"
    by (auto simp: lane_clean_def)
  let ?s = "sort_key obs_valid_from (active_rows rows)"
  have "sorted_wrt (<) (map obs_valid_from ?s)"
    using d by (simp add: strict_sorted_iff distinct_map)
  then have "sorted_wrt (\<lambda>a b. ends_by (obs_valid_from b) a) ?s"
    unfolding sorted_wrt_map using ends
    by (elim sorted_wrt_mono_rel[rotated]) (auto simp: active_rows_def)
  then have "\<not> overlapping ?s" by (simp add: overlapping_sorted)
  moreover have "length (filter (\<lambda>r. obs_valid_until r = None) (active_rows rows)) \<le> 1"
  proof (rule ccontr)
    assume "\<not> ?thesis"
    then obtain a b where ab: "a \<in> set (active_rows rows)" "b \<in> set (active_rows rows)"
        "obs_valid_until a = None" "obs_valid_until b = None" "obs_valid_from a < obs_valid_from b"
      using two_distinct[OF _ distinct_map_filter[OF d, of "\<lambda>r. obs_valid_until r = None"]] by auto
    then show False using ends by (auto simp: active_rows_def ends_by_def)
  qed
  moreover have "\<not> crosses (obs_valid_from b) a" if "a \<in> set (active_rows rows)" "b \<in> set rows" for a b
    using ends[rule_format, OF that] by (auto simp: crosses_def ends_by_def split: option.splits)
  ultimately show "set (lane_counts rows) \<subseteq> {0}"
    using d pos emp
    by (auto simp: lane_counts_def Let_def filter_empty_conv split: option.splits)
next
  assume z: "set (lane_counts rows) \<subseteq> {0}"
  let ?s = "sort_key obs_valid_from (active_rows rows)"
  have d: "distinct (map obs_valid_from (active_rows rows))" and o: "\<not> overlapping ?s"
    and pos: "a \<in> set (active_rows rows) \<Longrightarrow> obs_valid_until a = Some u \<Longrightarrow> obs_valid_from a < u"
    and emp: "d \<in> set rows \<Longrightarrow> is_disputed d \<Longrightarrow> obs_valid_until d = Some (obs_valid_from d)"
    and bar: "a \<in> set (active_rows rows) \<Longrightarrow> d \<in> set rows \<Longrightarrow> is_disputed d \<Longrightarrow> \<not> crosses (obs_valid_from d) a" for a d u
    using z by (auto simp: lane_counts_def Let_def filter_empty_conv split: if_splits option.splits)
  from o have "sorted_wrt (\<lambda>a b. ends_by (obs_valid_from b) a) ?s" by (simp add: overlapping_sorted)
  then have pair: "ends_by (obs_valid_from b) a"
    if "a \<in> set (active_rows rows)" "b \<in> set (active_rows rows)" "obs_valid_from a < obs_valid_from b" for a b
  proof -
    have "a \<in> set ?s" "b \<in> set ?s" using that(1,2) by simp_all
    then obtain i j where ij: "i < length ?s" "j < length ?s" "?s ! i = a" "?s ! j = b"
      by (metis in_set_conv_nth)
    have "i < j"
    proof (rule ccontr)
      assume "\<not> i < j"
      then have "obs_valid_from (?s ! j) \<le> obs_valid_from (?s ! i)"
        using ij sorted_nth_mono[of "map obs_valid_from ?s" j i] by simp
      with ij that(3) show False by simp
    qed
    with \<open>sorted_wrt _ ?s\<close> ij show ?thesis by (auto simp: sorted_wrt_iff_nth_less)
  qed
  have "ends_by (obs_valid_from b) a"
    if "a \<in> set (active_rows rows)" "b \<in> set rows" "obs_valid_from a < obs_valid_from b" for a b
  proof (cases "is_disputed b")
    case True
    with bar[OF that(1,2)] that(3) show ?thesis by (auto simp: crosses_def ends_by_def split: option.splits)
  qed (use pair that in \<open>auto simp: active_rows_def\<close>)
  with d pos emp show "lane_clean rows" by (auto simp: lane_clean_def)
qed

lemma crossing_zero:
  assumes "lr_crossing rep = 0 \<longleftrightarrow> lr_lanes_crossing rep = 0"
  shows "lr_crossing (fold report_lane xs rep) = 0 \<longleftrightarrow> lr_lanes_crossing (fold report_lane xs rep) = 0"
  using assms
proof (induction xs arbitrary: rep)
  case (Cons x xs)
  have "lr_crossing (report_lane x rep) = 0 \<longleftrightarrow> lr_lanes_crossing (report_lane x rep) = 0"
    using violations_lane[of x rep] Cons.prems
    by (auto simp: violations_def lane_counts_def Let_def filter_empty_conv split: if_splits)
  then show ?case using Cons.IH by simp
qed simp

lemma report_as_fold:
  "lane_invariant_report rows = fold report_lane (map snd (group_by_lane rows))
     \<lparr>lr_lanes = length (group_by_lane rows), lr_rows = length rows, lr_multiple_open = 0,
      lr_repeated_timestamp = 0, lr_overlapping = 0, lr_non_positive = 0,
      lr_disputed_non_empty = 0, lr_lanes_crossing = 0, lr_crossing = 0,
      lr_unexpected_coverage = 0, lr_blocked_gaps = 0\<rparr>"
  by (simp add: lane_invariant_report_def Let_def fold_map comp_def case_prod_unfold)

lemma violations_zero:
  "violations (lane_invariant_report rows) = [0, 0, 0, 0, 0, 0, 0] \<longleftrightarrow>
     (\<forall>l. lane_clean (filter (\<lambda>r. price_history_lane_identity r = l) rows))"
proof -
  define rep0 where "rep0 = \<lparr>lr_lanes = length (group_by_lane rows), lr_rows = length rows, lr_multiple_open = 0,
         lr_repeated_timestamp = 0, lr_overlapping = 0, lr_non_positive = 0,
         lr_disputed_non_empty = 0, lr_lanes_crossing = 0, lr_crossing = 0,
         lr_unexpected_coverage = 0, lr_blocked_gaps = 0\<rparr>"
  have "[0, 0, 0, 0, 0, 0, 0] = violations rep0" by (simp add: violations_def rep0_def)
  then have "violations (lane_invariant_report rows) = [0, 0, 0, 0, 0, 0, 0] \<longleftrightarrow>
      (\<forall>x\<in>set (map snd (group_by_lane rows)). lane_clean x)"
    unfolding report_as_fold rep0_def [symmetric]
    by (simp only: violations_fold[OF violations_lane] lane_counts_zero)
  also have "\<dots> \<longleftrightarrow> (\<forall>l. lane_clean (filter (\<lambda>r. price_history_lane_identity r = l) rows))"
  proof -
    have "lane_clean []" by (simp add: lane_clean_def active_rows_def)
    then have "(\<exists>r\<in>set rows. price_history_lane_identity r = l) \<or>
        lane_clean (filter (\<lambda>r. price_history_lane_identity r = l) rows)" for l
      by (metis (mono_tags, lifting) filter_False)
    then show ?thesis unfolding set_map group_by_lane_set by blast
  qed
  finally show ?thesis .
qed

text \<open>C39 The report finds every corruption of a history lane and nothing else. It holds for a set of
  rows exactly when in every lane the undisputed rows have distinct starts and non-empty intervals,
  an undisputed row ends no later than the next row of the lane begins, disputed or not, and a
  disputed row is empty; in particular no two undisputed rows of a lane are ever in force together.\<close>

theorem lane_report_exact:
  "lane_invariants_hold rows =
     (\<forall>l. lane_clean (filter (\<lambda>r. price_history_lane_identity r = l) rows))"
proof -
  have "lane_invariants_hold rows \<longleftrightarrow> violations (lane_invariant_report rows) = [0, 0, 0, 0, 0, 0, 0]"
    using crossing_zero[of _ "map snd (group_by_lane rows)"]
    by (auto simp: lane_invariants_hold_def violations_def Let_def report_as_fold)
  then show ?thesis by (simp only: violations_zero)
qed

lemma no_preexisting_anomaly:
  "preexisting_lane_anomaly rows = None \<longleftrightarrow>
     (\<forall>l. lane_clean (filter (\<lambda>r. price_history_lane_identity r = l) rows))"
proof -
  have "preexisting_lane_anomaly rows = None \<longleftrightarrow> violations (lane_invariant_report rows) = [0, 0, 0, 0, 0, 0, 0]"
    using crossing_zero[of _ "map snd (group_by_lane rows)"]
    by (auto simp: preexisting_lane_anomaly_def violations_def Let_def report_as_fold)
  then show ?thesis by (simp only: violations_zero)
qed

section \<open>Recording keeps every lane in order\<close>

text \<open>
  What recording maintains is stronger than the report asks for: the status and the interval of a
  row are a function of the instants present in its lane. A row that shares its instant is disputed
  and empty; any other is undisputed and runs to the next instant of the lane.
\<close>

definition settled :: "price_observation list \<Rightarrow> price_observation \<Rightarrow> bool" where
  "settled rows r =
     (if 1 < length (filter (\<lambda>q. obs_valid_from q = obs_valid_from r) rows)
      then is_disputed r \<and> obs_valid_until r = Some (obs_valid_from r)
      else \<not> is_disputed r \<and> obs_valid_until r = next_anchor rows (obs_valid_from r))"

definition fact_key :: "price_observation \<Rightarrow> bool \<times> price_fact" where
  "fact_key r = (obs_staging_only r, price_fact_identity r)"

definition current_rows :: "db \<Rightarrow> price_observation list" where
  "current_rows db = filter (\<lambda>r. obs_rolled_back_at r = None) (observations db)"

definition row_ok :: "price_observation \<Rightarrow> bool" where
  "row_ok r \<longleftrightarrow> obs_valid_from r = obs_observed_at r \<and> (obs_valid_until r = None \<longrightarrow> obs_closed_by_run r = None)"

definition fact_inv :: "db \<Rightarrow> bool" where
  "fact_inv db \<longleftrightarrow> keys_ok obs_id (observations db) \<and> (\<forall>r\<in>set (current_rows db). row_ok r) \<and>
     (\<forall>l. \<forall>r\<in>set (lane_rows db l). settled (lane_rows db l) r) \<and>
     distinct (map fact_key (current_rows db)) \<and> distinct (map occurrence_identity (occurrences db))"

lemma next_anchor_Some:
  "next_anchor rows t = Some u \<longleftrightarrow>
     u \<in> obs_valid_from ` set rows \<and> t < u \<and> (\<forall>r\<in>set rows. t < obs_valid_from r \<longrightarrow> u \<le> obs_valid_from r)"
proof (cases "filter (\<lambda>u. t < u) (map obs_valid_from rows) = []")
  case True
  then show ?thesis by (auto simp: next_anchor_def filter_empty_conv)
next
  case False
  then have ne: "{v \<in> obs_valid_from ` set rows. t < v} \<noteq> {}" by (auto simp: filter_empty_conv)
  from False have "next_anchor rows t = Some u \<longleftrightarrow> Min {v \<in> obs_valid_from ` set rows. t < v} = u"
    by (simp add: next_anchor_def)
  also have "\<dots> \<longleftrightarrow> u \<in> {v \<in> obs_valid_from ` set rows. t < v} \<and>
      (\<forall>v\<in>{v \<in> obs_valid_from ` set rows. t < v}. u \<le> v)"
    by (rule Min_eq_iff) (use ne in auto)
  finally show ?thesis by auto
qed

lemma next_anchor_None: "next_anchor rows t = None \<longleftrightarrow> (\<forall>r\<in>set rows. obs_valid_from r \<le> t)"
  by (auto simp: next_anchor_def filter_empty_conv not_less)

lemma previous_anchor_Some:
  "previous_anchor rows t = Some u \<longleftrightarrow>
     u \<in> obs_valid_from ` set rows \<and> u < t \<and> (\<forall>r\<in>set rows. obs_valid_from r < t \<longrightarrow> obs_valid_from r \<le> u)"
proof (cases "filter (\<lambda>u. u < t) (map obs_valid_from rows) = []")
  case True
  then show ?thesis by (auto simp: previous_anchor_def filter_empty_conv)
next
  case False
  then have ne: "{v \<in> obs_valid_from ` set rows. v < t} \<noteq> {}" by (auto simp: filter_empty_conv)
  from False have "previous_anchor rows t = Some u \<longleftrightarrow> Max {v \<in> obs_valid_from ` set rows. v < t} = u"
    by (simp add: previous_anchor_def)
  also have "\<dots> \<longleftrightarrow> u \<in> {v \<in> obs_valid_from ` set rows. v < t} \<and>
      (\<forall>v\<in>{v \<in> obs_valid_from ` set rows. v < t}. v \<le> u)"
    by (rule Max_eq_iff) (use ne in auto)
  finally show ?thesis by auto
qed

lemma previous_anchor_None: "previous_anchor rows t = None \<longleftrightarrow> (\<forall>r\<in>set rows. t \<le> obs_valid_from r)"
  by (auto simp: previous_anchor_def filter_empty_conv not_less)

lemma next_anchor_alt:
  "next_anchor rows t = (let later = {v \<in> obs_valid_from ` set rows. t < v} in
     if later = {} then None else Some (Min later))"
  by (auto simp: next_anchor_def Let_def filter_empty_conv)

lemma next_anchor_cong:
  "obs_valid_from ` set rows = obs_valid_from ` set rows' \<Longrightarrow> next_anchor rows t = next_anchor rows' t"
  by (simp add: next_anchor_alt)

lemma next_anchor_insert:
  assumes "obs_valid_from ` set rows' = insert t (obs_valid_from ` set rows)"
  shows "next_anchor rows' s =
    (if s < t then (case next_anchor rows s of None \<Rightarrow> Some t | Some u \<Rightarrow> Some (min t u)) else next_anchor rows s)"
proof (cases "s < t")
  case True
  let ?L = "{v \<in> obs_valid_from ` set rows. s < v}"
  have "{v \<in> obs_valid_from ` set rows'. s < v} = insert t ?L" using True by (auto simp: assms)
  then have rows': "next_anchor rows' s = Some (Min (insert t ?L))" by (simp add: next_anchor_alt)
  show ?thesis
  proof (cases "?L = {}")
    case True
    with rows' \<open>s < t\<close> show ?thesis by (simp only: next_anchor_alt Let_def) simp
  next
    case False
    then have "next_anchor rows s = Some (Min ?L)" by (simp only: next_anchor_alt Let_def if_False)
    moreover have "finite ?L" by simp
    then have "Min (insert t ?L) = min t (Min ?L)" using False by (rule Min_insert)
    ultimately show ?thesis using rows' \<open>s < t\<close> by (simp del: not_ex)
  qed
next
  case False
  then have "{v \<in> obs_valid_from ` set rows'. s < v} = {v \<in> obs_valid_from ` set rows. s < v}"
    by (auto simp: assms)
  with False show ?thesis by (simp add: next_anchor_alt)
qed

text \<open>A settled lane has no violation.\<close>

lemma length_filter_one:
  assumes "x \<in> set xs" and "P x" and "\<not> 1 < length (filter P xs)" and "y \<in> set xs" and "P y"
  shows "x = y"
proof -
  have "x \<in> set (filter P xs)" "y \<in> set (filter P xs)" using assms by simp_all
  moreover have "length (filter P xs) \<le> 1" using assms(3) by simp
  ultimately show ?thesis by (cases "filter P xs"; cases "tl (filter P xs)") auto
qed

lemma distinct_map_count:
  "(\<And>x. x \<in> set xs \<Longrightarrow> length (filter (\<lambda>q. f q = f x) xs) \<le> 1) \<Longrightarrow> distinct (map f xs)"
proof (induction xs)
  case (Cons a xs)
  have "filter (\<lambda>q. f q = f a) xs = []" using Cons.prems[of a] by simp
  moreover have "length (filter (\<lambda>q. f q = f x) xs) \<le> 1" if "x \<in> set xs" for x
    using Cons.prems[of x] that by (auto split: if_splits)
  ultimately show ?case using Cons.IH by (auto simp: filter_empty_conv)
qed simp

lemma settled_clean:
  assumes "\<forall>r\<in>set rows. settled rows r"
  shows "lane_clean rows"
proof -
  have act: "\<not> 1 < length (filter (\<lambda>q. obs_valid_from q = obs_valid_from a) rows) \<and>
      obs_valid_until a = next_anchor rows (obs_valid_from a)" if "a \<in> set (active_rows rows)" for a
    using that assms by (auto simp: active_rows_def settled_def split: if_splits)
  have "length (filter (\<lambda>q. obs_valid_from q = obs_valid_from a) (active_rows rows)) \<le> 1"
    if "a \<in> set (active_rows rows)" for a
  proof -
    have "length (filter (\<lambda>q. obs_valid_from q = obs_valid_from a) (active_rows rows)) \<le>
        length (filter (\<lambda>q. obs_valid_from q = obs_valid_from a) rows)"
      unfolding active_rows_def by (induction rows) auto
    with act[OF that] show ?thesis by simp
  qed
  then have "distinct (map obs_valid_from (active_rows rows))" by (rule distinct_map_count)
  moreover have "obs_valid_from a < u" if "a \<in> set (active_rows rows)" "obs_valid_until a = Some u" for a u
    using act[OF that(1)] that(2) next_anchor_Some[of rows "obs_valid_from a" u] by simp
  moreover have "ends_by (obs_valid_from b) a"
    if "a \<in> set (active_rows rows)" "b \<in> set rows" "obs_valid_from a < obs_valid_from b" for a b
  proof (cases "obs_valid_until a")
    case None
    with act[OF that(1)] that(2,3) show ?thesis by (fastforce simp: next_anchor_None)
  next
    case (Some u)
    with act[OF that(1)] have "next_anchor rows (obs_valid_from a) = Some u" by simp
    with Some that(2,3) show ?thesis by (auto simp: next_anchor_Some ends_by_def)
  qed
  moreover have "obs_valid_until d = Some (obs_valid_from d)" if "d \<in> set rows" "is_disputed d" for d
    using assms that by (auto simp: settled_def split: if_splits)
  ultimately show ?thesis by (auto simp: lane_clean_def)
qed

text \<open>What placing a fact does to the table: at most it changes rows of the fact's own lane.\<close>

lemma fold_update_rows:
  assumes "keys_ok key t" and "set es \<subseteq> set t" and "\<And>r. key (f r) = key r" and "\<And>r. f (f r) = f r"
  shows "fold (\<lambda>e. if P e then update_row key (key e) f else id) es t =
     map (\<lambda>r. if r \<in> set es \<and> P r then f r else r) t"
  using assms(2)
proof (induction es rule: rev_induct)
  case (snoc e es)
  have inj: "r = e \<longleftrightarrow> key r = key e" if "r \<in> set t" for r
    using that snoc.prems assms(1) by (auto simp: keys_ok_def distinct_map inj_on_def)
  have "map (\<lambda>r. if r \<in> set es \<and> P r then f r else r) t =
      fold (\<lambda>e. if P e then update_row key (key e) f else id) es t"
    using snoc by simp
  moreover have "update_row key (key e) f (map (\<lambda>r. if r \<in> set es \<and> P r then f r else r) t) =
      map (\<lambda>r. if r \<in> set (es @ [e]) \<and> P r then f r else r) t" if "P e"
    using inj that assms(3,4) by (auto simp: update_row_def)
  moreover have "map (\<lambda>r. if r \<in> set (es @ [e]) \<and> P r then f r else r) t =
      map (\<lambda>r. if r \<in> set es \<and> P r then f r else r) t" if "\<not> P e"
    using that by auto
  ultimately show ?case by simp
qed simp

lemma observations_dispute_fold:
  "observations (fold dispute_sibling es db) =
     fold (\<lambda>e. if \<not> is_disputed e then update_row obs_id (obs_id e) collapse_row else id) es (observations db)"
  by (induction es arbitrary: db) (simp_all add: dispute_sibling_def add_conflict_anomaly_def)

lemma occurrences_dispute_fold [simp]: "occurrences (fold dispute_sibling es db) = occurrences db"
  by (induction es arbitrary: db) (simp_all add: dispute_sibling_def add_conflict_anomaly_def)

lemma observations_end_predecessor:
  "observations (end_predecessor t run p es db) =
     fold (\<lambda>e. if obs_valid_from e = p \<and> \<not> is_disputed e then update_row obs_id (obs_id e) (end_row t run) else id)
       es (observations db)"
  unfolding end_predecessor_def by (induction es arbitrary: db) simp_all

lemma occurrences_end_predecessor [simp]: "occurrences (end_predecessor t run p es db) = occurrences db"
  unfolding end_predecessor_def by (induction es arbitrary: db) simp_all

definition placed_row ::
  "price_observation list \<Rightarrow> time \<Rightarrow> int option \<Rightarrow> price_observation \<Rightarrow> price_observation" where
  "placed_row rows t run r =
     (if r \<notin> set rows \<or> is_disputed r then r
      else if obs_valid_from r = t then collapse_row r
      else if t \<notin> obs_valid_from ` set rows \<and> previous_anchor rows t = Some (obs_valid_from r)
      then end_row t run r else r)"

definition placed_candidate :: "price_observation list \<Rightarrow> price_observation \<Rightarrow> price_observation" where
  "placed_candidate rows c =
     (let t = obs_observed_at c in
      if t \<in> obs_valid_from ` set rows
      then c\<lparr>obs_valid_from := t, obs_valid_until := Some t, obs_verification := VS_disputed\<rparr>
      else c\<lparr>obs_valid_from := t, obs_valid_until := next_anchor rows t\<rparr>)"

lemma row_change_fields [simp]:
  "obs_id (collapse_row r) = obs_id r" "obs_id (end_row t run r) = obs_id r"
  "obs_valid_from (collapse_row r) = obs_valid_from r" "obs_valid_from (end_row t run r) = obs_valid_from r"
  "collapse_row (collapse_row r) = collapse_row r" "end_row t run (end_row t run r) = end_row t run r"
  by (simp_all add: collapse_row_def end_row_def)

lemma place_effect:
  assumes "fact_inv db"
    and "place_in_temporal_sequence c run diag db = (c', diag', db')"
    and "l = price_history_lane_identity c"
  shows "observations db' = map (placed_row (lane_rows db l) (obs_observed_at c) run) (observations db)"
    and "c' = placed_candidate (lane_rows db l) c"
    and "occurrences db' = occurrences db"
proof -
  let ?t = "obs_observed_at c" and ?rows = "lane_rows db l"
  have lane: "price_history_lane_identity (c\<lparr>obs_valid_from := ?t\<rparr>) = l"
    by (simp add: assms(3) price_history_lane_identity_def)
  have keys: "keys_ok obs_id (observations db)" and settled: "\<forall>r\<in>set ?rows. settled ?rows r"
    using assms(1) unfolding fact_inv_def by blast+
  have sub: "set ?rows \<subseteq> set (observations db)" by (auto simp: lane_rows_def)
  show "observations db' = map (placed_row ?rows ?t run) (observations db)"
    and "c' = placed_candidate ?rows c" and "occurrences db' = occurrences db"
  proof (atomize (full), cases "?t \<in> obs_valid_from ` set ?rows")
    case True
    then have ne: "filter (\<lambda>r. obs_valid_from r = ?t) ?rows \<noteq> []" by (auto simp: filter_empty_conv)
    with assms(2) lane have e: "db' = fold dispute_sibling (filter (\<lambda>r. obs_valid_from r = ?t) ?rows) db"
      "c' = placed_candidate ?rows c"
      using True by (auto simp: place_in_temporal_sequence_def placed_candidate_def Let_def)
    have "observations db' = map (\<lambda>r. if r \<in> set (filter (\<lambda>r. obs_valid_from r = ?t) ?rows) \<and> \<not> is_disputed r
        then collapse_row r else r) (observations db)"
      unfolding e(1) observations_dispute_fold
      by (rule fold_update_rows[OF keys]) (use sub in auto)
    also have "\<dots> = map (placed_row ?rows ?t run) (observations db)"
      using True by (auto simp: placed_row_def)
    finally show "observations db' = map (placed_row ?rows ?t run) (observations db) \<and>
        c' = placed_candidate ?rows c \<and> occurrences db' = occurrences db"
      using e by simp
  next
    case False
    then have ne: "filter (\<lambda>r. obs_valid_from r = ?t) ?rows = []"
      by (intro filter_False) (metis image_eqI)
    have c': "c' = placed_candidate ?rows c"
      using assms(2) lane ne False
      by (auto simp: place_in_temporal_sequence_def placed_candidate_def Let_def split: prod.splits)
    have own: "placed_row ?rows ?t run r =
        (if r \<in> set ?rows \<and> previous_anchor ?rows ?t = Some (obs_valid_from r) \<and> \<not> is_disputed r
         then end_row ?t run r else r)" for r
    proof -
      have "obs_valid_from r \<noteq> ?t" if "r \<in> set ?rows" using False that by (metis image_eqI)
      with False show ?thesis by (auto simp: placed_row_def)
    qed
    have "observations db' = map (placed_row ?rows ?t run) (observations db) \<and> occurrences db' = occurrences db"
    proof (cases "previous_anchor ?rows ?t")
      case None
      then have "map (placed_row ?rows ?t run) (observations db) = observations db"
        by (simp add: own map_idI)
      with None assms(2) lane ne show ?thesis
        by (auto simp: place_in_temporal_sequence_def Let_def)
    next
      case (Some p)
      show ?thesis
      proof (cases "p \<in> obs_valid_from ` set (filter is_disputed ?rows)")
        case True
        then obtain d where d: "d \<in> set ?rows" "is_disputed d" "obs_valid_from d = p" by auto
        then have "is_disputed r" if "r \<in> set ?rows" "obs_valid_from r = p" for r
          using settled[rule_format, OF d(1)] settled[rule_format, OF that(1)] that(2)
          by (auto simp: settled_def split: if_splits)
        with Some have "map (placed_row ?rows ?t run) (observations db) = observations db"
          by (intro map_idI) (auto simp: own)
        with True Some assms(2) lane ne show ?thesis
          by (auto simp: place_in_temporal_sequence_def Let_def)
      next
        case False
        with Some assms(2) lane ne have "db' = end_predecessor ?t run p ?rows db"
          by (auto simp: place_in_temporal_sequence_def Let_def)
        moreover have "observations (end_predecessor ?t run p ?rows db) =
            map (\<lambda>r. if r \<in> set ?rows \<and> (obs_valid_from r = p \<and> \<not> is_disputed r) then end_row ?t run r else r) (observations db)"
          unfolding observations_end_predecessor
          by (rule fold_update_rows[OF keys]) (use sub in auto)
        ultimately show ?thesis using Some by (auto simp: own)
      qed
    qed
    with c' show "observations db' = map (placed_row ?rows ?t run) (observations db) \<and>
        c' = placed_candidate ?rows c \<and> occurrences db' = occurrences db" by simp
  qed
qed

lemma placed_row_fields [simp]:
  "obs_id (placed_row rows t run r) = obs_id r"
  "obs_valid_from (placed_row rows t run r) = obs_valid_from r"
  "obs_observed_at (placed_row rows t run r) = obs_observed_at r"
  "obs_rolled_back_at (placed_row rows t run r) = obs_rolled_back_at r"
  "price_history_lane_identity (placed_row rows t run r) = price_history_lane_identity r"
  "fact_key (placed_row rows t run r) = fact_key r"
  by (simp_all add: placed_row_def collapse_row_def end_row_def price_history_lane_identity_def fact_key_def
      price_fact_identity_def)

lemma placed_candidate_fields [simp]:
  "obs_valid_from (placed_candidate rows c) = obs_observed_at c"
  "obs_observed_at (placed_candidate rows c) = obs_observed_at c"
  "obs_rolled_back_at (placed_candidate rows c) = obs_rolled_back_at c"
  "obs_closed_by_run (placed_candidate rows c) = obs_closed_by_run c"
  "obs_crawl_run (placed_candidate rows c) = obs_crawl_run c"
  "obs_staging_only (placed_candidate rows c) = obs_staging_only c"
  "price_history_lane_identity (placed_candidate rows c) = price_history_lane_identity c"
  "fact_key (placed_candidate rows c) = fact_key c"
  by (simp_all add: placed_candidate_def Let_def price_history_lane_identity_def fact_key_def
      price_fact_identity_def)

lemma set_id_fields [simp]:
  "price_history_lane_identity (r\<lparr>obs_id := i\<rparr>) = price_history_lane_identity r"
  "fact_key (r\<lparr>obs_id := i\<rparr>) = fact_key r"
  "is_disputed (r\<lparr>obs_id := i\<rparr>) = is_disputed r"
  "settled rows (r\<lparr>obs_id := i\<rparr>) = settled rows r"
  "row_ok (r\<lparr>obs_id := i\<rparr>) = row_ok r"
  by (simp_all add: price_history_lane_identity_def fact_key_def price_fact_identity_def is_disputed_def
      settled_def row_ok_def)

lemma count_new_instant:
  "length (filter (\<lambda>q. obs_valid_from q = s) (map (placed_row rows' t run) rows @ [r])) =
     length (filter (\<lambda>q. obs_valid_from q = s) rows) + of_bool (obs_valid_from r = s)"
  by (induction rows) auto

lemma settled_placed:
  assumes settled: "\<forall>r\<in>set rows. settled rows r" and "\<not> is_disputed c" and t: "t = obs_observed_at c"
    and r: "r \<in> set (map (placed_row rows t run) rows @ [placed_candidate rows c])"
  shows "settled (map (placed_row rows t run) rows @ [placed_candidate rows c]) r"
proof -
  define new where "new = map (placed_row rows t run) rows @ [placed_candidate rows c]"
  have froms: "obs_valid_from ` set new = insert t (obs_valid_from ` set rows)"
    by (auto simp: t image_iff new_def)
  have count: "length (filter (\<lambda>q. obs_valid_from q = s) new) =
      length (filter (\<lambda>q. obs_valid_from q = s) rows) + of_bool (s = t)" for s
    by (simp only: new_def count_new_instant) (simp add: t eq_commute)
  have "settled new r"
  proof (cases "t \<in> obs_valid_from ` set rows")
    case True
    then have pos: "0 < length (filter (\<lambda>q. obs_valid_from q = t) rows)"
      by (auto simp: filter_empty_conv)
    have nxt: "next_anchor new s = next_anchor rows s" for s
      by (rule next_anchor_cong) (use froms True in auto)
    from r consider q where "q \<in> set rows" "r = placed_row rows t run q" | "r = placed_candidate rows c" by auto
    then show ?thesis
    proof cases
      case 1
      show ?thesis
      proof (cases "obs_valid_from q = t")
        case True
        with 1 settled[rule_format, OF 1(1)] pos show ?thesis
          by (auto simp: settled_def count placed_row_def collapse_row_def is_disputed_def split: if_splits)
      next
        case False
        then have "r = q" using 1 \<open>t \<in> obs_valid_from ` set rows\<close> by (auto simp: placed_row_def)
        with False settled[rule_format, OF 1(1)] show ?thesis by (simp add: settled_def count nxt)
      qed
    next
      case 2
      with True pos show ?thesis
        by (auto simp: settled_def count placed_candidate_def Let_def t is_disputed_def)
    qed
  next
    case False
    then have none: "length (filter (\<lambda>q. obs_valid_from q = t) rows) = 0"
      by (auto simp: filter_empty_conv)
    have nxt: "next_anchor new s = (if s < t then (case next_anchor rows s of None \<Rightarrow> Some t | Some u \<Rightarrow> Some (min t u))
        else next_anchor rows s)" for s
      by (rule next_anchor_insert[OF froms])
    from r consider q where "q \<in> set rows" "r = placed_row rows t run q" | "r = placed_candidate rows c" by auto
    then show ?thesis
    proof cases
      case 1
      let ?s = "obs_valid_from q"
      have ne: "?s \<noteq> t" using False 1(1) by (metis image_eqI)
      show ?thesis
      proof (cases "is_disputed q \<or> t < ?s")
        case True
        then have "r = q" using 1 ne by (auto simp: placed_row_def previous_anchor_Some)
        with True ne settled[rule_format, OF 1(1)] show ?thesis
          by (auto simp: settled_def count nxt split: if_splits)
      next
        case act: False
        then have s: "?s < t" using ne by simp
        then obtain p where p: "previous_anchor rows t = Some p"
          using 1(1) previous_anchor_None[of rows t] by (cases "previous_anchor rows t") force+
        have q: "\<not> 1 < length (filter (\<lambda>x. obs_valid_from x = ?s) rows)" "obs_valid_until q = next_anchor rows ?s"
          using settled[rule_format, OF 1(1)] act by (auto simp: settled_def split: if_splits)
        have "next_anchor new ?s = obs_valid_until r \<and> \<not> is_disputed r"
        proof (cases "?s = p")
          case True
          have "min t u = t" if "next_anchor rows ?s = Some u" for u
          proof -
            from that obtain x where "x \<in> set rows" "u = obs_valid_from x" "?s < u" by (auto simp: next_anchor_Some)
            with p True False show ?thesis by (force simp: previous_anchor_Some min_def)
          qed
          with True s p act 1 ne False show ?thesis
            by (auto simp: nxt placed_row_def end_row_def is_disputed_def split: option.splits)
        next
          case neq: False
          with p 1(1) s have "?s < p" by (force simp: previous_anchor_Some)
          moreover obtain x where "x \<in> set rows" "obs_valid_from x = p" using p by (auto simp: previous_anchor_Some)
          ultimately obtain u where u: "next_anchor rows ?s = Some u" "u \<le> p"
            by (cases "next_anchor rows ?s") (auto simp: next_anchor_None next_anchor_Some)
          moreover have "p < t" using p by (simp add: previous_anchor_Some)
          moreover have "r = q" using 1 neq ne p by (auto simp: placed_row_def)
          ultimately show ?thesis using s q(2) act by (simp add: nxt)
        qed
        with q(1) ne 1 show ?thesis by (simp add: settled_def count)
      qed
    next
      case 2
      with False none assms(2) show ?thesis
        by (auto simp: settled_def count nxt placed_candidate_def Let_def t is_disputed_def)
    qed
  qed
  then show ?thesis by (simp only: new_def)
qed

text \<open>A candidate as callers build it: a fresh object that does not claim to be disputed or closed.\<close>

definition fresh_candidate :: "fact_candidate \<Rightarrow> bool" where
  "fresh_candidate c \<longleftrightarrow> validate_candidate_state c = None \<and> \<not> is_disputed (fc_row c) \<and>
     obs_closed_by_run (fc_row c) = None"

lemma lane_rows_current: "lane_rows db l = filter (\<lambda>r. price_history_lane_identity r = l) (current_rows db)"
  by (simp add: lane_rows_def current_rows_def conj_commute)

lemma fact_key_lane: "fact_key a = fact_key b \<Longrightarrow> price_history_lane_identity a = price_history_lane_identity b"
  by (simp add: fact_key_def price_fact_identity_def price_history_lane_identity_def)

lemma fact_key_observed: "fact_key a = fact_key b \<Longrightarrow> obs_observed_at a = obs_observed_at b"
  by (simp add: fact_key_def price_fact_identity_def)

lemma candidate_row_fields [simp]:
  "obs_rolled_back_at (candidate_row c ia) = obs_rolled_back_at (fc_row c)"
  "is_disputed (candidate_row c ia) = is_disputed (fc_row c)"
  "obs_closed_by_run (candidate_row c ia) = obs_closed_by_run (fc_row c)"
  "obs_crawl_run (candidate_row c ia) = obs_crawl_run (fc_row c)"
  "obs_observed_at (candidate_row c ia) = obs_observed_at (fc_row c)"
  by (simp_all add: candidate_row_def is_disputed_def)

lemma inv_no_anomaly: "fact_inv db \<Longrightarrow> preexisting_lane_anomaly (lane_rows db l) = None"
proof -
  assume inv: "fact_inv db"
  have "lane_clean (filter (\<lambda>r. price_history_lane_identity r = k) (lane_rows db l))" for k
  proof (cases "k = l")
    case True
    then have "filter (\<lambda>r. price_history_lane_identity r = k) (lane_rows db l) = lane_rows db l"
      by (auto simp: lane_rows_def intro: filter_cong)
    moreover have "lane_clean (lane_rows db l)"
      by (rule settled_clean) (use inv in \<open>unfold fact_inv_def, blast\<close>)
    ultimately show ?thesis by simp
  next
    case False
    then have "filter (\<lambda>r. price_history_lane_identity r = k) (lane_rows db l) = []"
      by (auto simp: lane_rows_def filter_empty_conv)
    then show ?thesis by (simp add: lane_clean_def active_rows_def)
  qed
  then show ?thesis by (simp add: no_preexisting_anomaly)
qed

lemma exact_facts:
  "filter (\<lambda>r. obs_rolled_back_at r = None)
     (filter (\<lambda>r. price_fact_identity r = price_fact_identity c)
       (filter (\<lambda>r. fact_prefilter c r \<and> obs_staging_only r = obs_staging_only c) (observations db))) =
   filter (\<lambda>r. fact_key r = fact_key c) (current_rows db)"
  by (auto simp: current_rows_def fact_key_def price_fact_identity_def fact_prefilter_def intro!: filter_cong)

lemma find_existing_fact_inv:
  assumes "fact_inv db"
  obtains found where "find_existing_fact db c (obs_staging_only c) = Inr found"
    and "fl_active_fact found = find (\<lambda>r. fact_key r = fact_key c) (current_rows db)"
proof -
  let ?active = "filter (\<lambda>r. fact_key r = fact_key c) (current_rows db)"
  from assms have "distinct (map fact_key (current_rows db))" by (simp add: fact_inv_def)
  then have "distinct (map fact_key ?active)" by (rule distinct_map_filter)
  moreover have "replicate (length (map fact_key ?active)) (fact_key c) = map fact_key ?active"
    by (rule replicate_length_same) auto
  moreover have "n \<le> 1" if "distinct (replicate n x)" for n and x :: "bool \<times> price_fact"
    using that by (cases n; cases "n - 1") auto
  ultimately have "length (map fact_key ?active) \<le> 1" by metis
  then have "\<not> 1 < length ?active" by simp
  moreover have "(case filter P xs of [] \<Rightarrow> None | r # _ \<Rightarrow> Some r) = find P xs" for P and xs :: "price_observation list"
    by (induction xs) simp_all
  ultimately obtain n where "find_existing_fact db c (obs_staging_only c) =
      Inr \<lparr>fl_active_fact = find (\<lambda>r. fact_key r = fact_key c) (current_rows db),
           fl_active_matches = length ?active, fl_rolled_back_ignored = n\<rparr>"
    unfolding find_existing_fact_def Let_def exact_facts by (simp only: if_False)
  then show thesis using that by simp
qed

text \<open>The effect of storing a fact, under the invariant.\<close>

lemma store_fact_cases:
  assumes inv: "fact_inv db" and "fl_active_fact found = find (\<lambda>r. fact_key r = fact_key c) (current_rows db)"
    and "store_fact c prov found m db = (stored, created, diag, m', db')"
  obtains (reuse) "\<not> created" "db' = db" "stored \<in> set (current_rows db)" "fact_key stored = fact_key c"
  | (insert) "created" "fact_key c \<notin> fact_key ` set (current_rows db)"
      "stored = (placed_candidate (lane_rows db (price_history_lane_identity c)) c)\<lparr>obs_id := next_id obs_id (observations db)\<rparr>"
      "observations db' = map (placed_row (lane_rows db (price_history_lane_identity c)) (obs_observed_at c) (prv_crawl_run prov))
         (observations db) @ [stored]"
      "occurrences db' = occurrences db"
proof (cases "fl_active_fact found")
  case (Some r)
  from assms(3) have "stored = r" "\<not> created" "db' = db" by (auto simp: store_fact_def Some)
  moreover have "find (\<lambda>r. fact_key r = fact_key c) (current_rows db) = Some r" using assms(2) Some by simp
  ultimately show thesis by (intro reuse) (auto simp: find_Some_iff)
next
  case None
  obtain c1 d1 db1 where p: "place_in_temporal_sequence c (prv_crawl_run prov) no_diagnostics db = (c1, d1, db1)"
    by (metis prod_cases3)
  note eff = place_effect[OF inv p refl]
  have ids: "next_id obs_id (observations db1) = next_id obs_id (observations db)"
  proof -
    have "next_id obs_id (map g t) = next_id obs_id t" if "\<And>r. obs_id (g r) = obs_id r" for g :: "price_observation \<Rightarrow> price_observation" and t
      by (simp add: next_id_def fold_map comp_def that)
    then show ?thesis by (simp add: eff(1))
  qed
  have "fact_key c \<notin> fact_key ` set (current_rows db)"
    using None assms(2) find_None_iff[of "\<lambda>r. fact_key r = fact_key c" "current_rows db"] by auto
  moreover from assms(3) have "created" "stored = c1\<lparr>obs_id := next_id obs_id (observations db1)\<rparr>"
    "observations db' = observations db1 @ [stored]" "occurrences db' = occurrences db1"
    by (auto simp: store_fact_def None p Let_def add_conflict_anomaly_def split: if_splits)
  ultimately show thesis using eff ids by (intro insert) simp_all
qed

lemma lane_rows_insert:
  assumes "observations db' = map (placed_row (lane_rows db l) t run) (observations db) @ [c]"
    and "obs_rolled_back_at c = None" and "price_history_lane_identity c = l"
  shows "lane_rows db' k = (if k = l then map (placed_row (lane_rows db l) t run) (lane_rows db l) @ [c] else lane_rows db k)"
proof (cases "k = l")
  case False
  have "map (placed_row (lane_rows db l) t run) (lane_rows db k) = lane_rows db k"
    using False by (intro map_idI) (auto simp: placed_row_def lane_rows_def)
  then show ?thesis using False assms by (simp add: lane_rows_def filter_map comp_def)
qed (use assms in \<open>simp add: lane_rows_def filter_map comp_def\<close>)

lemma current_rows_insert:
  assumes "observations db' = map (placed_row rows t run) (observations db) @ [c]" and "obs_rolled_back_at c = None"
  shows "current_rows db' = map (placed_row rows t run) (current_rows db) @ [c]"
  using assms by (simp add: current_rows_def filter_map comp_def)

lemma fact_inv_insert:
  assumes inv: "fact_inv db" and "l = price_history_lane_identity c"
    and obs: "observations db' = map (placed_row (lane_rows db l) (obs_observed_at c) run) (observations db) @
      [(placed_candidate (lane_rows db l) c)\<lparr>obs_id := next_id obs_id (observations db)\<rparr>]"
    and "occurrences db' = occurrences db" and new: "fact_key c \<notin> fact_key ` set (current_rows db)"
    and c: "obs_rolled_back_at c = None" "\<not> is_disputed c" "obs_closed_by_run c = None"
  shows "fact_inv db'"
proof -
  let ?c = "(placed_candidate (lane_rows db l) c)\<lparr>obs_id := next_id obs_id (observations db)\<rparr>"
  let ?g = "placed_row (lane_rows db l) (obs_observed_at c) run"
  have cur: "current_rows db' = map ?g (current_rows db) @ [?c]"
    by (rule current_rows_insert[OF obs]) (simp add: c)
  have "keys_ok obs_id (observations db')"
    using inv unfolding obs by (intro keys_ok_snoc) (auto simp: fact_inv_def keys_ok_def comp_def image_image)
  moreover have "row_ok r" if "r \<in> set (current_rows db')" for r
  proof -
    have "row_ok (?g q)" if "q \<in> set (current_rows db)" for q
      using that inv by (auto simp: fact_inv_def row_ok_def placed_row_def collapse_row_def end_row_def)
    moreover have "row_ok ?c" by (simp add: row_ok_def c)
    ultimately show ?thesis using that unfolding cur by auto
  qed
  moreover have "settled (lane_rows db' k) r" if "r \<in> set (lane_rows db' k)" for k r
  proof (cases "k = l")
    case True
    have rows: "lane_rows db' l = map ?g (lane_rows db l) @ [?c]"
      using lane_rows_insert[OF obs, of l] c assms(2) by simp
    have "\<forall>r\<in>set (lane_rows db l). settled (lane_rows db l) r" using inv unfolding fact_inv_def by blast
    note placed = settled_placed[OF this c(2) refl, of _ run]
    have "settled (lane_rows db' l) q \<longleftrightarrow> settled (map ?g (lane_rows db l) @ [placed_candidate (lane_rows db l) c]) q" for q
      unfolding rows settled_def by (simp add: next_anchor_def)
    with placed True that show ?thesis unfolding True rows by auto
  next
    case False
    then have "lane_rows db' k = lane_rows db k"
      using lane_rows_insert[OF obs, of k] c assms(2) by simp
    moreover have "\<forall>r\<in>set (lane_rows db k). settled (lane_rows db k) r"
      using inv unfolding fact_inv_def by blast
    ultimately show ?thesis using that by simp
  qed
  moreover have "distinct (map fact_key (current_rows db'))"
    using inv new unfolding cur by (auto simp: fact_inv_def comp_def)
  ultimately show ?thesis using inv assms(4) by (simp add: fact_inv_def)
qed

lemma provenance_identity_new:
  "occurrence_identity \<lparr>occ_id = i, occ_observation = k, occ_provider = prv_provider p, occ_source = prv_source p,
     occ_source_url = u, occ_crawl_run = prv_crawl_run p, occ_raw_capture = prv_raw_capture p,
     occ_connector_version = prv_connector_version p, occ_parser_version = prv_parser_version p,
     occ_imported_at = t, occ_confidence = f, occ_verification = v, occ_evidence = e\<rparr> = provenance_identity k p"
  by (simp add: occurrence_identity_def provenance_identity_def)

lemma store_occurrence_cases:
  assumes "store_occurrence i prov ia m db = (oc, created, m', db')"
  obtains (reuse) "\<not> created" "db' = db" "oc \<in> set (occurrences db)" "occurrence_identity oc = provenance_identity i prov"
  | (insert) "created" "provenance_identity i prov \<notin> occurrence_identity ` set (occurrences db)"
      "db' = db\<lparr>occurrences := occurrences db @ [oc]\<rparr>" "occurrence_identity oc = provenance_identity i prov"
proof (cases "find_existing_occurrence db i prov")
  case (Some x)
  with assms have "\<not> created" "db' = db" "oc = x" by (auto simp: store_occurrence_def)
  moreover from Some have "x \<in> set (occurrences db) \<and> occurrence_identity x = provenance_identity i prov"
    by (auto simp: find_existing_occurrence_def find_Some_iff)
  ultimately show thesis by (intro reuse) auto
next
  case None
  then have "provenance_identity i prov \<notin> occurrence_identity ` set (occurrences db)"
    unfolding find_existing_occurrence_def find_None_iff by (metis imageE)
  with None assms show thesis by (intro insert) (auto simp: store_occurrence_def Let_def provenance_identity_new)
qed

text \<open>Under the invariant a call with a fresh candidate succeeds; what it leaves behind.\<close>



lemma record_parts:
  assumes inv: "fact_inv db" and fresh: "fresh_candidate cand"
  obtains found m2 stored created diag m3 db1 oc oc_created d m4 db2 where
    "fl_active_fact found = find (\<lambda>r. fact_key r = fact_key (candidate_row cand ia)) (current_rows db)"
    "store_fact (candidate_row cand ia) prov found m2 db = (stored, created, diag, m3, db1)"
    "store_occurrence (obs_id stored) prov ia m3 db1 = (oc, oc_created, m4, db2)"
    "record_price_fact cand prov ia m db =
      (Inr \<lparr>rr_observation = stored, rr_occurrence = oc, rr_fact_created = created,
            rr_occurrence_created = oc_created, rr_diagnostics = d\<rparr>, m4, db2)"
proof -
  let ?c = "candidate_row cand ia"
  from fresh have valid: "validate_candidate_state cand = None" by (simp add: fresh_candidate_def)
  obtain found where found: "find_existing_fact db ?c (obs_staging_only ?c) = Inr found"
      "fl_active_fact found = find (\<lambda>r. fact_key r = fact_key ?c) (current_rows db)"
    using find_existing_fact_inv[OF inv] .
  define m1 where "m1 = m\<lparr>me_lane_preflight_checked := me_lane_preflight_checked m + 1\<rparr>"
  define m2 where "m2 = m1\<lparr>me_rolled_back_exact_matches_ignored :=
      me_rolled_back_exact_matches_ignored m1 + int (fl_rolled_back_ignored found)\<rparr>"
  obtain stored created diag m3 db1 where sf: "store_fact ?c prov found m2 db = (stored, created, diag, m3, db1)"
    by (metis prod_cases5)
  obtain oc oc_created m4 db2 where so: "store_occurrence (obs_id stored) prov ia m3 db1 = (oc, oc_created, m4, db2)"
    by (metis prod_cases4)
  have "\<exists>d. record_price_fact cand prov ia m db =
      (Inr \<lparr>rr_observation = stored, rr_occurrence = oc, rr_fact_created = created,
            rr_occurrence_created = oc_created, rr_diagnostics = d\<rparr>, m4, db2)"
    using valid inv_no_anomaly[OF inv] found(1) sf so
    by (simp add: record_price_fact_def Let_def m1_def m2_def)
  with found(2) sf so show thesis by (blast intro: that)
qed

lemma fresh_candidate_row:
  assumes "fresh_candidate cand"
  shows "obs_rolled_back_at (candidate_row cand ia) = None" "\<not> is_disputed (candidate_row cand ia)"
    "obs_closed_by_run (candidate_row cand ia) = None"
  using assms by (auto simp: fresh_candidate_def validate_candidate_state_def split: if_splits)

lemma record_succeeds:
  assumes inv: "fact_inv db" and fresh: "fresh_candidate cand"
  obtains res m' db' where "record_price_fact cand prov ia m db = (Inr res, m', db')"
    and "fact_inv db'" and "rr_observation res \<in> set (current_rows db')"
    and "fact_key (rr_observation res) = fact_key (candidate_row cand ia)"
    and "fact_key ` set (current_rows db') = insert (fact_key (candidate_row cand ia)) (fact_key ` set (current_rows db))"
    and "rr_occurrence res \<in> set (occurrences db')"
    and "occurrence_identity (rr_occurrence res) = provenance_identity (obs_id (rr_observation res)) prov"
proof -
  let ?c = "candidate_row cand ia"
  note c = fresh_candidate_row[OF fresh, of ia]
  obtain found m2 stored created diag m3 db1 oc oc_created d m4 db2 where
    found: "fl_active_fact found = find (\<lambda>r. fact_key r = fact_key ?c) (current_rows db)"
    and sf: "store_fact ?c prov found m2 db = (stored, created, diag, m3, db1)"
    and so: "store_occurrence (obs_id stored) prov ia m3 db1 = (oc, oc_created, m4, db2)"
    and rec: "record_price_fact cand prov ia m db =
      (Inr \<lparr>rr_observation = stored, rr_occurrence = oc, rr_fact_created = created,
            rr_occurrence_created = oc_created, rr_diagnostics = d\<rparr>, m4, db2)"
    by (rule record_parts[OF inv fresh])
  have one: "fact_inv db1 \<and> stored \<in> set (current_rows db1) \<and> fact_key stored = fact_key ?c \<and>
      fact_key ` set (current_rows db1) = insert (fact_key ?c) (fact_key ` set (current_rows db))"
    using inv found sf
  proof (cases rule: store_fact_cases)
    case reuse
    then show ?thesis using inv by (auto intro: rev_image_eqI)
  next
    case insert
    have "fact_inv db1"
      by (rule fact_inv_insert[OF inv refl insert(4)[unfolded insert(3)] insert(5,2) c])
    moreover have "current_rows db1 = map (placed_row (lane_rows db (price_history_lane_identity ?c)) (obs_observed_at ?c)
        (prv_crawl_run prov)) (current_rows db) @ [stored]"
      by (rule current_rows_insert[OF insert(4)]) (use insert(3) c in simp)
    ultimately show ?thesis using insert(3) by (auto simp: image_image)
  qed
  have two: "fact_inv db2 \<and> current_rows db2 = current_rows db1 \<and> oc \<in> set (occurrences db2) \<and>
      occurrence_identity oc = provenance_identity (obs_id stored) prov"
    using so
  proof (cases rule: store_occurrence_cases)
    case insert
    then have "distinct (map occurrence_identity (occurrences db2))"
      using one by (auto simp: fact_inv_def)
    then show ?thesis using insert one by (auto simp: fact_inv_def lane_rows_def current_rows_def)
  qed (use one in auto)
  from rec show thesis using one two by (intro that) auto
qed

definition no_facts :: "db \<Rightarrow> bool" where
  "no_facts db \<longleftrightarrow> observations db = [] \<and> occurrences db = []"

text \<open>The process: calls by any callers in any order, with candidates in any ORM state.\<close>

inductive fact_step :: "fact_candidate \<times> occurrence_provenance \<times> time \<Rightarrow> db \<Rightarrow> db \<Rightarrow> bool" where
  "(validate_candidate_state cand = None \<Longrightarrow> fresh_candidate cand) \<Longrightarrow>
     record_price_fact cand prov ia m db = (res, m', db') \<Longrightarrow> fact_step (cand, prov, ia) db db'"

lemma fact_inv_step:
  assumes "fact_inv db" and "fact_step e db db'"
  shows "fact_inv db'"
  using assms(2)
proof cases
  case (1 cand prov ia m res m')
  show ?thesis
  proof (cases "validate_candidate_state cand")
    case None
    with 1 record_succeeds[OF assms(1), of cand prov ia m] show ?thesis by (metis Pair_inject)
  next
    case (Some reason)
    with 1 assms(1) show ?thesis by (simp add: record_price_fact_def)
  qed
qed

interpretation facts: invariant_system no_facts fact_step fact_inv
proof unfold_locales
  show "fact_inv db" if "no_facts db" for db
    using that by (simp add: no_facts_def fact_inv_def lane_rows_def current_rows_def)
qed (rule fact_inv_step)

lemma filter_key_single: "x \<in> set xs \<Longrightarrow> distinct (map f xs) \<Longrightarrow> filter (\<lambda>y. f y = f x) xs = [x]"
proof (induction xs)
  case (Cons a xs)
  then show ?case
    by (cases "x = a") (force simp: filter_empty_conv image_iff)+
qed simp

text \<open>C22 Recording never corrupts a history lane, and so never refuses. After any calls in any
  order, with observations arriving late or twice or in conflict, the lane report finds no
  violation among the rows that are not rolled back; and a call with a fresh candidate succeeds, the
  refusals for a corrupt lane and for an ambiguous fact being unreachable, and leaves exactly one
  row for the fact and exactly one occurrence for its provenance.\<close>

theorem lanes_never_corrupt:
  assumes "reachable no_facts fact_step db" and "fresh_candidate cand"
  shows "lane_invariants_hold (current_rows db) \<and>
    (\<exists>res m' db'. record_price_fact cand prov ia m db = (Inr res, m', db') \<and>
      filter (\<lambda>r. fact_key r = fact_key (candidate_row cand ia)) (current_rows db') = [rr_observation res] \<and>
      filter (\<lambda>oc. occurrence_identity oc = provenance_identity (obs_id (rr_observation res)) prov) (occurrences db') =
        [rr_occurrence res])"
proof -
  from facts.reachable_inv[OF assms(1)] have inv: "fact_inv db" .
  have "lane_clean (lane_rows db l)" for l
    by (rule settled_clean) (use inv in \<open>unfold fact_inv_def, blast\<close>)
  then have "lane_invariants_hold (current_rows db)"
    by (simp add: lane_report_exact flip: lane_rows_current)
  moreover   obtain res m' db' where r: "record_price_fact cand prov ia m db = (Inr res, m', db')" "fact_inv db'"
    "rr_observation res \<in> set (current_rows db')" "fact_key (rr_observation res) = fact_key (candidate_row cand ia)"
    "rr_occurrence res \<in> set (occurrences db')"
    "occurrence_identity (rr_occurrence res) = provenance_identity (obs_id (rr_observation res)) prov"
    using record_succeeds[OF inv assms(2), of prov ia m] by metis
  then have "distinct (map fact_key (current_rows db'))" "distinct (map occurrence_identity (occurrences db'))"
    by (simp_all add: fact_inv_def)
  from filter_key_single[OF r(3) this(1)] filter_key_single[OF r(5) this(2)] r(1,4,6)
  have "\<exists>res m' db'. record_price_fact cand prov ia m db = (Inr res, m', db') \<and>
      filter (\<lambda>r. fact_key r = fact_key (candidate_row cand ia)) (current_rows db') = [rr_observation res] \<and>
      filter (\<lambda>oc. occurrence_identity oc = provenance_identity (obs_id (rr_observation res)) prov) (occurrences db') =
        [rr_occurrence res]"
    by auto
  ultimately show ?thesis by blast
qed

end
