(* ===== verification/FactHistory.thy ===== *)
theory FactHistory
  imports PriceFacts CurrentPrice JobQueue
begin

text \<open>
  What recorded facts amount to: the content of the lanes depends on which facts were recorded and
  not on the order in which they arrived, recording again adds no fact, and a synchronisation can
  be rolled back (\<open>services/price_rollback.py\<close>).
\<close>

section \<open>The order of arrival\<close>

text \<open>
  A store whose visible content is determined by the set of keys it holds: whatever the order and
  the repetitions of insertions, the content is the same.
\<close>

locale convergent_store =
  fixes inv :: "'s \<Rightarrow> bool" and ok :: "'e \<Rightarrow> bool" and add :: "'e \<Rightarrow> 's \<Rightarrow> 's"
    and key :: "'e \<Rightarrow> 'k" and keys :: "'s \<Rightarrow> 'k set" and view :: "'s \<Rightarrow> 'v" and spec :: "'k set \<Rightarrow> 'v"
  assumes add_inv: "inv s \<Longrightarrow> ok e \<Longrightarrow> inv (add e s)"
    and add_keys: "inv s \<Longrightarrow> ok e \<Longrightarrow> keys (add e s) = insert (key e) (keys s)"
    and view_spec: "inv s \<Longrightarrow> view s = spec (keys s)"
begin

lemma fold_inv: "inv s \<Longrightarrow> \<forall>e\<in>set es. ok e \<Longrightarrow> inv (fold add es s)"
  by (induction es arbitrary: s) (auto intro: add_inv)

lemma fold_keys: "inv s \<Longrightarrow> \<forall>e\<in>set es. ok e \<Longrightarrow> keys (fold add es s) = keys s \<union> key ` set es"
  by (induction es arbitrary: s) (auto simp: add_keys add_inv)

lemma fold_view: "inv s \<Longrightarrow> \<forall>e\<in>set es. ok e \<Longrightarrow> view (fold add es s) = spec (keys s \<union> key ` set es)"
  by (simp add: view_spec fold_inv fold_keys)

lemma convergence:
  assumes "inv s" and "\<forall>e\<in>set es. ok e" and "\<forall>e\<in>set es'. ok e" and "key ` set es = key ` set es'"
  shows "view (fold add es s) = view (fold add es' s)"
  using assms by (simp add: fold_view)

end

text \<open>The lane and the instant of a fact, read off its identity.\<close>

fun key_lane :: "bool \<times> price_fact \<Rightarrow> lane" where
  "key_lane (staging, retailer, store, zone, variant, scope, type, amount, currency, rest) =
     (staging, retailer, variant, store, zone, scope, type, currency)"

fun key_instant :: "bool \<times> price_fact \<Rightarrow> time" where
  "key_instant (staging, retailer, store, zone, variant, scope, type, amount, currency, unit_amount, unit_code,
     promotion, loyalty, promoted_from, promoted_until, available, observed_at) = observed_at"

lemma key_of_row [simp]:
  "key_lane (fact_key r) = price_history_lane_identity r" "key_instant (fact_key r) = obs_observed_at r"
  by (simp_all add: fact_key_def price_fact_identity_def price_history_lane_identity_def)

text \<open>
  The specification, over a set of facts: a fact that shares its instant with another fact of its
  lane is disputed; any other is in force from its instant to the next instant of its lane.
\<close>

definition rivals :: "(bool \<times> price_fact) set \<Rightarrow> bool \<times> price_fact \<Rightarrow> (bool \<times> price_fact) set" where
  "rivals F k = {q \<in> F. q \<noteq> k \<and> key_lane q = key_lane k \<and> key_instant q = key_instant k}"

definition next_instant :: "(bool \<times> price_fact) set \<Rightarrow> bool \<times> price_fact \<Rightarrow> time option" where
  "next_instant F k =
     (let later = {key_instant q | q. q \<in> F \<and> key_lane q = key_lane k \<and> key_instant k < key_instant q} in
      if later = {} then None else Some (Min later))"

definition spec_view :: "(bool \<times> price_fact) set \<Rightarrow> ((bool \<times> price_fact) \<times> time \<times> time option \<times> bool) set" where
  "spec_view F = (\<lambda>k. (k, key_instant k,
     if rivals F k = {} then next_instant F k else Some (key_instant k), rivals F k \<noteq> {})) ` F"

definition lane_view :: "db \<Rightarrow> ((bool \<times> price_fact) \<times> time \<times> time option \<times> bool) set" where
  "lane_view db = (\<lambda>r. (fact_key r, obs_valid_from r, obs_valid_until r, is_disputed r)) ` set (current_rows db)"

lemma settled_view:
  assumes "fact_inv db" and r: "r \<in> set (current_rows db)"
  shows "is_disputed r \<longleftrightarrow> rivals (fact_key ` set (current_rows db)) (fact_key r) \<noteq> {}"
    and "obs_valid_from r = obs_observed_at r"
    and "obs_valid_until r = (if is_disputed r then Some (obs_observed_at r)
      else next_instant (fact_key ` set (current_rows db)) (fact_key r))"
proof -
  let ?l = "price_history_lane_identity r"
  let ?rows = "lane_rows db ?l"
  have starts: "obs_valid_from q = obs_observed_at q" if "q \<in> set (current_rows db)" for q
    using assms(1) that by (auto simp: fact_inv_def row_ok_def)
  then show "obs_valid_from r = obs_observed_at r" using r .
  have in_rows: "q \<in> set ?rows \<longleftrightarrow> q \<in> set (current_rows db) \<and> price_history_lane_identity q = ?l" for q
    by (auto simp: lane_rows_current)
  have settled: "settled ?rows r" using assms(1) r in_rows unfolding fact_inv_def by blast
  have dist: "distinct (map fact_key (current_rows db))" using assms(1) by (simp add: fact_inv_def)
  have "1 < length (filter (\<lambda>q. obs_valid_from q = obs_valid_from r) ?rows) \<longleftrightarrow>
      rivals (fact_key ` set (current_rows db)) (fact_key r) \<noteq> {}"
  proof
    let ?same = "filter (\<lambda>q. obs_valid_from q = obs_valid_from r) ?rows"
    assume "1 < length ?same"
    moreover have "distinct (map fact_key ?same)"
      unfolding lane_rows_current by (intro distinct_map_filter dist)
    ultimately have "\<exists>q\<in>set ?same. fact_key q \<noteq> fact_key r"
      by (cases ?same; cases "tl ?same") auto
    then obtain q where "q \<in> set ?rows" "obs_valid_from q = obs_valid_from r" "fact_key q \<noteq> fact_key r" by auto
    with starts r have "fact_key q \<in> rivals (fact_key ` set (current_rows db)) (fact_key r)"
      by (auto simp: rivals_def in_rows)
    then show "rivals (fact_key ` set (current_rows db)) (fact_key r) \<noteq> {}" by blast
  next
    assume "rivals (fact_key ` set (current_rows db)) (fact_key r) \<noteq> {}"
    then obtain q where "q \<in> set (current_rows db)" "fact_key q \<noteq> fact_key r"
        "key_lane (fact_key q) = key_lane (fact_key r)" "key_instant (fact_key q) = key_instant (fact_key r)"
      unfolding rivals_def by blast
    then have "q \<in> set ?rows" "obs_valid_from q = obs_valid_from r" "r \<in> set ?rows" "q \<noteq> r"
      using starts r by (auto simp: in_rows)
    then show "1 < length (filter (\<lambda>q. obs_valid_from q = obs_valid_from r) ?rows)"
      using length_filter_one[of r ?rows "\<lambda>q. obs_valid_from q = obs_valid_from r" q] by auto
  qed
  with settled show d: "is_disputed r \<longleftrightarrow> rivals (fact_key ` set (current_rows db)) (fact_key r) \<noteq> {}"
    by (auto simp: settled_def split: if_splits)
  have "{v \<in> obs_valid_from ` set ?rows. obs_valid_from r < v} =
      {key_instant q | q. q \<in> fact_key ` set (current_rows db) \<and> key_lane q = key_lane (fact_key r) \<and>
         key_instant (fact_key r) < key_instant q}"
    (is "?L = ?K")
  proof (rule set_eqI)
    fix v
    have "v \<in> ?K \<longleftrightarrow> (\<exists>q\<in>set (current_rows db). v = key_instant (fact_key q) \<and>
        key_lane (fact_key q) = key_lane (fact_key r) \<and> key_instant (fact_key r) < key_instant (fact_key q))"
      by blast
    also have "\<dots> \<longleftrightarrow> v \<in> ?L" using starts r by (auto simp: in_rows image_iff)
    finally show "v \<in> ?L \<longleftrightarrow> v \<in> ?K" by simp
  qed
  then have "next_anchor ?rows (obs_valid_from r) = next_instant (fact_key ` set (current_rows db)) (fact_key r)"
    by (simp only: next_anchor_alt next_instant_def)
  with settled show "obs_valid_until r = (if is_disputed r then Some (obs_observed_at r)
      else next_instant (fact_key ` set (current_rows db)) (fact_key r))"
    using starts[OF r] by (auto simp: settled_def split: if_splits)
qed

text \<open>One call as a step of the database and the counters.\<close>

definition record_call ::
  "fact_candidate \<times> occurrence_provenance \<times> time \<Rightarrow> record_metrics \<times> db \<Rightarrow> record_metrics \<times> db" where
  "record_call e st = (case e of (cand, prov, ia) \<Rightarrow> snd (record_price_fact cand prov ia (fst st) (snd st)))"

definition call_key :: "fact_candidate \<times> occurrence_provenance \<times> time \<Rightarrow> bool \<times> price_fact" where
  "call_key e = (case e of (cand, prov, ia) \<Rightarrow> fact_key (candidate_row cand ia))"

interpretation lanes: convergent_store "\<lambda>st. fact_inv (snd st)" "\<lambda>e. fresh_candidate (fst e)" record_call call_key
  "\<lambda>st. fact_key ` set (current_rows (snd st))" "\<lambda>st. lane_view (snd st)" spec_view
proof unfold_locales
  fix st :: "record_metrics \<times> db" and e :: "fact_candidate \<times> occurrence_provenance \<times> time"
  assume inv: "fact_inv (snd st)"
  show "lane_view (snd st) = spec_view (fact_key ` set (current_rows (snd st)))"
    using settled_view[OF inv] by (auto simp: lane_view_def spec_view_def image_image intro!: image_cong)
  assume "fresh_candidate (fst e)"
  with inv obtain res m' db' where "record_price_fact (fst e) (fst (snd e)) (snd (snd e)) (fst st) (snd st) = (Inr res, m', db')"
    "fact_inv db'" "fact_key ` set (current_rows db') =
      insert (fact_key (candidate_row (fst e) (snd (snd e)))) (fact_key ` set (current_rows (snd st)))"
    using record_succeeds[of "snd st" "fst e" "fst (snd e)" "snd (snd e)" "fst st"] by metis
  then show "fact_inv (snd (record_call e st))"
    and "fact_key ` set (current_rows (snd (record_call e st))) = insert (call_key e) (fact_key ` set (current_rows (snd st)))"
    by (simp_all add: record_call_def call_key_def case_prod_unfold)
qed

text \<open>C23 The order of arrival does not matter. Two series of calls that bring the same facts, in
  whatever order, with whatever repetitions and from whatever sources, leave every lane with the
  same facts, each with the same interval and the same status: a fact that shares its instant with
  another of its lane is disputed and never in force, any other is in force from the instant it was
  observed to the next instant of its lane.\<close>

theorem arrival_order_irrelevant:
  assumes "reachable no_facts fact_step db"
    and "\<forall>e\<in>set es. fresh_candidate (fst e)" and "\<forall>e\<in>set es'. fresh_candidate (fst e)"
    and "call_key ` set es = call_key ` set es'"
  shows "lane_view (snd (fold record_call es (m, db))) = lane_view (snd (fold record_call es' (m', db))) \<and>
    lane_view (snd (fold record_call es (m, db))) = spec_view (fact_key ` set (current_rows db) \<union> call_key ` set es)"
  using lanes.fold_view[of "(m, db)" es] lanes.fold_view[of "(m', db)" es'] facts.reachable_inv[OF assms(1)] assms(2-4)
  by simp

section \<open>Recording again\<close>

lemma record_again:
  assumes "fact_inv db" and "fresh_candidate cand"
    and known: "fact_key (candidate_row cand ia) \<in> fact_key ` set (current_rows db)"
  obtains res m' db' where "record_price_fact cand prov ia m db = (Inr res, m', db')"
    and "\<not> rr_fact_created res" and "rr_observation res \<in> set (current_rows db)"
    and "fact_key (rr_observation res) = fact_key (candidate_row cand ia)"
    and "db' = (if rr_occurrence_created res then db\<lparr>occurrences := occurrences db @ [rr_occurrence res]\<rparr> else db)"
    and "rr_occurrence_created res \<longleftrightarrow>
      provenance_identity (obs_id (rr_observation res)) prov \<notin> occurrence_identity ` set (occurrences db)"
proof -
  obtain found m2 stored created diag m3 db1 oc oc_created d m4 db2 where
    found: "fl_active_fact found = find (\<lambda>r. fact_key r = fact_key (candidate_row cand ia)) (current_rows db)"
    and sf: "store_fact (candidate_row cand ia) prov found m2 db = (stored, created, diag, m3, db1)"
    and so: "store_occurrence (obs_id stored) prov ia m3 db1 = (oc, oc_created, m4, db2)"
    and rec: "record_price_fact cand prov ia m db =
      (Inr \<lparr>rr_observation = stored, rr_occurrence = oc, rr_fact_created = created,
            rr_occurrence_created = oc_created, rr_diagnostics = d\<rparr>, m4, db2)"
    by (rule record_parts[OF assms(1,2)])
  have one: "\<not> created \<and> db1 = db \<and> stored \<in> set (current_rows db) \<and> fact_key stored = fact_key (candidate_row cand ia)"
    using assms(1) found sf by (cases rule: store_fact_cases) (use known in auto)
  from so have two: "db2 = (if oc_created then db1\<lparr>occurrences := occurrences db1 @ [oc]\<rparr> else db1) \<and>
      (oc_created \<longleftrightarrow> provenance_identity (obs_id stored) prov \<notin> occurrence_identity ` set (occurrences db1))"
  proof (cases rule: store_occurrence_cases)
    case reuse
    then have "provenance_identity (obs_id stored) prov \<in> occurrence_identity ` set (occurrences db1)"
      by (metis imageI)
    with reuse show ?thesis by simp
  qed simp
  show thesis by (rule that[OF rec]) (use one two in simp_all)
qed

text \<open>Recording is idempotent. Once a fact is recorded, a later call with an equal fact, from
  whatever source, in whatever wording of the promotion text's margins and at whatever time, creates no fact,
  closes and disputes nothing and raises no anomaly: it adds at most one occurrence, and none when the
  provenance is one already seen, in which case the database is as it was.\<close>

theorem rerecording_adds_nothing:
  assumes "reachable no_facts fact_step db" and "fresh_candidate cand" and "fresh_candidate cand2"
    and "record_price_fact cand prov ia m db = (r1, m1, db1)"
    and "record_price_fact cand2 prov2 ia2 m1 db1 = (r2, m2, db2)"
    and "fact_key (candidate_row cand2 ia2) = fact_key (candidate_row cand ia)"
  shows "\<exists>new. db2 = db1\<lparr>occurrences := occurrences db1 @ new\<rparr> \<and> length new \<le> 1 \<and>
    (provenance_identity 0 prov2 = provenance_identity 0 prov \<longrightarrow> new = []) \<and>
    (\<exists>res1 res2. r1 = Inr res1 \<and> r2 = Inr res2 \<and> \<not> rr_fact_created res2 \<and>
       rr_observation res2 = rr_observation res1)"
proof -
  from facts.reachable_inv[OF assms(1)] have inv: "fact_inv db" .
  obtain res1 m1' db1' where one: "record_price_fact cand prov ia m db = (Inr res1, m1', db1')" "fact_inv db1'"
    "rr_observation res1 \<in> set (current_rows db1')"
    "fact_key (rr_observation res1) = fact_key (candidate_row cand ia)"
    "rr_occurrence res1 \<in> set (occurrences db1')"
    "occurrence_identity (rr_occurrence res1) = provenance_identity (obs_id (rr_observation res1)) prov"
    using record_succeeds[OF inv assms(2), of prov ia m] by metis
  with assms(4) have e: "r1 = Inr res1" "m1' = m1" "db1' = db1" by simp_all
  have known: "fact_key (candidate_row cand2 ia2) \<in> fact_key ` set (current_rows db1)"
    using one(3,4) assms(6) e by (auto intro: rev_image_eqI)
  obtain res2 m2' db2' where two: "record_price_fact cand2 prov2 ia2 m1 db1 = (Inr res2, m2', db2')"
    "\<not> rr_fact_created res2" "rr_observation res2 \<in> set (current_rows db1)"
    "fact_key (rr_observation res2) = fact_key (candidate_row cand2 ia2)"
    "db2' = (if rr_occurrence_created res2 then db1\<lparr>occurrences := occurrences db1 @ [rr_occurrence res2]\<rparr> else db1)"
    "rr_occurrence_created res2 \<longleftrightarrow>
      provenance_identity (obs_id (rr_observation res2)) prov2 \<notin> occurrence_identity ` set (occurrences db1)"
    using record_again[OF one(2)[unfolded e] assms(3) known, of prov2 m1] by metis
  have "distinct (map fact_key (current_rows db1))" using one(2) e by (simp add: fact_inv_def)
  then have same: "rr_observation res2 = rr_observation res1"
    using one(3,4) two(3,4) assms(6) e by (auto simp: distinct_map inj_on_def)
  have "\<not> rr_occurrence_created res2" if "provenance_identity 0 prov2 = provenance_identity 0 prov"
  proof -
    have "provenance_identity i prov2 = provenance_identity i prov" for i
      using that by (simp add: provenance_identity_def)
    with one(5,6) e show ?thesis unfolding two(6) same by (metis imageI)
  qed
  with two assms(5) e same show ?thesis
    by (cases "rr_occurrence_created res2") (auto intro: exI[of _ "[rr_occurrence res2]"] exI[of _ "[]"])
qed


section \<open>Rolling back a synchronisation\<close>

record rollback_report =
  rb_reopened :: nat
  rb_invalidated :: nat
  rb_already_rolled_back :: bool

definition reopen_row :: "price_observation \<Rightarrow> price_observation" where
  "reopen_row r = r\<lparr>obs_valid_until := None, obs_closed_by_run := None\<rparr>"

definition invalidate_row :: "time \<Rightarrow> price_observation \<Rightarrow> price_observation" where
  "invalidate_row now r = r\<lparr>obs_rolled_back_at := Some now,
     obs_valid_until := (case obs_valid_until r of None \<Rightarrow> Some (obs_valid_from r) | u \<Rightarrow> u)\<rparr>"

text \<open>The run is looked up by its key; an unknown one raises \<open>ValueError\<close>, the value \<open>None\<close>.\<close>

definition rollback_sync :: "int \<Rightarrow> bool \<Rightarrow> time \<Rightarrow> db \<Rightarrow> (rollback_report \<times> db) option" where
  "rollback_sync run_key force now db =
     (case find_row run_id run_key (crawl_runs db) of
        None \<Rightarrow> None
      | Some run \<Rightarrow>
          (let created = filter (\<lambda>r. obs_crawl_run r = Some (run_id run)) (observations db) in
           if created \<noteq> [] \<and> list_all (\<lambda>r. obs_rolled_back_at r \<noteq> None) created \<and> \<not> force
           then Some (\<lparr>rb_reopened = 0, rb_invalidated = 0, rb_already_rolled_back = True\<rparr>, db)
           else
             (let closed = filter (\<lambda>r. obs_closed_by_run r = Some (run_id run)) (observations db);
                  obs1 = map (\<lambda>r. if obs_closed_by_run r = Some (run_id run) then reopen_row r else r) (observations db);
                  undone = (\<lambda>r. obs_crawl_run r = Some (run_id run) \<and> (obs_rolled_back_at r = None \<or> force));
                  obs2 = map (\<lambda>r. if undone r then invalidate_row now r else r) obs1
              in Some (\<lparr>rb_reopened = length closed, rb_invalidated = length (filter undone obs1),
                        rb_already_rolled_back = False\<rparr>, db\<lparr>observations := obs2\<rparr>))))"

definition rollback_staging_row :: "int \<Rightarrow> price_scope option \<Rightarrow> bool \<Rightarrow> price_observation \<Rightarrow> bool" where
  "rollback_staging_row retailer_id scope only_orphan r \<longleftrightarrow>
     obs_retailer r = retailer_id \<and> obs_staging_only r \<and> obs_rolled_back_at r = None \<and>
     (case scope of None \<Rightarrow> True | Some s \<Rightarrow> obs_scope r = s) \<and> (only_orphan \<longrightarrow> obs_crawl_run r = None)"

definition rollback_staging_observations ::
  "string \<Rightarrow> price_scope option \<Rightarrow> bool \<Rightarrow> bool \<Rightarrow> time \<Rightarrow> db \<Rightarrow> (nat \<times> nat \<times> db) option" where
  "rollback_staging_observations slug scope only_orphan applied now db =
     (case find (\<lambda>r. ret_slug r = slug) (retailers db) of
        None \<Rightarrow> None
      | Some retailer \<Rightarrow>
          (let hit = rollback_staging_row (ret_id retailer) scope only_orphan;
               matched = length (filter hit (observations db))
           in if \<not> applied then Some (matched, 0, db)
              else Some (matched, matched,
                db\<lparr>observations := map (\<lambda>r. if hit r then invalidate_row now r else r) (observations db)\<rparr>)))"

text \<open>
  A run that records in order: every call brings a fact observed after everything in its lane, and
  carries the key of the run in the row and in the provenance.
\<close>

inductive in_order_run :: "int \<Rightarrow> (fact_candidate \<times> occurrence_provenance \<times> time) list \<Rightarrow> db \<Rightarrow> db \<Rightarrow> bool"
  for run :: int where
  finished: "in_order_run run [] db db"
| call: "fresh_candidate cand \<Longrightarrow> obs_crawl_run (fc_row cand) = Some run \<Longrightarrow> prv_crawl_run prov = Some run \<Longrightarrow>
    \<forall>r\<in>set (lane_rows db (price_history_lane_identity (fc_row cand))). obs_valid_from r < obs_observed_at (fc_row cand) \<Longrightarrow>
    record_price_fact cand prov ia m db = (res, m', db1) \<Longrightarrow> in_order_run run es db1 db2 \<Longrightarrow>
    in_order_run run ((cand, prov, ia) # es) db db2"

definition undo_row :: "int \<Rightarrow> price_observation \<Rightarrow> price_observation" where
  "undo_row run r = (if obs_closed_by_run r = Some run then reopen_row r else r)"

text \<open>What a rollback of the run would leave in force.\<close>

definition kept_rows :: "int \<Rightarrow> db \<Rightarrow> price_observation list" where
  "kept_rows run db = filter (\<lambda>r. obs_rolled_back_at r = None \<and> obs_crawl_run r \<noteq> Some run)
     (map (undo_row run) (observations db))"

lemma undo_row_fields [simp]:
  "obs_rolled_back_at (undo_row run r) = obs_rolled_back_at r" "obs_crawl_run (undo_row run r) = obs_crawl_run r"
  by (simp_all add: undo_row_def reopen_row_def)

lemma placed_row_run [simp]: "obs_crawl_run (placed_row rows t run r) = obs_crawl_run r"
  by (simp add: placed_row_def collapse_row_def end_row_def)

lemma candidate_lane [simp]:
  "price_history_lane_identity (candidate_row cand ia) = price_history_lane_identity (fc_row cand)"
  by (simp add: candidate_row_def price_history_lane_identity_def)

lemma undo_placed:
  assumes inv: "fact_inv db" and "r \<in> set (observations db)"
    and late: "\<forall>r\<in>set (lane_rows db l). obs_valid_from r < t"
  shows "undo_row run (placed_row (lane_rows db l) t (Some run) r) = undo_row run r"
proof (cases "placed_row (lane_rows db l) t (Some run) r = r")
  case False
  then have r: "r \<in> set (lane_rows db l)" "\<not> is_disputed r" using late
    by (auto simp: placed_row_def split: if_splits)
  with False late have e: "placed_row (lane_rows db l) t (Some run) r = end_row t (Some run) r"
    and prev: "previous_anchor (lane_rows db l) t = Some (obs_valid_from r)"
    by (auto simp: placed_row_def split: if_splits)
  from prev late have "next_anchor (lane_rows db l) (obs_valid_from r) = None"
    by (auto simp: previous_anchor_Some next_anchor_None)
  moreover have "settled (lane_rows db l) r" using inv r(1) unfolding fact_inv_def by blast
  ultimately have "obs_valid_until r = None" using r(2) by (auto simp: settled_def split: if_splits)
  moreover have "row_ok r" using inv r(1) by (auto simp: fact_inv_def lane_rows_current)
  ultimately show ?thesis unfolding e
    by (simp add: undo_row_def reopen_row_def end_row_def row_ok_def)
qed simp

lemma in_order_call:
  assumes inv: "fact_inv db" and "fresh_candidate cand" and run: "obs_crawl_run (fc_row cand) = Some run"
    "prv_crawl_run prov = Some run"
    and late: "\<forall>r\<in>set (lane_rows db (price_history_lane_identity (fc_row cand))). obs_valid_from r < obs_observed_at (fc_row cand)"
    and rec: "record_price_fact cand prov ia m db = (res, m', db1)"
  shows "kept_rows run db1 = kept_rows run db"
    and "(\<forall>r\<in>set (observations db). obs_crawl_run r = Some run \<longrightarrow> obs_rolled_back_at r = None) \<longrightarrow>
      (\<forall>r\<in>set (observations db1). obs_crawl_run r = Some run \<longrightarrow> obs_rolled_back_at r = None)"
proof -
  let ?c = "candidate_row cand ia" and ?l = "price_history_lane_identity (fc_row cand)"
  obtain found m2 stored created diag m3 db0 oc oc_created d m4 db2 where
    found: "fl_active_fact found = find (\<lambda>r. fact_key r = fact_key ?c) (current_rows db)"
    and sf: "store_fact ?c prov found m2 db = (stored, created, diag, m3, db0)"
    and so: "store_occurrence (obs_id stored) prov ia m3 db0 = (oc, oc_created, m4, db2)"
    and rec2: "record_price_fact cand prov ia m db =
      (Inr \<lparr>rr_observation = stored, rr_occurrence = oc, rr_fact_created = created,
            rr_occurrence_created = oc_created, rr_diagnostics = d\<rparr>, m4, db2)"
    by (rule record_parts[OF assms(1,2)])
  from so have "observations db2 = observations db0" by (cases rule: store_occurrence_cases) auto
  moreover have new: "fact_key ?c \<notin> fact_key ` set (current_rows db)"
  proof
    assume "fact_key ?c \<in> fact_key ` set (current_rows db)"
    then obtain r where r: "r \<in> set (current_rows db)" "fact_key r = fact_key ?c" by (metis imageE)
    then have "r \<in> set (lane_rows db ?l)" "obs_observed_at r = obs_observed_at (fc_row cand)"
      using fact_key_lane[OF r(2)] fact_key_observed[OF r(2)] by (auto simp: lane_rows_current)
    moreover have "obs_valid_from r = obs_observed_at r" using inv r(1) by (auto simp: fact_inv_def row_ok_def)
    ultimately show False using late by force
  qed
  have "observations db0 = map (placed_row (lane_rows db ?l) (obs_observed_at (fc_row cand)) (Some run)) (observations db) @ [stored]
      \<and> obs_crawl_run stored = Some run \<and> obs_rolled_back_at stored = None"
    using inv found sf
  proof (cases rule: store_fact_cases)
    case reuse
    with new show ?thesis by (metis imageI)
  next
    case insert
    then show ?thesis using run fresh_candidate_row[OF assms(2), of ia] by simp
  qed
  ultimately have obs: "observations db1 =
      map (placed_row (lane_rows db ?l) (obs_observed_at (fc_row cand)) (Some run)) (observations db) @ [stored]"
    and st: "obs_crawl_run stored = Some run" "obs_rolled_back_at stored = None"
    using rec rec2 by auto
  have same: "map (undo_row run) (map (placed_row (lane_rows db ?l) (obs_observed_at (fc_row cand)) (Some run)) (observations db)) =
      map (undo_row run) (observations db)"
    using undo_placed[OF inv _ late] by simp
  show "kept_rows run db1 = kept_rows run db" unfolding kept_rows_def obs map_append same by (simp add: st)
  show "(\<forall>r\<in>set (observations db). obs_crawl_run r = Some run \<longrightarrow> obs_rolled_back_at r = None) \<longrightarrow>
      (\<forall>r\<in>set (observations db1). obs_crawl_run r = Some run \<longrightarrow> obs_rolled_back_at r = None)"
    using st unfolding obs by auto
qed

lemma in_order_run_kept:
  assumes "in_order_run run es db db'" and "fact_inv db"
    and "\<forall>r\<in>set (observations db). obs_crawl_run r = Some run \<longrightarrow> obs_rolled_back_at r = None"
  shows "kept_rows run db' = kept_rows run db \<and>
    (\<forall>r\<in>set (observations db'). obs_crawl_run r = Some run \<longrightarrow> obs_rolled_back_at r = None)"
  using assms
proof (induction rule: in_order_run.induct)
  case (call cand prov db ia m res m' db1 es db2)
  have "fact_inv db1"
    using record_succeeds[OF call.prems(1) call.hyps(1), of prov ia m] call.hyps(5) by (metis Pair_inject)
  with call.IH in_order_call[OF call.prems(1) call.hyps(1-5)] call.prems(2) show ?case by simp
qed simp

lemma kept_rows_rollback:
  assumes "rollback_sync run False now db = Some (rep, db')"
    and "\<forall>r\<in>set (observations db). obs_crawl_run r = Some run \<longrightarrow> obs_rolled_back_at r = None"
  shows "current_rows db' = kept_rows run db" and "occurrences db' = occurrences db"
    and "map obs_id (observations db') = map obs_id (observations db)"
proof -
  obtain r0 where run: "find_row run_id run (crawl_runs db) = Some r0" "run_id r0 = run"
    using assms(1) by (auto simp: rollback_sync_def dest: find_row_Some split: option.splits)
  let ?created = "filter (\<lambda>r. obs_crawl_run r = Some run) (observations db)"
  have "\<not> (?created \<noteq> [] \<and> list_all (\<lambda>r. obs_rolled_back_at r \<noteq> None) ?created \<and> \<not> False)"
    using assms(2) by (cases ?created) (auto simp: filter_eq_Cons_iff)
  with assms(1) run have e: "db' = db\<lparr>observations :=
      map (\<lambda>r. if obs_crawl_run r = Some run \<and> obs_rolled_back_at r = None then invalidate_row now r else r)
        (map (undo_row run) (observations db))\<rparr>"
    by (simp add: rollback_sync_def Let_def split: if_splits flip: undo_row_def)
  have step: "filter (\<lambda>r. obs_rolled_back_at r = None)
      (map (\<lambda>r. if obs_crawl_run r = Some run \<and> obs_rolled_back_at r = None then invalidate_row now r else r) xs) =
      filter (\<lambda>r. obs_rolled_back_at r = None \<and> obs_crawl_run r \<noteq> Some run) xs" for xs
    by (induction xs) (auto simp: invalidate_row_def)
  show "current_rows db' = kept_rows run db"
  proof -
    have "observations db' =
        map (\<lambda>r. if obs_crawl_run r = Some run \<and> obs_rolled_back_at r = None then invalidate_row now r else r)
          (map (undo_row run) (observations db))"
      by (simp add: e)
    then show ?thesis unfolding current_rows_def kept_rows_def by (simp only: step)
  qed
  show "occurrences db' = occurrences db" by (simp add: e)
  show "map obs_id (observations db') = map obs_id (observations db)"
    by (auto simp: e undo_row_def reopen_row_def invalidate_row_def)
qed

lemma latest_valid_current_rows:
  "latest_valid db v s sc staging as_of =
     argmin recency (filter (eligible v s sc staging as_of) (current_rows db))"
proof -
  have "filter (eligible v s sc staging as_of) (observations db) =
      filter (eligible v s sc staging as_of) (current_rows db)"
    unfolding current_rows_def filter_filter by (rule filter_cong) (auto simp: eligible_def)
  then show ?thesis by (simp add: latest_valid_def)
qed

text \<open>C38 The last synchronisation can be undone. If a run brought only facts observed after everything
  in their lanes, rolling it back right after it, before anything else is recorded, restores the rows
  in force to exactly what they were, so that every current price, of any variant, shop, scope and instant, is read as before; and
  it destroys no evidence, every row keeping its place and every occurrence remaining.\<close>

theorem rollback_restores:
  assumes "reachable no_facts fact_step db"
    and "\<forall>r\<in>set (observations db). obs_crawl_run r \<noteq> Some run \<and> obs_closed_by_run r \<noteq> Some run"
    and "in_order_run run es db db1" and "rollback_sync run False now db1 = Some (rep, db2)"
  shows "current_rows db2 = current_rows db \<and>
    latest_valid db2 v s sc staging as_of = latest_valid db v s sc staging as_of \<and>
    map obs_id (observations db2) = map obs_id (observations db1) \<and> occurrences db2 = occurrences db1"
proof -
  from in_order_run_kept[OF assms(3) facts.reachable_inv[OF assms(1)]] assms(2)
  have kept: "kept_rows run db1 = kept_rows run db"
    and live: "\<forall>r\<in>set (observations db1). obs_crawl_run r = Some run \<longrightarrow> obs_rolled_back_at r = None"
    by auto
  have "map (undo_row run) (observations db) = observations db"
    using assms(2) by (intro map_idI) (auto simp: undo_row_def)
  moreover have "filter (\<lambda>r. obs_rolled_back_at r = None \<and> obs_crawl_run r \<noteq> Some run) (observations db) = current_rows db"
    unfolding current_rows_def by (rule filter_cong) (use assms(2) in auto)
  ultimately have "kept_rows run db = current_rows db" by (simp add: kept_rows_def)
  with kept_rows_rollback[OF assms(4) live] kept show ?thesis by (simp add: latest_valid_current_rows)
qed


section \<open>Concrete facts\<close>

definition example_fact :: "int \<Rightarrow> dec \<Rightarrow> time \<Rightarrow> fact_candidate \<times> occurrence_provenance \<times> time" where
  "example_fact run amount t =
     (\<lparr>fc_row = \<lparr>obs_id = 0, obs_retailer = 7, obs_store = None, obs_zone = None, obs_variant = 4,
          obs_scope = PS_national, obs_type = PT_regular, obs_amount = amount, obs_currency = ''EUR'',
          obs_unit_amount = None, obs_unit_code = None, obs_promotion_text = None, obs_loyalty = False,
          obs_promotion_from = None, obs_promotion_until = None, obs_available = None, obs_source = None,
          obs_source_url = None, obs_observed_at = t, obs_imported_at = 0, obs_valid_from = 0,
          obs_valid_until = None, obs_confidence = 1, obs_raw_capture = None, obs_crawl_run = Some run,
          obs_connector_version = None, obs_parser_version = None, obs_verification = VS_unverified,
          obs_staging_only = True, obs_rolled_back_at = None, obs_closed_by_run = None\<rparr>,
       fc_id = None, fc_orm = Orm_transient, fc_in_session = False, fc_loyalty = None, fc_imported_at = None\<rparr>,
      \<lparr>prv_provider = Some ''demo'', prv_source = None, prv_source_url = None, prv_crawl_run = Some run,
       prv_raw_capture = None, prv_connector_version = None, prv_parser_version = None,
       prv_confidence = None, prv_verification = VS_unverified, prv_evidence = None\<rparr>, 99)"

definition no_metrics :: record_metrics where
  "no_metrics = \<lparr>me_observations_created = 0, me_observations_reused = 0, me_occurrences_created = 0,
     me_occurrences_reused = 0, me_facts_reused_after_lane_lock = 0, me_occurrences_reused_after_lock = 0,
     me_out_of_order_inserts = 0, me_same_timestamp_conflicts = 0, me_blocked_gaps = 0,
     me_lane_preflight_checked = 0, me_lane_preexisting_anomaly = 0, me_lane_preexisting_multiple_open = 0,
     me_lane_preexisting_overlap = 0, me_lane_preexisting_repeated_timestamp = 0,
     me_lane_preexisting_crossing_disputed = 0, me_write_blocked_by_lane_anomaly = 0,
     me_rolled_back_exact_matches_ignored = 0, me_active_exact_fact_reused = 0,
     me_new_fact_created_after_rolled_back_match = 0, me_multiple_active_exact_fact_blocked = 0,
     me_invalid_candidate_state_blocked = 0\<rparr>"

definition example_runs :: db where
  "example_runs = empty_db\<lparr>crawl_runs := [example_run 1 7, example_run 2 7, example_run 3 7]\<rparr>"

definition after_calls :: "(fact_candidate \<times> occurrence_provenance \<times> time) list \<Rightarrow> db" where
  "after_calls es = snd (fold record_call es (no_metrics, example_runs))"

text \<open>
  Rolling back a late arrival corrupts its lane. Run 1 observes a price at 10, run 2 another at 30, and
  run 3 brings one observed at 20, which ends the first interval. Undoing run 3 reopens that interval
  although the row of run 2 is open as well: two prices are in force, and from then on every
  recording in the lane is refused.
\<close>

theorem rollback_corrupts_lane:
  "(let db = after_calls [example_fact 1 2 10, example_fact 2 3 30, example_fact 3 4 20] in
    case rollback_sync 3 False 50 db of
      None \<Rightarrow> False
    | Some (rep, db') \<Rightarrow>
        lane_invariants_hold (current_rows db) \<and> \<not> lane_invariants_hold (current_rows db') \<and>
        map obs_valid_until (current_rows db') = [None, None] \<and>
        (case example_fact 4 5 60 of (cand, prov, ia) \<Rightarrow>
           case fst (record_price_fact cand prov ia no_metrics db') of
             Inl (Lane_anomaly causes) \<Rightarrow> lc_multiple_open causes = 1 | _ \<Rightarrow> False))"
  by code_simp

lemma reachable_calls:
  assumes "no_facts db" and "\<forall>e\<in>set es. fresh_candidate (fst e)"
  shows "reachable no_facts fact_step (snd (fold record_call es (m, db)))"
  using assms(2)
proof (induction es rule: rev_induct)
  case (snoc e es)
  obtain cand prov ia where e: "e = (cand, prov, ia)" by (metis prod_cases3)
  let ?st = "fold record_call es (m, db)"
  obtain res m' db' where r: "record_price_fact cand prov ia (fst ?st) (snd ?st) = (res, m', db')"
    by (metis prod_cases3)
  have "fact_step e (snd ?st) (snd (record_call e ?st))"
    using fact_step.intros[OF _ r] snoc.prems e r by (simp add: record_call_def)
  moreover have "reachable no_facts fact_step (snd ?st)" using snoc by simp
  ultimately show ?case by (simp add: reachable.step)
qed (simp add: reachable.start assms(1))

lemma example_calls:
  "fresh_candidate (fst (example_fact run amount t))" "no_facts example_runs"
  by (simp_all add: example_fact_def fresh_candidate_def validate_candidate_state_def is_disputed_def
      no_facts_def example_runs_def empty_db_def)

lemma reachable_examples:
  "\<forall>e\<in>set es. fresh_candidate (fst e) \<Longrightarrow> reachable no_facts fact_step (after_calls es)"
  unfolding after_calls_def by (rule reachable_calls[OF example_calls(2)])

lemma lanes_never_corrupt_witness:
  "lane_invariants_hold (current_rows (after_calls [example_fact 1 2 30, example_fact 2 3 10, example_fact 3 4 10]))"
  using lanes_never_corrupt[OF reachable_examples example_calls(1)] by (simp add: example_calls)

lemma arrival_order_irrelevant_witness:
  "lane_view (after_calls [example_fact 1 2 30, example_fact 2 3 10, example_fact 3 4 20]) =
   lane_view (after_calls [example_fact 3 4 20, example_fact 1 2 30, example_fact 3 4 20, example_fact 2 3 10])"
  unfolding after_calls_def
  by (rule arrival_order_irrelevant[THEN conjunct1, OF reachable.start[of no_facts, OF example_calls(2)]])
    (auto simp: example_calls)

lemma rerecording_adds_nothing_witness:
  "after_calls [example_fact 1 2 10, example_fact 1 2 10] = after_calls [example_fact 1 2 10]"
proof -
  obtain cand prov ia where e: "example_fact 1 2 10 = (cand, prov, ia)" by (metis prod_cases3)
  have fresh: "fresh_candidate cand" using example_calls(1)[of 1 2 10] by (simp add: e)
  obtain r1 m1 db1 where one: "record_price_fact cand prov ia no_metrics example_runs = (r1, m1, db1)"
    by (metis prod_cases3)
  obtain r2 m2 db2 where two: "record_price_fact cand prov ia m1 db1 = (r2, m2, db2)"
    by (metis prod_cases3)
  from rerecording_adds_nothing[OF reachable.start[of no_facts, OF example_calls(2)] fresh fresh one two refl]
  have "db2 = db1" by auto
  then show ?thesis by (simp add: after_calls_def record_call_def e one two)
qed

lemma rollback_restores_witness:
  "(case rollback_sync 2 False 50 (after_calls [example_fact 1 2 10, example_fact 2 3 30]) of
      None \<Rightarrow> False
    | Some (rep, db2) \<Rightarrow> current_rows db2 = current_rows (after_calls [example_fact 1 2 10]))"
proof -
  let ?db = "after_calls [example_fact 1 2 10]"
  obtain cand prov ia where e: "example_fact 2 3 30 = (cand, prov, ia)" by (metis prod_cases3)
  obtain res m' db1 where r: "record_price_fact cand prov ia (fst (fold record_call [example_fact 1 2 10] (no_metrics, example_runs))) ?db =
      (res, m', db1)"
    by (metis prod_cases3)
  have db1: "after_calls [example_fact 1 2 10, example_fact 2 3 30] = db1"
    using r by (simp add: after_calls_def record_call_def [of "(cand, prov, ia)"] e)
  have "fresh_candidate cand \<and> obs_crawl_run (fc_row cand) = Some 2 \<and> prv_crawl_run prov = Some 2"
    using e example_calls(1)[of 2 3 30] by (auto simp: example_fact_def)
  moreover have "\<forall>r\<in>set (lane_rows ?db (price_history_lane_identity (fc_row (fst (example_fact 2 3 30))))).
      obs_valid_from r < obs_observed_at (fc_row (fst (example_fact 2 3 30)))"
    by code_simp
  ultimately have run: "in_order_run 2 [(cand, prov, ia)] ?db db1"
    using r e by (intro in_order_run.intros) (auto intro: in_order_run.intros)
  have other: "\<forall>r\<in>set (observations ?db). obs_crawl_run r \<noteq> Some 2 \<and> obs_closed_by_run r \<noteq> Some 2"
    by code_simp
  have "rollback_sync 2 False 50 (after_calls [example_fact 1 2 10, example_fact 2 3 30]) \<noteq> None"
    by code_simp
  then obtain rep db2 where rb: "rollback_sync 2 False 50 db1 = Some (rep, db2)" by (auto simp: db1)
  have "reachable no_facts fact_step ?db" by (rule reachable_examples) (simp add: example_calls)
  from rollback_restores[OF this other run rb] show ?thesis by (simp add: db1 rb)
qed

end
