(* ===== verification/PlanDb.thy ===== *)
theory PlanDb
  imports Contracts IngestDb
begin

text \<open>
  The tables of households, recipes, plans and generation jobs (\<open>models/household.py\<close>,
  \<open>models/recipe.py\<close>, \<open>models/plan.py\<close>, \<open>models/feedback.py\<close>, \<open>models/jobs.py\<close> and the rest of
  \<open>models/catalog.py\<close>), beside those of the price ingestion.

  \<^item> Rows carry the columns that the planning services read or write. The rows behind a
    relationship with \<open>delete-orphan\<close> that are only reached through their parent (profiles with
    their allergies and preferences, ingredients and steps of a recipe, the nutrition of a
    product) are fields of the parent, in the order the relationship lists them.
  \<^item> The texts of an enum column are a datatype. A column without an enum whose text the engine's
    DTOs restrict (\<open>meal_types\<close>, \<open>preferred_days\<close>, \<open>availability\<close>) holds one of those texts;
    \<open>budget_priority\<close> and the dates of \<open>selected_dates\<close> may hold anything, and building the
    DTO raises when they do not parse.
  \<^item> A \<open>numeric\<close> column holds the Decimal assigned to it: the rounding to the scale of the column
    (four places for money) that PostgreSQL applies on writing is outside the model.
  \<^item> A new row gets a key above those in its table. Rows of plans are deleted, and a key may
    then be given again; nothing modelled here keeps the key of a deleted row.
\<close>

section \<open>Enums\<close>

datatype allergy_severity = SevIntolerance | SevAllergy | SevAnaphylaxis

datatype preference_sentiment = PrefLike | PrefDislike | PrefAvoid

datatype feedback_sentiment = FbLike | FbReject | FbNoShow

datatype member_role = RoleOwner | RoleEditor | RoleViewer

datatype recipe_origin = RO_seed | RO_ai_generated | RO_user | RO_imported

datatype meal_plan_status = MP_draft | MP_generating | MP_ready | MP_failed | MP_archived

datatype planned_meal_status = ML_planned | ML_accepted | ML_rejected | ML_cooked | ML_regenerating

datatype price_status = Price_known | Price_estimated | Price_missing | Price_stale

text \<open>\<open>OPTIMIZATION_STATUS\<close> and \<open>JOB_STATUS\<close> list the same texts.\<close>

datatype optimization_status =
    OS_queued | OS_collecting_data | OS_generating_candidates | OS_validating | OS_optimizing
  | OS_completed | OS_failed | OS_cancelled


section \<open>Households\<close>

record allergy =
  alg_code :: string
  alg_severity :: allergy_severity

record food_preference =
  fp_subject_ref :: string
  fp_sentiment :: preference_sentiment

record dietary_profile =
  dp_diet_type :: "string option"
  dp_energy_target_kcal :: "dec option"
  dp_protein_target_g :: "dec option"
  dp_carb_target_g :: "dec option"
  dp_fat_target_g :: "dec option"
  dp_allergies :: "allergy list"
  dp_food_preferences :: "food_preference list"

record household =
  hh_id :: int
  hh_owner :: int
  hh_default_retailer :: "int option"
  hh_default_store :: "int option"

text \<open>\<open>hm_public_hex\<close> is \<open>public_id.hex[:8]\<close>, which stands in for a missing name.\<close>

record household_member =
  hm_id :: int
  hm_household :: int
  hm_user :: "int option"
  hm_role :: member_role
  hm_display_name :: "string option"
  hm_public_hex :: string
  hm_is_eater :: bool
  hm_relative_serving :: dec
  hm_joined_at :: time
  hm_profiles :: "dietary_profile list"

record equipment =
  eq_household :: int
  eq_code :: string
  eq_available :: bool

record pantry_row =
  pan_household :: int
  pan_ingredient :: "int option"
  pan_quantity :: dec
  pan_unit :: string
  pan_expires_at :: "time option"
  pan_deleted_at :: "time option"

record favorite_recipe =
  fav_household :: int
  fav_recipe :: int

record recipe_feedback =
  fb_household :: int
  fb_recipe :: int
  fb_sentiment :: feedback_sentiment


section \<open>Catalogue and recipes\<close>

record product_nutrition =
  pn_energy_kcal :: "dec option"
  pn_protein_g :: "dec option"
  pn_carbohydrate_g :: "dec option"
  pn_fat_g :: "dec option"
  pn_allergens :: "string list option"

record product =
  prd_id :: int
  prd_retailer :: "int option"
  prd_deleted_at :: "time option"
  prd_nutrition :: "product_nutrition option"

record ingredient =
  ing_id :: int
  ing_canonical_name :: string
  ing_display_name :: string
  ing_category_code :: "string option"
  ing_default_unit :: "string option"
  ing_density_g_per_ml :: "dec option"
  ing_allergen_codes :: "string list option"

record ingredient_product_mapping =
  ipm_ingredient :: int
  ipm_product :: int
  ipm_variant :: "int option"
  ipm_preference_rank :: "int option"
  ipm_active :: bool

record recipe_ingredient =
  rgi_ingredient :: int
  rgi_canonical_name :: string
  rgi_display_name :: "string option"
  rgi_quantity :: dec
  rgi_unit :: string
  rgi_optional :: bool
  rgi_substitution_group :: "string option"

record recipe =
  rcp_id :: int
  rcp_household :: "int option"
  rcp_origin :: recipe_origin
  rcp_public :: bool
  rcp_title :: string
  rcp_description :: "string option"
  rcp_servings :: int
  rcp_meal_types :: "meal_type list option"
  rcp_cuisine :: "string option"
  rcp_preference_tags :: "string list option"
  rcp_preparation_minutes :: "int option"
  rcp_cooking_minutes :: "int option"
  rcp_required_equipment :: "string list option"
  rcp_leftover_reuse :: "string option"
  rcp_storage_instructions :: "string option"
  rcp_reheating_instructions :: "string option"
  rcp_generated_by :: "string option"
  rcp_deleted_at :: "time option"
  rcp_ingredients :: "recipe_ingredient list"
  rcp_steps :: "(int \<times> string) list"


section \<open>Plans\<close>

text \<open>An element of the JSON list \<open>selected_dates\<close>: a text that \<open>date.fromisoformat\<close> reads, or another.\<close>

datatype date_text = IsoDate date | OtherText string

record meal_requirement =
  mq_id :: int
  mq_plan :: int
  mq_meal_type :: meal_type
  mq_requested_count :: int
  mq_default_servings :: int
  mq_selected_dates :: "date_text list option"
  mq_auto_distribute :: bool
  mq_preferred_days :: "weekday_name list option"
  mq_maximum_preparation_minutes :: "int option"
  mq_requires_tupper :: bool
  mq_reheating_available :: bool

record meal_plan =
  mp_id :: int
  mp_household :: int
  mp_retailer :: "int option"
  mp_store :: "int option"
  mp_start_date :: date
  mp_end_date :: date
  mp_budget_amount :: "dec option"
  mp_budget_priority :: string
  mp_currency :: string
  mp_status :: meal_plan_status
  mp_deleted_at :: "time option"

record planned_meal_row =
  pml_id :: int
  pml_plan :: int
  pml_requirement :: "int option"
  pml_recipe :: int
  pml_scheduled_date :: "date option"
  pml_meal_type :: meal_type
  pml_servings :: int
  pml_status :: planned_meal_status

record grocery_list =
  gry_id :: int
  gry_plan :: int
  gry_store :: "int option"
  gry_currency :: string
  gry_known_cost :: "dec option"
  gry_estimated_cost :: "dec option"
  gry_price_coverage :: "dec option"
  gry_weighted_price_coverage :: "dec option"
  gry_coverage_status :: coverage_status

record grocery_list_item =
  gli_id :: int
  gli_list :: int
  gli_product :: "int option"
  gli_ingredient :: "int option"
  gli_needed_quantity :: dec
  gli_pantry_quantity :: dec
  gli_pending_quantity :: dec
  gli_package_quantity :: "dec option"
  gli_package_unit :: "string option"
  gli_packages_selected :: "int option"
  gli_purchased_quantity :: "dec option"
  gli_used_quantity :: "dec option"
  gli_leftover_quantity :: "dec option"
  gli_unit_price :: "dec option"
  gli_price :: "int option"
  gli_total_cost :: "dec option"
  gli_price_status :: price_status
  gli_checked :: bool

text \<open>
  The diagnosis kept in \<open>infeasibility_report\<close>: \<open>PreflightCode\<close>, \<open>ActionCode\<close> and the keys of
  the two kinds of report that the services compute with.
\<close>

datatype report_code =
    No_active_recipes | No_compatible_recipes | No_retailer_selected | Retailer_without_catalog
  | No_mapped_products | No_product_prices | No_costable_recipes | Insufficient_recipe_variety
  | Genuine_budget_infeasibility | Hard_constraints_infeasible | Optimizer_error

datatype action_code =
    Add_recipes | Relax_soft_preferences | Change_store | Reduce_meals | Increase_budget
  | Configure_provider | Review_mappings

record infeasibility_report =
  ip_code :: report_code
  ip_candidate_counts :: "(string, int) dict"
  ip_suggested_actions :: "action_code list"
  ip_minimum_budget :: "dec option"
  ip_engine :: "infeasible_result option"

record optimization_run =
  orn_id :: int
  orn_plan :: int
  orn_status :: optimization_status
  orn_seed :: int
  orn_budget_amount :: "dec option"
  orn_result_summary :: "plan_result option"
  orn_infeasibility_report :: "infeasibility_report option"
  orn_started_at :: "time option"
  orn_finished_at :: "time option"

text \<open>An exception while a job runs, and the texts of \<open>last_error\<close>.\<close>

datatype generation_exn = ValidationFailed | EngineRaised py_exn

datatype job_error =
    MissingRunOrPlan
  | Infeasible_plan "message list"
  | Infeasible_preflight report_code
  | Raised generation_exn
  | Reaped

record generation_job =
  gj_id :: int
  gj_run :: "int option"
  gj_plan :: "int option"
  gj_type :: string
  gj_status :: optimization_status
  gj_payload :: "(string, string list) dict option"
  gj_priority :: int
  gj_attempts :: int
  gj_max_attempts :: int
  gj_run_after :: "time option"
  gj_locked_at :: "time option"
  gj_locked_by :: "string option"
  gj_heartbeat_at :: "time option"
  gj_last_error :: "job_error option"

record plan_db =
  pl_market :: db
  pl_households :: "household list"
  pl_members :: "household_member list"
  pl_equipment :: "equipment list"
  pl_pantry :: "pantry_row list"
  pl_favorites :: "favorite_recipe list"
  pl_feedback :: "recipe_feedback list"
  pl_products :: "product list"
  pl_ingredients :: "ingredient list"
  pl_mappings :: "ingredient_product_mapping list"
  pl_recipes :: "recipe list"
  pl_plans :: "meal_plan list"
  pl_requirements :: "meal_requirement list"
  pl_meals :: "planned_meal_row list"
  pl_grocery_lists :: "grocery_list list"
  pl_items :: "grocery_list_item list"
  pl_runs :: "optimization_run list"
  pl_jobs :: "generation_job list"

text \<open>The settings the planning services read.\<close>

record plan_settings =
  ps_postal_code :: string
  ps_price_max_age_days :: int
  ps_ai_enabled :: bool
  ps_openai_model :: string
  ps_openai_max_retries :: int
  ps_worker_poll_interval :: rat
  ps_worker_job_max_attempts :: int
  ps_worker_heartbeat_seconds :: int

text \<open>\<open>a or b\<close> on optional texts and numbers: the empty text and zero are false.\<close>

definition text_or :: "string option \<Rightarrow> string \<Rightarrow> string" where
  "text_or a b = (case a of None \<Rightarrow> b | Some s \<Rightarrow> if s = [] then b else s)"

definition dec_or :: "dec option \<Rightarrow> dec \<Rightarrow> dec" where
  "dec_or a b = (case a of None \<Rightarrow> b | Some x \<Rightarrow> if x = 0 then b else x)"

definition list_or_empty :: "'a list option \<Rightarrow> 'a list" where
  "list_or_empty a = (case a of None \<Rightarrow> [] | Some xs \<Rightarrow> xs)"


text \<open>\<open>datetime.date()\<close>, as a proleptic ordinal: 1 January 1970 has number 719163.\<close>

definition date_of :: "time \<Rightarrow> date" where
  "date_of t = day_of t + 719163"


section \<open>Keys as texts\<close>

text \<open>
  The engine speaks of rows by the decimal text of their key, \<open>str(row.id)\<close>, and the services
  read it back with \<open>int\<close>. Reading gives back what was written.
\<close>

definition add_digit :: "char \<Rightarrow> int option \<Rightarrow> int option" where
  "add_digit c acc =
     (let n = of_char c :: nat in
      case acc of None \<Rightarrow> None
      | Some v \<Rightarrow> if 48 \<le> n \<and> n \<le> 57 then Some (10 * v + int (n - 48)) else None)"

definition key_value :: "string \<Rightarrow> int option" where
  "key_value s = fold add_digit s (Some 0)"

definition int_of_str :: "string \<Rightarrow> int option" where
  "int_of_str s =
     (case s of [] \<Rightarrow> None
      | c # cs \<Rightarrow> if c = CHR ''-'' then (if cs = [] then None else map_option uminus (key_value cs))
                  else key_value s)"

lemma of_char_digit: "n < 10 \<Longrightarrow> (of_char (char_of (n + 48) :: char) :: nat) = n + 48" for n :: nat
  by (rule of_char_char_of_nat) simp

lemma add_digit_char: "n < 10 \<Longrightarrow> add_digit (char_of (n + 48)) (Some v) = Some (10 * v + int n)" for n :: nat
  by (simp only: add_digit_def of_char_digit Let_def option.case) simp

lemma key_value_nat_digits: "key_value (nat_digits n) = Some (int n)"
proof (induction n rule: nat_digits.induct)
  case (1 n)
  show ?case
  proof (cases "n < 10")
    case True
    then show ?thesis by (subst nat_digits.simps) (simp add: key_value_def add_digit_char)
  next
    case False
    have "key_value (nat_digits (n div 10) @ [char_of (n mod 10 + 48)]) = Some (10 * int (n div 10) + int (n mod 10))"
      using 1 False by (simp add: key_value_def add_digit_char)
    moreover have "10 * int (n div 10) + int (n mod 10) = int n" by presburger
    ultimately show ?thesis using False by (subst nat_digits.simps) simp
  qed
qed

lemma nat_digits_ne [simp]: "nat_digits n \<noteq> []"
  by (subst nat_digits.simps) simp

lemma nat_digits_head: "nat_digits n = c # cs \<Longrightarrow> c \<noteq> CHR ''-''"
proof (induction n arbitrary: cs rule: nat_digits.induct)
  case (1 n)
  show ?case
  proof (cases "n < 10")
    case True
    with 1 have "c = char_of (n + 48)" by (subst (asm) nat_digits.simps) simp
    with True have "(of_char c :: nat) = n + 48" by (simp only: of_char_digit)
    then show ?thesis by auto
  next
    case False
    have ne: "nat_digits (n div 10) \<noteq> []" by simp
    with 1 False obtain ds where "nat_digits (n div 10) = c # ds"
      by (subst (asm) (2) nat_digits.simps) (cases "nat_digits (n div 10)"; auto)
    with 1(1) False show ?thesis by blast
  qed
qed

lemma int_of_str_int_str [simp]: "int_of_str (int_str i) = Some i"
proof (cases "i < 0")
  case True
  then show ?thesis
    by (simp add: int_of_str_def int_str_def key_value_nat_digits)
next
  case False
  then obtain c cs where c: "nat_digits (nat i) = c # cs"
    by (cases "nat_digits (nat i)") simp_all
  have "key_value (c # cs) = Some i"
    using key_value_nat_digits[of "nat i"] False c by simp
  with False c nat_digits_head[OF c] show ?thesis
    by (simp add: int_of_str_def int_str_def)
qed

lemma int_str_inject [simp]: "int_str i = int_str j \<longleftrightarrow> i = j"
  by (metis int_of_str_int_str option.inject)

end
