(* ===== verification/Candidates.thy ===== *)
theory Candidates
  imports PlanDb
begin

text \<open>
  \<open>services/candidate_providers.py\<close>: the recipes proposed for a plan, from the public library or
  from the OpenAI service.

  \<^item> The service is the argument \<open>call\<close>: the text it answers at the attempt with a number, or that
    of its exception. The reading of the JSON in that text is the argument \<open>parse\<close>: nothing for an
    answer of another shape, else the items with the fields of a recipe.
    What the provider does around them is modelled; the prompt, the waiting between attempts and
    the metering of the calls are not.
  \<^item> The result carries the database, since accepted recipes are stored.
\<close>

section \<open>The library\<close>

text \<open>\<open>ingredient_meta\<close>: codes, category and whether the allergens were assessed.\<close>

definition ingredient_meta :: "plan_db \<Rightarrow> int \<Rightarrow> string set \<times> string option \<times> bool" where
  "ingredient_meta db i =
     (case find_row ing_id i (pl_ingredients db) of
        None \<Rightarrow> ({}, None, False)
      | Some ing \<Rightarrow> (set (list_or_empty (ing_allergen_codes ing)), ing_category_code ing,
                     ing_allergen_codes ing \<noteq> None))"

definition seed_ingredient :: "plan_db \<Rightarrow> recipe_ingredient \<Rightarrow> recipe_ingredient_dto" where
  "seed_ingredient db ri =
     (case ingredient_meta db (rgi_ingredient ri) of (codes, category, assessed) \<Rightarrow>
        \<lparr>ri_canonical_name = rgi_canonical_name ri,
         ri_display_name = text_or (rgi_display_name ri) (rgi_canonical_name ri),
         ri_quantity = rgi_quantity ri, ri_unit = rgi_unit ri, ri_optional = rgi_optional ri,
         ri_substitution_group = rgi_substitution_group ri, ri_category = category,
         ri_allergen_assessed = assessed\<rparr>)"

definition declared_codes :: "plan_db \<Rightarrow> recipe_ingredient list \<Rightarrow> string set" where
  "declared_codes db ris = (\<Union>ri\<in>set ris. fst (ingredient_meta db (rgi_ingredient ri)))"

definition recipe_dto :: "plan_db \<Rightarrow> recipe \<Rightarrow> candidate_recipe_dto" where
  "recipe_dto db r =
     \<lparr>cr_recipe_id = int_str (rcp_id r), cr_title = rcp_title r,
      cr_description = text_or (rcp_description r) '''', cr_servings = rcp_servings r,
      cr_meal_types = set (list_or_empty (rcp_meal_types r)), cr_cuisine = text_or (rcp_cuisine r) '''',
      cr_preference_tags = list_or_empty (rcp_preference_tags r),
      cr_ingredients = map (seed_ingredient db) (rcp_ingredients r),
      cr_steps = map snd (sort_key fst (rcp_steps r)),
      cr_preparation_minutes = (case rcp_preparation_minutes r of None \<Rightarrow> 0 | Some n \<Rightarrow> n),
      cr_cooking_minutes = (case rcp_cooking_minutes r of None \<Rightarrow> 0 | Some n \<Rightarrow> n),
      cr_required_equipment = set (list_or_empty (rcp_required_equipment r)),
      cr_leftover_reuse = False, cr_storage_instructions = None, cr_reheating_instructions = None,
      cr_allergens_declared = declared_codes db (rcp_ingredients r)\<rparr>"

definition public_recipes :: "plan_db \<Rightarrow> recipe list" where
  "public_recipes db = sort_key rcp_id (filter (\<lambda>r. rcp_deleted_at r = None \<and> rcp_public r) (pl_recipes db))"

definition offered :: "meal_type set \<Rightarrow> string list \<Rightarrow> recipe \<Rightarrow> bool" where
  "offered requested_types allow_list r \<longleftrightarrow>
     (requested_types = {} \<or> set (list_or_empty (rcp_meal_types r)) \<inter> requested_types \<noteq> {}) \<and>
     (allow_list = [] \<or>
      list_all (\<lambda>ri. rgi_optional ri \<or> rgi_canonical_name ri \<in> set allow_list) (rcp_ingredients r))"

definition build_seed_candidates ::
  "plan_db \<Rightarrow> meal_type set \<Rightarrow> string list \<Rightarrow> generation_exn + candidate_recipe_dto list" where
  "build_seed_candidates db requested_types allow_list =
     (let chosen = filter (offered requested_types allow_list) (public_recipes db) in
      if list_all (\<lambda>r. 1 \<le> rcp_servings r) chosen then Inr (map (recipe_dto db) chosen)
      else Inl ValidationFailed)"


section \<open>OpenAI\<close>

record candidate_request =
  rq_household :: int
  rq_requested_types :: "meal_type set"
  rq_allow_list :: "string list"
  rq_allergens :: "string set"
  rq_hard_restrictions :: "string set"
  rq_soft_preferences :: "string list"
  rq_equipment :: "string set"
  rq_budget_amount :: dec
  rq_currency :: string

record candidate_bundle =
  cbn_candidates :: "candidate_recipe_dto list"
  cbn_warnings :: "message list"

record oai_ingredient =
  oi_canonical_name :: string
  oi_display_name :: string
  oi_quantity :: dec
  oi_unit :: string
  oi_optional :: bool
  oi_substitution_group :: "string option"

record oai_recipe =
  oa_title :: string
  oa_description :: string
  oa_servings :: int
  oa_meal_types :: "meal_type list"
  oa_cuisine :: string
  oa_preference_tags :: "string list"
  oa_ingredients :: "oai_ingredient list"
  oa_steps :: "string list"
  oa_preparation_minutes :: int
  oa_cooking_minutes :: int
  oa_required_equipment :: "string list"
  oa_leftover_reuse :: "string option"
  oa_storage_instructions :: "string option"
  oa_reheating_instructions :: "string option"

text \<open>The bounds of the \<open>Field\<close>s of \<open>_OAIIngredient\<close> and \<open>_OAIRecipe\<close>; an item out of them is dropped.\<close>

definition oai_valid :: "oai_recipe \<Rightarrow> bool" where
  "oai_valid r \<longleftrightarrow>
     1 \<le> oa_servings r \<and> oa_meal_types r \<noteq> [] \<and> oa_ingredients r \<noteq> [] \<and> oa_steps r \<noteq> [] \<and>
     0 \<le> oa_preparation_minutes r \<and> 0 \<le> oa_cooking_minutes r \<and>
     list_all (\<lambda>i. 0 < oi_quantity i) (oa_ingredients r)"

definition parse_recipes :: "(string \<Rightarrow> oai_recipe list option) \<Rightarrow> string \<Rightarrow> oai_recipe list option" where
  "parse_recipes parse raw = map_option (filter oai_valid) (parse raw)"

text \<open>Attempts \<open>k\<close>, \<open>k + 1\<close>, ..., with \<open>left\<close> more allowed after this one.\<close>

fun try_calls :: "(nat \<Rightarrow> string + string) \<Rightarrow> nat \<Rightarrow> nat \<Rightarrow> string + string" where
  "try_calls call k 0 = call k"
| "try_calls call k (Suc left) =
     (case call k of Inr answer \<Rightarrow> Inr answer | Inl e \<Rightarrow> try_calls call (Suc k) left)"

definition invoke_with_retries :: "plan_settings \<Rightarrow> (nat \<Rightarrow> string + string) \<Rightarrow> string + string" where
  "invoke_with_retries st call = try_calls call 0 (nat (max 0 (ps_openai_max_retries st)))"

definition load_allowed_ingredients :: "plan_db \<Rightarrow> string list \<Rightarrow> (string, ingredient) dict" where
  "load_allowed_ingredients db allow_list =
     fold (\<lambda>ing d. dset (ing_canonical_name ing) ing d)
       (filter (\<lambda>ing. ing_canonical_name ing \<in> set allow_list) (pl_ingredients db)) []"

text \<open>An ingredient of an answer with its row, kept only if it is on the list of allowed names.\<close>

definition kept_ingredients :: "(string, ingredient) dict \<Rightarrow> oai_ingredient list \<Rightarrow> (oai_ingredient \<times> ingredient) list" where
  "kept_ingredients allowed ings =
     List.map_filter (\<lambda>i. map_option (Pair i) (map_of allowed (oi_canonical_name i))) ings"

definition stored_ingredient :: "oai_ingredient \<times> ingredient \<Rightarrow> recipe_ingredient" where
  "stored_ingredient p =
     (case p of (i, ing) \<Rightarrow>
        \<lparr>rgi_ingredient = ing_id ing, rgi_canonical_name = ing_canonical_name ing,
         rgi_display_name = Some (text_or (Some (oi_display_name i)) (ing_display_name ing)),
         rgi_quantity = oi_quantity i, rgi_unit = text_or (ing_default_unit ing) (oi_unit i),
         rgi_optional = oi_optional i, rgi_substitution_group = oi_substitution_group i\<rparr>)"

definition oai_ingredient_dto :: "oai_ingredient \<times> ingredient \<Rightarrow> recipe_ingredient_dto" where
  "oai_ingredient_dto p =
     (case p of (i, ing) \<Rightarrow>
        \<lparr>ri_canonical_name = ing_canonical_name ing,
         ri_display_name = text_or (Some (oi_display_name i)) (ing_display_name ing),
         ri_quantity = oi_quantity i, ri_unit = text_or (ing_default_unit ing) (oi_unit i),
         ri_optional = oi_optional i, ri_substitution_group = oi_substitution_group i,
         ri_category = ing_category_code ing, ri_allergen_assessed = (ing_allergen_codes ing \<noteq> None)\<rparr>)"

definition stored_recipe ::
  "int \<Rightarrow> string \<Rightarrow> int \<Rightarrow> oai_recipe \<Rightarrow> (oai_ingredient \<times> ingredient) list \<Rightarrow> recipe" where
  "stored_recipe household_id model_id i parsed kept =
     \<lparr>rcp_id = i, rcp_household = Some household_id, rcp_origin = RO_ai_generated, rcp_public = False,
      rcp_title = oa_title parsed, rcp_description = Some (oa_description parsed),
      rcp_servings = oa_servings parsed, rcp_meal_types = Some (oa_meal_types parsed),
      rcp_cuisine = Some (oa_cuisine parsed), rcp_preference_tags = Some (oa_preference_tags parsed),
      rcp_preparation_minutes = Some (oa_preparation_minutes parsed),
      rcp_cooking_minutes = Some (oa_cooking_minutes parsed),
      rcp_required_equipment =
        (if oa_required_equipment parsed = [] then None else Some (oa_required_equipment parsed)),
      rcp_leftover_reuse = oa_leftover_reuse parsed,
      rcp_storage_instructions = oa_storage_instructions parsed,
      rcp_reheating_instructions = oa_reheating_instructions parsed,
      rcp_generated_by = (if model_id = [] then None else Some model_id), rcp_deleted_at = None,
      rcp_ingredients = map stored_ingredient kept,
      rcp_steps = zip (map int [1..<Suc (length (oa_steps parsed))]) (oa_steps parsed)\<rparr>"

definition oai_candidate :: "int \<Rightarrow> oai_recipe \<Rightarrow> (oai_ingredient \<times> ingredient) list \<Rightarrow> candidate_recipe_dto" where
  "oai_candidate i parsed kept =
     \<lparr>cr_recipe_id = int_str i, cr_title = oa_title parsed, cr_description = oa_description parsed,
      cr_servings = oa_servings parsed, cr_meal_types = set (oa_meal_types parsed),
      cr_cuisine = oa_cuisine parsed, cr_preference_tags = oa_preference_tags parsed,
      cr_ingredients = map oai_ingredient_dto kept, cr_steps = oa_steps parsed,
      cr_preparation_minutes = oa_preparation_minutes parsed,
      cr_cooking_minutes = oa_cooking_minutes parsed,
      cr_required_equipment = set (oa_required_equipment parsed),
      cr_leftover_reuse = (case oa_leftover_reuse parsed of None \<Rightarrow> False | Some s \<Rightarrow> s \<noteq> []),
      cr_storage_instructions = oa_storage_instructions parsed,
      cr_reheating_instructions = oa_reheating_instructions parsed,
      cr_allergens_declared = (\<Union>(i, ing)\<in>set kept. set (list_or_empty (ing_allergen_codes ing)))\<rparr>"

definition accept_recipe ::
  "plan_settings \<Rightarrow> int \<Rightarrow> (string, ingredient) dict \<Rightarrow> oai_recipe \<Rightarrow> candidate_recipe_dto list \<times> plan_db
     \<Rightarrow> candidate_recipe_dto list \<times> plan_db" where
  "accept_recipe st household_id allowed parsed acc =
     (case acc of (candidates, db) \<Rightarrow>
        (let kept = kept_ingredients allowed (oa_ingredients parsed);
             i = next_id rcp_id (pl_recipes db)
         in if kept = [] then acc
            else (candidates @ [oai_candidate i parsed kept],
                  db\<lparr>pl_recipes := pl_recipes db @
                       [stored_recipe household_id (ps_openai_model st) i parsed kept]\<rparr>)))"

definition persist_accepted ::
  "plan_settings \<Rightarrow> candidate_request \<Rightarrow> oai_recipe list \<Rightarrow> plan_db \<Rightarrow> candidate_recipe_dto list \<times> plan_db" where
  "persist_accepted st rq recipes db =
     fold (accept_recipe st (rq_household rq) (load_allowed_ingredients db (rq_allow_list rq))) recipes ([], db)"

definition seed_fallback ::
  "candidate_request \<Rightarrow> string \<Rightarrow> plan_db \<Rightarrow> generation_exn + candidate_bundle \<times> plan_db" where
  "seed_fallback rq reason db =
     (case build_seed_candidates db (rq_requested_types rq) [] of
        Inl e \<Rightarrow> Inl e
      | Inr cs \<Rightarrow> Inr (\<lparr>cbn_candidates = cs, cbn_warnings = [SeedFallback (reason @ ''; usando recetas semilla.'')]\<rparr>, db))"

definition openai_candidates ::
  "plan_settings \<Rightarrow> (candidate_request \<Rightarrow> nat \<Rightarrow> string + string) \<Rightarrow> (string \<Rightarrow> oai_recipe list option)
     \<Rightarrow> candidate_request \<Rightarrow> plan_db \<Rightarrow> generation_exn + candidate_bundle \<times> plan_db" where
  "openai_candidates st call parse rq db =
     (case invoke_with_retries st (call rq) of
        Inl e \<Rightarrow> seed_fallback rq (''OpenAI no disponible: '' @ e) db
      | Inr raw \<Rightarrow>
          (case parse_recipes parse raw of
             None \<Rightarrow> seed_fallback rq
               (''OpenAI devolvi'' @ [CHR 0xF3] @ '' una respuesta no v'' @ [CHR 0xE1] @ ''lida (JSON)'') db
           | Some recipes \<Rightarrow>
               (case persist_accepted st rq recipes db of (candidates, db) \<Rightarrow>
                  if candidates = []
                  then seed_fallback rq (''OpenAI no devolvi'' @ [CHR 0xF3] @ '' ninguna receta utilizable'') db
                  else Inr (\<lparr>cbn_candidates = candidates, cbn_warnings = []\<rparr>, db))))"

definition get_candidates ::
  "plan_settings \<Rightarrow> (candidate_request \<Rightarrow> nat \<Rightarrow> string + string) \<Rightarrow> (string \<Rightarrow> oai_recipe list option)
     \<Rightarrow> candidate_request \<Rightarrow> plan_db \<Rightarrow> generation_exn + candidate_bundle \<times> plan_db" where
  "get_candidates st call parse rq db =
     (if ps_ai_enabled st then openai_candidates st call parse rq db
      else (case build_seed_candidates db (rq_requested_types rq) (rq_allow_list rq) of
          Inl e \<Rightarrow> Inl e
        | Inr cs \<Rightarrow> Inr (\<lparr>cbn_candidates = cs, cbn_warnings = []\<rparr>, db)))"

section \<open>What a candidate stands for\<close>

text \<open>
  A candidate speaks for a stored recipe: same key, meal types and equipment, the allergen codes
  of its ingredients' rows, and line by line whether those rows have been assessed.
\<close>

definition assessed :: "plan_db \<Rightarrow> int \<Rightarrow> bool" where
  "assessed db i = snd (snd (ingredient_meta db i))"

definition category_of :: "plan_db \<Rightarrow> int \<Rightarrow> string option" where
  "category_of db i = fst (snd (ingredient_meta db i))"

definition candidate_of :: "plan_db \<Rightarrow> candidate_recipe_dto \<Rightarrow> recipe \<Rightarrow> bool" where
  "candidate_of db c r \<longleftrightarrow>
     cr_recipe_id c = int_str (rcp_id r) \<and> cr_title c = rcp_title r \<and>
     cr_meal_types c = set (list_or_empty (rcp_meal_types r)) \<and>
     cr_required_equipment c = set (list_or_empty (rcp_required_equipment r)) \<and>
     cr_allergens_declared c = declared_codes db (rcp_ingredients r) \<and>
     list_all2 (\<lambda>d ri. ri_canonical_name d = rgi_canonical_name ri \<and>
       ri_category d = category_of db (rgi_ingredient ri) \<and>
       ri_allergen_assessed d = assessed db (rgi_ingredient ri)) (cr_ingredients c) (rcp_ingredients r)"

definition proposed :: "plan_db \<Rightarrow> int \<Rightarrow> candidate_recipe_dto \<Rightarrow> bool" where
  "proposed db household_id c \<longleftrightarrow>
     (\<exists>r\<in>set (pl_recipes db). candidate_of db c r \<and>
        ((rcp_public r \<and> rcp_deleted_at r = None) \<or>
         (rcp_origin r = RO_ai_generated \<and> rcp_household r = Some household_id)))"

lemma in_map_filter: "y \<in> set (List.map_filter f xs) \<longleftrightarrow> (\<exists>x\<in>set xs. f x = Some y)"
  by (force simp: List.map_filter_def)

lemma candidate_of_recipe_dto: "candidate_of db (recipe_dto db r) r"
  by (simp add: candidate_of_def recipe_dto_def list.rel_map seed_ingredient_def assessed_def category_of_def
      case_prod_unfold list.rel_refl)

lemma ingredient_meta_row:
  assumes "keys_ok ing_id (pl_ingredients db)" and "ing \<in> set (pl_ingredients db)"
  shows "ingredient_meta db (ing_id ing) =
    (set (list_or_empty (ing_allergen_codes ing)), ing_category_code ing, ing_allergen_codes ing \<noteq> None)"
  using find_row_keys_ok[OF assms] by (simp add: ingredient_meta_def)

lemma ingredient_meta_recipes [simp]: "ingredient_meta (db\<lparr>pl_recipes := rs\<rparr>) = ingredient_meta db"
  by (simp add: fun_eq_iff ingredient_meta_def)

lemma candidate_of_recipes [simp]: "candidate_of (db\<lparr>pl_recipes := rs\<rparr>) = candidate_of db"
  by (simp add: fun_eq_iff candidate_of_def declared_codes_def assessed_def category_of_def)

lemma load_allowed_rows:
  "map_of (load_allowed_ingredients db names) n = Some ing \<Longrightarrow>
     ing \<in> set (pl_ingredients db) \<and> ing_canonical_name ing = n \<and> n \<in> set names"
proof -
  have "map_of (fold (\<lambda>ing d. dset (ing_canonical_name ing) ing d) ings d) n = Some ing \<Longrightarrow>
      map_of d n = Some ing \<or> ing \<in> set ings \<and> ing_canonical_name ing = n" for ings and d :: "(string, ingredient) dict"
  proof (induction ings arbitrary: d)
    case Nil
    then show ?case by simp
  next
    case (Cons a ings)
    from Cons.IH[of "dset (ing_canonical_name a) a d"] Cons.prems show ?case by (auto split: if_splits)
  qed
  from this[of "filter (\<lambda>ing. ing_canonical_name ing \<in> set names) (pl_ingredients db)" "[]"]
  show "map_of (load_allowed_ingredients db names) n = Some ing \<Longrightarrow>
      ing \<in> set (pl_ingredients db) \<and> ing_canonical_name ing = n \<and> n \<in> set names"
    by (auto simp: load_allowed_ingredients_def)
qed

lemma kept_rows:
  "p \<in> set (kept_ingredients (load_allowed_ingredients db names) ings) \<Longrightarrow> snd p \<in> set (pl_ingredients db)"
  by (auto simp: kept_ingredients_def in_map_filter dest: load_allowed_rows)

lemma candidate_of_oai:
  assumes "keys_ok ing_id (pl_ingredients db)" and kept: "\<And>p. p \<in> set kept \<Longrightarrow> snd p \<in> set (pl_ingredients db)"
  shows "candidate_of db (oai_candidate k parsed kept) (stored_recipe household_id model k parsed kept)"
proof -
  have meta: "ingredient_meta db (ing_id (snd p)) = (set (list_or_empty (ing_allergen_codes (snd p))),
      ing_category_code (snd p), ing_allergen_codes (snd p) \<noteq> None)" if "p \<in> set kept" for p
    by (rule ingredient_meta_row[OF assms(1) kept[OF that]])
  have "declared_codes db (map stored_ingredient kept) =
      (\<Union>(i, ing)\<in>set kept. set (list_or_empty (ing_allergen_codes ing)))"
    using meta by (force simp: declared_codes_def stored_ingredient_def case_prod_unfold)
  moreover have "list_all2 (\<lambda>d ri. ri_canonical_name d = rgi_canonical_name ri \<and>
      ri_category d = category_of db (rgi_ingredient ri) \<and> ri_allergen_assessed d = assessed db (rgi_ingredient ri)) (map oai_ingredient_dto kept) (map stored_ingredient kept)"
    using meta by (auto simp: list.rel_map assessed_def category_of_def oai_ingredient_dto_def stored_ingredient_def
        case_prod_unfold intro!: list.rel_refl_strong)
  ultimately show ?thesis
    by (simp add: candidate_of_def oai_candidate_def stored_recipe_def list_or_empty_def)
qed

text \<open>The change a provider may make to the database: new recipes at the end of their table.\<close>

definition adds_recipes :: "plan_db \<Rightarrow> plan_db \<Rightarrow> bool" where
  "adds_recipes db db' \<longleftrightarrow>
     db' = db\<lparr>pl_recipes := pl_recipes db'\<rparr> \<and> (\<exists>new. pl_recipes db' = pl_recipes db @ new)"

lemma adds_recipes_refl [simp]: "adds_recipes db db"
  by (simp add: adds_recipes_def)

lemma adds_recipes_snoc: "adds_recipes db db' \<Longrightarrow> adds_recipes db (db'\<lparr>pl_recipes := pl_recipes db' @ [r]\<rparr>)"
  by (cases db; cases db') (auto simp: adds_recipes_def)

lemma adds_recipes_candidate: "adds_recipes db db' \<Longrightarrow> candidate_of db' = candidate_of db"
  unfolding adds_recipes_def by (metis candidate_of_recipes)

lemma persist_accepted_proposed:
  assumes "keys_ok ing_id (pl_ingredients db)" and "keys_ok rcp_id (pl_recipes db)"
    and "persist_accepted st rq recipes db = (cs, db')"
  shows "adds_recipes db db' \<and> keys_ok rcp_id (pl_recipes db') \<and>
    (\<forall>c\<in>set cs. proposed db' (rq_household rq) c)"
proof -
  let ?allowed = "load_allowed_ingredients db (rq_allow_list rq)"
  let ?ok = "\<lambda>(cs, db'). adds_recipes db db' \<and> keys_ok rcp_id (pl_recipes db') \<and>
    (\<forall>c\<in>set cs. proposed db' (rq_household rq) c)"
  have keep: "?ok acc \<Longrightarrow> ?ok (fold (accept_recipe st (rq_household rq) ?allowed) recipes acc)" for acc
  proof (induction recipes arbitrary: acc)
    case Nil
    then show ?case by simp
  next
    case (Cons parsed recipes)
    obtain cs' db' where acc: "acc = (cs', db')" by (cases acc)
    let ?kept = "kept_ingredients ?allowed (oa_ingredients parsed)"
    let ?i = "next_id rcp_id (pl_recipes db')"
    let ?row = "stored_recipe (rq_household rq) (ps_openai_model st) ?i parsed ?kept"
    from Cons.prems acc have db': "adds_recipes db db'"
      and keys: "keys_ok rcp_id (pl_recipes db')" and cs: "\<forall>c\<in>set cs'. proposed db' (rq_household rq) c" by auto
    have "?ok (accept_recipe st (rq_household rq) ?allowed parsed acc)"
    proof (cases "?kept = []")
      case True
      with Cons.prems acc show ?thesis by (simp add: accept_recipe_def)
    next
      case False
      have cand: "candidate_of db (oai_candidate ?i parsed ?kept) ?row"
        by (rule candidate_of_oai[OF assms(1)]) (rule kept_rows)
      have "rcp_id ?row = ?i" by (simp add: stored_recipe_def)
      then have "keys_ok rcp_id (pl_recipes db' @ [?row])" using keys_ok_snoc[OF keys] next_id_not_in by metis
      moreover have "proposed (db'\<lparr>pl_recipes := pl_recipes db' @ [?row]\<rparr>) (rq_household rq) c"
        if "proposed db' (rq_household rq) c" for c
        using that by (auto simp: proposed_def)
      moreover have "proposed (db'\<lparr>pl_recipes := pl_recipes db' @ [?row]\<rparr>) (rq_household rq) (oai_candidate ?i parsed ?kept)"
        using cand by (auto simp: proposed_def adds_recipes_candidate[OF db'] stored_recipe_def)
      ultimately show ?thesis using False acc cs adds_recipes_snoc[OF db'] by (auto simp: accept_recipe_def Let_def)
    qed
    with Cons.IH show ?case by simp
  qed
  have "?ok (persist_accepted st rq recipes db)"
    unfolding persist_accepted_def by (rule keep) (use assms(2) in simp)
  with assms(3) show ?thesis by simp
qed

lemma seed_candidates_proposed:
  assumes "build_seed_candidates db types names = Inr cs" and "c \<in> set cs"
  shows "proposed db household_id c"
proof -
  from assms obtain r where "r \<in> set (pl_recipes db)" "rcp_public r" "rcp_deleted_at r = None" "c = recipe_dto db r"
    by (auto simp: build_seed_candidates_def public_recipes_def Let_def split: if_splits)
  then show ?thesis using candidate_of_recipe_dto unfolding proposed_def by blast
qed

lemma seed_fallback_proposed:
  assumes "seed_fallback rq reason db = Inr (b, db')" and "c \<in> set (cbn_candidates b)"
  shows "db' = db" and "proposed db (rq_household rq) c"
  using assms by (auto simp: seed_fallback_def split: sum.splits intro: seed_candidates_proposed)

lemma get_candidates_proposed:
  assumes keys: "keys_ok ing_id (pl_ingredients db)" "keys_ok rcp_id (pl_recipes db)"
    and "get_candidates st call parse rq db = Inr (b, db')"
  shows "adds_recipes db db' \<and> keys_ok rcp_id (pl_recipes db') \<and>
    (\<forall>c\<in>set (cbn_candidates b). proposed db' (rq_household rq) c)"
proof -
  have same: ?thesis if "seed_fallback rq reason db1 = Inr (b, db')"
    and "adds_recipes db db1 \<and> keys_ok rcp_id (pl_recipes db1)" for reason db1
    using that seed_fallback_proposed[OF that(1)]
    by (cases "build_seed_candidates db1 (rq_requested_types rq) []") (auto simp: seed_fallback_def intro: seed_candidates_proposed)
  have this_db: "adds_recipes db db \<and> keys_ok rcp_id (pl_recipes db)"
    using keys(2) by simp
  show ?thesis
  proof (cases "ps_ai_enabled st")
    case False
    with assms(3) obtain cs where "build_seed_candidates db (rq_requested_types rq) (rq_allow_list rq) = Inr cs"
      "b = \<lparr>cbn_candidates = cs, cbn_warnings = []\<rparr>" "db' = db"
      by (auto simp: get_candidates_def split: sum.splits)
    with this_db show ?thesis by (auto intro: seed_candidates_proposed)
  next
    case True
    with assms(3) have "openai_candidates st call parse rq db = Inr (b, db')" by (simp add: get_candidates_def)
    then consider (fallback) reason where "seed_fallback rq reason db = Inr (b, db')"
      | (unusable) recipes db1 reason where "persist_accepted st rq recipes db = ([], db1)"
          "seed_fallback rq reason db1 = Inr (b, db')"
      | (accepted) recipes where "persist_accepted st rq recipes db = (cbn_candidates b, db')"
      by (auto simp: openai_candidates_def split: sum.splits option.splits prod.splits if_splits)
    then show ?thesis
    proof cases
      case fallback
      then show ?thesis using same this_db by blast
    next
      case unusable
      then show ?thesis using same persist_accepted_proposed[OF keys unusable(1)] by blast
    next
      case accepted
      then show ?thesis using persist_accepted_proposed[OF keys accepted] by blast
    qed
  qed
qed

end
