(* ===== verification/PlanContext.thy ===== *)
theory PlanContext
  imports Candidates Facade
begin

text \<open>
  From the database to the engine: \<open>services/planning_context.py\<close>, which assembles the
  \<open>PlanInput\<close> of a stored plan. A \<open>SELECT\<close> is a filter of the table in its order; where the code
  gives an \<open>ORDER BY\<close>, the rows are sorted by it, and rows it does not distinguish keep their
  order. Pydantic's refusal of a value is the left value \<open>ValidationFailed\<close>.
\<close>

section \<open>Household\<close>

definition rejected_recipe_ids :: "plan_db \<Rightarrow> int \<Rightarrow> string set" where
  "rejected_recipe_ids db household_id =
     set (map (\<lambda>f. int_str (fb_recipe f))
       (filter (\<lambda>f. fb_household f = household_id \<and> fb_sentiment f \<in> {FbReject, FbNoShow}) (pl_feedback db)))"

text \<open>The suffixes of \<open>_unique_alias\<close>: the loop ends because finitely many aliases are taken.\<close>

definition suffixed :: "string \<Rightarrow> int \<Rightarrow> string" where
  "suffixed base k = base @ ''-'' @ int_str k"

function alias_from :: "string \<Rightarrow> string list \<Rightarrow> int \<Rightarrow> string" where
  "alias_from base seen k =
     (if suffixed base k \<in> set seen then alias_from base seen (k + 1) else suffixed base k)"
  by pat_completeness auto
termination
proof (relation "measure (\<lambda>(base, seen, k). card {j. k \<le> j \<and> suffixed base j \<in> set seen})")
  fix base seen and k :: int
  assume hit: "suffixed base k \<in> set seen"
  have "inj (suffixed base)" by (rule injI) (simp add: suffixed_def)
  then have "finite {j. suffixed base j \<in> set seen}"
    using finite_vimageI[of "set seen" "suffixed base"] by (simp add: vimage_def)
  then have "finite {j. k \<le> j \<and> suffixed base j \<in> set seen}" by (rule rev_finite_subset) auto
  moreover have "{j. k + 1 \<le> j \<and> suffixed base j \<in> set seen} \<subset> {j. k \<le> j \<and> suffixed base j \<in> set seen}"
    by (rule psubsetI, force) (use hit in \<open>auto simp: set_eq_iff intro!: exI[of _ k]\<close>)
  ultimately show "((base, seen, k + 1), (base, seen, k)) \<in>
      measure (\<lambda>(base, seen, k). card {j. k \<le> j \<and> suffixed base j \<in> set seen})"
    by (simp add: psubset_card_mono)
qed simp

declare alias_from.simps [simp del]

definition unique_alias :: "household_member \<Rightarrow> string list \<Rightarrow> string" where
  "unique_alias m seen =
     (let base = text_or (hm_display_name m) (''comensal-'' @ hm_public_hex m)
      in if base \<in> set seen then alias_from base seen 2 else base)"

definition hard_restrictions_of :: "dietary_profile \<Rightarrow> string set" where
  "hard_restrictions_of p =
     (case dp_diet_type p of None \<Rightarrow> {} | Some d \<Rightarrow> if d = [] then {} else {d}) \<union>
     set (map fp_subject_ref (filter (\<lambda>f. fp_sentiment f = PrefAvoid) (dp_food_preferences p)))"

definition soft_preferences_of :: "dietary_profile \<Rightarrow> string list" where
  "soft_preferences_of p =
     map (\<lambda>f. if fp_sentiment f = PrefDislike then ''avoid:'' @ fp_subject_ref f else fp_subject_ref f)
       (filter (\<lambda>f. fp_sentiment f \<noteq> PrefAvoid) (dp_food_preferences p))"

definition strict_codes_of :: "dietary_profile \<Rightarrow> string set" where
  "strict_codes_of p =
     set (map alg_code (filter (\<lambda>a. alg_severity a \<in> {SevAllergy, SevAnaphylaxis}) (dp_allergies p)))"

definition first_profile :: "household_member \<Rightarrow> dietary_profile option" where
  "first_profile m = (case hm_profiles m of [] \<Rightarrow> None | p # _ \<Rightarrow> Some p)"

definition member_of :: "string set \<Rightarrow> string \<Rightarrow> household_member \<Rightarrow> member_dto" where
  "member_of rejected alias m =
     (let profile = first_profile m in
      \<lparr>mb_alias = alias, mb_relative_serving = hm_relative_serving m,
       mb_allergens = (case profile of None \<Rightarrow> {} | Some p \<Rightarrow> set (map alg_code (dp_allergies p))),
       mb_strict_allergen_codes = (case profile of None \<Rightarrow> {} | Some p \<Rightarrow> strict_codes_of p),
       mb_hard_restrictions = (case profile of None \<Rightarrow> {} | Some p \<Rightarrow> hard_restrictions_of p),
       mb_soft_preferences = (case profile of None \<Rightarrow> [] | Some p \<Rightarrow> soft_preferences_of p),
       mb_rejected_recipe_ids = rejected\<rparr>)"

definition eaters :: "plan_db \<Rightarrow> int \<Rightarrow> household_member list" where
  "eaters db household_id = filter (\<lambda>m. hm_household m = household_id \<and> hm_is_eater m) (pl_members db)"

definition add_member ::
  "string set \<Rightarrow> household_member \<Rightarrow> member_dto list \<times> string list \<Rightarrow> member_dto list \<times> string list" where
  "add_member rejected m st =
     (case st of (dtos, seen) \<Rightarrow>
        let alias = unique_alias m seen in (dtos @ [member_of rejected alias m], alias # seen))"

definition build_members :: "plan_db \<Rightarrow> int \<Rightarrow> string set \<Rightarrow> member_dto list" where
  "build_members db household_id rejected =
     fst (fold (add_member rejected)
       (sort_key (\<lambda>m. (hm_joined_at m, hm_id m)) (eaters db household_id)) ([], []))"

definition build_equipment :: "plan_db \<Rightarrow> int \<Rightarrow> string set" where
  "build_equipment db household_id =
     set (map eq_code (filter (\<lambda>e. eq_household e = household_id \<and> eq_available e) (pl_equipment db)))"

definition build_favorites :: "plan_db \<Rightarrow> int \<Rightarrow> string set" where
  "build_favorites db household_id =
     set (map (\<lambda>f. int_str (fav_recipe f)) (filter (\<lambda>f. fav_household f = household_id) (pl_favorites db)))"

definition build_pantry :: "plan_db \<Rightarrow> int \<Rightarrow> pantry_item_dto list" where
  "build_pantry db household_id =
     List.map_filter (\<lambda>i.
       (case pan_ingredient i of
          None \<Rightarrow> None
        | Some ing \<Rightarrow>
            (case find_row ing_id ing (pl_ingredients db) of
               None \<Rightarrow> None
             | Some row \<Rightarrow> Some \<lparr>pi_canonical_name = ing_canonical_name row, pi_quantity = pan_quantity i,
                             pi_unit = pan_unit i, pi_expires_at = map_option date_of (pan_expires_at i)\<rparr>)))
       (filter (\<lambda>i. pan_household i = household_id \<and> pan_deleted_at i = None) (pl_pantry db))"

text \<open>The target of a household: for each macro the sum of the goals set, scaled by the portions.\<close>

fun target_column :: "macro \<Rightarrow> dietary_profile \<Rightarrow> dec option" where
  "target_column Kcal p = dp_energy_target_kcal p"
| "target_column ProteinG p = dp_protein_target_g p"
| "target_column CarbsG p = dp_carb_target_g p"
| "target_column FatG p = dp_fat_target_g p"

definition target_total :: "household_member list \<Rightarrow> macro \<Rightarrow> dec option" where
  "target_total members macro =
     fold (\<lambda>m acc.
       (case first_profile m of
          None \<Rightarrow> acc
        | Some p \<Rightarrow>
            (case target_column macro p of
               None \<Rightarrow> acc
             | Some v \<Rightarrow>
                 Some (dadd (case acc of None \<Rightarrow> 0 | Some t \<Rightarrow> t)
                   (dmul v (if hm_relative_serving m = 0 then 1 else hm_relative_serving m))))))
       members None"

definition build_nutrition_target :: "plan_db \<Rightarrow> int \<Rightarrow> nutrition_target_dto option" where
  "build_nutrition_target db household_id =
     (let total = target_total (eaters db household_id) in
      if list_all (\<lambda>m. total m = None) macros then None
      else Some \<lparr>nt_kcal = total Kcal, nt_protein_g = total ProteinG, nt_carbs_g = total CarbsG,
                 nt_fat_g = total FatG\<rparr>)"


section \<open>Requirements and budget\<close>

fun parse_dates :: "date_text list \<Rightarrow> date list option" where
  "parse_dates [] = Some []"
| "parse_dates (IsoDate d # ds) = map_option (Cons d) (parse_dates ds)"
| "parse_dates (OtherText s # ds) = None"

definition requirement_dto :: "meal_requirement \<Rightarrow> meal_requirement_dto option" where
  "requirement_dto q =
     (if mq_requested_count q < 0 \<or> mq_default_servings q < 1 then None
      else
        let dto = (\<lambda>dates. \<lparr>mr_meal_type = mq_meal_type q, mr_requested_count = mq_requested_count q,
              mr_default_servings = mq_default_servings q, mr_selected_dates = dates,
              mr_auto_distribute = mq_auto_distribute q, mr_preferred_days = mq_preferred_days q,
              mr_maximum_preparation_minutes = zero_means_no_limit (mq_maximum_preparation_minutes q),
              mr_requires_tupper = mq_requires_tupper q, mr_reheating_available = mq_reheating_available q\<rparr>)
        in (case mq_selected_dates q of
              None \<Rightarrow> Some (dto None)
            | Some texts \<Rightarrow> map_option (\<lambda>ds. dto (Some ds)) (parse_dates texts)))"

fun all_some :: "'a option list \<Rightarrow> 'a list option" where
  "all_some [] = Some []"
| "all_some (None # xs) = None"
| "all_some (Some x # xs) = map_option (Cons x) (all_some xs)"

definition plan_requirements :: "plan_db \<Rightarrow> int \<Rightarrow> meal_requirement list" where
  "plan_requirements db plan = filter (\<lambda>q. mq_plan q = plan) (pl_requirements db)"

definition build_requirements :: "plan_db \<Rightarrow> meal_plan \<Rightarrow> generation_exn + meal_requirement_dto list" where
  "build_requirements db mp =
     (case all_some (map requirement_dto (plan_requirements db (mp_id mp))) of
        None \<Rightarrow> Inl ValidationFailed | Some dtos \<Rightarrow> Inr dtos)"

definition priority_of :: "string \<Rightarrow> priority option" where
  "priority_of s =
     map_of [(''price'', PriorityPrice), (''waste'', PriorityWaste), (''nutrition'', PriorityNutrition)]
       (if s = [] then ''waste'' else s)"

definition plan_budget :: "meal_plan \<Rightarrow> generation_exn + budget_dto" where
  "plan_budget mp =
     (case priority_of (mp_budget_priority mp) of
        None \<Rightarrow> Inl ValidationFailed
      | Some p \<Rightarrow> Inr \<lparr>bg_amount = dec_or (mp_budget_amount mp) 0, bg_currency = mp_currency mp, bg_strict = True,
           bg_max_margin_ratio = 0, bg_includes_pantry_staples = False, bg_includes_condiments = False,
           bg_priority = p\<rparr>)"

definition weights_for_priority :: "priority \<Rightarrow> scoring_weights" where
  "weights_for_priority p =
     (if p = PriorityNutrition then default_weights\<lparr>sw_nutrition_deviation := 12\<rparr> else default_weights)"


section \<open>Catalog\<close>

text \<open>The column \<open>store_id\<close> of a price is never null, so the code's second disjunct never applies.\<close>

definition zone_store_ids :: "string \<Rightarrow> plan_db \<Rightarrow> int \<Rightarrow> int list" where
  "zone_store_ids postal_code db retailer_id =
     (let postal = py_strip postal_code in
      if postal = [] then []
      else map sto_id (filter (\<lambda>s. sto_retailer s = retailer_id \<and> sto_postal_code s = Some postal)
             (stores (pl_market db))))"

definition newest_first :: "product_price \<Rightarrow> int \<times> int \<times> int" where
  "newest_first p = (prc_product p, - prc_observed_at p, - prc_id p)"

definition chain_prices :: "string \<Rightarrow> plan_db \<Rightarrow> int \<Rightarrow> product_price list" where
  "chain_prices postal_code db retailer_id =
     (let zone = zone_store_ids postal_code db retailer_id;
          rows = filter (\<lambda>p. prc_retailer p = retailer_id) (product_prices (pl_market db))
      in if zone = [] then rows else filter (\<lambda>p. prc_store p \<in> set zone) rows)"

definition newest_by_product :: "product_price list \<Rightarrow> (int, product_price) dict" where
  "newest_by_product rows =
     fold (\<lambda>p d. dsetdefault (prc_product p) p d) (sort_key newest_first rows) []"

definition latest_prices :: "string \<Rightarrow> plan_db \<Rightarrow> int option \<Rightarrow> (int, product_price) dict" where
  "latest_prices postal_code db retailer_id =
     (case retailer_id of None \<Rightarrow> [] | Some r \<Rightarrow> newest_by_product (chain_prices postal_code db r))"

definition availability_of :: "string option \<Rightarrow> availability" where
  "availability_of s =
     (case s of Some t \<Rightarrow> (if t = ''in_stock'' then InStock else if t = ''out_of_stock'' then OutOfStock
                           else UnknownAvailability)
      | None \<Rightarrow> UnknownAvailability)"

definition package_option :: "int \<Rightarrow> product \<Rightarrow> product_price \<Rightarrow> package_option_dto" where
  "package_option price_max_age_days product price =
     (let observed = date_of (prc_observed_at price);
          expires = (case prc_expires_at price of
              Some t \<Rightarrow> Some (date_of t)
            | None \<Rightarrow> if 0 < price_max_age_days then Some (observed + price_max_age_days) else None)
      in \<lparr>po_product_id = int_str (prd_id product), po_package_quantity = prc_package_quantity price,
          po_package_unit = prc_package_unit price, po_amount = prc_amount price,
          po_unit_price = dec_or (prc_unit_price price) 0,
          po_availability = availability_of (prc_availability price),
          po_source_type = prc_source_type price, po_source_name = prc_source_name price,
          po_observed_at = Some observed, po_expires_at = expires,
          po_confidence_score = prc_confidence price, po_has_price = True\<rparr>)"

text \<open>\<open>ORDER BY ingredient_id, preference_rank\<close>: PostgreSQL puts the rows without a rank last.\<close>

definition mapping_order :: "ingredient_product_mapping \<Rightarrow> int \<times> bool \<times> int" where
  "mapping_order m =
     (ipm_ingredient m, ipm_preference_rank m = None, case ipm_preference_rank m of None \<Rightarrow> 0 | Some r \<Rightarrow> r)"

definition mapped_products :: "plan_db \<Rightarrow> (int \<times> product) list" where
  "mapped_products db =
     List.map_filter (\<lambda>m.
       (case find_row prd_id (ipm_product m) (pl_products db) of
          None \<Rightarrow> None
        | Some p \<Rightarrow> if prd_deleted_at p = None then Some (ipm_ingredient m, p) else None))
       (sort_key mapping_order (filter ipm_active (pl_mappings db)))"

definition products_by_ingredient :: "plan_db \<Rightarrow> (int, product list) dict" where
  "products_by_ingredient db = fold (\<lambda>(i, p) d. dset i (dget d i [] @ [p]) d) (mapped_products db) []"

type_synonym entry_acc = "package_option_dto list \<times> string set \<times> nutrition_dto option"

definition add_package :: "int \<Rightarrow> (int, product_price) dict \<Rightarrow> product \<Rightarrow> entry_acc \<Rightarrow> entry_acc" where
  "add_package price_max_age_days latest product acc =
     (case map_of latest (prd_id product) of
        None \<Rightarrow> acc
      | Some price \<Rightarrow>
          (case acc of (packages, allergens, nutrition) \<Rightarrow>
             (let packages = packages @ [package_option price_max_age_days product price] in
              case prd_nutrition product of
                None \<Rightarrow> (packages, allergens, nutrition)
              | Some n \<Rightarrow>
                  (packages, allergens \<union> set (list_or_empty (pn_allergens n)),
                   if nutrition = None
                   then Some \<lparr>nu_kcal = pn_energy_kcal n, nu_protein_g = pn_protein_g n,
                              nu_carbs_g = pn_carbohydrate_g n, nu_fat_g = pn_fat_g n\<rparr>
                   else nutrition))))"

definition catalog_entry ::
  "int \<Rightarrow> (int, product_price) dict \<Rightarrow> plan_db \<Rightarrow> int \<times> product list \<Rightarrow> catalog_product_dto option" where
  "catalog_entry price_max_age_days latest db entry =
     (case entry of (ingredient_id, products) \<Rightarrow>
        (case find_row ing_id ingredient_id (pl_ingredients db) of
           None \<Rightarrow> None
         | Some ing \<Rightarrow>
             (case fold (add_package price_max_age_days latest) products
                     ([], set (list_or_empty (ing_allergen_codes ing)), None) of
                (packages, allergens, nutrition) \<Rightarrow>
                  if packages = [] then None
                  else Some \<lparr>cp_product_id = int_str (prd_id (hd products)),
                             cp_canonical_name = ing_canonical_name ing,
                             cp_display_name = ing_display_name ing,
                             cp_category = text_or (ing_category_code ing) ''uncategorized'',
                             cp_packages = packages, cp_nutrition = nutrition,
                             cp_allergens = allergens\<rparr>)))"

definition build_catalog :: "plan_settings \<Rightarrow> plan_db \<Rightarrow> int option \<Rightarrow> catalog_product_dto list" where
  "build_catalog st db retailer_id =
     List.map_filter
       (catalog_entry (ps_price_max_age_days st) (latest_prices (ps_postal_code st) db retailer_id) db)
       (products_by_ingredient db)"


section \<open>Conversions\<close>

definition piece_grams :: "(string, dec) dict" where
  "piece_grams =
     [(''ajo'', 5), (''cebolla'', 150), (''tomate'', 120), (''aguacate'', 200), (''platano'', 120),
      (''pimiento'', 180), (''pimiento_rojo'', 180), (''pimiento_verde'', 150), (''pan'', 40),
      (''limon'', 100), (''naranja'', 180), (''manzana'', 180), (''zanahoria'', 70), (''patata'', 180),
      (''calabacin'', 250), (''pepino'', 300), (''berenjena'', 250), (''puerro'', 100),
      (''coliflor'', 600), (''champi'' @ [CHR 0xF1] @ [CHR 0xF3] @ ''n'', 250), (''sardina'', 90),
      (''boquer'' @ [CHR 0xF3] @ ''n'', 90), (''conejo'', 1000), (''guisantes'', 400),
      (''morcilla'', 200), (''pimiento verde'', 150), (''queso manchego'', 250), (''repollo'', 1000),
      (''sepia'', 300), (''trucha'', 250), (''alcachofa'', 120)]"

fun dim_base :: "dimension \<Rightarrow> string option" where
  "dim_base Mass = Some ''g''"
| "dim_base Volume = Some ''ml''"
| "dim_base Count = None"

definition net_content_rows :: "plan_db \<Rightarrow> (string \<times> dec \<times> string) list" where
  "net_content_rows db =
     concat (map (\<lambda>ing. List.map_filter (\<lambda>m.
        (case ipm_variant m of
           None \<Rightarrow> None
         | Some v \<Rightarrow>
             (case find_row var_id v (variants (pl_market db)) of
                None \<Rightarrow> None
              | Some var \<Rightarrow>
                  (case (var_net_quantity var, var_net_unit var) of
                     (Some q, Some u) \<Rightarrow> Some (ing_canonical_name ing, q, u)
                   | _ \<Rightarrow> None))))
        (filter (\<lambda>m. ipm_active m \<and> ipm_ingredient m = ing_id ing) (pl_mappings db))) (pl_ingredients db))"

definition add_bridge ::
  "string \<times> dec \<times> string \<Rightarrow> ingredient_conversion_dto list \<times> string list
     \<Rightarrow> ingredient_conversion_dto list \<times> string list" where
  "add_bridge row st =
     (case (row, st) of ((name, q, u), (conversions, bridged)) \<Rightarrow>
        if name \<in> fst ` set piece_grams \<or> name \<in> set bridged then st
        else (case to_base q u of
            None \<Rightarrow> st
          | Some (amount, kind) \<Rightarrow>
              if amount \<le> 0 then st
              else (case dim_base kind of
                  None \<Rightarrow> st
                | Some unit \<Rightarrow>
                    (conversions @ [\<lparr>ic_canonical_name = name, ic_from_unit = ''unidad'', ic_to_unit = unit,
                                     ic_factor = amount\<rparr>], bridged @ [name]))))"

definition build_conversions :: "plan_db \<Rightarrow> ingredient_conversion_dto list" where
  "build_conversions db =
     (let densities = List.map_filter (\<lambda>ing.
            (case ing_density_g_per_ml ing of
               None \<Rightarrow> None
             | Some d \<Rightarrow> if 0 < d then Some \<lparr>ic_canonical_name = ing_canonical_name ing, ic_from_unit = ''ml'',
                                          ic_to_unit = ''g'', ic_factor = d\<rparr> else None)) (pl_ingredients db);
          pieces = map (\<lambda>(name, grams). \<lparr>ic_canonical_name = name, ic_from_unit = ''unidad'', ic_to_unit = ''g'',
                                          ic_factor = grams\<rparr>) piece_grams
      in fst (fold add_bridge (net_content_rows db) (densities @ pieces, [])))"


section \<open>The input of the engine\<close>

definition requested_types :: "meal_requirement_dto list \<Rightarrow> meal_type set" where
  "requested_types reqs = set (map mr_meal_type (filter (\<lambda>r. 0 < mr_requested_count r) reqs))"

definition candidate_request_of ::
  "meal_plan \<Rightarrow> member_dto list \<Rightarrow> meal_requirement_dto list \<Rightarrow> budget_dto \<Rightarrow> string set
     \<Rightarrow> catalog_product_dto list \<Rightarrow> candidate_request" where
  "candidate_request_of mp members reqs budget equipment catalog =
     \<lparr>rq_household = mp_household mp, rq_requested_types = requested_types reqs,
      rq_allow_list = sort (remdups (map cp_canonical_name catalog)),
      rq_allergens = (\<Union>m\<in>set members. mb_allergens m),
      rq_hard_restrictions = (\<Union>m\<in>set members. mb_hard_restrictions m),
      rq_soft_preferences = concat (map mb_soft_preferences members), rq_equipment = equipment,
      rq_budget_amount = bg_amount budget, rq_currency = bg_currency budget\<rparr>"

definition build_plan_input ::
  "plan_settings \<Rightarrow> (candidate_request \<Rightarrow> nat \<Rightarrow> string + string) \<Rightarrow> (string \<Rightarrow> oai_recipe list option)
     \<Rightarrow> int \<Rightarrow> date \<Rightarrow> meal_plan \<Rightarrow> plan_db \<Rightarrow> generation_exn + plan_input \<times> message list \<times> plan_db" where
  "build_plan_input st call parse seed as_of mp db =
     (let household_id = mp_household mp;
          members = build_members db household_id (rejected_recipe_ids db household_id)
      in case build_requirements db mp of
           Inl e \<Rightarrow> Inl e
         | Inr reqs \<Rightarrow>
             (case plan_budget mp of
                Inl e \<Rightarrow> Inl e
              | Inr budget \<Rightarrow>
                  (let equipment = build_equipment db household_id;
                       catalog = build_catalog st db (mp_retailer mp)
                   in case get_candidates st call parse
                             (candidate_request_of mp members reqs budget equipment catalog) db of
                        Inl e \<Rightarrow> Inl e
                      | Inr (bundle, db) \<Rightarrow>
                          Inr (\<lparr>in_members = members, in_meal_requirements = reqs, in_budget = budget,
                                in_date_range = (mp_start_date mp, mp_end_date mp),
                                in_available_equipment = equipment, in_catalog = catalog,
                                in_candidates = cbn_candidates bundle,
                                in_pantry = build_pantry db household_id,
                                in_favorites = build_favorites db household_id,
                                in_conversions = build_conversions db,
                                in_weights = weights_for_priority (bg_priority budget),
                                in_nutrition_target = build_nutrition_target db household_id,
                                in_seed = seed, in_as_of = Some as_of\<rparr>, cbn_warnings bundle, db))))"

section \<open>Lemmas\<close>

subsection \<open>Members\<close>

lemma alias_from_fresh: "alias_from base seen k \<notin> set seen"
proof (induction base seen k rule: alias_from.induct)
  case (1 base seen k)
  then show ?case by (cases "suffixed base k \<in> set seen") (simp_all add: alias_from.simps[of base seen k])
qed

lemma unique_alias_fresh: "unique_alias m seen \<notin> set seen"
  by (simp add: unique_alias_def Let_def alias_from_fresh)

lemma add_member_step:
  "add_member rejected m (dtos, seen) =
     (dtos @ [member_of rejected (unique_alias m seen) m], unique_alias m seen # seen)"
  by (simp add: add_member_def Let_def)

text \<open>Each eater becomes one member, in the order of joining, under a name of its own.\<close>

lemma build_members_rows:
  obtains aliases where "distinct aliases" and
    "build_members db hh rejected = map2 (member_of rejected) aliases
       (sort_key (\<lambda>m. (hm_joined_at m, hm_id m)) (eaters db hh))"
    "length aliases = length (eaters db hh)"
proof -
  have "\<exists>as. fold (add_member rejected) ms (dtos, seen) = (dtos @ map2 (member_of rejected) as ms, rev as @ seen) \<and>
      length as = length ms \<and> distinct as \<and> set as \<inter> set seen = {}" for ms dtos seen
  proof (induction ms arbitrary: dtos seen)
    case Nil
    then show ?case by simp
  next
    case (Cons m ms)
    let ?a = "unique_alias m seen"
    obtain as where as: "fold (add_member rejected) ms (dtos @ [member_of rejected ?a m], ?a # seen) =
        ((dtos @ [member_of rejected ?a m]) @ map2 (member_of rejected) as ms, rev as @ ?a # seen)"
      "length as = length ms" "distinct as" "set as \<inter> set (?a # seen) = {}"
      using Cons.IH by metis
    then show ?case using unique_alias_fresh[of m seen]
      by (intro exI[of _ "?a # as"]) (auto simp: add_member_step)
  qed
  from this[of "sort_key (\<lambda>m. (hm_joined_at m, hm_id m)) (eaters db hh)" "[]" "[]"] that show thesis
    by (auto simp: build_members_def)
qed

lemma member_of_fields [simp]:
  "mb_alias (member_of rejected a m) = a"
  "mb_rejected_recipe_ids (member_of rejected a m) = rejected"
  by (simp_all add: member_of_def Let_def)

lemma build_members_eater:
  assumes "m \<in> set (eaters db hh)"
  obtains a where "member_of rejected a m \<in> set (build_members db hh rejected)"
proof -
  obtain aliases where b: "build_members db hh rejected = map2 (member_of rejected) aliases
      (sort_key (\<lambda>m. (hm_joined_at m, hm_id m)) (eaters db hh))" "length aliases = length (eaters db hh)"
    by (rule build_members_rows)
  let ?ms = "sort_key (\<lambda>m. (hm_joined_at m, hm_id m)) (eaters db hh)"
  from assms have "m \<in> set ?ms" by simp
  then obtain i where "i < length ?ms" "?ms ! i = m" unfolding in_set_conv_nth by blast
  with b have "member_of rejected (aliases ! i) m \<in> set (build_members db hh rejected)"
    by (auto simp: set_zip intro!: image_eqI[of _ _ "(aliases ! i, m)"] exI[of _ i])
  then show thesis by (rule that)
qed


subsection \<open>Prices\<close>

lemma sort_key_find_min:
  assumes "find P (sort_key f xs) = Some x"
  shows "x \<in> set xs" "P x" "\<And>y. y \<in> set xs \<Longrightarrow> P y \<Longrightarrow> f x \<le> f y"
proof -
  from assms obtain i where i: "i < length xs" "P (sort_key f xs ! i)" "x = sort_key f xs ! i"
    "\<And>j. j < i \<Longrightarrow> \<not> P (sort_key f xs ! j)"
    by (auto simp: find_Some_iff)
  show "x \<in> set xs" using i(1,3) by (metis length_sort nth_mem set_sort)
  show "P x" using i by simp
  fix y assume "y \<in> set xs" "P y"
  then obtain j where j: "j < length xs" "sort_key f xs ! j = y" by (metis in_set_conv_nth length_sort set_sort)
  with \<open>P y\<close> i(4) have "i \<le> j" by (metis not_le)
  then have "map f (sort_key f xs) ! i \<le> map f (sort_key f xs) ! j"
    using j(1) by (intro sorted_nth_mono) simp_all
  with i j show "f x \<le> f y" by simp
qed

lemma newest_by_product_lookup:
  "map_of (newest_by_product rows) p = find (\<lambda>r. prc_product r = p) (sort_key newest_first rows)"
  using pd.look_fold_default_None[of "[]" p prc_product "\<lambda>r. r" "sort_key newest_first rows"]
  by (simp add: newest_by_product_def option.map_ident)

lemma newest_by_product_Some:
  assumes "map_of (newest_by_product rows) p = Some r"
  shows "r \<in> set rows" "prc_product r = p"
    "\<And>q. q \<in> set rows \<Longrightarrow> prc_product q = p \<Longrightarrow>
       prc_observed_at q < prc_observed_at r \<or> (prc_observed_at q = prc_observed_at r \<and> prc_id q \<le> prc_id r)"
proof -
  note m = sort_key_find_min[OF assms[unfolded newest_by_product_lookup]]
  from m(1) show "r \<in> set rows" .
  from m(2) show "prc_product r = p" .
  fix q assume "q \<in> set rows" "prc_product q = p"
  from m(3)[OF this] this m(2) show
    "prc_observed_at q < prc_observed_at r \<or> (prc_observed_at q = prc_observed_at r \<and> prc_id q \<le> prc_id r)"
    by (auto simp: newest_first_def less_eq_prod_def)
qed

lemma chain_prices_rows:
  "p \<in> set (chain_prices postal db r) \<longleftrightarrow> p \<in> set (product_prices (pl_market db)) \<and> prc_retailer p = r \<and>
     (zone_store_ids postal db r = [] \<or> prc_store p \<in> set (zone_store_ids postal db r))"
  by (auto simp: chain_prices_def Let_def)

lemma mapped_products_rows:
  "(i, p) \<in> set (mapped_products db) \<longleftrightarrow>
     (\<exists>m\<in>set (pl_mappings db). ipm_active m \<and> ipm_ingredient m = i \<and>
        find_row prd_id (ipm_product m) (pl_products db) = Some p \<and> prd_deleted_at p = None)"
proof -
  have "(case find_row prd_id (ipm_product m) (pl_products db) of None \<Rightarrow> None
      | Some q \<Rightarrow> if prd_deleted_at q = None then Some (ipm_ingredient m, q) else None) = Some (i, p) \<longleftrightarrow>
      ipm_ingredient m = i \<and> find_row prd_id (ipm_product m) (pl_products db) = Some p \<and> prd_deleted_at p = None" for m
    by (auto split: option.splits)
  then show ?thesis by (auto simp: mapped_products_def in_map_filter)
qed

lemma products_by_ingredient_rows:
  assumes "(i, ps) \<in> set (products_by_ingredient db)"
  shows "ps \<noteq> []" and "p \<in> set ps \<Longrightarrow> (i, p) \<in> set (mapped_products db)"
proof -
  let ?step = "\<lambda>(i, p) d. dset i (dget d i [] @ [p]) d"
  let ?ok = "\<lambda>rows d. \<forall>(i, ps) \<in> set d. ps \<noteq> [] \<and> (\<forall>p\<in>set ps. (i, p) \<in> rows)"
  have sub: "set (dset i v d) \<subseteq> insert (i, v) (set d)" for i and v :: "product list" and d
    unfolding dset_def by (induction d) auto
  have gen: "?ok (rows \<union> set xs) (fold ?step xs d)" if "?ok rows d"
    for xs :: "(int \<times> product) list" and rows d
    using that
  proof (induction xs arbitrary: rows d)
    case Nil
    then show ?case by simp
  next
    case (Cons x xs)
    obtain i p where x: "x = (i, p)" by (cases x)
    have "q \<in> set (dget d i []) \<Longrightarrow> (i, q) \<in> rows" for q
      using Cons.prems map_of_SomeD[of d i] by (cases "map_of d i") (auto simp: dget_def)
    then have "?ok (insert (i, p) rows) (?step x d)"
      using Cons.prems sub[of i "dget d i [] @ [p]" d] x by fastforce
    from Cons.IH[OF this] show ?case using x by simp
  qed
  have "?ok ({} \<union> set (mapped_products db)) (fold ?step (mapped_products db) [])" by (rule gen) simp
  with assms have "\<forall>(i, ps) \<in> set (products_by_ingredient db). ps \<noteq> [] \<and> (\<forall>p\<in>set ps. (i, p) \<in> set (mapped_products db))"
    by (simp add: products_by_ingredient_def)
  with assms show "ps \<noteq> []" and "p \<in> set ps \<Longrightarrow> (i, p) \<in> set (mapped_products db)" by auto
qed

lemma fst_add_package:
  "fst (add_package age latest p acc) = fst acc @
     (case map_of latest (prd_id p) of None \<Rightarrow> [] | Some price \<Rightarrow> [package_option age p price])"
  by (cases acc) (simp add: add_package_def Let_def split: option.split)

lemma add_package_packages:
  "fst (fold (add_package age latest) ps acc) = fst acc @
     List.map_filter (\<lambda>p. map_option (package_option age p) (map_of latest (prd_id p))) ps"
proof (induction ps arbitrary: acc)
  case Nil
  then show ?case by simp
next
  case (Cons p ps)
  show ?case by (cases "map_of latest (prd_id p)") (simp_all add: Cons fst_add_package map_filter_simps)
qed

lemma catalog_entry_Some:
  assumes "catalog_entry age latest db (i, ps) = Some c"
  obtains ing where "find_row ing_id i (pl_ingredients db) = Some ing"
    "cp_canonical_name c = ing_canonical_name ing"
    "cp_packages c = List.map_filter (\<lambda>p. map_option (package_option age p) (map_of latest (prd_id p))) ps"
    "cp_packages c \<noteq> []"
proof -
  from assms obtain ing where ing: "find_row ing_id i (pl_ingredients db) = Some ing"
    by (auto simp: catalog_entry_def split: option.splits)
  obtain packages allergens nutrition where acc: "fold (add_package age latest) ps
      ([], set (list_or_empty (ing_allergen_codes ing)), None) = (packages, allergens, nutrition)"
    by (metis prod_cases3)
  have "packages = List.map_filter (\<lambda>p. map_option (package_option age p) (map_of latest (prd_id p))) ps"
    using add_package_packages[of age latest ps "([], set (list_or_empty (ing_allergen_codes ing)), None)"] acc by simp
  with assms ing acc show thesis
    by (intro that[OF ing]) (auto simp: catalog_entry_def split: if_splits)
qed

text \<open>A package of the catalog comes from one price row of one product that is mapped to its ingredient.\<close>

lemma catalog_package:
  assumes "c \<in> set (build_catalog st db (Some r))" and "o1 \<in> set (cp_packages c)"
  obtains p price where "o1 = package_option (ps_price_max_age_days st) p price"
    "map_of (newest_by_product (chain_prices (ps_postal_code st) db r)) (prd_id p) = Some price"
    "\<exists>i ing. (i, p) \<in> set (mapped_products db) \<and> find_row ing_id i (pl_ingredients db) = Some ing \<and>
       cp_canonical_name c = ing_canonical_name ing"
proof -
  let ?latest = "newest_by_product (chain_prices (ps_postal_code st) db r)"
  from assms(1) obtain i ps where e: "(i, ps) \<in> set (products_by_ingredient db)"
    "catalog_entry (ps_price_max_age_days st) ?latest db (i, ps) = Some c"
    by (auto simp: build_catalog_def latest_prices_def in_map_filter)
  from e(2) obtain ing where ing: "find_row ing_id i (pl_ingredients db) = Some ing"
    "cp_canonical_name c = ing_canonical_name ing"
    and ps: "cp_packages c = List.map_filter (\<lambda>p. map_option (package_option (ps_price_max_age_days st) p)
       (map_of ?latest (prd_id p))) ps"
    by (rule catalog_entry_Some)
  from assms(2) ps obtain p price where p: "p \<in> set ps" "map_of ?latest (prd_id p) = Some price"
    "o1 = package_option (ps_price_max_age_days st) p price"
    by (auto simp: in_map_filter)
  with products_by_ingredient_rows(2)[OF e(1) p(1)] ing show thesis by (intro that) auto
qed

end
