(* ===== verification/Preflight.thy ===== *)
theory Preflight
  imports PlanContext
begin

text \<open>
  \<open>services/planner_preflight.py\<close>: the counts taken before the solver runs, and the typed cause
  they give when a plan cannot be made. The Spanish reason of a report depends on its code alone
  and is left out.
\<close>

record preflight_counts =
  pf_recipes_active :: int
  pf_productive_products :: int
  pf_approved_mappings :: int
  pf_productive_prices :: int
  pf_costable_recipes :: int
  pf_requested_meal_types :: int

text \<open>The actions of \<open>_REASONS\<close>; the codes of the engine have no entry there.\<close>

fun preflight_actions :: "report_code \<Rightarrow> action_code list" where
  "preflight_actions No_active_recipes = [Add_recipes]"
| "preflight_actions No_compatible_recipes = [Add_recipes, Relax_soft_preferences]"
| "preflight_actions No_retailer_selected = [Change_store]"
| "preflight_actions Retailer_without_catalog = [Change_store, Configure_provider]"
| "preflight_actions No_mapped_products = [Review_mappings, Configure_provider]"
| "preflight_actions No_product_prices = [Configure_provider]"
| "preflight_actions No_costable_recipes = [Review_mappings, Add_recipes]"
| "preflight_actions Insufficient_recipe_variety = [Add_recipes, Reduce_meals]"
| "preflight_actions _ = []"

definition counts_dict :: "preflight_counts \<Rightarrow> (string, int) dict" where
  "counts_dict c =
     [(''recipes_active'', pf_recipes_active c), (''productive_products'', pf_productive_products c),
      (''approved_mappings'', pf_approved_mappings c), (''productive_prices'', pf_productive_prices c),
      (''costable_recipes'', pf_costable_recipes c), (''requested_meal_types'', pf_requested_meal_types c)]"

definition preflight_fail :: "report_code \<Rightarrow> preflight_counts \<Rightarrow> infeasibility_report" where
  "preflight_fail code c =
     \<lparr>ip_code = code, ip_candidate_counts = counts_dict c, ip_suggested_actions = preflight_actions code,
      ip_minimum_budget = None, ip_engine = None\<rparr>"

text \<open>\<open>None\<close> is the outcome \<open>ok\<close>: the solver may run.\<close>

definition evaluate :: "preflight_counts \<Rightarrow> bool \<Rightarrow> infeasibility_report option" where
  "evaluate c retailer_selected =
     (if pf_recipes_active c = 0 then Some (preflight_fail No_active_recipes c)
      else if \<not> retailer_selected then Some (preflight_fail No_retailer_selected c)
      else if pf_productive_products c = 0 then Some (preflight_fail Retailer_without_catalog c)
      else if pf_approved_mappings c = 0 then Some (preflight_fail No_mapped_products c)
      else if pf_productive_prices c = 0 then Some (preflight_fail No_product_prices c)
      else if pf_costable_recipes c = 0 then Some (preflight_fail No_costable_recipes c)
      else if pf_costable_recipes c < max 1 (pf_requested_meal_types c)
      then Some (preflight_fail Insufficient_recipe_variety c)
      else None)"

definition priced_product_ids :: "plan_db \<Rightarrow> int \<Rightarrow> int set" where
  "priced_product_ids db retailer_id =
     set (map prc_product (filter (\<lambda>p. prc_retailer p = retailer_id) (product_prices (pl_market db))))"

definition mapped_ingredient_ids :: "plan_db \<Rightarrow> int set \<Rightarrow> int set" where
  "mapped_ingredient_ids db priced =
     set (map ipm_ingredient (filter (\<lambda>m. ipm_active m \<and> ipm_product m \<in> priced) (pl_mappings db)))"

definition costable :: "int set \<Rightarrow> recipe \<Rightarrow> bool" where
  "costable mapped r =
     (let mandatory = map rgi_ingredient (filter (\<lambda>ri. \<not> rgi_optional ri) (rcp_ingredients r)) in
      mandatory \<noteq> [] \<and> list_all (\<lambda>i. i \<in> mapped) mandatory)"

definition count_costable_recipes :: "plan_db \<Rightarrow> int \<Rightarrow> int" where
  "count_costable_recipes db retailer_id =
     (let priced = priced_product_ids db retailer_id; mapped = mapped_ingredient_ids db priced in
      if priced = {} \<or> mapped = {} then 0
      else int (length (filter (costable mapped) (filter rcp_public (pl_recipes db)))))"

definition requested_meal_type_count :: "plan_db \<Rightarrow> meal_plan \<Rightarrow> int" where
  "requested_meal_type_count db mp =
     int (length (filter (\<lambda>q. mq_plan q = mp_id mp \<and> 0 < mq_requested_count q) (pl_requirements db)))"

definition gather_counts :: "plan_db \<Rightarrow> meal_plan \<Rightarrow> preflight_counts" where
  "gather_counts db mp =
     (let active = int (length (filter rcp_public (pl_recipes db)));
          mappings = int (length (filter ipm_active (pl_mappings db)));
          requested = requested_meal_type_count db mp
      in case mp_retailer mp of
           None \<Rightarrow> \<lparr>pf_recipes_active = active, pf_productive_products = 0, pf_approved_mappings = mappings,
                    pf_productive_prices = 0, pf_costable_recipes = 0, pf_requested_meal_types = requested\<rparr>
         | Some r \<Rightarrow>
             (let products = int (length (filter (\<lambda>p. prd_retailer p = Some r \<and> prd_deleted_at p = None) (pl_products db)));
                  prices = int (length (filter (\<lambda>p. prc_retailer p = r) (product_prices (pl_market db))))
              in \<lparr>pf_recipes_active = active, pf_productive_products = products, pf_approved_mappings = mappings,
                  pf_productive_prices = prices,
                  pf_costable_recipes =
                    (if active \<noteq> 0 \<and> mappings \<noteq> 0 \<and> prices \<noteq> 0 then count_costable_recipes db r else 0),
                  pf_requested_meal_types = requested\<rparr>))"

definition run_preflight :: "plan_db \<Rightarrow> meal_plan \<Rightarrow> infeasibility_report option" where
  "run_preflight db mp = evaluate (gather_counts db mp) (mp_retailer mp \<noteq> None)"

end
