(* ===== verification/PlanService.thy ===== *)
theory PlanService
  imports Preflight
begin

text \<open>
  \<open>services/plan_service.py\<close>: creating a plan and queueing its generation, and storing what the
  engine answers.

  \<^item> A public identifier is the key of the row. An HTTP error is a left value.
  \<^item> The seed is an argument, as is the clock: one reading serves all the timestamps of a call.
\<close>

section \<open>Access\<close>

datatype http_error = NotFound | Forbidden | Unprocessable

definition require_member :: "plan_db \<Rightarrow> int \<Rightarrow> int \<Rightarrow> bool \<Rightarrow> http_error + household_member" where
  "require_member db household_id user_id require_edit =
     (case find (\<lambda>m. hm_household m = household_id \<and> hm_user m = Some user_id) (pl_members db) of
        None \<Rightarrow> Inl NotFound
      | Some m \<Rightarrow> if require_edit \<and> hm_role m \<notin> {RoleOwner, RoleEditor} then Inl Forbidden else Inr m)"

definition resolve_plan :: "plan_db \<Rightarrow> int \<Rightarrow> int \<Rightarrow> bool \<Rightarrow> http_error + meal_plan" where
  "resolve_plan db user_id meal_plan_id require_edit =
     (case find_row mp_id meal_plan_id (pl_plans db) of
        None \<Rightarrow> Inl NotFound
      | Some mp \<Rightarrow>
          if mp_deleted_at mp \<noteq> None then Inl NotFound
          else (case require_member db (mp_household mp) user_id require_edit of Inl e \<Rightarrow> Inl e | Inr _ \<Rightarrow> Inr mp))"

definition resolve_run :: "plan_db \<Rightarrow> int \<Rightarrow> int \<Rightarrow> http_error + optimization_run" where
  "resolve_run db user_id run_key =
     (case find_row orn_id run_key (pl_runs db) of
        None \<Rightarrow> Inl NotFound
      | Some run \<Rightarrow>
          (case find_row mp_id (orn_plan run) (pl_plans db) of
             None \<Rightarrow> Inl NotFound
           | Some mp \<Rightarrow>
               (case require_member db (mp_household mp) user_id False of Inl e \<Rightarrow> Inl e | Inr _ \<Rightarrow> Inr run)))"


section \<open>The chain of a plan\<close>

definition first_active_store :: "(store \<Rightarrow> bool) \<Rightarrow> plan_db \<Rightarrow> store option" where
  "first_active_store P db = argmin sto_id (filter (\<lambda>s. sto_active s \<and> P s) (stores (pl_market db)))"

definition resolve_plan_store :: "plan_db \<Rightarrow> household \<Rightarrow> int option \<Rightarrow> http_error + store option" where
  "resolve_plan_store db hh store_key =
     (case store_key of
        Some k \<Rightarrow>
          (case find_row sto_id k (stores (pl_market db)) of
             None \<Rightarrow> Inl NotFound
           | Some s \<Rightarrow> if sto_active s then Inr (Some s) else Inl Unprocessable)
      | None \<Rightarrow>
          (case Option.bind (hh_default_store hh) (\<lambda>k. find_row sto_id k (stores (pl_market db))) of
             Some s \<Rightarrow> if sto_active s then Inr (Some s) else Inr (first_active_store (\<lambda>_. True) db)
           | None \<Rightarrow> Inr (first_active_store (\<lambda>_. True) db)))"

definition representative_store :: "plan_db \<Rightarrow> retailer \<Rightarrow> household \<Rightarrow> store option" where
  "representative_store db r hh =
     (let first = first_active_store (\<lambda>s. sto_retailer s = ret_id r) db in
      case Option.bind (hh_default_store hh) (\<lambda>k. find_row sto_id k (stores (pl_market db))) of
        Some s \<Rightarrow> if sto_active s \<and> sto_retailer s = ret_id r then Some s else first
      | None \<Rightarrow> first)"

definition store_chain :: "plan_db \<Rightarrow> store option \<Rightarrow> retailer option" where
  "store_chain db s = Option.bind s (\<lambda>s. find_row ret_id (sto_retailer s) (retailers (pl_market db)))"

definition resolve_plan_retailer ::
  "plan_db \<Rightarrow> household \<Rightarrow> int option \<Rightarrow> int option \<Rightarrow> http_error + retailer option \<times> store option" where
  "resolve_plan_retailer db hh retailer_key store_key =
     (let by_store = (\<lambda>k. case resolve_plan_store db hh k of
            Inl e \<Rightarrow> Inl e | Inr s \<Rightarrow> Inr (store_chain db s, s))
      in case retailer_key of
        Some k \<Rightarrow>
          (case find_row ret_id k (retailers (pl_market db)) of
             None \<Rightarrow> Inl NotFound
           | Some r \<Rightarrow> if ret_active r then Inr (Some r, representative_store db r hh) else Inl Unprocessable)
      | None \<Rightarrow>
          (if store_key \<noteq> None then by_store store_key
           else case Option.bind (hh_default_retailer hh) (\<lambda>k. find_row ret_id k (retailers (pl_market db))) of
               Some r \<Rightarrow> if ret_active r then Inr (Some r, representative_store db r hh) else by_store None
             | None \<Rightarrow> by_store None))"


section \<open>Creating a plan\<close>

text \<open>The dictionary of a requirement that the router passes: the row without key and plan.\<close>

definition enqueue_run ::
  "plan_settings \<Rightarrow> time \<Rightarrow> meal_plan \<Rightarrow> string \<Rightarrow> int \<Rightarrow> (string, string list) dict option \<Rightarrow> plan_db
     \<Rightarrow> optimization_run \<times> generation_job \<times> plan_db" where
  "enqueue_run st now mp job_kind seed payload db =
     (let run = \<lparr>orn_id = next_id orn_id (pl_runs db), orn_plan = mp_id mp, orn_status = OS_queued,
                 orn_seed = seed, orn_budget_amount = mp_budget_amount mp, orn_result_summary = None,
                 orn_infeasibility_report = None, orn_started_at = None, orn_finished_at = None\<rparr>;
          job = \<lparr>gj_id = next_id gj_id (pl_jobs db), gj_run = Some (orn_id run), gj_plan = Some (mp_id mp),
                 gj_type = job_kind, gj_status = OS_queued, gj_payload = payload, gj_priority = 0,
                 gj_attempts = 0, gj_max_attempts = ps_worker_job_max_attempts st, gj_run_after = Some now,
                 gj_locked_at = None, gj_locked_by = None, gj_heartbeat_at = None, gj_last_error = None\<rparr>
      in (run, job, db\<lparr>pl_runs := pl_runs db @ [run], pl_jobs := pl_jobs db @ [job]\<rparr>))"

definition add_requirement :: "int \<Rightarrow> meal_requirement \<Rightarrow> plan_db \<Rightarrow> plan_db" where
  "add_requirement plan q db =
     db\<lparr>pl_requirements := pl_requirements db @
          [q\<lparr>mq_id := next_id mq_id (pl_requirements db), mq_plan := plan\<rparr>]\<rparr>"

record generation_request =
  gr_start_date :: date
  gr_end_date :: date
  gr_budget_amount :: dec
  gr_currency :: string
  gr_requirements :: "meal_requirement list"
  gr_retailer :: "retailer option"
  gr_store :: "store option"
  gr_budget_priority :: string

definition create_generation ::
  "plan_settings \<Rightarrow> time \<Rightarrow> int \<Rightarrow> household \<Rightarrow> generation_request \<Rightarrow> plan_db
     \<Rightarrow> http_error + meal_plan \<times> optimization_run \<times> generation_job \<times> plan_db" where
  "create_generation st now seed hh rq db =
     (case (if gr_retailer rq = None \<and> gr_store rq = None then resolve_plan_retailer db hh None None
            else Inr (gr_retailer rq, gr_store rq)) of
        Inl e \<Rightarrow> Inl e
      | Inr (retailer, store) \<Rightarrow>
          (let mp = \<lparr>mp_id = next_id mp_id (pl_plans db), mp_household = hh_id hh,
                     mp_retailer = (case retailer of Some r \<Rightarrow> Some (ret_id r)
                        | None \<Rightarrow> (case store of Some s \<Rightarrow> Some (sto_retailer s) | None \<Rightarrow> hh_default_retailer hh)),
                     mp_store = (case store of Some s \<Rightarrow> Some (sto_id s) | None \<Rightarrow> hh_default_store hh),
                     mp_start_date = gr_start_date rq, mp_end_date = gr_end_date rq,
                     mp_budget_amount = Some (gr_budget_amount rq),
                     mp_budget_priority = gr_budget_priority rq, mp_currency = gr_currency rq,
                     mp_status = MP_generating, mp_deleted_at = None\<rparr>;
               db = db\<lparr>pl_plans := pl_plans db @ [mp]\<rparr>;
               db = fold (add_requirement (mp_id mp)) (gr_requirements rq) db;
               (run, job, db) = enqueue_run st now mp ''generate'' seed None db
           in Inr (mp, run, job, db)))"

fun shift_date_text :: "int \<Rightarrow> date_text \<Rightarrow> date_text" where
  "shift_date_text delta (IsoDate d) = IsoDate (d + delta)"
| "shift_date_text delta (OtherText s) = OtherText s"

definition shift_iso_dates :: "int \<Rightarrow> date_text list option \<Rightarrow> date_text list option" where
  "shift_iso_dates delta dates = map_option (map (shift_date_text delta)) dates"

definition duplicate_request :: "date \<Rightarrow> meal_plan \<Rightarrow> plan_db \<Rightarrow> generation_request" where
  "duplicate_request today source db =
     (let duration = mp_end_date source - mp_start_date source;
          new_start = max (mp_end_date source) today + 1;
          delta = new_start - mp_start_date source
      in \<lparr>gr_start_date = new_start, gr_end_date = new_start + duration,
          gr_budget_amount = dec_or (mp_budget_amount source) 0, gr_currency = mp_currency source,
          gr_requirements = map (\<lambda>q. q\<lparr>mq_selected_dates := shift_iso_dates delta (mq_selected_dates q)\<rparr>)
            (plan_requirements db (mp_id source)),
          gr_retailer = Option.bind (mp_retailer source)
            (\<lambda>k. if k = 0 then None else find_row ret_id k (retailers (pl_market db))),
          gr_store = Option.bind (mp_store source)
            (\<lambda>k. if k = 0 then None else find_row sto_id k (stores (pl_market db))),
          gr_budget_priority = (if mp_budget_priority source = [] then ''waste'' else mp_budget_priority source)\<rparr>)"

definition duplicate_generation ::
  "plan_settings \<Rightarrow> time \<Rightarrow> date \<Rightarrow> int \<Rightarrow> household \<Rightarrow> meal_plan \<Rightarrow> plan_db
     \<Rightarrow> http_error + meal_plan \<times> optimization_run \<times> generation_job \<times> plan_db" where
  "duplicate_generation st now today seed hh source db =
     create_generation st now seed hh (duplicate_request today source db) db"

definition set_plan_status :: "meal_plan_status \<Rightarrow> int \<Rightarrow> plan_db \<Rightarrow> plan_db" where
  "set_plan_status s plan db =
     db\<lparr>pl_plans := update_row mp_id plan (\<lambda>mp. mp\<lparr>mp_status := s\<rparr>) (pl_plans db)\<rparr>"

definition enqueue_regeneration ::
  "plan_settings \<Rightarrow> time \<Rightarrow> int \<Rightarrow> meal_plan \<Rightarrow> string \<Rightarrow> (string, string list) dict option \<Rightarrow> plan_db
     \<Rightarrow> optimization_run \<times> generation_job \<times> plan_db" where
  "enqueue_regeneration st now seed mp job_kind payload db =
     enqueue_run st now mp job_kind seed payload (set_plan_status MP_generating (mp_id mp) db)"

definition regenerate_meal_payload :: "plan_db \<Rightarrow> meal_plan \<Rightarrow> planned_meal_row \<Rightarrow> (string, string list) dict" where
  "regenerate_meal_payload db mp pm =
     [(''favorite_recipe_ids'', map (\<lambda>m. int_str (pml_recipe m))
         (filter (\<lambda>m. pml_plan m = mp_id mp \<and> pml_id m \<noteq> pml_id pm) (pl_meals db))),
      (''rejected_recipe_ids'', [int_str (pml_recipe pm)])]"


section \<open>Storing a result\<close>

definition plan_lists :: "int \<Rightarrow> plan_db \<Rightarrow> int list" where
  "plan_lists plan db = map gry_id (filter (\<lambda>g. gry_plan g = plan) (pl_grocery_lists db))"

definition clear_previous :: "int \<Rightarrow> plan_db \<Rightarrow> plan_db" where
  "clear_previous plan db =
     (let lists = set (plan_lists plan db) in
      db\<lparr>pl_items := filter (\<lambda>i. gli_list i \<notin> lists) (pl_items db),
         pl_grocery_lists := filter (\<lambda>g. gry_id g \<notin> lists) (pl_grocery_lists db),
         pl_meals := filter (\<lambda>m. pml_plan m \<noteq> plan) (pl_meals db)\<rparr>)"

definition requirement_by_type :: "plan_db \<Rightarrow> int \<Rightarrow> (meal_type, int) dict" where
  "requirement_by_type db plan =
     fold (\<lambda>q d. dsetdefault (mq_meal_type q) (mq_id q) d) (plan_requirements db plan) []"

definition add_meal :: "int \<Rightarrow> (meal_type, int) dict \<Rightarrow> planned_meal_dto \<Rightarrow> plan_db \<Rightarrow> generation_exn + plan_db" where
  "add_meal plan by_type meal db =
     (case int_of_str (pm_recipe_id meal) of
        None \<Rightarrow> Inl (EngineRaised ValueError)
      | Some i \<Rightarrow>
          Inr (db\<lparr>pl_meals := pl_meals db @
            [\<lparr>pml_id = next_id pml_id (pl_meals db), pml_plan = plan,
              pml_requirement = map_of by_type (pm_meal_type meal), pml_recipe = i,
              pml_scheduled_date = Some (pm_date meal), pml_meal_type = pm_meal_type meal,
              pml_servings = pm_servings meal, pml_status = ML_planned\<rparr>]\<rparr>))"

text \<open>A loop whose body may raise.\<close>

fun fold_raise :: "('a \<Rightarrow> 's \<Rightarrow> 'e + 's) \<Rightarrow> 'a list \<Rightarrow> 's \<Rightarrow> 'e + 's" where
  "fold_raise f [] s = Inr s"
| "fold_raise f (x # xs) s = (case f x s of Inl e \<Rightarrow> Inl e | Inr s \<Rightarrow> fold_raise f xs s)"

definition price_status_of :: "grocery_line_dto \<Rightarrow> price_status" where
  "price_status_of line =
     (if gl_expired line then Price_stale
      else if gl_subtotal_known line then Price_known
      else if 0 < gl_subtotal line then Price_estimated else Price_missing)"

text \<open>
  \<open>_LineResolver\<close>: from a line back to the product and the price row. \<open>_norm\<close> of a quantity is
  the text of its normal form, which determines and is determined by its value, so the value is
  the key.
\<close>

type_synonym provenance = "int \<times> int option \<times> dec option"

record line_resolver =
  lr_ingredient_id :: "(string, int) dict"
  lr_by_package :: "(string \<times> string \<times> dec, provenance) dict"
  lr_by_product :: "(int, provenance) dict"

definition latest_price_by_product :: "string \<Rightarrow> plan_db \<Rightarrow> int option \<Rightarrow> (int, product_price) dict" where
  "latest_price_by_product postal_code db retailer_id =
     (case retailer_id of
        Some r \<Rightarrow> newest_by_product (chain_prices postal_code db r)
      | None \<Rightarrow> newest_by_product (filter (\<lambda>p. \<not> prc_synthetic p) (product_prices (pl_market db))))"

definition resolver_rows :: "plan_db \<Rightarrow> (ingredient \<times> product) list" where
  "resolver_rows db =
     concat (map (\<lambda>ing. List.map_filter (\<lambda>m. map_option (Pair ing) (find_row prd_id (ipm_product m) (pl_products db)))
        (filter (\<lambda>m. ipm_active m \<and> ipm_ingredient m = ing_id ing) (pl_mappings db))) (pl_ingredients db))"

definition add_resolver_row ::
  "(int, product_price) dict \<Rightarrow> ingredient \<times> product \<Rightarrow> line_resolver \<Rightarrow> line_resolver" where
  "add_resolver_row latest row res =
     (case row of (ing, product) \<Rightarrow>
        (let res = res\<lparr>lr_ingredient_id := dsetdefault (ing_canonical_name ing) (ing_id ing) (lr_ingredient_id res)\<rparr> in
         case map_of latest (prd_id product) of
           None \<Rightarrow> res
         | Some price \<Rightarrow>
             (let prov = (prd_id product, Some (prc_id price), prc_unit_price price) in
              res\<lparr>lr_by_product := dsetdefault (prd_id product) prov (lr_by_product res),
                  lr_by_package := dsetdefault
                    (ing_canonical_name ing, prc_package_unit price, prc_package_quantity price) prov
                    (lr_by_package res)\<rparr>)))"

definition line_resolver_init :: "string \<Rightarrow> plan_db \<Rightarrow> int option \<Rightarrow> line_resolver" where
  "line_resolver_init postal_code db retailer_id =
     fold (add_resolver_row (latest_price_by_product postal_code db retailer_id)) (resolver_rows db)
       \<lparr>lr_ingredient_id = [], lr_by_package = [], lr_by_product = []\<rparr>"

definition resolve_line ::
  "line_resolver \<Rightarrow> grocery_line_dto \<Rightarrow> generation_exn + int option \<times> int option \<times> dec option" where
  "resolve_line res line =
     (let by_package =
            (case (gl_package_quantity line, gl_package_unit line) of
               (Some q, Some u) \<Rightarrow> map_of (lr_by_package res) (gl_canonical_name line, u, q)
             | _ \<Rightarrow> None);
          rest = (\<lambda>product. case by_package of
               Some (p, price, unit_price) \<Rightarrow> (Some p, price, unit_price)
             | None \<Rightarrow> (product, None, None))
      in case gl_product_id line of
           None \<Rightarrow> Inr (rest None)
         | Some s \<Rightarrow>
             (case int_of_str s of
                None \<Rightarrow> Inl (EngineRaised ValueError)
              | Some i \<Rightarrow>
                  (case map_of (lr_by_product res) i of
                     Some (p, price, unit_price) \<Rightarrow> Inr (Some p, price, unit_price)
                   | None \<Rightarrow> Inr (rest (Some i)))))"

definition add_item :: "int \<Rightarrow> line_resolver \<Rightarrow> grocery_line_dto \<Rightarrow> plan_db \<Rightarrow> generation_exn + plan_db" where
  "add_item list_id res line db =
     (case resolve_line res line of
        Inl e \<Rightarrow> Inl e
      | Inr (product_id, price_id, unit_price) \<Rightarrow>
          Inr (db\<lparr>pl_items := pl_items db @
            [\<lparr>gli_id = next_id gli_id (pl_items db), gli_list = list_id, gli_product = product_id,
              gli_ingredient = map_of (lr_ingredient_id res) (gl_canonical_name line),
              gli_needed_quantity = gl_needed_quantity line, gli_pantry_quantity = gl_pantry_quantity line,
              gli_pending_quantity = gl_pending_quantity line,
              gli_package_quantity = gl_package_quantity line, gli_package_unit = gl_package_unit line,
              gli_packages_selected = Some (gl_packages_count line),
              gli_purchased_quantity = Some (gl_purchased_quantity line),
              gli_used_quantity = Some (gl_used_quantity line),
              gli_leftover_quantity = Some (gl_leftover line), gli_unit_price = unit_price,
              gli_price = price_id, gli_total_cost = Some (gl_subtotal line),
              gli_price_status = price_status_of line, gli_checked = False\<rparr>]\<rparr>))"

definition persist_grocery_list ::
  "plan_settings \<Rightarrow> meal_plan \<Rightarrow> plan_result \<Rightarrow> plan_db \<Rightarrow> generation_exn + plan_db" where
  "persist_grocery_list st mp r db =
     (let list_id = next_id gry_id (pl_grocery_lists db);
          db = db\<lparr>pl_grocery_lists := pl_grocery_lists db @
            [\<lparr>gry_id = list_id, gry_plan = mp_id mp, gry_store = mp_store mp, gry_currency = mp_currency mp,
              gry_known_cost = Some (ct_known (pr_cost_total r)),
              gry_estimated_cost = Some (ct_estimated (pr_cost_total r)),
              gry_price_coverage = Some (cv_price_coverage (pr_coverage r)),
              gry_weighted_price_coverage = Some (cv_weighted_price_coverage (pr_coverage r)),
              gry_coverage_status = cv_status (pr_coverage r)\<rparr>]\<rparr>
      in fold_raise (add_item list_id (line_resolver_init (ps_postal_code st) db (mp_retailer mp)))
           (pr_grocery_lines r) db)"

definition update_plan_run :: "int \<Rightarrow> (optimization_run \<Rightarrow> optimization_run) \<Rightarrow> plan_db \<Rightarrow> plan_db" where
  "update_plan_run i f db = db\<lparr>pl_runs := update_row orn_id i f (pl_runs db)\<rparr>"

definition persist_plan_result ::
  "plan_settings \<Rightarrow> time \<Rightarrow> meal_plan \<Rightarrow> int \<Rightarrow> plan_result \<Rightarrow> plan_db \<Rightarrow> generation_exn + plan_db" where
  "persist_plan_result st now mp run r db =
     (let db = clear_previous (mp_id mp) db in
      case fold_raise (add_meal (mp_id mp) (requirement_by_type db (mp_id mp))) (pr_planned_meals r) db of
        Inl e \<Rightarrow> Inl e
      | Inr db \<Rightarrow>
          (case persist_grocery_list st mp r db of
             Inl e \<Rightarrow> Inl e
           | Inr db \<Rightarrow>
               Inr (set_plan_status MP_ready (mp_id mp) (update_plan_run run
                 (\<lambda>q. q\<lparr>orn_result_summary := Some r, orn_infeasibility_report := None,
                       orn_status := OS_completed, orn_finished_at := Some now\<rparr>) db))))"

text \<open>\<open>_enrich_infeasibility\<close>: the tokens of the engine as typed causes and actions.\<close>

fun engine_action :: "message \<Rightarrow> action_code option" where
  "engine_action (RaiseBudgetTo c s) = Some Increase_budget"
| "engine_action AddRecipes = Some Add_recipes"
| "engine_action RelaxSoftPreferences = Some Relax_soft_preferences"
| "engine_action ChangeStore = Some Change_store"
| "engine_action ReduceMeals = Some Reduce_meals"
| "engine_action AcceptEstimatedPrices = Some Change_store"
| "engine_action _ = None"

fun is_hard_constraint :: "message \<Rightarrow> bool" where
  "is_hard_constraint (HardConstraint t) = True"
| "is_hard_constraint _ = False"

fun is_no_candidate :: "message \<Rightarrow> bool" where
  "is_no_candidate (NoCandidateFor mt) = True"
| "is_no_candidate _ = False"

definition first_seen :: "'a list \<Rightarrow> 'a list" where
  "first_seen xs = rev (fold (\<lambda>x acc. if x \<in> set acc then acc else x # acc) xs [])"

definition enrich_infeasibility :: "infeasible_result \<Rightarrow> infeasibility_report" where
  "enrich_infeasibility r =
     \<lparr>ip_code = (if ir_min_budget_found r \<noteq> None then Genuine_budget_infeasibility
                else if list_ex is_hard_constraint (ir_minimal_conflict r) then Hard_constraints_infeasible
                else if list_ex is_no_candidate (ir_minimal_conflict r) then No_compatible_recipes
                else Optimizer_error),
      ip_candidate_counts = [],
      ip_suggested_actions = first_seen (List.map_filter engine_action (ir_suggested_actions r)),
      ip_minimum_budget = ir_min_budget_found r, ip_engine = Some r\<rparr>"

definition persist_report :: "time \<Rightarrow> meal_plan \<Rightarrow> int \<Rightarrow> infeasibility_report \<Rightarrow> plan_db \<Rightarrow> plan_db" where
  "persist_report now mp run report db =
     set_plan_status MP_failed (mp_id mp) (update_plan_run run
       (\<lambda>q. q\<lparr>orn_result_summary := None, orn_infeasibility_report := Some report,
             orn_status := OS_failed, orn_finished_at := Some now\<rparr>) (clear_previous (mp_id mp) db))"

definition persist_infeasible ::
  "time \<Rightarrow> meal_plan \<Rightarrow> int \<Rightarrow> infeasible_result \<Rightarrow> plan_db \<Rightarrow> job_error \<times> plan_db" where
  "persist_infeasible now mp run r db =
     (Infeasible_plan (ir_minimal_conflict r), persist_report now mp run (enrich_infeasibility r) db)"

definition persist_preflight_infeasible ::
  "time \<Rightarrow> meal_plan \<Rightarrow> int \<Rightarrow> infeasibility_report \<Rightarrow> plan_db \<Rightarrow> job_error \<times> plan_db" where
  "persist_preflight_infeasible now mp run report db =
     (Infeasible_preflight (ip_code report), persist_report now mp run report db)"

end
