(* ===== verification/GenerationWorker.thy ===== *)
theory GenerationWorker
  imports PlanService
begin

text \<open>
  \<open>cestaplan_worker/processor.py\<close> and \<open>cestaplan_worker/main.py\<close>: claiming a generation job,
  running it, and recovering the jobs of a worker that died.

  \<^item> \<open>begin_nested\<close> is a savepoint: an exception in \<open>_execute\<close> leaves the database as it was before.
  \<^item> One reading of the clock serves all the timestamps of a job. The engine's random draws and the
    OpenAI service are arguments.
  \<^item> \<open>skip_locked\<close>: the keys of rows that other transactions hold are an argument.
\<close>

section \<open>Running a job\<close>

record generation_env =
  ge_settings :: plan_settings
  ge_call :: "candidate_request \<Rightarrow> nat \<Rightarrow> string + string"
  ge_parse :: "string \<Rightarrow> oai_recipe list option"
  ge_draw :: "int \<Rightarrow> random_source"
  ge_today :: date
  ge_now :: time

definition update_generation_job :: "int \<Rightarrow> (generation_job \<Rightarrow> generation_job) \<Rightarrow> plan_db \<Rightarrow> plan_db" where
  "update_generation_job i f db = db\<lparr>pl_jobs := update_row gj_id i f (pl_jobs db)\<rparr>"

definition transition ::
  "time \<Rightarrow> int \<Rightarrow> int \<Rightarrow> optimization_status \<Rightarrow> bool \<Rightarrow> plan_db \<Rightarrow> plan_db" where
  "transition now run job new_status started db =
     update_generation_job job (\<lambda>j. j\<lparr>gj_status := new_status, gj_heartbeat_at := Some now\<rparr>)
       (update_plan_run run (\<lambda>q. q\<lparr>orn_status := new_status,
          orn_started_at := (if started \<and> orn_started_at q = None then Some now else orn_started_at q)\<rparr>) db)"

definition finish_job :: "time \<Rightarrow> int \<Rightarrow> optimization_status \<Rightarrow> job_error option \<Rightarrow> plan_db \<Rightarrow> plan_db" where
  "finish_job now job s err db =
     update_generation_job job (\<lambda>j. j\<lparr>gj_status := s, gj_last_error := err, gj_heartbeat_at := Some now\<rparr>) db"

definition apply_bias :: "(string, string list) dict option \<Rightarrow> plan_input \<Rightarrow> plan_input" where
  "apply_bias payload inp =
     (case payload of
        None \<Rightarrow> inp
      | Some p \<Rightarrow>
          (let favorites = set (dget p ''favorite_recipe_ids'' []);
               rejected = set (dget p ''rejected_recipe_ids'' [])
           in inp\<lparr>in_favorites := in_favorites inp \<union> favorites,
                  in_members := map (\<lambda>m. m\<lparr>mb_rejected_recipe_ids := mb_rejected_recipe_ids m \<union> rejected\<rparr>)
                    (in_members inp)\<rparr>))"

definition with_warnings :: "message list \<Rightarrow> plan_result \<Rightarrow> plan_result" where
  "with_warnings ws r = (if ws = [] then r else r\<lparr>pr_warnings := ws @ pr_warnings r\<rparr>)"

definition execute_job ::
  "generation_env \<Rightarrow> generation_job \<Rightarrow> optimization_run \<Rightarrow> meal_plan \<Rightarrow> plan_db \<Rightarrow> generation_exn + plan_db" where
  "execute_job env job run mp db =
     (let now = ge_now env; i = gj_id job; o1 = orn_id run;
          db = transition now o1 i OS_collecting_data True db
      in case run_preflight db mp of
           Some report \<Rightarrow>
             (let (message, db) = persist_preflight_infeasible now mp o1 report db
              in Inr (finish_job now i OS_failed (Some message) db))
         | None \<Rightarrow>
             (case build_plan_input (ge_settings env) (ge_call env) (ge_parse env) (orn_seed run) (ge_today env) mp db of
                Inl e \<Rightarrow> Inl e
              | Inr (inp, warnings, db) \<Rightarrow>
                  (let inp = apply_bias (gj_payload job) inp;
                       db = transition now o1 i OS_generating_candidates False db;
                       db = transition now o1 i OS_validating False db;
                       db = transition now o1 i OS_optimizing False db
                   in case generate_plan (ge_draw env (orn_seed run)) inp of
                        Inl e \<Rightarrow> Inl (EngineRaised e)
                      | Inr (Plan r) \<Rightarrow>
                          (case persist_plan_result (ge_settings env) now mp o1 (with_warnings warnings r) db of
                             Inl e \<Rightarrow> Inl e
                           | Inr db \<Rightarrow> Inr (finish_job now i OS_completed None db))
                      | Inr (Infeasible r) \<Rightarrow>
                          (let (message, db) = persist_infeasible now mp o1 r db
                           in Inr (finish_job now i OS_failed (Some message) db)))))"

text \<open>Microseconds of \<open>min(300, interval * 2 ** attempts)\<close> seconds, rounded as \<open>timedelta\<close> does.\<close>

definition generation_backoff :: "plan_settings \<Rightarrow> int \<Rightarrow> time" where
  "generation_backoff st attempts =
     round_half_even (1000000 * min 300 (ps_worker_poll_interval st * 2 ^ nat attempts))"

definition handle_failure ::
  "generation_env \<Rightarrow> generation_job \<Rightarrow> optimization_run \<Rightarrow> meal_plan \<Rightarrow> generation_exn \<Rightarrow> plan_db \<Rightarrow> plan_db" where
  "handle_failure env job run mp e db =
     (let now = ge_now env; attempts = gj_attempts job + 1;
          db = update_generation_job (gj_id job) (\<lambda>j. j\<lparr>gj_attempts := attempts, gj_last_error := Some (Raised e),
                 gj_locked_at := None, gj_locked_by := None, gj_heartbeat_at := Some now\<rparr>) db
      in if gj_max_attempts job \<le> attempts
         then set_plan_status MP_failed (mp_id mp)
                (update_plan_run (orn_id run) (\<lambda>q. q\<lparr>orn_status := OS_failed, orn_finished_at := Some now\<rparr>)
                  (update_generation_job (gj_id job) (\<lambda>j. j\<lparr>gj_status := OS_failed\<rparr>) db))
         else update_plan_run (orn_id run) (\<lambda>q. q\<lparr>orn_status := OS_queued\<rparr>)
                (update_generation_job (gj_id job) (\<lambda>j. j\<lparr>gj_status := OS_queued,
                   gj_run_after := Some (now + generation_backoff (ge_settings env) attempts)\<rparr>) db))"

definition process_generation_job :: "generation_env \<Rightarrow> generation_job \<Rightarrow> plan_db \<Rightarrow> plan_db" where
  "process_generation_job env job db =
     (case Option.bind (gj_run job) (\<lambda>k. find_row orn_id k (pl_runs db)) of
        None \<Rightarrow> update_generation_job (gj_id job) (\<lambda>j. j\<lparr>gj_status := OS_failed, gj_last_error := Some MissingRunOrPlan\<rparr>) db
      | Some run \<Rightarrow>
          (case find_row mp_id (orn_plan run) (pl_plans db) of
             None \<Rightarrow> update_generation_job (gj_id job) (\<lambda>j. j\<lparr>gj_status := OS_failed, gj_last_error := Some MissingRunOrPlan\<rparr>) db
           | Some mp \<Rightarrow>
               (case execute_job env job run mp db of
                  Inl e \<Rightarrow> handle_failure env job run mp e db
                | Inr db \<Rightarrow> db)))"


section \<open>The queue\<close>

definition claimable :: "time \<Rightarrow> int set \<Rightarrow> generation_job \<Rightarrow> bool" where
  "claimable now held j \<longleftrightarrow>
     gj_status j = OS_queued \<and> (case gj_run_after j of None \<Rightarrow> True | Some t \<Rightarrow> t \<le> now) \<and> gj_id j \<notin> held"

definition claim_generation_job ::
  "time \<Rightarrow> int set \<Rightarrow> string \<Rightarrow> plan_db \<Rightarrow> (generation_job \<times> plan_db) option" where
  "claim_generation_job now held worker_id db =
     (case argmin (\<lambda>j. (- gj_priority j, gj_id j)) (filter (claimable now held) (pl_jobs db)) of
        None \<Rightarrow> None
      | Some j \<Rightarrow>
          (let take = (\<lambda>j. j\<lparr>gj_status := OS_collecting_data, gj_locked_at := Some now,
                 gj_locked_by := Some worker_id, gj_heartbeat_at := Some now\<rparr>)
           in Some (take j, update_generation_job (gj_id j) take db)))"

definition in_progress :: "optimization_status \<Rightarrow> bool" where
  "in_progress s \<longleftrightarrow> s \<in> {OS_collecting_data, OS_generating_candidates, OS_validating, OS_optimizing}"

definition reaper_timeout :: "plan_settings \<Rightarrow> time" where
  "reaper_timeout st = max (ps_worker_heartbeat_seconds st * 40) 600 * 1000000"

definition abandoned :: "time \<Rightarrow> int set \<Rightarrow> generation_job \<Rightarrow> bool" where
  "abandoned cutoff held j \<longleftrightarrow>
     in_progress (gj_status j) \<and> (case gj_heartbeat_at j of None \<Rightarrow> True | Some t \<Rightarrow> t < cutoff) \<and>
     gj_id j \<notin> held"

definition fail_linked :: "time \<Rightarrow> generation_job \<Rightarrow> plan_db \<Rightarrow> plan_db" where
  "fail_linked now j db =
     (let db = (case gj_run j of None \<Rightarrow> db
                | Some r \<Rightarrow> update_plan_run r (\<lambda>q. q\<lparr>orn_status := OS_failed, orn_finished_at := Some now\<rparr>) db)
      in (case gj_plan j of None \<Rightarrow> db | Some p \<Rightarrow> set_plan_status MP_failed p db))"

definition recover_job :: "time \<Rightarrow> generation_job \<Rightarrow> plan_db \<Rightarrow> plan_db" where
  "recover_job now j db =
     (let attempts = gj_attempts j + 1;
          release = (\<lambda>j. j\<lparr>gj_attempts := attempts, gj_locked_at := None, gj_locked_by := None,
            gj_heartbeat_at := None\<rparr>)
      in if gj_max_attempts j \<le> attempts
         then fail_linked now j (update_generation_job (gj_id j)
                (\<lambda>j. (release j)\<lparr>gj_status := OS_failed, gj_last_error := Some Reaped\<rparr>) db)
         else update_generation_job (gj_id j) (\<lambda>j. (release j)\<lparr>gj_status := OS_queued, gj_run_after := None\<rparr>) db)"

definition recover_abandoned_jobs :: "plan_settings \<Rightarrow> time \<Rightarrow> int set \<Rightarrow> plan_db \<Rightarrow> nat \<times> plan_db" where
  "recover_abandoned_jobs st now held db =
     (let jobs = filter (abandoned (now - reaper_timeout st) held) (pl_jobs db)
      in (length jobs, fold (recover_job now) jobs db))"

text \<open>One poll: claim, commit, process, commit.\<close>

definition poll_once :: "generation_env \<Rightarrow> int set \<Rightarrow> string \<Rightarrow> plan_db \<Rightarrow> bool \<times> plan_db" where
  "poll_once env held worker_id db =
     (case claim_generation_job (ge_now env) held worker_id db of
        None \<Rightarrow> (False, db)
      | Some (job, db) \<Rightarrow> (True, process_generation_job env job db))"

text \<open>
  The loop of \<open>run_worker\<close>: with each poll, whether the stop flag is set before it, and the
  environment in which it runs. The worker recovers abandoned jobs when it starts.
\<close>

fun generation_loop ::
  "int option \<Rightarrow> int \<Rightarrow> string \<Rightarrow> (bool \<times> generation_env) list \<Rightarrow> plan_db \<Rightarrow> plan_db" where
  "generation_loop max_idle_loops idle worker_id [] db = db"
| "generation_loop max_idle_loops idle worker_id ((stop, env) # polls) db =
     (if stop then db
      else case poll_once env {} worker_id db of (processed, db) \<Rightarrow>
        if processed then generation_loop max_idle_loops 0 worker_id polls db
        else if (case max_idle_loops of None \<Rightarrow> False | Some n \<Rightarrow> n \<le> idle + 1) then db
        else generation_loop max_idle_loops (idle + 1) worker_id polls db)"

definition run_generation_worker ::
  "plan_settings \<Rightarrow> time \<Rightarrow> int option \<Rightarrow> string \<Rightarrow> (bool \<times> generation_env) list \<Rightarrow> plan_db \<Rightarrow> plan_db" where
  "run_generation_worker st now max_idle_loops worker_id polls db =
     generation_loop max_idle_loops 0 worker_id polls (snd (recover_abandoned_jobs st now {} db))"

text \<open>Whether the monthly refresh of prices is due: the newest production price decides.\<close>

definition mercadona_refresh_due :: "db \<Rightarrow> time \<Rightarrow> int \<Rightarrow> bool" where
  "mercadona_refresh_due db now min_age_days =
     (let shops = map ret_id (filter (\<lambda>r. ret_slug r = ''mercadona'') (retailers db));
          times = map obs_imported_at
            (filter (\<lambda>p. obs_retailer p \<in> set shops \<and> \<not> obs_staging_only p) (observations db))
      in if times = [] then True else min_age_days * day_us \<le> now - Max (set times))"

end
