(* ===== verification/PlanPipeline.thy ===== *)
theory PlanPipeline
  imports GenerationWorker
begin

text \<open>
  From the rows of a household to the rows of its plan: what the worker stores when it completes a
  generation job, put together from the preflight, the assembly of the input, the engine and the
  storing of its result.
\<close>

section \<open>What depends on what\<close>

lemma chain_prices_cong: "pl_market a = pl_market b \<Longrightarrow> chain_prices postal a r = chain_prices postal b r"
  by (simp add: chain_prices_def zone_store_ids_def Let_def)

lemma line_resolver_cong:
  assumes "pl_market a = pl_market b" "pl_ingredients a = pl_ingredients b" "pl_mappings a = pl_mappings b"
    "pl_products a = pl_products b"
  shows "line_resolver_init postal a r = line_resolver_init postal b r"
  using assms chain_prices_cong[OF assms(1)]
  by (cases r) (simp_all add: line_resolver_init_def resolver_rows_def latest_price_by_product_def)

lemma build_catalog_cong:
  assumes "pl_market a = pl_market b" "pl_ingredients a = pl_ingredients b" "pl_mappings a = pl_mappings b"
    "pl_products a = pl_products b"
  shows "build_catalog st a r = build_catalog st b r"
proof -
  have "catalog_entry age latest a = catalog_entry age latest b" for age latest
    by (simp add: fun_eq_iff catalog_entry_def assms)
  moreover have "products_by_ingredient a = products_by_ingredient b"
    by (simp add: products_by_ingredient_def mapped_products_def assms)
  ultimately show ?thesis using chain_prices_cong[OF assms(1)]
    by (cases r) (simp_all add: build_catalog_def latest_prices_def)
qed

lemma candidate_of_cong:
  assumes "pl_ingredients a = pl_ingredients b" shows "candidate_of a = candidate_of b"
proof -
  have "ingredient_meta a = ingredient_meta b" by (simp add: fun_eq_iff ingredient_meta_def assms)
  then show ?thesis by (simp add: fun_eq_iff candidate_of_def declared_codes_def assessed_def category_of_def)
qed


section \<open>Storing\<close>

definition meal_row :: "int \<Rightarrow> (meal_type, int) dict \<Rightarrow> planned_meal_dto \<Rightarrow> planned_meal_row \<Rightarrow> bool" where
  "meal_row plan by_type d m \<longleftrightarrow>
     int_of_str (pm_recipe_id d) = Some (pml_recipe m) \<and> pml_plan m = plan \<and>
     pml_requirement m = map_of by_type (pm_meal_type d) \<and> pml_scheduled_date m = Some (pm_date d) \<and>
     pml_meal_type m = pm_meal_type d \<and> pml_servings m = pm_servings d \<and> pml_status m = ML_planned"

lemma fold_add_meal:
  assumes "fold_raise (add_meal plan by_type) ds db = Inr db'"
  obtains ms where "db' = db\<lparr>pl_meals := pl_meals db @ ms\<rparr>" "list_all2 (meal_row plan by_type) ds ms"
proof -
  have "\<exists>ms. db' = db\<lparr>pl_meals := pl_meals db @ ms\<rparr> \<and> list_all2 (meal_row plan by_type) ds ms"
    using assms
  proof (induction ds arbitrary: db)
    case Nil
    then show ?case by (intro exI[of _ "[]"]) simp
  next
    case (Cons d ds)
    then obtain i where i: "int_of_str (pm_recipe_id d) = Some i"
      by (auto simp: add_meal_def split: option.splits)
    let ?m = "\<lparr>pml_id = next_id pml_id (pl_meals db), pml_plan = plan,
        pml_requirement = map_of by_type (pm_meal_type d), pml_recipe = i,
        pml_scheduled_date = Some (pm_date d), pml_meal_type = pm_meal_type d,
        pml_servings = pm_servings d, pml_status = ML_planned\<rparr>"
    have "add_meal plan by_type d db = Inr (db\<lparr>pl_meals := pl_meals db @ [?m]\<rparr>)" using i by (simp add: add_meal_def)
    with Cons.prems have "fold_raise (add_meal plan by_type) ds (db\<lparr>pl_meals := pl_meals db @ [?m]\<rparr>) = Inr db'" by simp
    from Cons.IH[OF this] obtain ms where "db' = db\<lparr>pl_meals := (pl_meals db @ [?m]) @ ms\<rparr>"
      "list_all2 (meal_row plan by_type) ds ms" by auto
    moreover have "meal_row plan by_type d ?m" using i by (simp add: meal_row_def)
    ultimately show ?case by (intro exI[of _ "?m # ms"]) simp
  qed
  then show thesis using that by blast
qed

definition item_row :: "int \<Rightarrow> line_resolver \<Rightarrow> grocery_line_dto \<Rightarrow> grocery_list_item \<Rightarrow> bool" where
  "item_row list_id res line i \<longleftrightarrow>
     gli_list i = list_id \<and> resolve_line res line = Inr (gli_product i, gli_price i, gli_unit_price i) \<and>
     gli_ingredient i = map_of (lr_ingredient_id res) (gl_canonical_name line) \<and>
     gli_needed_quantity i = gl_needed_quantity line \<and> gli_pending_quantity i = gl_pending_quantity line \<and>
     gli_package_quantity i = gl_package_quantity line \<and> gli_package_unit i = gl_package_unit line \<and>
     gli_packages_selected i = Some (gl_packages_count line) \<and> gli_total_cost i = Some (gl_subtotal line) \<and>
     gli_price_status i = price_status_of line"

lemma add_item_ok:
  assumes "add_item list_id res line db = Inr db1"
  shows "\<exists>i. db1 = db\<lparr>pl_items := pl_items db @ [i]\<rparr> \<and> item_row list_id res line i"
proof -
  from assms obtain p pr u where r: "resolve_line res line = Inr (p, pr, u)"
    by (auto simp: add_item_def split: sum.splits)
  let ?i = "\<lparr>gli_id = next_id gli_id (pl_items db), gli_list = list_id, gli_product = p,
      gli_ingredient = map_of (lr_ingredient_id res) (gl_canonical_name line),
      gli_needed_quantity = gl_needed_quantity line, gli_pantry_quantity = gl_pantry_quantity line,
      gli_pending_quantity = gl_pending_quantity line, gli_package_quantity = gl_package_quantity line,
      gli_package_unit = gl_package_unit line, gli_packages_selected = Some (gl_packages_count line),
      gli_purchased_quantity = Some (gl_purchased_quantity line), gli_used_quantity = Some (gl_used_quantity line),
      gli_leftover_quantity = Some (gl_leftover line), gli_unit_price = u, gli_price = pr,
      gli_total_cost = Some (gl_subtotal line), gli_price_status = price_status_of line, gli_checked = False\<rparr>"
  have "db1 = db\<lparr>pl_items := pl_items db @ [?i]\<rparr>" using assms by (simp add: add_item_def r)
  moreover have "item_row list_id res line ?i" by (simp add: item_row_def r)
  ultimately show ?thesis by blast
qed

lemma fold_add_item:
  assumes "fold_raise (add_item list_id res) ls db = Inr db'"
  obtains items where "db' = db\<lparr>pl_items := pl_items db @ items\<rparr>" "list_all2 (item_row list_id res) ls items"
proof -
  have "\<exists>items. db' = db\<lparr>pl_items := pl_items db @ items\<rparr> \<and> list_all2 (item_row list_id res) ls items"
    using assms
  proof (induction ls arbitrary: db)
    case Nil
    then show ?case by (intro exI[of _ "[]"]) simp
  next
    case (Cons l ls)
    then obtain db1 where db1: "add_item list_id res l db = Inr db1" "fold_raise (add_item list_id res) ls db1 = Inr db'"
      by (auto split: sum.splits)
    from add_item_ok[OF db1(1)] obtain i where i: "db1 = db\<lparr>pl_items := pl_items db @ [i]\<rparr>" "item_row list_id res l i"
      by blast
    from Cons.IH[OF db1(2)] obtain items where "db' = db1\<lparr>pl_items := pl_items db1 @ items\<rparr>"
      "list_all2 (item_row list_id res) ls items" by auto
    with i show ?case by (intro exI[of _ "i # items"]) simp
  qed
  then show thesis using that by blast
qed

text \<open>The tables after a plan is stored: its old rows gone, its new ones at the end, the rest as it was.\<close>

lemma persist_plan_result_ok:
  assumes "persist_plan_result st now mp run r db = Inr db'"
  obtains ms g items where
    "db' = (clear_previous (mp_id mp) db)\<lparr>
       pl_meals := pl_meals (clear_previous (mp_id mp) db) @ ms,
       pl_grocery_lists := pl_grocery_lists (clear_previous (mp_id mp) db) @ [g],
       pl_items := pl_items (clear_previous (mp_id mp) db) @ items,
       pl_runs := update_row orn_id run (\<lambda>q. q\<lparr>orn_result_summary := Some r, orn_infeasibility_report := None,
         orn_status := OS_completed, orn_finished_at := Some now\<rparr>) (pl_runs db),
       pl_plans := update_row mp_id (mp_id mp) (\<lambda>mp. mp\<lparr>mp_status := MP_ready\<rparr>) (pl_plans db)\<rparr>"
    "list_all2 (meal_row (mp_id mp) (requirement_by_type db (mp_id mp))) (pr_planned_meals r) ms"
    "list_all2 (item_row (gry_id g) (line_resolver_init (ps_postal_code st) db (mp_retailer mp))) (pr_grocery_lines r) items"
    "gry_plan g = mp_id mp" "gry_id g \<notin> gry_id ` set (pl_grocery_lists (clear_previous (mp_id mp) db))"
    "gry_known_cost g = Some (ct_known (pr_cost_total r))"
    "gry_estimated_cost g = Some (ct_estimated (pr_cost_total r))"
    "gry_coverage_status g = cv_status (pr_coverage r)"
proof -
  let ?c = "clear_previous (mp_id mp) db"
  have req: "requirement_by_type ?c (mp_id mp) = requirement_by_type db (mp_id mp)"
    by (simp add: clear_previous_def Let_def requirement_by_type_def plan_requirements_def)
  from assms obtain db1 db2 where db1: "fold_raise (add_meal (mp_id mp) (requirement_by_type db (mp_id mp)))
      (pr_planned_meals r) ?c = Inr db1" and db2: "persist_grocery_list st mp r db1 = Inr db2"
    and db': "db' = set_plan_status MP_ready (mp_id mp) (update_plan_run run (\<lambda>q. q\<lparr>orn_result_summary := Some r,
      orn_infeasibility_report := None, orn_status := OS_completed, orn_finished_at := Some now\<rparr>) db2)"
    unfolding persist_plan_result_def Let_def req by (auto split: sum.splits)
  from db1 obtain ms where ms: "db1 = ?c\<lparr>pl_meals := pl_meals ?c @ ms\<rparr>"
    "list_all2 (meal_row (mp_id mp) (requirement_by_type db (mp_id mp))) (pr_planned_meals r) ms"
    by (rule fold_add_meal)
  let ?id = "next_id gry_id (pl_grocery_lists ?c)"
  let ?g = "\<lparr>gry_id = ?id, gry_plan = mp_id mp, gry_store = mp_store mp, gry_currency = mp_currency mp,
      gry_known_cost = Some (ct_known (pr_cost_total r)), gry_estimated_cost = Some (ct_estimated (pr_cost_total r)),
      gry_price_coverage = Some (cv_price_coverage (pr_coverage r)),
      gry_weighted_price_coverage = Some (cv_weighted_price_coverage (pr_coverage r)),
      gry_coverage_status = cv_status (pr_coverage r)\<rparr>"
  have res: "line_resolver_init (ps_postal_code st) (db1\<lparr>pl_grocery_lists := gs\<rparr>) (mp_retailer mp) =
      line_resolver_init (ps_postal_code st) db (mp_retailer mp)" for gs
    by (rule line_resolver_cong) (simp_all add: ms(1) clear_previous_def Let_def)
  have lists: "pl_grocery_lists db1 = pl_grocery_lists ?c" by (simp add: ms(1))
  from db2 have "fold_raise (add_item ?id (line_resolver_init (ps_postal_code st) db (mp_retailer mp)))
      (pr_grocery_lines r) (db1\<lparr>pl_grocery_lists := pl_grocery_lists ?c @ [?g]\<rparr>) = Inr db2"
    by (simp only: persist_grocery_list_def Let_def res lists)
  then obtain items where its: "db2 = db1\<lparr>pl_grocery_lists := pl_grocery_lists ?c @ [?g], pl_items := pl_items db1 @ items\<rparr>"
    "list_all2 (item_row ?id (line_resolver_init (ps_postal_code st) db (mp_retailer mp))) (pr_grocery_lines r) items"
    by (rule fold_add_item) simp
  show thesis
  proof (rule that[where ms = ms and g = ?g and items = items])
    show "db' = ?c\<lparr>
       pl_meals := pl_meals ?c @ ms, pl_grocery_lists := pl_grocery_lists ?c @ [?g], pl_items := pl_items ?c @ items,
       pl_runs := update_row orn_id run (\<lambda>q. q\<lparr>orn_result_summary := Some r, orn_infeasibility_report := None,
         orn_status := OS_completed, orn_finished_at := Some now\<rparr>) (pl_runs db),
       pl_plans := update_row mp_id (mp_id mp) (\<lambda>mp. mp\<lparr>mp_status := MP_ready\<rparr>) (pl_plans db)\<rparr>"
      by (simp add: db' its(1) ms(1) set_plan_status_def update_plan_run_def clear_previous_def Let_def)
  qed (use ms(2) its(2) in simp_all)
qed


section \<open>Completed jobs\<close>

lemma build_plan_input_ok:
  assumes "build_plan_input st call parse seed as_of mp db = Inr (inp, ws, db')"
  obtains bd where
    "in_members inp = build_members db (mp_household mp) (rejected_recipe_ids db (mp_household mp))"
    "build_requirements db mp = Inr (in_meal_requirements inp)" "plan_budget mp = Inr (in_budget inp)"
    "in_date_range inp = (mp_start_date mp, mp_end_date mp)"
    "in_available_equipment inp = build_equipment db (mp_household mp)"
    "in_catalog inp = build_catalog st db (mp_retailer mp)" "in_candidates inp = cbn_candidates bd"
    "get_candidates st call parse (candidate_request_of mp (in_members inp) (in_meal_requirements inp)
       (in_budget inp) (in_available_equipment inp) (in_catalog inp)) db = Inr (bd, db')"
  using assms by (fastforce simp: build_plan_input_def Let_def split: sum.splits prod.splits)

lemma candidate_request_household [simp]: "rq_household (candidate_request_of mp ms reqs b e c) = mp_household mp"
  by (simp add: candidate_request_of_def)

lemma apply_bias_fields [simp]:
  "in_meal_requirements (apply_bias p inp) = in_meal_requirements inp"
  "in_budget (apply_bias p inp) = in_budget inp" "in_date_range (apply_bias p inp) = in_date_range inp"
  "in_available_equipment (apply_bias p inp) = in_available_equipment inp"
  "in_catalog (apply_bias p inp) = in_catalog inp" "in_candidates (apply_bias p inp) = in_candidates inp"
  "map mb_allergens (in_members (apply_bias p inp)) = map mb_allergens (in_members inp)"
  "map mb_strict_allergen_codes (in_members (apply_bias p inp)) = map mb_strict_allergen_codes (in_members inp)"
  "map mb_hard_restrictions (in_members (apply_bias p inp)) = map mb_hard_restrictions (in_members inp)"
  by (simp_all add: apply_bias_def Let_def comp_def split: option.split)

lemma with_warnings_fields [simp]:
  "pr_planned_meals (with_warnings ws r) = pr_planned_meals r"
  "pr_grocery_lines (with_warnings ws r) = pr_grocery_lines r"
  "pr_cost_total (with_warnings ws r) = pr_cost_total r" "pr_coverage (with_warnings ws r) = pr_coverage r"
  by (simp_all add: with_warnings_def)

lemma transition_eq:
  "transition now run job s b db = db\<lparr>
     pl_runs := update_row orn_id run (\<lambda>q. q\<lparr>orn_status := s,
       orn_started_at := (if b \<and> orn_started_at q = None then Some now else orn_started_at q)\<rparr>) (pl_runs db),
     pl_jobs := update_row gj_id job (\<lambda>j. j\<lparr>gj_status := s, gj_heartbeat_at := Some now\<rparr>) (pl_jobs db)\<rparr>"
  by (simp add: transition_def update_generation_job_def update_plan_run_def)

lemma transition_tables [simp]:
  "pl_market (transition now run job s b db) = pl_market db"
  "pl_members (transition now run job s b db) = pl_members db"
  "pl_equipment (transition now run job s b db) = pl_equipment db"
  "pl_products (transition now run job s b db) = pl_products db"
  "pl_ingredients (transition now run job s b db) = pl_ingredients db"
  "pl_mappings (transition now run job s b db) = pl_mappings db"
  "pl_recipes (transition now run job s b db) = pl_recipes db"
  "pl_requirements (transition now run job s b db) = pl_requirements db"
  "pl_meals (transition now run job s b db) = pl_meals db"
  "pl_grocery_lists (transition now run job s b db) = pl_grocery_lists db"
  "pl_items (transition now run job s b db) = pl_items db"
  "pl_plans (transition now run job s b db) = pl_plans db"
  by (simp_all add: transition_eq)

lemma find_job_update:
  "find_row gj_id i (pl_jobs (update_generation_job i f db)) = map_option f (find_row gj_id i (pl_jobs db))"
  if "\<And>j. gj_id (f j) = gj_id j"
proof -
  have "find_row gj_id i (update_row gj_id i f t) = map_option (\<lambda>r. if gj_id r = i then f r else r) (find_row gj_id i t)" for t
    by (rule find_row_update_row) (rule that)
  then show ?thesis by (cases "find_row gj_id i (pl_jobs db)") (auto simp: update_generation_job_def dest: find_row_Some)
qed

text \<open>A job is completed in one way: the preflight passes, the engine finds a plan, the plan is stored.\<close>

lemma execute_job_completed:
  assumes "execute_job env job run mp db = Inr db'"
    and "find_row gj_id (gj_id job) (pl_jobs db') = Some j" and "gj_status j = OS_completed"
  obtains inp ws db1 r db2 where
    "build_plan_input (ge_settings env) (ge_call env) (ge_parse env) (orn_seed run) (ge_today env) mp
       (transition (ge_now env) (orn_id run) (gj_id job) OS_collecting_data True db) = Inr (inp, ws, db1)"
    "generate_plan (ge_draw env (orn_seed run)) (apply_bias (gj_payload job) inp) = Inr (Plan r)"
    "persist_plan_result (ge_settings env) (ge_now env) mp (orn_id run) (with_warnings ws r)
       (transition (ge_now env) (orn_id run) (gj_id job) OS_optimizing False
         (transition (ge_now env) (orn_id run) (gj_id job) OS_validating False
           (transition (ge_now env) (orn_id run) (gj_id job) OS_generating_candidates False db1))) = Inr db2"
    "db' = finish_job (ge_now env) (gj_id job) OS_completed None db2"
proof -
  let ?t = "transition (ge_now env) (orn_id run) (gj_id job)"
  let ?start = "?t OS_collecting_data True db"
  have finished: "gj_status j = s" if "db' = finish_job (ge_now env) (gj_id job) s err db3" for s err db3
    using assms(2) unfolding that finish_job_def by (auto simp: find_job_update)
  show thesis
  proof (cases "run_preflight ?start mp")
    case (Some report)
    with assms(1) have "db' = finish_job (ge_now env) (gj_id job) OS_failed
        (Some (Infeasible_preflight (ip_code report))) (persist_report (ge_now env) mp (orn_id run) report ?start)"
      by (simp add: execute_job_def Let_def persist_preflight_infeasible_def)
    from finished[OF this] assms(3) show thesis by simp
  next
    case None
    with assms(1) obtain inp ws db1 where inp: "build_plan_input (ge_settings env) (ge_call env) (ge_parse env)
        (orn_seed run) (ge_today env) mp ?start = Inr (inp, ws, db1)"
      by (auto simp: execute_job_def Let_def split: sum.splits)
    with None assms(1) obtain res where res: "generate_plan (ge_draw env (orn_seed run)) (apply_bias (gj_payload job) inp) = Inr res"
      by (auto simp: execute_job_def Let_def split: sum.splits)
    let ?busy = "?t OS_optimizing False (?t OS_validating False (?t OS_generating_candidates False db1))"
    show thesis
    proof (cases res)
      case (Plan r)
      with None inp res assms(1) obtain db2 where
        "persist_plan_result (ge_settings env) (ge_now env) mp (orn_id run) (with_warnings ws r) ?busy = Inr db2"
        "db' = finish_job (ge_now env) (gj_id job) OS_completed None db2"
        by (auto simp: execute_job_def Let_def split: sum.splits)
      with inp res Plan show thesis by (intro that) simp_all
    next
      case (Infeasible r)
      with None inp res assms(1) have "db' = finish_job (ge_now env) (gj_id job) OS_failed
          (Some (Infeasible_plan (ir_minimal_conflict r)))
          (persist_report (ge_now env) mp (orn_id run) (enrich_infeasibility r) ?busy)"
        by (simp add: execute_job_def Let_def persist_infeasible_def)
      from finished[OF this] assms(3) show thesis by simp
    qed
  qed
qed

end
