(* ===== verification/PlanExamples.thy ===== *)
theory PlanExamples
  imports PlanDb
begin

text \<open>
  A household with its recipes, its shop and one queued generation, on which the properties of the
  planning services with hypotheses are evaluated. It models no code.

  One diner, allergic to egg; rice, assessed and free of allergens, and egg; a dish of each; one
  chain selling both. The plan asks for one lunch on one day.
\<close>

definition example_settings :: plan_settings where
  "example_settings =
     \<lparr>ps_postal_code = ''28001'', ps_price_max_age_days = 30, ps_ai_enabled = False, ps_openai_model = ''m'',
      ps_openai_max_retries = 2, ps_worker_poll_interval = 2, ps_worker_job_max_attempts = 3,
      ps_worker_heartbeat_seconds = 15\<rparr>"

definition example_price :: "int \<Rightarrow> int \<Rightarrow> dec \<Rightarrow> time \<Rightarrow> product_price" where
  "example_price i product_key amount seen =
     \<lparr>prc_id = i, prc_retailer = 7, prc_store = 4, prc_product = product_key, prc_amount = amount, prc_currency = ''EUR'',
      prc_package_quantity = 1000, prc_package_unit = ''g'', prc_unit_price = None, prc_promotion = None,
      prc_availability = Some ''in_stock'', prc_source_type = ''catalog'', prc_source_name = ''tienda'',
      prc_source_url = None, prc_observed_at = seen, prc_imported_at = seen, prc_expires_at = None,
      prc_confidence = 1, prc_synthetic = False\<rparr>"

definition example_dish :: "int \<Rightarrow> string \<Rightarrow> int \<Rightarrow> string \<Rightarrow> recipe" where
  "example_dish i title ing name =
     \<lparr>rcp_id = i, rcp_household = None, rcp_origin = RO_seed, rcp_public = True, rcp_title = title,
      rcp_description = None, rcp_servings = 2, rcp_meal_types = Some [Lunch], rcp_cuisine = None,
      rcp_preference_tags = None, rcp_preparation_minutes = Some 10, rcp_cooking_minutes = Some 20,
      rcp_required_equipment = Some [''olla''], rcp_leftover_reuse = None, rcp_storage_instructions = None,
      rcp_reheating_instructions = None, rcp_generated_by = None, rcp_deleted_at = None,
      rcp_ingredients = [\<lparr>rgi_ingredient = ing, rgi_canonical_name = name, rgi_display_name = None,
        rgi_quantity = 200, rgi_unit = ''g'', rgi_optional = False, rgi_substitution_group = None\<rparr>],
      rcp_steps = [(1, ''cocer'')]\<rparr>"

definition example_row :: "int \<Rightarrow> string \<Rightarrow> string list \<Rightarrow> ingredient" where
  "example_row i name codes =
     \<lparr>ing_id = i, ing_canonical_name = name, ing_display_name = name, ing_category_code = None,
      ing_default_unit = Some ''g'', ing_density_g_per_ml = None, ing_allergen_codes = Some codes\<rparr>"

definition example_diner :: household_member where
  "example_diner =
     \<lparr>hm_id = 1, hm_household = 1, hm_user = Some 9, hm_role = RoleOwner, hm_display_name = Some ''ana'',
      hm_public_hex = ''00'', hm_is_eater = True, hm_relative_serving = 1, hm_joined_at = 0,
      hm_profiles = [\<lparr>dp_diet_type = None, dp_energy_target_kcal = None, dp_protein_target_g = None,
        dp_carb_target_g = None, dp_fat_target_g = None,
        dp_allergies = [\<lparr>alg_code = ''huevo'', alg_severity = SevAllergy\<rparr>], dp_food_preferences = []\<rparr>]\<rparr>"

definition example_plan :: meal_plan where
  "example_plan =
     \<lparr>mp_id = 1, mp_household = 1, mp_retailer = Some 7, mp_store = Some 4, mp_start_date = 739000,
      mp_end_date = 739000, mp_budget_amount = Some 10, mp_budget_priority = ''price'', mp_currency = ''EUR'',
      mp_status = MP_generating, mp_deleted_at = None\<rparr>"

definition example_run_row :: optimization_run where
  "example_run_row =
     \<lparr>orn_id = 1, orn_plan = 1, orn_status = OS_queued, orn_seed = 7, orn_budget_amount = Some 10,
      orn_result_summary = None, orn_infeasibility_report = None, orn_started_at = None, orn_finished_at = None\<rparr>"

definition example_job_row :: generation_job where
  "example_job_row =
     \<lparr>gj_id = 1, gj_run = Some 1, gj_plan = Some 1, gj_type = ''generate'', gj_status = OS_queued,
      gj_payload = None, gj_priority = 0, gj_attempts = 0, gj_max_attempts = 3, gj_run_after = Some 0,
      gj_locked_at = None, gj_locked_by = None, gj_heartbeat_at = None, gj_last_error = None\<rparr>"

definition example_tables :: plan_db where
  "example_tables =
     \<lparr>pl_market = empty_db\<lparr>
        retailers := [\<lparr>ret_id = 7, ret_slug = ''tienda'', ret_active = True, ret_name = ''Tienda''\<rparr>],
        stores := [\<lparr>sto_id = 4, sto_retailer = 7, sto_active = True, sto_postal_code = Some ''28001''\<rparr>],
        product_prices := [example_price 1 1 2 0, example_price 2 2 3 0, example_price 3 1 (5 / 2) day_us]\<rparr>,
      pl_households = [\<lparr>hh_id = 1, hh_owner = 9, hh_default_retailer = Some 7, hh_default_store = Some 4\<rparr>],
      pl_members = [example_diner], pl_equipment = [\<lparr>eq_household = 1, eq_code = ''olla'', eq_available = True\<rparr>],
      pl_pantry = [], pl_favorites = [], pl_feedback = [],
      pl_products = [\<lparr>prd_id = 1, prd_retailer = Some 7, prd_deleted_at = None, prd_nutrition = None\<rparr>,
        \<lparr>prd_id = 2, prd_retailer = Some 7, prd_deleted_at = None, prd_nutrition = None\<rparr>],
      pl_ingredients = [example_row 1 ''arroz'' [], example_row 2 ''huevo'' [''egg'']],
      pl_mappings = [\<lparr>ipm_ingredient = 1, ipm_product = 1, ipm_variant = None, ipm_preference_rank = Some 1, ipm_active = True\<rparr>,
        \<lparr>ipm_ingredient = 2, ipm_product = 2, ipm_variant = None, ipm_preference_rank = Some 1, ipm_active = True\<rparr>],
      pl_recipes = [example_dish 1 ''Arroz'' 1 ''arroz'', example_dish 2 ''Tortilla'' 2 ''huevo''],
      pl_plans = [example_plan],
      pl_requirements = [\<lparr>mq_id = 1, mq_plan = 1, mq_meal_type = Lunch, mq_requested_count = 1,
        mq_default_servings = 2, mq_selected_dates = None, mq_auto_distribute = True, mq_preferred_days = None,
        mq_maximum_preparation_minutes = None, mq_requires_tupper = False, mq_reheating_available = True\<rparr>],
      pl_meals = [], pl_grocery_lists = [], pl_items = [], pl_runs = [example_run_row],
      pl_jobs = [example_job_row]\<rparr>"

end
