(* ===== verification/StoredPlans.thy ===== *)
theory StoredPlans
  imports PlanPipeline PlanExamples
begin

text \<open>
  What a completed job leaves in the tables of plans. The gates of the engine are restated here on
  the rows a household and an operator see: its diners with their allergies and diets, the
  recipes with their ingredients, the products of its chain.
\<close>

section \<open>Safety in terms of rows\<close>

definition named_products :: "catalog_product_dto list \<Rightarrow> recipe \<Rightarrow> catalog_product_dto list" where
  "named_products catalog r =
     filter (\<lambda>p. cp_canonical_name p \<in> rgi_canonical_name ` set (rcp_ingredients r)) catalog"

definition row_allergens :: "plan_db \<Rightarrow> catalog_product_dto list \<Rightarrow> recipe \<Rightarrow> string set" where
  "row_allergens db catalog r =
     canon_allergens (declared_codes db (rcp_ingredients r) \<union> (\<Union>p\<in>set (named_products catalog r). cp_allergens p))"

text \<open>What an ingredient row contributes: its name and the words in it, and the classes of its category.\<close>

definition row_words :: "plan_db \<Rightarrow> recipe_ingredient \<Rightarrow> string set" where
  "row_words db ri =
     insert (norm_code (rgi_canonical_name ri)) (set (word_parts (norm_code (rgi_canonical_name ri)))) \<union>
     (case category_of db (rgi_ingredient ri) of
        None \<Rightarrow> {}
      | Some category \<Rightarrow> if category = [] then {} else dget category_forbids (norm_code category) {})"

definition row_tokens :: "plan_db \<Rightarrow> catalog_product_dto list \<Rightarrow> recipe \<Rightarrow> string set" where
  "row_tokens db catalog r =
     lower_set (declared_codes db (rcp_ingredients r)) \<union> (\<Union>ri\<in>set (rcp_ingredients r). row_words db ri) \<union>
     (\<Union>p\<in>set (named_products catalog r). lower_set (cp_allergens p))"

text \<open>What a profile rules out: its diet, if it names one, and the foods it avoids.\<close>

definition ruled_out :: "dietary_profile \<Rightarrow> string list" where
  "ruled_out p = (case dp_diet_type p of None \<Rightarrow> [] | Some d \<Rightarrow> [d]) @
     map fp_subject_ref (filter (\<lambda>f. fp_sentiment f = PrefAvoid) (dp_food_preferences p))"

definition safe_for :: "plan_db \<Rightarrow> catalog_product_dto list \<Rightarrow> recipe \<Rightarrow> dietary_profile \<Rightarrow> bool" where
  "safe_for db catalog r p \<longleftrightarrow>
     canon_allergens (set (map alg_code (dp_allergies p))) \<inter> row_allergens db catalog r = {} \<and>
     (list_ex (\<lambda>a. alg_severity a \<noteq> SevIntolerance \<and> py_strip (alg_code a) \<noteq> []) (dp_allergies p) \<longrightarrow>
        list_all (\<lambda>ri. assessed db (rgi_ingredient ri)) (rcp_ingredients r)) \<and>
     list_all (\<lambda>x. py_strip x = [] \<or> \<not> restriction_hit (row_tokens db catalog r) (norm_code x)) (ruled_out p)"

lemma strict_codes_severe:
  "list_ex (\<lambda>a. alg_severity a \<noteq> SevIntolerance \<and> py_strip (alg_code a) \<noteq> []) (dp_allergies p) \<Longrightarrow>
     canon_allergens (strict_codes_of p) \<noteq> {}"
proof -
  assume "list_ex (\<lambda>a. alg_severity a \<noteq> SevIntolerance \<and> py_strip (alg_code a) \<noteq> []) (dp_allergies p)"
  then obtain a where a: "a \<in> set (dp_allergies p)" "alg_severity a \<noteq> SevIntolerance" "py_strip (alg_code a) \<noteq> []"
    by (auto simp: list_ex_iff)
  then have "alg_code a \<in> strict_codes_of p" by (cases "alg_severity a") (auto simp: strict_codes_of_def)
  with a(3) have "canon_code (norm_code (alg_code a)) \<in> canon_allergens (strict_codes_of p)"
    unfolding in_canon_allergens by blast
  then show ?thesis by blast
qed

lemma ruled_out_restricted:
  "x \<in> set (ruled_out p) \<Longrightarrow> py_strip x \<noteq> [] \<Longrightarrow> norm_code x \<in> lower_set (hard_restrictions_of p)"
  by (auto simp: ruled_out_def hard_restrictions_of_def in_lower_set py_strip_def[of "[]"] split: option.splits)

lemma candidate_line:
  assumes "candidate_of db c r" and "ri \<in> set (rcp_ingredients r)"
  obtains d where "d \<in> set (cr_ingredients c)" "ri_canonical_name d = rgi_canonical_name ri"
    "ri_category d = category_of db (rgi_ingredient ri)" "ri_allergen_assessed d = assessed db (rgi_ingredient ri)"
proof -
  from assms(2) obtain i where "i < length (rcp_ingredients r)" "rcp_ingredients r ! i = ri"
    by (auto simp: in_set_conv_nth)
  with assms(1) show thesis
    by (intro that[of "cr_ingredients c ! i"]) (auto simp: candidate_of_def list_all2_conv_all_nth)
qed

lemma candidate_names:
  assumes "candidate_of db c r"
  shows "ri_canonical_name ` set (cr_ingredients c) = rgi_canonical_name ` set (rcp_ingredients r)"
proof -
  have "map ri_canonical_name (cr_ingredients c) = map rgi_canonical_name (rcp_ingredients r)"
    using assms unfolding candidate_of_def list_all2_conv_all_nth by (auto intro: nth_equalityI)
  from arg_cong[OF this, of set] show ?thesis by simp
qed

lemma candidate_sources:
  assumes "candidate_of db c r"
  shows "canon_allergens (recipe_allergen_sources catalog c) = row_allergens db catalog r"
proof -
  have "filter (\<lambda>p. list_ex (\<lambda>ing. ri_canonical_name ing = cp_canonical_name p) (cr_ingredients c)) catalog =
      named_products catalog r"
    unfolding named_products_def candidate_names[OF assms, symmetric]
    by (intro filter_cong) (simp_all add: list_ex_iff image_iff eq_commute[of "cp_canonical_name _"])
  moreover have "cr_allergens_declared c = declared_codes db (rcp_ingredients r)" using assms by (simp add: candidate_of_def)
  ultimately show ?thesis by (simp add: recipe_allergen_sources_def row_allergens_def)
qed

lemma candidate_tokens:
  assumes "candidate_of db c r"
  shows "row_tokens db catalog r \<subseteq> recipe_tokens (allergen_validator_init catalog) c"
proof -
  have sub: "ingredient_tokens (allergen_validator_init catalog) d \<subseteq> recipe_tokens (allergen_validator_init catalog) c"
    if "d \<in> set (cr_ingredients c)" for d
    using that by (auto simp: in_recipe_tokens)
  have words: "row_words db ri \<subseteq> recipe_tokens (allergen_validator_init catalog) c"
    if "ri \<in> set (rcp_ingredients r)" for ri
  proof -
    from assms that obtain d where d: "d \<in> set (cr_ingredients c)" "ri_canonical_name d = rgi_canonical_name ri"
      "ri_category d = category_of db (rgi_ingredient ri)" by (rule candidate_line)
    then have "row_words db ri \<subseteq> ingredient_tokens (allergen_validator_init catalog) d"
      by (auto simp: row_words_def ingredient_tokens_def Let_def)
    with sub[OF d(1)] show ?thesis by (rule order_trans[rotated])
  qed
  have products: "lower_set (cp_allergens p) \<subseteq> recipe_tokens (allergen_validator_init catalog) c"
    if "p \<in> set (named_products catalog r)" for p
  proof -
    from that obtain d where d: "d \<in> set (cr_ingredients c)" "ri_canonical_name d = cp_canonical_name p" "p \<in> set catalog"
      unfolding named_products_def candidate_names[OF assms, symmetric] by auto
    then have "lower_set (cp_allergens p) \<subseteq> dget (allergen_validator_init catalog) (ri_canonical_name d) {}"
      by (auto simp: dget_allergen_init)
    then have "lower_set (cp_allergens p) \<subseteq> ingredient_tokens (allergen_validator_init catalog) d"
      by (auto simp: ingredient_tokens_def Let_def)
    with sub[OF d(1)] show ?thesis by (rule order_trans[rotated])
  qed
  have "lower_set (declared_codes db (rcp_ingredients r)) \<subseteq> recipe_tokens (allergen_validator_init catalog) c"
    using assms by (auto simp: in_recipe_tokens candidate_of_def)
  with words products show ?thesis unfolding row_tokens_def by (intro Un_least UN_least)
qed

lemma restriction_hit_mono: "A \<subseteq> B \<Longrightarrow> restriction_hit A x \<Longrightarrow> restriction_hit B x"
  by (auto simp: restriction_hit_def split: option.splits)

lemma finite_hard_restrictions: "finite (hard_restrictions_of p)"
  by (simp add: hard_restrictions_of_def split: option.split)

definition member_speaks :: "dietary_profile option \<Rightarrow> member_dto \<Rightarrow> bool" where
  "member_speaks profile m \<longleftrightarrow>
     mb_allergens m = (case profile of None \<Rightarrow> {} | Some p \<Rightarrow> set (map alg_code (dp_allergies p))) \<and>
     mb_strict_allergen_codes m = (case profile of None \<Rightarrow> {} | Some p \<Rightarrow> strict_codes_of p) \<and>
     mb_hard_restrictions m = (case profile of None \<Rightarrow> {} | Some p \<Rightarrow> hard_restrictions_of p)"

lemma member_speaks_finite: "member_speaks p m \<Longrightarrow> finite (mb_hard_restrictions m)"
  by (cases p) (simp_all add: member_speaks_def finite_hard_restrictions)

lemma member_of_speaks: "member_speaks (first_profile e) (member_of rejected a e)"
  by (simp add: member_speaks_def member_of_def Let_def)

lemma apply_bias_members:
  obtains f where "in_members (apply_bias p inp) = map (\<lambda>m. m\<lparr>mb_rejected_recipe_ids := f m\<rparr>) (in_members inp)"
proof (cases p)
  case None
  then show thesis by (intro that[of mb_rejected_recipe_ids]) (simp add: apply_bias_def)
next
  case (Some d)
  then show thesis
    by (intro that[of "\<lambda>m. mb_rejected_recipe_ids m \<union> set (dget d ''rejected_recipe_ids'' [])"])
      (simp add: apply_bias_def Let_def)
qed

lemma speaks_rejected [simp]: "member_speaks p (m\<lparr>mb_rejected_recipe_ids := x\<rparr>) = member_speaks p m"
  by (simp add: member_speaks_def)

text \<open>Whatever a job rejects on top, the members the engine sees speak for the diners.\<close>

lemma biased_members:
  assumes "in_members inp = build_members db hh rejected"
  shows "e \<in> set (eaters db hh) \<Longrightarrow> \<exists>m\<in>set (in_members (apply_bias p inp)). member_speaks (first_profile e) m"
    and "m \<in> set (in_members (apply_bias p inp)) \<Longrightarrow> finite (mb_hard_restrictions m)"
proof -
  obtain f where f: "in_members (apply_bias p inp) = map (\<lambda>m. m\<lparr>mb_rejected_recipe_ids := f m\<rparr>) (in_members inp)"
    by (rule apply_bias_members)
  show "\<exists>m\<in>set (in_members (apply_bias p inp)). member_speaks (first_profile e) m" if "e \<in> set (eaters db hh)"
  proof -
    from build_members_eater[OF that] obtain a where "member_of rejected a e \<in> set (in_members inp)"
      unfolding assms by blast
    then show ?thesis unfolding f using member_of_speaks[of e rejected a] by auto
  qed
  show "finite (mb_hard_restrictions m)" if "m \<in> set (in_members (apply_bias p inp))"
  proof -
    obtain as where "in_members inp = map2 (member_of rejected) as
        (sort_key (\<lambda>m. (hm_joined_at m, hm_id m)) (eaters db hh))"
      unfolding assms by (rule build_members_rows)
    with that f obtain a e where "mb_hard_restrictions m = mb_hard_restrictions (member_of rejected a e)" by auto
    then show ?thesis using member_speaks_finite[OF member_of_speaks] by metis
  qed
qed

text \<open>An admissible candidate is safe for every diner, read off the rows.\<close>

lemma admissible_safe:
  assumes adm: "admissible inp c" and cand: "candidate_of db c r"
    and fin: "\<And>m. m \<in> set (in_members inp) \<Longrightarrow> finite (mb_hard_restrictions m)"
    and m: "m \<in> set (in_members inp)" "member_speaks (Some p) m"
  shows "safe_for db (in_catalog inp) r p"
proof -
  from adm have allergen: "canon_allergens (recipe_allergen_sources (in_catalog inp) c) \<inter>
      (\<Union>m \<in> set (in_members inp). canon_allergens (mb_allergens m)) = {}"
    "(\<exists>m \<in> set (in_members inp). canon_allergens (mb_strict_allergen_codes m) \<noteq> {}) \<Longrightarrow>
      \<forall>ing \<in> set (cr_ingredients c). ri_allergen_assessed ing"
    unfolding admissible_def allergen_validate_valid derived_allergens_sources by blast+
  from adm have diet: "\<forall>m \<in> set (in_members inp). \<forall>x \<in> lower_set (mb_hard_restrictions m).
      \<not> restriction_hit (recipe_tokens (allergen_validator_init (in_catalog inp)) c) x"
    using diet_fold_valid[of "in_members inp" "recipe_tokens (allergen_validator_init (in_catalog inp)) c" validation_ok] fin
    unfolding admissible_def diet_validate_def by blast
  have "canon_allergens (set (map alg_code (dp_allergies p))) \<inter> row_allergens db (in_catalog inp) r = {}"
  proof -
    have "canon_allergens (mb_allergens m) \<inter> row_allergens db (in_catalog inp) r = {}"
      using allergen(1) m(1) unfolding candidate_sources[OF cand] by blast
    then show ?thesis using m(2) by (simp add: member_speaks_def)
  qed
  moreover have "list_all (\<lambda>ri. assessed db (rgi_ingredient ri)) (rcp_ingredients r)"
    if "list_ex (\<lambda>a. alg_severity a \<noteq> SevIntolerance \<and> py_strip (alg_code a) \<noteq> []) (dp_allergies p)"
  proof -
    have "\<forall>ing \<in> set (cr_ingredients c). ri_allergen_assessed ing"
      using strict_codes_severe[OF that] m by (intro allergen(2) bexI[OF _ m(1)]) (simp add: member_speaks_def)
    then show ?thesis unfolding list_all_iff using candidate_line[OF cand] by metis
  qed
  moreover have "\<not> restriction_hit (row_tokens db (in_catalog inp) r) x" if "x \<in> lower_set (hard_restrictions_of p)" for x
  proof
    assume "restriction_hit (row_tokens db (in_catalog inp) r) x"
    from restriction_hit_mono[OF candidate_tokens[OF cand] this] diet m that show False
      by (simp add: member_speaks_def)
  qed
  ultimately show ?thesis using ruled_out_restricted[of _ p] by (auto simp: safe_for_def list_all_iff)
qed


section \<open>Completed jobs\<close>

text \<open>\<open>finished_job env job db mp j\<close>: processing \<open>job\<close> of the plan \<open>mp\<close> ended with its row \<open>j\<close> completed.\<close>

definition finished_job :: "generation_env \<Rightarrow> generation_job \<Rightarrow> plan_db \<Rightarrow> optimization_run \<Rightarrow> meal_plan \<Rightarrow> bool" where
  "finished_job env job db run mp \<longleftrightarrow>
     Option.bind (gj_run job) (\<lambda>k. find_row orn_id k (pl_runs db)) = Some run \<and>
     find_row mp_id (orn_plan run) (pl_plans db) = Some mp \<and>
     (case find_row gj_id (gj_id job) (pl_jobs (process_generation_job env job db)) of
        None \<Rightarrow> False | Some j \<Rightarrow> gj_status j = OS_completed)"

lemma handle_failure_status:
  assumes "find_row gj_id (gj_id job) (pl_jobs (handle_failure env job run mp e db)) = Some j"
  shows "gj_status j = (if gj_max_attempts job \<le> gj_attempts job + 1 then OS_failed else OS_queued)"
  using assms by (auto simp: handle_failure_def Let_def set_plan_status_def update_plan_run_def find_job_update split: if_splits)

lemma finished_job_executed:
  assumes "finished_job env job db run mp"
  obtains j where "execute_job env job run mp db = Inr (process_generation_job env job db)"
    "find_row gj_id (gj_id job) (pl_jobs (process_generation_job env job db)) = Some j" "gj_status j = OS_completed"
proof -
  from assms obtain j where j: "find_row gj_id (gj_id job) (pl_jobs (process_generation_job env job db)) = Some j"
    "gj_status j = OS_completed" by (auto simp: finished_job_def split: option.splits)
  have p: "process_generation_job env job db = (case execute_job env job run mp db of
      Inl e \<Rightarrow> handle_failure env job run mp e db | Inr db \<Rightarrow> db)"
    using assms by (simp add: finished_job_def process_generation_job_def)
  have "execute_job env job run mp db = Inr (process_generation_job env job db)"
  proof (cases "execute_job env job run mp db")
    case (Inl e)
    with p j(1) have "find_row gj_id (gj_id job) (pl_jobs (handle_failure env job run mp e db)) = Some j" by simp
    from handle_failure_status[OF this] j(2) show ?thesis by (simp split: if_splits)
  qed (simp add: p)
  with j show thesis by (intro that)
qed

lemma finish_job_tables [simp]:
  "pl_meals (finish_job now i s e db) = pl_meals db"
  "pl_grocery_lists (finish_job now i s e db) = pl_grocery_lists db"
  "pl_items (finish_job now i s e db) = pl_items db" "pl_recipes (finish_job now i s e db) = pl_recipes db"
  "pl_ingredients (finish_job now i s e db) = pl_ingredients db" "pl_plans (finish_job now i s e db) = pl_plans db"
  "pl_runs (finish_job now i s e db) = pl_runs db"
  by (simp_all add: finish_job_def update_generation_job_def)

lemma clear_previous_tables [simp]:
  "pl_meals (clear_previous p db) = filter (\<lambda>m. pml_plan m \<noteq> p) (pl_meals db)"
  "pl_grocery_lists (clear_previous p db) = filter (\<lambda>g. gry_id g \<notin> set (plan_lists p db)) (pl_grocery_lists db)"
  "pl_items (clear_previous p db) = filter (\<lambda>i. gli_list i \<notin> set (plan_lists p db)) (pl_items db)"
  "pl_recipes (clear_previous p db) = pl_recipes db" "pl_ingredients (clear_previous p db) = pl_ingredients db"
  by (simp_all add: clear_previous_def Let_def)

lemma completed_job:
  assumes keys: "keys_ok ing_id (pl_ingredients db)" "keys_ok rcp_id (pl_recipes db)"
    and fin: "finished_job env job db run mp"
  obtains inp r ms g items where
    "generate_plan (ge_draw env (orn_seed run)) inp = Inr (Plan r)"
    "in_catalog inp = build_catalog (ge_settings env) db (mp_retailer mp)"
    "in_available_equipment inp = build_equipment db (mp_household mp)"
    "build_requirements db mp = Inr (in_meal_requirements inp)" "plan_budget mp = Inr (in_budget inp)"
    "in_date_range inp = (mp_start_date mp, mp_end_date mp)"
    "\<And>e. e \<in> set (eaters db (mp_household mp)) \<Longrightarrow> \<exists>m\<in>set (in_members inp). member_speaks (first_profile e) m"
    "\<And>m. m \<in> set (in_members inp) \<Longrightarrow> finite (mb_hard_restrictions m)"
    "\<And>c. c \<in> set (in_candidates inp) \<Longrightarrow> proposed (process_generation_job env job db) (mp_household mp) c"
    "pl_ingredients (process_generation_job env job db) = pl_ingredients db"
    "pl_meals (process_generation_job env job db) = filter (\<lambda>m. pml_plan m \<noteq> mp_id mp) (pl_meals db) @ ms"
    "pl_grocery_lists (process_generation_job env job db) =
       filter (\<lambda>g. gry_id g \<notin> set (plan_lists (mp_id mp) db)) (pl_grocery_lists db) @ [g]"
    "pl_items (process_generation_job env job db) =
       filter (\<lambda>i. gli_list i \<notin> set (plan_lists (mp_id mp) db)) (pl_items db) @ items"
    "list_all2 (meal_row (mp_id mp) (requirement_by_type db (mp_id mp))) (pr_planned_meals r) ms"
    "list_all2 (item_row (gry_id g) (line_resolver_init (ps_postal_code (ge_settings env)) db (mp_retailer mp)))
       (pr_grocery_lines r) items"
    "gry_plan g = mp_id mp"
    "gry_id g \<notin> gry_id ` set (filter (\<lambda>g. gry_id g \<notin> set (plan_lists (mp_id mp) db)) (pl_grocery_lists db))"
    "gry_known_cost g = Some (ct_known (pr_cost_total r))"
    "gry_estimated_cost g = Some (ct_estimated (pr_cost_total r))"
    "gry_coverage_status g = cv_status (pr_coverage r)"
proof -
  let ?st = "ge_settings env" let ?i = "gj_id job" let ?o = "orn_id run"
  let ?t = "transition (ge_now env) ?o ?i"
  let ?start = "?t OS_collecting_data True db"
  let ?db' = "process_generation_job env job db"
  from fin obtain j where ex: "execute_job env job run mp db = Inr ?db'"
    and j: "find_row gj_id ?i (pl_jobs ?db') = Some j" "gj_status j = OS_completed"
    by (rule finished_job_executed)
  from ex j obtain inp ws db1 r db2 where inp: "build_plan_input ?st (ge_call env) (ge_parse env) (orn_seed run)
       (ge_today env) mp ?start = Inr (inp, ws, db1)"
    and gen: "generate_plan (ge_draw env (orn_seed run)) (apply_bias (gj_payload job) inp) = Inr (Plan r)"
    and persist: "persist_plan_result ?st (ge_now env) mp ?o (with_warnings ws r)
       (?t OS_optimizing False (?t OS_validating False (?t OS_generating_candidates False db1))) = Inr db2"
    and db': "?db' = finish_job (ge_now env) ?i OS_completed None db2"
    by (rule execute_job_completed)
  let ?busy = "?t OS_optimizing False (?t OS_validating False (?t OS_generating_candidates False db1))"
  from inp obtain bd where input: "in_members inp = build_members ?start (mp_household mp) (rejected_recipe_ids ?start (mp_household mp))"
    "build_requirements ?start mp = Inr (in_meal_requirements inp)" "plan_budget mp = Inr (in_budget inp)"
    "in_date_range inp = (mp_start_date mp, mp_end_date mp)"
    "in_available_equipment inp = build_equipment ?start (mp_household mp)"
    "in_catalog inp = build_catalog ?st ?start (mp_retailer mp)" "in_candidates inp = cbn_candidates bd"
    and cand: "get_candidates ?st (ge_call env) (ge_parse env) (candidate_request_of mp (in_members inp)
       (in_meal_requirements inp) (in_budget inp) (in_available_equipment inp) (in_catalog inp)) ?start = Inr (bd, db1)"
    by (rule build_plan_input_ok)
  have "keys_ok ing_id (pl_ingredients ?start)" "keys_ok rcp_id (pl_recipes ?start)" using keys by simp_all
  from get_candidates_proposed[OF this cand] have adds: "adds_recipes ?start db1"
    and offers: "\<forall>c\<in>set (in_candidates inp). proposed db1 (mp_household mp) c" unfolding input(7) by simp_all
  from adds have db1: "db1 = ?start\<lparr>pl_recipes := pl_recipes db1\<rparr>" by (simp add: adds_recipes_def)
  have tables: "pl_market db1 = pl_market db" "pl_ingredients db1 = pl_ingredients db" "pl_mappings db1 = pl_mappings db"
    "pl_products db1 = pl_products db" "pl_requirements db1 = pl_requirements db" "pl_meals db1 = pl_meals db"
    "pl_grocery_lists db1 = pl_grocery_lists db" "pl_items db1 = pl_items db"
    by (subst db1, simp)+
  have lists: "plan_lists p ?busy = plan_lists p db" for p by (simp add: plan_lists_def tables)
  from persist obtain ms g items where p: "db2 = (clear_previous (mp_id mp) ?busy)\<lparr>
       pl_meals := pl_meals (clear_previous (mp_id mp) ?busy) @ ms,
       pl_grocery_lists := pl_grocery_lists (clear_previous (mp_id mp) ?busy) @ [g],
       pl_items := pl_items (clear_previous (mp_id mp) ?busy) @ items,
       pl_runs := update_row orn_id ?o (\<lambda>q. q\<lparr>orn_result_summary := Some (with_warnings ws r), orn_infeasibility_report := None,
         orn_status := OS_completed, orn_finished_at := Some (ge_now env)\<rparr>) (pl_runs ?busy),
       pl_plans := update_row mp_id (mp_id mp) (\<lambda>mp. mp\<lparr>mp_status := MP_ready\<rparr>) (pl_plans ?busy)\<rparr>"
    "list_all2 (meal_row (mp_id mp) (requirement_by_type ?busy (mp_id mp))) (pr_planned_meals (with_warnings ws r)) ms"
    "list_all2 (item_row (gry_id g) (line_resolver_init (ps_postal_code ?st) ?busy (mp_retailer mp)))
       (pr_grocery_lines (with_warnings ws r)) items"
    "gry_plan g = mp_id mp" "gry_id g \<notin> gry_id ` set (pl_grocery_lists (clear_previous (mp_id mp) ?busy))"
    "gry_known_cost g = Some (ct_known (pr_cost_total (with_warnings ws r)))"
    "gry_estimated_cost g = Some (ct_estimated (pr_cost_total (with_warnings ws r)))"
    "gry_coverage_status g = cv_status (pr_coverage (with_warnings ws r))"
    by (rule persist_plan_result_ok)
  have res: "line_resolver_init (ps_postal_code ?st) ?busy (mp_retailer mp) =
      line_resolver_init (ps_postal_code ?st) db (mp_retailer mp)"
    by (rule line_resolver_cong) (simp_all add: tables)
  have req: "requirement_by_type ?busy p = requirement_by_type db p" for p
    by (simp add: requirement_by_type_def plan_requirements_def tables)
  have recs: "pl_recipes ?db' = pl_recipes db1" "pl_ingredients ?db' = pl_ingredients db1"
    by (simp_all add: db' p(1))
  have "eaters ?start = eaters db" by (simp add: fun_eq_iff eaters_def)
  note members = biased_members[OF input(1), unfolded this]
  show thesis
  proof (rule that[OF gen, where ms = ms and g = g and items = items])
    show "in_catalog (apply_bias (gj_payload job) inp) = build_catalog ?st db (mp_retailer mp)"
      using build_catalog_cong[of ?start db] by (simp add: input(6))
    show "in_available_equipment (apply_bias (gj_payload job) inp) = build_equipment db (mp_household mp)"
      by (simp add: input(5) build_equipment_def)
    show "build_requirements db mp = Inr (in_meal_requirements (apply_bias (gj_payload job) inp))"
      using input(2) by (simp add: build_requirements_def plan_requirements_def)
    show "proposed ?db' (mp_household mp) c" if "c \<in> set (in_candidates (apply_bias (gj_payload job) inp))" for c
      using offers that recs(1) candidate_of_cong[OF recs(2)] by (simp add: proposed_def)
    show "plan_budget mp = Inr (in_budget (apply_bias (gj_payload job) inp))" by (simp add: input(3))
    show "in_date_range (apply_bias (gj_payload job) inp) = (mp_start_date mp, mp_end_date mp)" by (simp add: input(4))
  qed (use members p(2-8) res req lists recs(2) in \<open>simp_all add: db' p(1) tables\<close>)
qed

section \<open>An example\<close>

text \<open>Storing raises only when the engine names a key that is no number.\<close>

definition numbered :: "plan_result \<Rightarrow> bool" where
  "numbered r \<longleftrightarrow> list_all (\<lambda>m. int_of_str (pm_recipe_id m) \<noteq> None) (pr_planned_meals r) \<and>
     list_all (\<lambda>l. case gl_product_id l of None \<Rightarrow> True | Some s \<Rightarrow> int_of_str s \<noteq> None) (pr_grocery_lines r)"

lemma fold_raise_total:
  "(\<And>x s. x \<in> set xs \<Longrightarrow> \<exists>s'. f x s = Inr s') \<Longrightarrow> \<exists>s'. fold_raise f xs s = Inr s'"
proof (induction xs arbitrary: s)
  case Nil
  then show ?case by simp
next
  case (Cons x xs)
  from Cons.prems[of x s] obtain s1 where "f x s = Inr s1" by auto
  with Cons.IH[of s1] Cons.prems show ?case by simp
qed

lemma persist_plan_result_total:
  assumes "numbered r"
  obtains db' where "persist_plan_result st now mp run r db = Inr db'"
proof -
  let ?c = "clear_previous (mp_id mp) db"
  have "\<exists>s'. add_meal plan by_type m s = Inr s'" if "m \<in> set (pr_planned_meals r)" for m plan by_type s
    using assms that by (auto simp: numbered_def list_all_iff add_meal_def split: option.split)
  then obtain db1 where db1: "fold_raise (add_meal (mp_id mp) (requirement_by_type ?c (mp_id mp))) (pr_planned_meals r) ?c = Inr db1"
    using fold_raise_total[of "pr_planned_meals r"] by metis
  have "\<exists>s'. add_item i res l s = Inr s'" if "l \<in> set (pr_grocery_lines r)" for l i res s
    using assms that by (auto simp: numbered_def list_all_iff add_item_def resolve_line_def Let_def split: option.splits)
  then obtain db2 where "persist_grocery_list st mp r db1 = Inr db2"
    using fold_raise_total[of "pr_grocery_lines r"] unfolding persist_grocery_list_def Let_def by metis
  with db1 show thesis by (intro that) (simp add: persist_plan_result_def)
qed

definition planned_product :: "string \<Rightarrow> string \<Rightarrow> dec \<Rightarrow> int \<Rightarrow> string set \<Rightarrow> catalog_product_dto" where
  "planned_product pid name price seen codes =
     \<lparr>cp_product_id = pid, cp_canonical_name = name, cp_display_name = name, cp_category = ''uncategorized'',
      cp_packages = [(example_package pid 1000 price)\<lparr>po_observed_at := Some seen, po_expires_at := Some (seen + 30)\<rparr>],
      cp_nutrition = None, cp_allergens = codes\<rparr>"

definition planned_dish :: "string \<Rightarrow> string \<Rightarrow> string \<Rightarrow> string set \<Rightarrow> candidate_recipe_dto" where
  "planned_dish i title name codes =
     (example_recipe i 2 [example_ingredient name 200 ''g''])\<lparr>cr_title := title, cr_meal_types := {Lunch}, cr_cuisine := '''',
        cr_steps := [''cocer''], cr_required_equipment := {''olla''}, cr_allergens_declared := codes\<rparr>"

definition planned_input :: "ingredient_conversion_dto list \<Rightarrow> plan_input" where
  "planned_input conversions =
     \<lparr>in_members = [example_member ''ana'' {''huevo''} {''huevo''} {}],
      in_meal_requirements = [example_requirement Lunch 1],
      in_budget = example_budget 10, in_date_range = (739000, 739000), in_available_equipment = {''olla''},
      in_catalog = [planned_product ''1'' ''arroz'' (5 / 2) 719164 {}, planned_product ''2'' ''huevo'' 3 719163 {''egg''}],
      in_candidates = [planned_dish ''1'' ''Arroz'' ''arroz'' {}, planned_dish ''2'' ''Tortilla'' ''huevo'' {''egg''}],
      in_pantry = [], in_favorites = {}, in_conversions = conversions, in_weights = default_weights,
      in_nutrition_target = None, in_seed = 7, in_as_of = Some 739000\<rparr>"

definition example_env :: generation_env where
  "example_env = \<lparr>ge_settings = example_settings, ge_call = (\<lambda>_ _. Inl ''''), ge_parse = (\<lambda>_. None),
     ge_draw = (\<lambda>_ _. 0), ge_today = 739000, ge_now = 5\<rparr>"

abbreviation example_start :: plan_db where
  "example_start \<equiv> transition 5 1 1 OS_collecting_data True example_tables"

lemma example_preflight: "run_preflight example_start example_plan = None"
  by code_simp

lemma example_input_built:
  "build_plan_input example_settings (\<lambda>_ _. Inl '''') (\<lambda>_. None) 7 739000 example_plan example_start =
     Inr (planned_input (build_conversions example_tables), [], example_start)"
  by code_simp

lemma example_planned:
  "case generate_plan (\<lambda>_. 0) (planned_input conversions) of
     Inl e \<Rightarrow> False | Inr (Infeasible r) \<Rightarrow> False
   | Inr (Plan r) \<Rightarrow> map pm_recipe_id (pr_planned_meals r) = [''1''] \<and> map gl_product_id (pr_grocery_lines r) = [Some ''1'']"
  by code_simp

lemma example_numbered: "int_of_str ''1'' = Some 1"
  by code_simp

lemma example_rows:
  "find_row orn_id 1 (pl_runs example_tables) = Some example_run_row"
  "find_row mp_id 1 (pl_plans example_tables) = Some example_plan"
  "pl_jobs example_tables = [example_job_row]"
  by (simp_all add: example_tables_def find_row_def example_run_row_def example_plan_def)

text \<open>The queued generation of the example household is completed.\<close>

lemma example_completed: "finished_job example_env example_job_row example_tables example_run_row example_plan"
proof -
  obtain r where r: "generate_plan (\<lambda>_. 0) (planned_input (build_conversions example_tables)) = Inr (Plan r)"
    "map pm_recipe_id (pr_planned_meals r) = [''1'']" "map gl_product_id (pr_grocery_lines r) = [Some ''1'']"
    using example_planned[of "build_conversions example_tables"] by (auto split: sum.splits plan_outcome.splits)
  have num: "numbered r" using r(2,3) example_numbered by (auto simp: numbered_def map_eq_Cons_conv)
  let ?t = "transition 5 1 1"
  let ?busy = "?t OS_optimizing False (?t OS_validating False (?t OS_generating_candidates False example_start))"
  obtain db2 where db2: "persist_plan_result example_settings 5 example_plan 1 r ?busy = Inr db2"
    using num by (rule persist_plan_result_total)
  have ids: "gj_id example_job_row = 1" "orn_id example_run_row = 1" "orn_seed example_run_row = 7"
    "gj_payload example_job_row = None" "gj_run example_job_row = Some 1" "orn_plan example_run_row = 1"
    by (simp_all add: example_job_row_def example_run_row_def)
  have env: "ge_settings example_env = example_settings" "ge_call example_env = (\<lambda>_ _. Inl '''')"
    "ge_parse example_env = (\<lambda>_. None)" "ge_draw example_env = (\<lambda>_ _. 0)" "ge_today example_env = 739000"
    "ge_now example_env = 5"
    by (simp_all add: example_env_def)
  have ex: "execute_job example_env example_job_row example_run_row example_plan example_tables =
      Inr (finish_job 5 1 OS_completed None db2)"
    unfolding execute_job_def Let_def ids env example_preflight
    by (simp add: example_input_built apply_bias_def with_warnings_def r(1) db2)
  have p: "process_generation_job example_env example_job_row example_tables = finish_job 5 1 OS_completed None db2"
    by (simp add: process_generation_job_def ids example_rows ex)
  from db2 have "pl_jobs db2 = pl_jobs ?busy"
    by (rule persist_plan_result_ok) (simp add: clear_previous_def Let_def)
  then have "find_row gj_id 1 (pl_jobs (finish_job 5 1 OS_completed None db2)) \<noteq> None \<and>
      (\<forall>j. find_row gj_id 1 (pl_jobs (finish_job 5 1 OS_completed None db2)) = Some j \<longrightarrow> gj_status j = OS_completed)"
    by (auto simp: finish_job_def update_generation_job_def transition_eq example_rows find_row_def update_row_def ids)
  then show ?thesis by (auto simp: finished_job_def ids example_rows p split: option.split)
qed

section \<open>Properties\<close>

lemma list_all2_right:
  assumes "list_all2 P xs ys" "y \<in> set ys"
  obtains x where "x \<in> set xs" "P x y"
proof -
  from assms(2) obtain i where "i < length ys" "ys ! i = y" by (auto simp: in_set_conv_nth)
  with assms(1) show thesis by (intro that[of "xs ! i"]) (auto simp: list_all2_conv_all_nth)
qed

lemma planned_slots:
  assumes "generate_plan draw inp = Inr (Plan r)"
  shows "list_all2 (\<lambda>s m. \<exists>c\<in>set (in_candidates inp). admissible inp c \<and> fits_slot s c \<and>
      pm_recipe_id m = cr_recipe_id c \<and> pm_date m = sl_date s \<and> pm_meal_type m = sl_meal_type s \<and>
      pm_servings m = sl_servings s) (slots_of inp) (pr_planned_meals r)"
  using assms
proof (cases rule: generated_plan)
  case empty
  then show ?thesis by (simp add: empty_plan_def)
next
  case (plan cs prov)
  show ?thesis by (rule list_all2_zip_trans[OF plan(1)[unfolded plan_fits_def] plan(4)]) auto
qed

lemma candidate_row:
  assumes "proposed db hh c" "int_of_str (cr_recipe_id c) = Some i"
  obtains r where "r \<in> set (pl_recipes db)" "candidate_of db c r" "rcp_id r = i"
    "(rcp_public r \<and> rcp_deleted_at r = None) \<or> (rcp_origin r = RO_ai_generated \<and> rcp_household r = Some hh)"
  using assms by (auto simp: proposed_def candidate_of_def)

text \<open>A stored recipe that may be the meal \<open>m\<close>: for this household, this meal, this equipment, these diners.\<close>

definition allowed_row :: "plan_settings \<Rightarrow> plan_db \<Rightarrow> meal_plan \<Rightarrow> planned_meal_row \<Rightarrow> recipe \<Rightarrow> bool" where
  "allowed_row st db mp m r \<longleftrightarrow> rcp_id r = pml_recipe m \<and>
     ((rcp_public r \<and> rcp_deleted_at r = None) \<or>
      (rcp_origin r = RO_ai_generated \<and> rcp_household r = Some (mp_household mp))) \<and>
     pml_meal_type m \<in> set (list_or_empty (rcp_meal_types r)) \<and>
     set (list_or_empty (rcp_required_equipment r)) \<subseteq> build_equipment db (mp_household mp) \<and>
     list_all (\<lambda>e. case first_profile e of None \<Rightarrow> True
        | Some p \<Rightarrow> safe_for db (build_catalog st db (mp_retailer mp)) r p) (eaters db (mp_household mp))"

lemma planned_row_allowed:
  assumes gen: "generate_plan draw inp = Inr (Plan r)"
    and cat: "in_catalog inp = build_catalog st db (mp_retailer mp)"
    and eq: "in_available_equipment inp = build_equipment db (mp_household mp)"
    and speak: "\<And>e. e \<in> set (eaters db (mp_household mp)) \<Longrightarrow> \<exists>m\<in>set (in_members inp). member_speaks (first_profile e) m"
    and fin: "\<And>m. m \<in> set (in_members inp) \<Longrightarrow> finite (mb_hard_restrictions m)"
    and offers: "\<And>c. c \<in> set (in_candidates inp) \<Longrightarrow> proposed db' (mp_household mp) c"
    and ings: "pl_ingredients db' = pl_ingredients db"
    and d: "d \<in> set (pr_planned_meals r)" "meal_row (mp_id mp) links d m"
  shows "list_ex (allowed_row st db mp m) (pl_recipes db')"
proof -
  obtain s where "\<exists>c\<in>set (in_candidates inp). admissible inp c \<and> fits_slot s c \<and>
    pm_recipe_id d = cr_recipe_id c \<and> pm_date d = sl_date s \<and> pm_meal_type d = sl_meal_type s \<and>
    pm_servings d = sl_servings s"
    by (rule list_all2_right[OF planned_slots[OF gen] d(1)])
  then obtain c where c: "c \<in> set (in_candidates inp)" "admissible inp c" "fits_slot s c"
    "pm_recipe_id d = cr_recipe_id c" "pm_meal_type d = sl_meal_type s" by blast
  from d(2) c(4) have "int_of_str (cr_recipe_id c) = Some (pml_recipe m)" by (simp add: meal_row_def)
  with offers[OF c(1)] obtain row where row: "row \<in> set (pl_recipes db')" "candidate_of db c row"
    "rcp_id row = pml_recipe m" "(rcp_public row \<and> rcp_deleted_at row = None) \<or>
     (rcp_origin row = RO_ai_generated \<and> rcp_household row = Some (mp_household mp))"
    unfolding candidate_of_cong[OF ings, symmetric] by (rule candidate_row)
  have "pml_meal_type m \<in> set (list_or_empty (rcp_meal_types row))"
    using c(3,5) d(2) row(2) by (simp add: fits_slot_def meal_row_def candidate_of_def)
  moreover have "set (list_or_empty (rcp_required_equipment row)) \<subseteq> build_equipment db (mp_household mp)"
    using c(2) row(2) eq by (simp add: admissible_def candidate_of_def)
  moreover have "safe_for db (build_catalog st db (mp_retailer mp)) row p"
    if e: "e \<in> set (eaters db (mp_household mp))" "first_profile e = Some p" for e p
  proof -
    from speak[OF e(1)] e(2) obtain mb where "mb \<in> set (in_members inp)" "member_speaks (Some p) mb" by auto
    then show ?thesis using admissible_safe[OF c(2) row(2)] fin cat by metis
  qed
  ultimately have "allowed_row st db mp m row"
    unfolding allowed_row_def list_all_iff using row(3,4) by (simp split: option.split)
  with row(1) show ?thesis by (auto simp: list_ex_iff)
qed

text \<open>C1 Nobody is served what harms them. When a generation job ends completed, every meal stored
  for its plan is a recipe of the database, public and not deleted or written for this household,
  that is meant for that meal and needs only the household's available equipment; and for every
  diner no allergy code names an allergen of an ingredient row or of a catalogued product of that
  name, a serious allergy leaves no ingredient unassessed, and no diet or avoided food is hit by
  a name, a word of a name, a category or an allergen of the rows.\<close>

theorem stored_plan_safe:
  assumes "keys_ok ing_id (pl_ingredients db)" and "keys_ok rcp_id (pl_recipes db)"
    and "finished_job env job db run mp"
  shows "list_all (\<lambda>m. list_ex (allowed_row (ge_settings env) db mp m) (pl_recipes (process_generation_job env job db)))
    (filter (\<lambda>m. pml_plan m = mp_id mp) (pl_meals (process_generation_job env job db)))"
  using assms
proof (rule completed_job)
  fix inp r ms
  let ?db' = "process_generation_job env job db"
  assume facts: "generate_plan (ge_draw env (orn_seed run)) inp = Inr (Plan r)"
      "in_catalog inp = build_catalog (ge_settings env) db (mp_retailer mp)"
      "in_available_equipment inp = build_equipment db (mp_household mp)"
      "\<And>e. e \<in> set (eaters db (mp_household mp)) \<Longrightarrow> \<exists>m\<in>set (in_members inp). member_speaks (first_profile e) m"
      "\<And>m. m \<in> set (in_members inp) \<Longrightarrow> finite (mb_hard_restrictions m)"
      "\<And>c. c \<in> set (in_candidates inp) \<Longrightarrow> proposed ?db' (mp_household mp) c"
      "pl_ingredients ?db' = pl_ingredients db"
    and meals: "pl_meals ?db' = filter (\<lambda>m. pml_plan m \<noteq> mp_id mp) (pl_meals db) @ ms"
    and rows: "list_all2 (meal_row (mp_id mp) (requirement_by_type db (mp_id mp))) (pr_planned_meals r) ms"
  show ?thesis unfolding list_all_iff[of _ "filter _ _"]
  proof
    fix m assume "m \<in> set (filter (\<lambda>m. pml_plan m = mp_id mp) (pl_meals ?db'))"
    then have "m \<in> set ms" by (auto simp: meals)
    with rows obtain d where d: "d \<in> set (pr_planned_meals r)"
      "meal_row (mp_id mp) (requirement_by_type db (mp_id mp)) d m" by (rule list_all2_right)
    show "list_ex (allowed_row (ge_settings env) db mp m) (pl_recipes ?db')"
      by (rule planned_row_allowed[OF facts d])
  qed
qed

lemma example_keys:
  "keys_ok ing_id (pl_ingredients example_tables)" "keys_ok rcp_id (pl_recipes example_tables)"
  by (simp_all add: example_tables_def example_row_def example_dish_def keys_ok_def)

theorem stored_plan_safe_witness:
  "list_all (\<lambda>m. list_ex (\<lambda>r. rcp_id r = pml_recipe m \<and>
      ''egg'' \<notin> row_allergens example_tables (build_catalog example_settings example_tables (Some 7)) r)
     (pl_recipes (process_generation_job example_env example_job_row example_tables)))
    (filter (\<lambda>m. pml_plan m = 1) (pl_meals (process_generation_job example_env example_job_row example_tables)))"
proof -
  have "canon_allergens {''huevo''} = {''egg''}" by code_simp
  then have no_egg: "safe_for example_tables (build_catalog example_settings example_tables (Some 7)) r
      (hd (hm_profiles example_diner)) \<Longrightarrow>
      ''egg'' \<notin> row_allergens example_tables (build_catalog example_settings example_tables (Some 7)) r" for r
    by (simp add: safe_for_def example_diner_def)
  have facts: "eaters example_tables 1 = [example_diner]" "mp_id example_plan = 1" "mp_household example_plan = 1"
    "mp_retailer example_plan = Some 7" "ge_settings example_env = example_settings"
    by (simp_all add: eaters_def example_tables_def example_diner_def example_plan_def example_env_def)
  have "first_profile example_diner = Some (hd (hm_profiles example_diner))"
    by (simp add: first_profile_def example_diner_def)
  with stored_plan_safe[OF example_keys example_completed] facts show ?thesis
    by (simp add: list_all_iff list_ex_iff allowed_row_def) (meson no_egg)
qed



lemma chosen_expired:
  assumes "choose_package pend opts as_of ww wc = Some c" "ch_expired c" shows "\<not> ch_price_known c"
proof -
  from assms(1) obtain opt where "evaluate_option pend as_of ww wc opt = Some (option_key c ww wc, c)"
    by (rule choose_package_Some)
  from evaluate_option_Some(3,4)[OF this] assms(2) show ?thesis by simp
qed

lemma line_of_expired: "gl_expired (line_of ps meta n) \<Longrightarrow> \<not> gl_subtotal_known (line_of ps meta n)"
  by (auto simp: line_of_def split: option.splits if_splits prod.splits dest: chosen_expired)

lemma planned_lines_expired:
  assumes "generate_plan draw inp = Inr (Plan r)" and "l \<in> set (pr_grocery_lines r)" and "gl_expired l"
  shows "\<not> gl_subtotal_known l"
  using assms(1)
proof (cases rule: generated_plan)
  case empty
  with assms(2) show ?thesis by (simp add: empty_plan_def)
next
  case (plan cs prov)
  from assms(2) plan(2,6) obtain ps meta n where "l = line_of ps meta n"
    by (auto simp: plan_provision_def provision_lines(1))
  with assms(3) line_of_expired show ?thesis by blast
qed

text \<open>C3 The calendar of a plan. When a generation job ends completed, the meals of its plan are
  one for each slot that the requirements ask for, in order, on the day, for the meal and the
  number of people of the slot, and linked to a requirement of that meal; the meals of
  other plans are untouched, and whatever the plan held before is gone.\<close>

theorem stored_plan_exact:
  assumes "keys_ok ing_id (pl_ingredients db)" and "keys_ok rcp_id (pl_recipes db)"
    and "finished_job env job db run mp"
  shows "(case build_requirements db mp of Inl e \<Rightarrow> False
     | Inr reqs \<Rightarrow> list_all2 (\<lambda>slot m. pml_scheduled_date m = Some (sl_date slot) \<and>
          pml_meal_type m = sl_meal_type slot \<and> pml_servings m = sl_servings slot \<and> pml_status m = ML_planned \<and>
          pml_requirement m = map_of (requirement_by_type db (mp_id mp)) (sl_meal_type slot))
        (schedule reqs (mp_start_date mp, mp_end_date mp))
        (filter (\<lambda>m. pml_plan m = mp_id mp) (pl_meals (process_generation_job env job db)))) \<and>
    filter (\<lambda>m. pml_plan m \<noteq> mp_id mp) (pl_meals (process_generation_job env job db)) =
      filter (\<lambda>m. pml_plan m \<noteq> mp_id mp) (pl_meals db)"
  using assms
proof (rule completed_job)
  fix inp r ms
  assume gen: "generate_plan (ge_draw env (orn_seed run)) inp = Inr (Plan r)"
    and reqs: "build_requirements db mp = Inr (in_meal_requirements inp)"
    and range: "in_date_range inp = (mp_start_date mp, mp_end_date mp)"
    and meals: "pl_meals (process_generation_job env job db) = filter (\<lambda>m. pml_plan m \<noteq> mp_id mp) (pl_meals db) @ ms"
    and rows: "list_all2 (meal_row (mp_id mp) (requirement_by_type db (mp_id mp))) (pr_planned_meals r) ms"
  from rows have ours: "list_all (\<lambda>m. pml_plan m = mp_id mp) ms"
    by (auto simp: list_all_iff meal_row_def elim: list_all2_right)
  have split: "filter (\<lambda>m. pml_plan m = mp_id mp) (pl_meals (process_generation_job env job db)) = ms"
    "filter (\<lambda>m. pml_plan m \<noteq> mp_id mp) (pl_meals (process_generation_job env job db)) = filter (\<lambda>m. pml_plan m \<noteq> mp_id mp) (pl_meals db)"
    using ours by (simp_all add: meals list_all_iff filter_id_conv filter_empty_conv)
  have "list_all2 (\<lambda>slot m. pml_scheduled_date m = Some (sl_date slot) \<and>
      pml_meal_type m = sl_meal_type slot \<and> pml_servings m = sl_servings slot \<and> pml_status m = ML_planned \<and>
      pml_requirement m = map_of (requirement_by_type db (mp_id mp)) (sl_meal_type slot)) (slots_of inp) ms"
    by (rule list_all2_trans[OF _ planned_slots[OF gen] rows]) (auto simp: meal_row_def)
  with reqs range split show ?thesis by (simp add: slots_of_def)
qed

theorem stored_plan_exact_witness:
  "map pml_meal_type (filter (\<lambda>m. pml_plan m = 1) (pl_meals (process_generation_job example_env example_job_row example_tables))) = [Lunch]"
proof -
  have "case build_requirements example_tables example_plan of Inl e \<Rightarrow> False | Inr reqs \<Rightarrow>
      map sl_meal_type (schedule reqs (mp_start_date example_plan, mp_end_date example_plan)) = [Lunch]"
    by code_simp
  moreover have "map f xs = map g ys" if "list_all2 (\<lambda>x y. P x y \<and> g y = f x \<and> Q x y) xs ys" for f g P Q xs ys
    using that by (induction rule: list_all2_induct) auto
  moreover have "mp_id example_plan = 1" by (simp add: example_plan_def)
  ultimately show ?thesis
    using stored_plan_exact[OF example_keys example_completed]
    by (auto simp: list_all2_Cons1 split: sum.splits)
qed

lemma stored_costs:
  assumes "list_all2 (item_row i res) ls items" and "\<And>l. l \<in> set ls \<Longrightarrow> gl_expired l \<Longrightarrow> \<not> gl_subtotal_known l"
  shows "List.map_filter gli_total_cost (filter (\<lambda>i. gli_price_status i = Price_known) items) =
      map gl_subtotal (filter gl_subtotal_known ls)"
    and "List.map_filter gli_total_cost (filter (\<lambda>i. gli_price_status i \<noteq> Price_known) items) =
      map gl_subtotal (filter (\<lambda>l. \<not> gl_subtotal_known l) ls)"
  using assms
  by (induction rule: list_all2_induct) (auto simp: item_row_def price_status_of_def map_filter_simps)

lemma planned_costs:
  assumes "generate_plan draw inp = Inr (Plan r)"
  shows "ct_known (pr_cost_total r) = dsum (map gl_subtotal (filter gl_subtotal_known (pr_grocery_lines r)))"
    "ct_estimated (pr_cost_total r) = dsum (map gl_subtotal (filter (\<lambda>l. \<not> gl_subtotal_known l) (pr_grocery_lines r)))"
    "pr_planned_meals r \<noteq> [] \<Longrightarrow>
       dadd (ct_known (pr_cost_total r)) (ct_estimated (pr_cost_total r)) \<le> budget_limit (in_budget inp)"
  using assms
proof -
  have "ct_known (pr_cost_total r) = dsum (map gl_subtotal (filter gl_subtotal_known (pr_grocery_lines r))) \<and>
    ct_estimated (pr_cost_total r) = dsum (map gl_subtotal (filter (\<lambda>l. \<not> gl_subtotal_known l) (pr_grocery_lines r))) \<and>
    (pr_planned_meals r \<noteq> [] \<longrightarrow>
       dadd (ct_known (pr_cost_total r)) (ct_estimated (pr_cost_total r)) \<le> budget_limit (in_budget inp))"
    using assms
  proof (cases rule: generated_plan)
    case empty
    then show ?thesis by (simp add: empty_plan_def dsum_def)
  next
    case (plan cs prov)
    then show ?thesis using provision_lines(2,3) by (simp add: plan_provision_def cost_total_def)
  qed
  then show "ct_known (pr_cost_total r) = dsum (map gl_subtotal (filter gl_subtotal_known (pr_grocery_lines r)))"
    "ct_estimated (pr_cost_total r) = dsum (map gl_subtotal (filter (\<lambda>l. \<not> gl_subtotal_known l) (pr_grocery_lines r)))"
    "pr_planned_meals r \<noteq> [] \<Longrightarrow>
       dadd (ct_known (pr_cost_total r)) (ct_estimated (pr_cost_total r)) \<le> budget_limit (in_budget inp)" by blast+
qed

lemma plan_budget_limit: "plan_budget mp = Inr b \<Longrightarrow> budget_limit b = dec_or (mp_budget_amount mp) 0"
  by (auto simp: plan_budget_def budget_limit_def split: option.splits)

text \<open>C4 The bill of a plan. When a generation job ends completed, the plan has exactly one shopping
  list, whose known cost is the sum of the items with a known price and whose estimated cost
  is the sum of the others; with a meal to serve, the two together are within the amount of the
  plan, and the lists of other plans are untouched.\<close>

theorem stored_list_adds_up:
  assumes "keys_ok ing_id (pl_ingredients db)" and "keys_ok rcp_id (pl_recipes db)"
    and "keys_ok gry_id (pl_grocery_lists db)"
    and "list_all (\<lambda>i. gli_list i \<in> gry_id ` set (pl_grocery_lists db)) (pl_items db)"
    and "finished_job env job db run mp"
  shows "(case filter (\<lambda>g. gry_plan g = mp_id mp) (pl_grocery_lists (process_generation_job env job db)) of
      [g] \<Rightarrow> (let items = filter (\<lambda>i. gli_list i = gry_id g) (pl_items (process_generation_job env job db));
             cost = (\<lambda>P. dsum (List.map_filter gli_total_cost (filter (\<lambda>i. P (gli_price_status i)) items)))
         in gry_known_cost g = Some (cost (\<lambda>s. s = Price_known)) \<and>
            gry_estimated_cost g = Some (cost (\<lambda>s. s \<noteq> Price_known)) \<and>
            (list_ex (\<lambda>m. pml_plan m = mp_id mp) (pl_meals (process_generation_job env job db)) \<longrightarrow>
             dadd (cost (\<lambda>s. s = Price_known)) (cost (\<lambda>s. s \<noteq> Price_known)) \<le> dec_or (mp_budget_amount mp) 0))
    | _ \<Rightarrow> False) \<and>
    filter (\<lambda>g. gry_plan g \<noteq> mp_id mp) (pl_grocery_lists (process_generation_job env job db)) =
      filter (\<lambda>g. gry_plan g \<noteq> mp_id mp) (pl_grocery_lists db)"
  using assms(1,2,5)
proof (rule completed_job)
  fix inp r ms g items
  assume gen: "generate_plan (ge_draw env (orn_seed run)) inp = Inr (Plan r)"
    and budget: "plan_budget mp = Inr (in_budget inp)"
    and meals: "pl_meals (process_generation_job env job db) = filter (\<lambda>m. pml_plan m \<noteq> mp_id mp) (pl_meals db) @ ms"
    and lists: "pl_grocery_lists (process_generation_job env job db) =
       filter (\<lambda>g. gry_id g \<notin> set (plan_lists (mp_id mp) db)) (pl_grocery_lists db) @ [g]"
    and its: "pl_items (process_generation_job env job db) =
       filter (\<lambda>i. gli_list i \<notin> set (plan_lists (mp_id mp) db)) (pl_items db) @ items"
    and rows: "list_all2 (meal_row (mp_id mp) (requirement_by_type db (mp_id mp))) (pr_planned_meals r) ms"
      "list_all2 (item_row (gry_id g) (line_resolver_init (ps_postal_code (ge_settings env)) db (mp_retailer mp)))
       (pr_grocery_lines r) items"
    and g: "gry_plan g = mp_id mp"
      "gry_id g \<notin> gry_id ` set (filter (\<lambda>g. gry_id g \<notin> set (plan_lists (mp_id mp) db)) (pl_grocery_lists db))"
      "gry_known_cost g = Some (ct_known (pr_cost_total r))"
      "gry_estimated_cost g = Some (ct_estimated (pr_cost_total r))"
  let ?db' = "process_generation_job env job db" let ?lists = "set (plan_lists (mp_id mp) db)"
  have mine: "gry_id h \<in> ?lists \<longleftrightarrow> gry_plan h = mp_id mp" if "h \<in> set (pl_grocery_lists db)" for h
    using that assms(3) by (auto simp: plan_lists_def keys_ok_def distinct_map dest: inj_onD)
  have own: "filter (\<lambda>g. gry_plan g = mp_id mp) (pl_grocery_lists ?db') = [g]"
    using mine g(1) by (auto simp: lists filter_empty_conv)
  have others: "filter (\<lambda>g. gry_plan g \<noteq> mp_id mp) (pl_grocery_lists ?db') =
      filter (\<lambda>g. gry_plan g \<noteq> mp_id mp) (pl_grocery_lists db)"
    using mine g(1) by (auto simp: lists intro!: filter_cong)
  have "list_all (\<lambda>i. gli_list i = gry_id g) items"
    using rows(2) by (auto simp: list_all_iff item_row_def elim: list_all2_right)
  moreover have "gli_list i \<noteq> gry_id g" if "i \<in> set (pl_items db)" "gli_list i \<notin> ?lists" for i
  proof
    assume i: "gli_list i = gry_id g"
    from that(1) assms(4) obtain h where "h \<in> set (pl_grocery_lists db)" "gli_list i = gry_id h"
      by (auto simp: list_all_iff)
    with that(2) g(2) i show False by (simp add: image_iff) metis
  qed
  ultimately have items: "filter (\<lambda>i. gli_list i = gry_id g) (pl_items ?db') = items"
    by (auto simp: its list_all_iff filter_id_conv filter_empty_conv)
  note costs = stored_costs[OF rows(2) planned_lines_expired[OF gen]]
  have "dadd (ct_known (pr_cost_total r)) (ct_estimated (pr_cost_total r)) \<le> dec_or (mp_budget_amount mp) 0"
    if "list_ex (\<lambda>m. pml_plan m = mp_id mp) (pl_meals ?db')"
  proof -
    from that rows(1) have "pr_planned_meals r \<noteq> []" by (auto simp: meals list_ex_iff)
    with planned_costs(3)[OF gen] show ?thesis by (simp add: plan_budget_limit[OF budget])
  qed
  then show ?thesis unfolding own using others items g(3,4) costs planned_costs(1,2)[OF gen] by (simp add: Let_def)
qed

theorem stored_list_adds_up_witness:
  "length (filter (\<lambda>g. gry_plan g = 1) (pl_grocery_lists (process_generation_job example_env example_job_row example_tables))) = 1"
proof -
  have "pl_grocery_lists example_tables = []" "pl_items example_tables = []" "mp_id example_plan = 1"
    by (simp_all add: example_tables_def example_plan_def)
  with stored_list_adds_up[OF example_keys _ _ example_completed] show ?thesis
    by (auto split: list.splits)
qed

text \<open>
  The prices of a chain for a postal code, said of the rows: these of the chain and, as soon as one
  of its shops is in that postal code, these of one of the shops there.
\<close>

definition shop_in_zone :: "string \<Rightarrow> int \<Rightarrow> store \<Rightarrow> bool" where
  "shop_in_zone postal r s \<longleftrightarrow>
     py_strip postal \<noteq> [] \<and> sto_retailer s = r \<and> sto_postal_code s = Some (py_strip postal)"

definition price_of_zone :: "string \<Rightarrow> plan_db \<Rightarrow> int \<Rightarrow> product_price \<Rightarrow> bool" where
  "price_of_zone postal db r price \<longleftrightarrow>
     price \<in> set (product_prices (pl_market db)) \<and> prc_retailer price = r \<and>
     (if list_ex (shop_in_zone postal r) (stores (pl_market db))
      then list_ex (\<lambda>s. shop_in_zone postal r s \<and> sto_id s = prc_store price) (stores (pl_market db))
      else True)"

lemma chain_prices_zone: "p \<in> set (chain_prices postal db r) \<longleftrightarrow> price_of_zone postal db r p"
  unfolding chain_prices_rows price_of_zone_def zone_store_ids_def shop_in_zone_def Let_def
  by (auto simp: list_ex_iff filter_empty_conv intro: image_eqI[OF sym])

text \<open>A package on offer that quotes a recorded price of a product, and until when.\<close>

definition quotes_price :: "int \<Rightarrow> product \<Rightarrow> product_price \<Rightarrow> package_option_dto \<Rightarrow> bool" where
  "quotes_price max_age p price opt \<longleftrightarrow>
     po_product_id opt = int_str (prd_id p) \<and> po_has_price opt \<and> po_amount opt = prc_amount price \<and>
     po_package_quantity opt = prc_package_quantity price \<and> po_package_unit opt = prc_package_unit price \<and>
     po_source_type opt = prc_source_type price \<and> po_observed_at opt = Some (date_of (prc_observed_at price)) \<and>
     po_expires_at opt = (case prc_expires_at price of
         Some t \<Rightarrow> Some (date_of t)
       | None \<Rightarrow> if 0 < max_age then Some (date_of (prc_observed_at price) + max_age) else None)"

lemma package_option_quotes: "quotes_price max_age p price (package_option max_age p price)"
  by (simp add: quotes_price_def package_option_def Let_def)

text \<open>C7 The prices a plan is costed with. Every package the engine may buy comes from a product
  that is not deleted and is actively mapped to the ingredient, and quotes the amount, the package and
  the source of a recorded price of the chain of the plan and, when the chain has shops in the configured postal code, of one of these shops; no
  price of that product within those bounds is newer. Without a price of its own expiry, it expires a
  fixed number of days after it was observed. A plan without a chain has no catalogue.\<close>

theorem catalog_prices_current:
  "build_catalog st db None = [] \<and>
   (\<forall>c\<in>set (build_catalog st db (Some r)). cp_packages c \<noteq> [] \<and> (\<forall>o1\<in>set (cp_packages c).
      \<exists>m\<in>set (pl_mappings db). \<exists>p\<in>set (pl_products db). \<exists>ing\<in>set (pl_ingredients db).
      \<exists>price\<in>set (product_prices (pl_market db)).
        ipm_active m \<and> ipm_ingredient m = ing_id ing \<and> ipm_product m = prd_id p \<and> prd_deleted_at p = None \<and>
        cp_canonical_name c = ing_canonical_name ing \<and> quotes_price (ps_price_max_age_days st) p price o1 \<and>
        prc_product price = prd_id p \<and> price_of_zone (ps_postal_code st) db r price \<and>
        (\<forall>q\<in>set (product_prices (pl_market db)).
           prc_product q = prd_id p \<and> price_of_zone (ps_postal_code st) db r q \<longrightarrow>
           prc_observed_at q \<le> prc_observed_at price)))"
proof (intro conjI ballI)
  have "List.map_filter (catalog_entry age [] db) es = []" for age es
  proof -
    have "catalog_entry age [] db e = None" for e
      by (cases "catalog_entry age [] db e"; cases e)
        (auto elim!: catalog_entry_Some simp: in_map_filter neq_Nil_conv List.map_filter_def)
    then show ?thesis by (auto simp: List.map_filter_def)
  qed
  then show "build_catalog st db None = []" by (simp add: build_catalog_def latest_prices_def)
  fix c assume c: "c \<in> set (build_catalog st db (Some r))"
  then obtain i ps where "catalog_entry (ps_price_max_age_days st)
      (latest_prices (ps_postal_code st) db (Some r)) db (i, ps) = Some c"
    by (auto simp: build_catalog_def in_map_filter)
  then show "cp_packages c \<noteq> []" by (rule catalog_entry_Some)
  fix o1 assume "o1 \<in> set (cp_packages c)"
  with c obtain p price i ing where o1: "o1 = package_option (ps_price_max_age_days st) p price"
    and price: "map_of (newest_by_product (chain_prices (ps_postal_code st) db r)) (prd_id p) = Some price"
    and ip: "(i, p) \<in> set (mapped_products db)" and ing: "find_row ing_id i (pl_ingredients db) = Some ing"
    "cp_canonical_name c = ing_canonical_name ing"
    by (metis catalog_package)
  from ip obtain m where m: "m \<in> set (pl_mappings db)" "ipm_active m" "ipm_ingredient m = i"
    "find_row prd_id (ipm_product m) (pl_products db) = Some p" "prd_deleted_at p = None"
    unfolding mapped_products_rows by blast
  note newest = newest_by_product_Some[OF price, unfolded chain_prices_zone]
  from newest(1) have row: "price \<in> set (product_prices (pl_market db))" by (simp add: price_of_zone_def)
  have recent: "\<forall>q\<in>set (product_prices (pl_market db)).
      prc_product q = prd_id p \<and> price_of_zone (ps_postal_code st) db r q \<longrightarrow> prc_observed_at q \<le> prc_observed_at price"
    using newest(3) by (force simp: chain_prices_zone)
  show "\<exists>m\<in>set (pl_mappings db). \<exists>p\<in>set (pl_products db). \<exists>ing\<in>set (pl_ingredients db).
      \<exists>price\<in>set (product_prices (pl_market db)).
        ipm_active m \<and> ipm_ingredient m = ing_id ing \<and> ipm_product m = prd_id p \<and> prd_deleted_at p = None \<and>
        cp_canonical_name c = ing_canonical_name ing \<and> quotes_price (ps_price_max_age_days st) p price o1 \<and>
        prc_product price = prd_id p \<and> price_of_zone (ps_postal_code st) db r price \<and>
        (\<forall>q\<in>set (product_prices (pl_market db)).
           prc_product q = prd_id p \<and> price_of_zone (ps_postal_code st) db r q \<longrightarrow>
           prc_observed_at q \<le> prc_observed_at price)"
    by (rule bexI[OF _ m(1)], rule bexI[of _ p], rule bexI[of _ ing], rule bexI[OF _ row])
      (use m ing package_option_quotes[of "ps_price_max_age_days st" p price, folded o1] newest(1,2) recent find_row_Some[OF m(4)] find_row_Some[OF ing(1)] in auto)
qed

text \<open>
  The example with two newer prices of the rice that are not for the plan: one of another chain and
  one of a shop of the same chain outside the postal code.
\<close>

definition two_zones :: plan_db where
  "two_zones = example_tables\<lparr>pl_market := (pl_market example_tables)\<lparr>
     stores := [\<lparr>sto_id = 4, sto_retailer = 7, sto_active = True, sto_postal_code = Some ''28001''\<rparr>,
                \<lparr>sto_id = 5, sto_retailer = 7, sto_active = True, sto_postal_code = Some ''08001''\<rparr>],
     product_prices := [example_price 1 1 2 0, example_price 2 2 3 0, example_price 3 1 (5 / 2) day_us,
       (example_price 4 1 9 (2 * day_us))\<lparr>prc_retailer := 8, prc_store := 6\<rparr>,
       (example_price 5 1 9 (2 * day_us))\<lparr>prc_store := 5\<rparr>]\<rparr>\<rparr>"

theorem catalog_prices_current_witness:
  "list_all (\<lambda>c. list_all (\<lambda>o1. po_amount o1 = 3 \<or> po_amount o1 = 5 / 2) (cp_packages c))
    (build_catalog example_settings two_zones (Some 7))"
proof -
  let ?zone = "price_of_zone (ps_postal_code example_settings) two_zones 7"
  let ?rows = "product_prices (pl_market two_zones)"
  let ?new = "example_price 3 1 (5 / 2) day_us"
  have spec: "shop_in_zone (ps_postal_code example_settings) 7 s \<longleftrightarrow>
      sto_retailer s = 7 \<and> sto_postal_code s = Some ''28001''" for s
  proof -
    have "py_strip (ps_postal_code example_settings) = ''28001''" by code_simp
    then show ?thesis by (simp add: shop_in_zone_def)
  qed
  have zone: "?zone q \<longleftrightarrow> q \<in> set ?rows \<and> prc_retailer q = 7 \<and> prc_store q = 4" for q
    unfolding price_of_zone_def by (auto simp: spec two_zones_def)
  have new: "?new \<in> set ?rows" by (simp add: two_zones_def)
  moreover have "?zone ?new" using new unfolding zone by (simp add: example_price_def)
  ultimately have newest: "prc_amount price = 3 \<or> prc_amount price = 5 / 2" if "?zone price"
    "\<forall>q\<in>set ?rows. prc_product q = prc_product price \<and> ?zone q \<longrightarrow> prc_observed_at q \<le> prc_observed_at price" for price
    using that bspec[OF that(2) new] unfolding zone
    by (auto simp: two_zones_def example_price_def day_us_def)
  show ?thesis unfolding list_all_iff
  proof (intro ballI)
    fix c o1 assume "c \<in> set (build_catalog example_settings two_zones (Some 7))" "o1 \<in> set (cp_packages c)"
    with catalog_prices_current[of example_settings two_zones 7] obtain p price where
      "prc_product price = prd_id p" "?zone price"
      "quotes_price (ps_price_max_age_days example_settings) p price o1"
      "\<forall>q\<in>set ?rows. prc_product q = prd_id p \<and> ?zone q \<longrightarrow> prc_observed_at q \<le> prc_observed_at price"
      by meson
    with newest[of price] show "po_amount o1 = 3 \<or> po_amount o1 = 5 / 2"
      by (simp add: quotes_price_def)
  qed
qed

end
