(* ===== verification/GenerationQueue.thy ===== *)
theory GenerationQueue
  imports PlanPipeline PlanExamples
begin

text \<open>
  The generation jobs as one transition system: plans are created, duplicated and regenerated,
  a worker claims and processes jobs, and the jobs of a worker that died are recovered, in any
  order. A row is invariant-checked on its own, and linked to its run and its plan.
\<close>

section \<open>The events\<close>

datatype generation_event =
    Ev_create plan_settings time int household generation_request
  | Ev_duplicate plan_settings time date int household meal_plan
  | Ev_regenerate plan_settings time int meal_plan string "(string, string list) dict option"
  | Ev_claim time "int set" string
  | Ev_process generation_env generation_job
  | Ev_recover plan_settings time "int set"

inductive generation_step :: "generation_event \<Rightarrow> plan_db \<Rightarrow> plan_db \<Rightarrow> bool" where
  create: "create_generation st now seed hh rq db = Inr (mp, run, job, db') \<Longrightarrow>
     1 \<le> ps_worker_job_max_attempts st \<Longrightarrow> generation_step (Ev_create st now seed hh rq) db db'"
| duplicate: "duplicate_generation st now today seed hh source db = Inr (mp, run, job, db') \<Longrightarrow>
     1 \<le> ps_worker_job_max_attempts st \<Longrightarrow> generation_step (Ev_duplicate st now today seed hh source) db db'"
| regenerate: "enqueue_regeneration st now seed mp kind payload db = (run, job, db') \<Longrightarrow>
     mp \<in> set (pl_plans db) \<Longrightarrow>
     1 \<le> ps_worker_job_max_attempts st \<Longrightarrow> generation_step (Ev_regenerate st now seed mp kind payload) db db'"
| claim: "claim_generation_job now held w db = Some (job, db') \<Longrightarrow> generation_step (Ev_claim now held w) db db'"
| process: "job \<in> set (pl_jobs db) \<Longrightarrow> gj_status job = OS_collecting_data \<Longrightarrow>
     generation_step (Ev_process env job) db (process_generation_job env job db)"
| recover: "recover_abandoned_jobs st now held db = (n, db') \<Longrightarrow> generation_step (Ev_recover st now held) db db'"

definition active_job :: "generation_job \<Rightarrow> bool" where
  "active_job j \<longleftrightarrow> gj_status j = OS_queued \<or> in_progress (gj_status j)"

text \<open>What a row says on its own.\<close>

definition generation_job_ok :: "generation_job \<Rightarrow> bool" where
  "generation_job_ok j \<longleftrightarrow>
     gj_status j \<in> {OS_queued, OS_collecting_data, OS_completed, OS_failed} \<and>
     0 \<le> gj_attempts j \<and> gj_attempts j \<le> gj_max_attempts j \<and> 1 \<le> gj_max_attempts j \<and>
     (active_job j \<longrightarrow> gj_attempts j < gj_max_attempts j) \<and>
     (gj_status j = OS_queued \<longrightarrow> gj_locked_by j = None) \<and>
     (gj_status j = OS_collecting_data \<longrightarrow> gj_locked_by j \<noteq> None \<and> gj_heartbeat_at j \<noteq> None)"

text \<open>The plan of the run of a row, which is the plan of the row, and exists.\<close>

definition run_plan :: "plan_db \<Rightarrow> int \<Rightarrow> int option" where
  "run_plan db k = map_of (map (\<lambda>q. (orn_id q, orn_plan q)) (pl_runs db)) k"

definition linked_job :: "plan_db \<Rightarrow> generation_job \<Rightarrow> bool" where
  "linked_job db j \<longleftrightarrow> (\<exists>k p. gj_run j = Some k \<and> gj_plan j = Some p \<and> run_plan db k = Some p \<and>
     p \<in> mp_id ` set (pl_plans db))"

definition generating_served :: "plan_db \<Rightarrow> bool" where
  "generating_served db \<longleftrightarrow> (\<forall>mp\<in>set (pl_plans db). mp_status mp = MP_generating \<longrightarrow>
     (\<exists>j\<in>set (pl_jobs db). gj_plan j = Some (mp_id mp) \<and> active_job j))"

definition generation_inv :: "plan_db \<Rightarrow> bool" where
  "generation_inv db \<longleftrightarrow> keys_ok gj_id (pl_jobs db) \<and>
     (\<forall>j\<in>set (pl_jobs db). generation_job_ok j \<and> linked_job db j) \<and> generating_served db"

definition no_generation :: "plan_db \<Rightarrow> bool" where
  "no_generation db \<longleftrightarrow> pl_jobs db = [] \<and> (\<forall>mp\<in>set (pl_plans db). mp_status mp \<noteq> MP_generating)"

abbreviation generation_reachable :: "plan_db \<Rightarrow> bool" where
  "generation_reachable \<equiv> reachable no_generation generation_step"


section \<open>The effect of processing\<close>

lemma find_row_plan: "run_plan db k = map_option orn_plan (find_row orn_id k (pl_runs db))"
proof -
  have "map_of (map (\<lambda>q. (orn_id q, orn_plan q)) t) k = map_option orn_plan (find_row orn_id k t)" for t
    by (induction t) (auto simp: find_row_def)
  then show ?thesis by (simp add: run_plan_def)
qed

lemma run_plan_update [simp]:
  "run_plan (update_plan_run i f db) k = run_plan db k" if "\<And>q. orn_id (f q) = orn_id q" "\<And>q. orn_plan (f q) = orn_plan q"
proof -
  have "map (\<lambda>q. (orn_id q, orn_plan q)) (update_row orn_id i f t) = map (\<lambda>q. (orn_id q, orn_plan q)) t" for t
    using that by (auto simp: update_row_def)
  then show ?thesis by (simp add: run_plan_def update_plan_run_def)
qed

text \<open>Up to its last status, a job that is worked on changes its own row and the progress of its run.\<close>

definition keeps_job :: "(generation_job \<Rightarrow> generation_job) \<Rightarrow> bool" where
  "keeps_job f \<longleftrightarrow> (\<forall>r. gj_id (f r) = gj_id r \<and> gj_run (f r) = gj_run r \<and> gj_plan (f r) = gj_plan r \<and>
     gj_max_attempts (f r) = gj_max_attempts r)"

definition works_on :: "int \<Rightarrow> plan_db \<Rightarrow> plan_db \<Rightarrow> bool" where
  "works_on i db db' \<longleftrightarrow> pl_plans db' = pl_plans db \<and> run_plan db' = run_plan db \<and>
     (\<exists>f. pl_jobs db' = update_row gj_id i f (pl_jobs db) \<and> keeps_job f \<and> (\<forall>r. gj_attempts (f r) = gj_attempts r))"

lemma update_row_same [simp]: "update_row key i (\<lambda>r. r) t = t"
  by (simp add: update_row_def)

lemma update_row_twice: "(\<And>r. key (f r) = key r) \<Longrightarrow> update_row key i g (update_row key i f t) = update_row key i (\<lambda>r. g (f r)) t"
  by (simp add: update_row_def comp_def)

lemma update_row_keys: "(\<And>r. key (f r) = key r) \<Longrightarrow> key ` set (update_row key i f t) = key ` set t"
  by (metis keys_update_row list.set_map)

lemma works_on_same: "pl_plans db' = pl_plans db \<Longrightarrow> pl_runs db' = pl_runs db \<Longrightarrow> pl_jobs db' = pl_jobs db \<Longrightarrow> works_on i db db'"
  by (auto simp: works_on_def run_plan_def fun_eq_iff keeps_job_def intro!: exI[of _ "\<lambda>r. r"])

lemma works_on_trans: "works_on i a b \<Longrightarrow> works_on i b c \<Longrightarrow> works_on i a c"
proof -
  assume "works_on i a b" "works_on i b c"
  then obtain f g where fg: "pl_jobs b = update_row gj_id i f (pl_jobs a)" "keeps_job f" "\<forall>r. gj_attempts (f r) = gj_attempts r"
    "pl_jobs c = update_row gj_id i g (pl_jobs b)" "keeps_job g" "\<forall>r. gj_attempts (g r) = gj_attempts r"
    and t: "pl_plans c = pl_plans a" "run_plan c = run_plan a"
    unfolding works_on_def by auto
  have "pl_jobs c = update_row gj_id i (\<lambda>r. g (f r)) (pl_jobs a)"
    unfolding fg(1,4) by (rule update_row_twice) (use fg(2) in \<open>simp add: keeps_job_def\<close>)
  with fg t show ?thesis by (auto simp: works_on_def keeps_job_def intro!: exI[of _ "\<lambda>r. g (f r)"])
qed

lemma update_generation_job_tables [simp]:
  "pl_plans (update_generation_job i f db) = pl_plans db" "pl_runs (update_generation_job i f db) = pl_runs db"
  "pl_jobs (update_generation_job i f db) = update_row gj_id i f (pl_jobs db)"
  "run_plan (update_generation_job i f db) = run_plan db"
  by (simp_all add: update_generation_job_def run_plan_def fun_eq_iff)

lemma update_plan_run_tables [simp]:
  "pl_plans (update_plan_run i f db) = pl_plans db" "pl_jobs (update_plan_run i f db) = pl_jobs db"
  by (simp_all add: update_plan_run_def)

lemma set_plan_status_tables [simp]:
  "pl_jobs (set_plan_status s p db) = pl_jobs db" "run_plan (set_plan_status s p db) = run_plan db"
  "pl_plans (set_plan_status s p db) = update_row mp_id p (\<lambda>mp. mp\<lparr>mp_status := s\<rparr>) (pl_plans db)"
  by (simp_all add: set_plan_status_def run_plan_def fun_eq_iff)

lemma works_on_transition: "works_on i db (transition now run i s b db)"
  by (auto simp: works_on_def transition_def keeps_job_def fun_eq_iff
      intro!: exI[of _ "\<lambda>j. j\<lparr>gj_status := s, gj_heartbeat_at := Some now\<rparr>"])

lemma candidates_only_add:
  assumes "get_candidates st call parse rq db = Inr (b, db')"
  shows "\<exists>rs. db' = db\<lparr>pl_recipes := rs\<rparr>"
proof -
  have same: "\<exists>rs. db' = db\<lparr>pl_recipes := rs\<rparr>" if "seed_fallback rq reason db1 = Inr (b, db')" "\<exists>rs. db1 = db\<lparr>pl_recipes := rs\<rparr>" for reason db1
    using that by (auto simp: seed_fallback_def split: sum.splits)
  have refl: "\<exists>rs. db = db\<lparr>pl_recipes := rs\<rparr>" by (rule exI[of _ "pl_recipes db"]) simp
  have kept: "\<exists>rs. snd (fold (accept_recipe st hh allowed) recipes acc) = db\<lparr>pl_recipes := rs\<rparr>"
    if "\<exists>rs. snd acc = db\<lparr>pl_recipes := rs\<rparr>" for hh allowed recipes acc
    using that
  proof (induction recipes arbitrary: acc)
    case (Cons r recipes)
    have "\<exists>rs. snd (accept_recipe st hh allowed r acc) = db\<lparr>pl_recipes := rs\<rparr>"
      using Cons.prems by (cases acc) (auto simp: accept_recipe_def Let_def)
    from Cons.IH[OF this] show ?case by simp
  qed simp
  have accepted: "\<exists>rs. snd (persist_accepted st rq recipes db) = db\<lparr>pl_recipes := rs\<rparr>" for recipes
    unfolding persist_accepted_def by (rule kept) (use refl in simp)
  show ?thesis
  proof (cases "ps_ai_enabled st")
    case False
    with assms refl show ?thesis by (auto simp: get_candidates_def split: sum.splits)
  next
    case True
    with assms have ai: "openai_candidates st call parse rq db = Inr (b, db')" by (simp add: get_candidates_def)
    show ?thesis
    proof (cases "invoke_with_retries st (call rq)")
      case (Inl e)
      with ai same[OF _ refl] show ?thesis by (auto simp: openai_candidates_def)
    next
      case (Inr raw)
      show ?thesis
      proof (cases "parse_recipes parse raw")
        case None
        with Inr ai same[OF _ refl] show ?thesis by (auto simp: openai_candidates_def)
      next
        case (Some recipes)
        obtain cs db1 where p: "persist_accepted st rq recipes db = (cs, db1)" by fastforce
        with accepted[of recipes] have "\<exists>rs. db1 = db\<lparr>pl_recipes := rs\<rparr>" by simp
        with Inr Some p ai same show ?thesis by (auto simp: openai_candidates_def split: if_splits)
      qed
    qed
  qed
qed

lemma works_on_input:
  assumes "build_plan_input st call parse seed as_of mp db = Inr (inp, ws, db')"
  shows "works_on i db db'"
proof -
  from assms obtain bd where "get_candidates st call parse (candidate_request_of mp (in_members inp) (in_meal_requirements inp)
       (in_budget inp) (in_available_equipment inp) (in_catalog inp)) db = Inr (bd, db')"
    by (rule build_plan_input_ok)
  from candidates_only_add[OF this] show ?thesis by (auto intro: works_on_same)
qed

text \<open>How a job ends: its own row, and the status of its plan.\<close>

definition ends_job :: "int \<Rightarrow> int \<Rightarrow> int \<Rightarrow> plan_db \<Rightarrow> plan_db \<Rightarrow> bool" where
  "ends_job i p n db db' \<longleftrightarrow> run_plan db' = run_plan db \<and>
     (\<exists>s. s \<noteq> MP_generating \<and> pl_plans db' = update_row mp_id p (\<lambda>mp. mp\<lparr>mp_status := s\<rparr>) (pl_plans db)) \<and>
     (\<exists>f. pl_jobs db' = update_row gj_id i f (pl_jobs db) \<and> keeps_job f \<and>
        (\<forall>r. gj_attempts (f r) \<in> {gj_attempts r, n} \<and> gj_status (f r) \<in> {OS_completed, OS_failed}))"

lemma ends_after:
  assumes "works_on i db db1" "ends_job i p n db1 db'"
  shows "ends_job i p n db db'"
proof -
  from assms obtain f g where fg: "pl_jobs db1 = update_row gj_id i f (pl_jobs db)" "keeps_job f" "\<forall>r. gj_attempts (f r) = gj_attempts r"
    "pl_jobs db' = update_row gj_id i g (pl_jobs db1)" "keeps_job g"
    "\<forall>r. gj_attempts (g r) \<in> {gj_attempts r, n} \<and> gj_status (g r) \<in> {OS_completed, OS_failed}"
    and t: "pl_plans db1 = pl_plans db" "run_plan db1 = run_plan db" "run_plan db' = run_plan db1"
    "\<exists>s. s \<noteq> MP_generating \<and> pl_plans db' = update_row mp_id p (\<lambda>mp. mp\<lparr>mp_status := s\<rparr>) (pl_plans db1)"
    unfolding works_on_def ends_job_def by auto
  have "pl_jobs db' = update_row gj_id i (\<lambda>r. g (f r)) (pl_jobs db)"
    unfolding fg(1,4) by (rule update_row_twice) (use fg(2) in \<open>simp add: keeps_job_def\<close>)
  moreover have "keeps_job (\<lambda>r. g (f r))" using fg(2,5) by (simp add: keeps_job_def)
  moreover have "\<forall>r. gj_attempts (g (f r)) \<in> {gj_attempts r, n} \<and> gj_status (g (f r)) \<in> {OS_completed, OS_failed}"
    using fg(3,6) by metis
  ultimately have "\<exists>h. pl_jobs db' = update_row gj_id i h (pl_jobs db) \<and> keeps_job h \<and>
      (\<forall>r. gj_attempts (h r) \<in> {gj_attempts r, n} \<and> gj_status (h r) \<in> {OS_completed, OS_failed})" by blast
  with t show ?thesis unfolding ends_job_def by metis
qed

lemma clear_previous_kept [simp]:
  "pl_jobs (clear_previous p db) = pl_jobs db" "pl_plans (clear_previous p db) = pl_plans db"
  "pl_runs (clear_previous p db) = pl_runs db" "run_plan (clear_previous p db) = run_plan db"
  by (simp_all add: clear_previous_def Let_def run_plan_def fun_eq_iff)

lemma ends_report:
  "s \<in> {OS_completed, OS_failed} \<Longrightarrow>
   ends_job i (mp_id mp) n db (finish_job now i s err (persist_report now mp run report db))"
  by (auto simp: ends_job_def finish_job_def persist_report_def keeps_job_def fun_eq_iff
      intro!: exI[of _ MP_failed] exI[of _ "\<lambda>j. j\<lparr>gj_status := s, gj_last_error := err, gj_heartbeat_at := Some now\<rparr>"])

lemma ends_plan:
  assumes "persist_plan_result st now mp run r db = Inr db'"
  shows "ends_job i (mp_id mp) n db (finish_job now i OS_completed None db')"
  using assms
proof (rule persist_plan_result_ok)
  fix ms g items
  let ?done = "\<lambda>q. q\<lparr>orn_result_summary := Some r, orn_infeasibility_report := None,
         orn_status := OS_completed, orn_finished_at := Some now\<rparr>"
  assume db': "db' = (clear_previous (mp_id mp) db)\<lparr>
       pl_meals := pl_meals (clear_previous (mp_id mp) db) @ ms,
       pl_grocery_lists := pl_grocery_lists (clear_previous (mp_id mp) db) @ [g],
       pl_items := pl_items (clear_previous (mp_id mp) db) @ items,
       pl_runs := update_row orn_id run ?done (pl_runs db),
       pl_plans := update_row mp_id (mp_id mp) (\<lambda>mp. mp\<lparr>mp_status := MP_ready\<rparr>) (pl_plans db)\<rparr>"
  have "map (\<lambda>q. (orn_id q, orn_plan q)) (update_row orn_id run ?done t) = map (\<lambda>q. (orn_id q, orn_plan q)) t" for t
    by (auto simp: update_row_def)
  from this[of "pl_runs db"] have "run_plan db' = run_plan db" by (simp only: db' run_plan_def fun_eq_iff plan_db.simps) simp
  moreover have "pl_jobs db' = pl_jobs db"
    "pl_plans db' = update_row mp_id (mp_id mp) (\<lambda>mp. mp\<lparr>mp_status := MP_ready\<rparr>) (pl_plans db)" by (simp_all add: db')
  ultimately show ?thesis
    by (auto simp: ends_job_def finish_job_def keeps_job_def
        intro!: exI[of _ MP_ready] exI[of _ "\<lambda>j. j\<lparr>gj_status := OS_completed, gj_last_error := None, gj_heartbeat_at := Some now\<rparr>"])
qed

lemma execute_job_ends:
  assumes "execute_job env job run mp db = Inr db'"
  shows "ends_job (gj_id job) (mp_id mp) n db db'"
proof -
  let ?t = "transition (ge_now env) (orn_id run) (gj_id job)"
  let ?start = "?t OS_collecting_data True db"
  note w = works_on_transition
  show ?thesis
  proof (cases "run_preflight ?start mp")
    case (Some report)
    with assms have "db' = finish_job (ge_now env) (gj_id job) OS_failed
        (Some (Infeasible_preflight (ip_code report))) (persist_report (ge_now env) mp (orn_id run) report ?start)"
      by (simp add: execute_job_def Let_def persist_preflight_infeasible_def)
    then show ?thesis using ends_after[OF w ends_report] by simp
  next
    case None
    with assms obtain inp ws db1 where inp: "build_plan_input (ge_settings env) (ge_call env) (ge_parse env)
        (orn_seed run) (ge_today env) mp ?start = Inr (inp, ws, db1)"
      by (auto simp: execute_job_def Let_def split: sum.splits)
    with None assms obtain res where res: "generate_plan (ge_draw env (orn_seed run)) (apply_bias (gj_payload job) inp) = Inr res"
      by (auto simp: execute_job_def Let_def split: sum.splits)
    let ?busy = "?t OS_optimizing False (?t OS_validating False (?t OS_generating_candidates False db1))"
    have busy: "works_on (gj_id job) db ?busy"
      by (rule works_on_trans[OF works_on_trans[OF works_on_trans[OF works_on_trans[OF w works_on_input[OF inp]] w] w] w])
    show ?thesis
    proof (cases res)
      case (Plan r)
      with None inp res assms obtain db2 where
        "persist_plan_result (ge_settings env) (ge_now env) mp (orn_id run) (with_warnings ws r) ?busy = Inr db2"
        "db' = finish_job (ge_now env) (gj_id job) OS_completed None db2"
        by (auto simp: execute_job_def Let_def split: sum.splits)
      with ends_after[OF busy ends_plan] show ?thesis by simp
    next
      case (Infeasible r)
      with None inp res assms have "db' = finish_job (ge_now env) (gj_id job) OS_failed
          (Some (Infeasible_plan (ir_minimal_conflict r)))
          (persist_report (ge_now env) mp (orn_id run) (enrich_infeasibility r) ?busy)"
        by (simp add: execute_job_def Let_def persist_infeasible_def)
      with ends_after[OF busy ends_report] show ?thesis by simp
    qed
  qed
qed

text \<open>How a job goes back to the queue.\<close>

definition requeues_job :: "int \<Rightarrow> int \<Rightarrow> time option \<Rightarrow> plan_db \<Rightarrow> plan_db \<Rightarrow> bool" where
  "requeues_job i n due db db' \<longleftrightarrow> run_plan db' = run_plan db \<and> pl_plans db' = pl_plans db \<and>
     (\<exists>f. pl_jobs db' = update_row gj_id i f (pl_jobs db) \<and> keeps_job f \<and>
        (\<forall>r. gj_attempts (f r) = n \<and> gj_status (f r) = OS_queued \<and> gj_locked_by (f r) = None \<and> gj_run_after (f r) = due))"

lemma backoff_bound: "generation_backoff st n \<le> 300000000"
  unfolding generation_backoff_def by (rule round_half_even_le_int) simp

lemma handle_failure_effect:
  "(if gj_max_attempts job \<le> gj_attempts job + 1
    then ends_job (gj_id job) (mp_id mp) (gj_attempts job + 1) db (handle_failure env job run mp e db)
    else requeues_job (gj_id job) (gj_attempts job + 1)
      (Some (ge_now env + generation_backoff (ge_settings env) (gj_attempts job + 1))) db (handle_failure env job run mp e db))"
proof -
  let ?first = "\<lambda>j. j\<lparr>gj_attempts := gj_attempts job + 1, gj_last_error := Some (job_error.Raised e),
    gj_locked_at := None, gj_locked_by := None, gj_heartbeat_at := Some (ge_now env)\<rparr>"
  have comp: "update_row gj_id i g (update_row gj_id i ?first t) = update_row gj_id i (\<lambda>r. g (?first r)) t" for i g t
    by (rule update_row_twice) simp
  show ?thesis
  proof (cases "gj_max_attempts job \<le> gj_attempts job + 1")
    case True
    then show ?thesis
      by (auto simp: handle_failure_def Let_def ends_job_def comp keeps_job_def fun_eq_iff
          intro!: exI[of _ MP_failed] exI[of _ "\<lambda>r. (?first r)\<lparr>gj_status := OS_failed\<rparr>"])
  next
    case False
    then show ?thesis
      by (auto simp: handle_failure_def Let_def requeues_job_def comp keeps_job_def fun_eq_iff
          intro!: exI[of _ "\<lambda>r. (?first r)\<lparr>gj_status := OS_queued, gj_run_after := Some (ge_now env +
            generation_backoff (ge_settings env) (gj_attempts job + 1))\<rparr>"])
  qed
qed

lemma process_effect:
  assumes "linked_job db job" and "gj_plan job = Some p"
  shows "ends_job (gj_id job) p (gj_attempts job + 1) db (process_generation_job env job db) \<or>
    (gj_attempts job + 1 < gj_max_attempts job \<and>
     requeues_job (gj_id job) (gj_attempts job + 1)
      (Some (ge_now env + generation_backoff (ge_settings env) (gj_attempts job + 1))) db (process_generation_job env job db))"
proof -
  from assms obtain k where k: "gj_run job = Some k" "run_plan db k = Some p" "p \<in> mp_id ` set (pl_plans db)"
    by (auto simp: linked_job_def)
  from k(2) obtain run where run: "find_row orn_id k (pl_runs db) = Some run" "orn_plan run = p"
    by (auto simp: find_row_plan)
  from k(3) obtain mp where mp: "find_row mp_id p (pl_plans db) = Some mp" using find_row_None by fastforce
  then have id: "mp_id mp = p" by (rule find_row_Some[THEN conjunct2])
  show ?thesis
  proof (cases "execute_job env job run mp db")
    case (Inl e)
    with k run mp have "process_generation_job env job db = handle_failure env job run mp e db"
      by (simp add: process_generation_job_def)
    with handle_failure_effect[of job mp db env run e] id show ?thesis by (auto split: if_splits)
  next
    case (Inr db')
    with k run mp have "process_generation_job env job db = db'" by (simp add: process_generation_job_def)
    with execute_job_ends[OF Inr] id show ?thesis by blast
  qed
qed


section \<open>The invariant\<close>

lemma in_progress_simps [simp]:
  "in_progress OS_collecting_data" "\<not> in_progress OS_queued" "\<not> in_progress OS_completed" "\<not> in_progress OS_failed"
  by (simp_all add: in_progress_def)

lemma run_plan_linked: "run_plan db' = run_plan db \<Longrightarrow> mp_id ` set (pl_plans db') = mp_id ` set (pl_plans db) \<Longrightarrow>
    gj_run j' = gj_run j \<Longrightarrow> gj_plan j' = gj_plan j \<Longrightarrow> linked_job db' j' = linked_job db j"
  by (simp add: linked_job_def)

lemma only_row:
  assumes "keys_ok gj_id t" "job \<in> set t" "j \<in> set t" "gj_id j = gj_id job" shows "j = job"
  using assms by (metis find_row_keys_ok option.inject)

lemma rows_update:
  assumes inv: "generation_inv db" and job: "job \<in> set (pl_jobs db)"
    and jobs: "pl_jobs db' = update_row gj_id (gj_id job) f (pl_jobs db)" and keep: "keeps_job f"
    and ok: "generation_job_ok (f job)" and runs: "run_plan db' = run_plan db"
    and plans: "mp_id ` set (pl_plans db') = mp_id ` set (pl_plans db)"
  shows "keys_ok gj_id (pl_jobs db') \<and> (\<forall>j\<in>set (pl_jobs db'). generation_job_ok j \<and> linked_job db' j)"
proof -
  have keys: "keys_ok gj_id (pl_jobs db)" using inv by (simp add: generation_inv_def)
  have "keys_ok gj_id (pl_jobs db')"
    unfolding jobs by (subst keys_ok_update_row) (use keep keys in \<open>simp_all add: keeps_job_def\<close>)
  moreover have "generation_job_ok j \<and> linked_job db' j" if "j \<in> set (pl_jobs db')" for j
  proof -
    from that obtain q where q: "q \<in> set (pl_jobs db)" "(if gj_id q = gj_id job then f q else q) = j"
      unfolding jobs set_update_row by blast
    have l: "linked_job db q" "generation_job_ok q" using inv q(1) by (simp_all add: generation_inv_def)
    show ?thesis
    proof (cases "gj_id q = gj_id job")
      case True
      then have "q = job" by (rule only_row[OF keys job q(1)])
      then have eq: "j = f job" "q = job" using q(2) by auto
      have "gj_run (f job) = gj_run job" "gj_plan (f job) = gj_plan job" using keep by (simp_all add: keeps_job_def)
      from run_plan_linked[OF runs plans this] ok l show ?thesis unfolding eq by simp
    next
      case False
      with q(2) l run_plan_linked[OF runs plans, of q q] show ?thesis by simp
    qed
  qed
  ultimately show ?thesis by blast
qed

lemma ends_inv:
  assumes inv: "generation_inv db" and job: "job \<in> set (pl_jobs db)" "active_job job" "gj_plan job = Some p"
    and e: "ends_job (gj_id job) p (gj_attempts job + 1) db db'"
  shows "generation_inv db'"
proof -
  from e obtain f s where s: "s \<noteq> MP_generating" "pl_plans db' = update_row mp_id p (\<lambda>mp. mp\<lparr>mp_status := s\<rparr>) (pl_plans db)"
    and f: "pl_jobs db' = update_row gj_id (gj_id job) f (pl_jobs db)" "keeps_job f" "run_plan db' = run_plan db"
    "gj_attempts (f job) \<in> {gj_attempts job, gj_attempts job + 1}" "gj_status (f job) \<in> {OS_completed, OS_failed}"
    unfolding ends_job_def by blast
  have ok: "generation_job_ok job" using inv job(1) by (simp add: generation_inv_def)
  with f job(2) have "generation_job_ok (f job)" by (auto simp: generation_job_ok_def keeps_job_def active_job_def)
  moreover have "mp_id ` set (pl_plans db') = mp_id ` set (pl_plans db)"
    unfolding s(2) by (rule update_row_keys) simp
  ultimately have rows: "keys_ok gj_id (pl_jobs db') \<and> (\<forall>j\<in>set (pl_jobs db'). generation_job_ok j \<and> linked_job db' j)"
    by (rule rows_update[OF inv job(1) f(1,2) _ f(3)])
  have "\<exists>j\<in>set (pl_jobs db'). gj_plan j = Some (mp_id mp) \<and> active_job j"
    if mp: "mp \<in> set (pl_plans db')" "mp_status mp = MP_generating" for mp
  proof -
    from mp(1) obtain q where q: "q \<in> set (pl_plans db)" "mp = (if mp_id q = p then q\<lparr>mp_status := s\<rparr> else q)"
      unfolding s(2) set_update_row by blast
    with mp(2) s(1) have "mp = q" "mp_id mp \<noteq> p" by (simp_all split: if_splits)
    with q(1) inv mp(2) obtain j where j: "j \<in> set (pl_jobs db)" "gj_plan j = Some (mp_id mp)" "active_job j"
      by (auto simp: generation_inv_def generating_served_def)
    have "j \<noteq> job" using j(2) job(3) \<open>mp_id mp \<noteq> p\<close> by auto
    then have "gj_id j \<noteq> gj_id job" using only_row[OF _ job(1) j(1)] inv by (auto simp: generation_inv_def)
    with j show ?thesis unfolding f(1) by (auto simp: set_update_row intro!: bexI[of _ j])
  qed
  with rows show ?thesis by (simp add: generation_inv_def generating_served_def)
qed

text \<open>A row that stays active in place keeps the invariant.\<close>

lemma active_inv:
  assumes inv: "generation_inv db" and job: "job \<in> set (pl_jobs db)"
    and f: "pl_jobs db' = update_row gj_id (gj_id job) f (pl_jobs db)" "keeps_job f" "generation_job_ok (f job)" "active_job (f job)"
    and same: "run_plan db' = run_plan db" "pl_plans db' = pl_plans db"
  shows "generation_inv db'"
proof -
  have keys: "keys_ok gj_id (pl_jobs db)" using inv by (simp add: generation_inv_def)
  have rows: "keys_ok gj_id (pl_jobs db') \<and> (\<forall>j\<in>set (pl_jobs db'). generation_job_ok j \<and> linked_job db' j)"
    by (rule rows_update[OF inv job f(1-3) same(1)]) (simp add: same(2))
  have "\<exists>j\<in>set (pl_jobs db'). gj_plan j = Some (mp_id mp) \<and> active_job j"
    if mp: "mp \<in> set (pl_plans db')" "mp_status mp = MP_generating" for mp
  proof -
    from inv mp obtain j where j: "j \<in> set (pl_jobs db)" "gj_plan j = Some (mp_id mp)" "active_job j"
      by (auto simp: generation_inv_def generating_served_def same(2))
    show ?thesis
    proof (cases "gj_id j = gj_id job")
      case True
      then have "j = job" by (rule only_row[OF keys job j(1)])
      then have "f job \<in> set (pl_jobs db')" "gj_plan (f job) = Some (mp_id mp)"
        using f(1,2) j(2) job by (auto simp: set_update_row keeps_job_def)
      with f(4) show ?thesis by blast
    next
      case False
      with j show ?thesis unfolding f(1) by (auto simp: set_update_row intro!: bexI[of _ j])
    qed
  qed
  with rows show ?thesis by (simp add: generation_inv_def generating_served_def)
qed

lemma requeues_inv:
  assumes inv: "generation_inv db" and job: "job \<in> set (pl_jobs db)" and left: "gj_attempts job + 1 < gj_max_attempts job"
    and r: "requeues_job (gj_id job) (gj_attempts job + 1) due db db'"
  shows "generation_inv db'"
proof -
  from r obtain f where f: "pl_jobs db' = update_row gj_id (gj_id job) f (pl_jobs db)" "keeps_job f"
    "gj_attempts (f job) = gj_attempts job + 1" "gj_status (f job) = OS_queued" "gj_locked_by (f job) = None"
    and same: "run_plan db' = run_plan db" "pl_plans db' = pl_plans db"
    unfolding requeues_job_def by blast
  have "generation_job_ok job" using inv job by (simp add: generation_inv_def)
  with f left have "generation_job_ok (f job)" "active_job (f job)"
    by (auto simp: generation_job_ok_def active_job_def keeps_job_def)
  then show ?thesis by (rule active_inv[OF inv job f(1,2) _ _ same])
qed

lemma process_inv:
  assumes "generation_inv db" "job \<in> set (pl_jobs db)" "gj_status job = OS_collecting_data"
  shows "generation_inv (process_generation_job env job db)"
proof -
  from assms obtain p where p: "linked_job db job" "gj_plan job = Some p"
    by (auto simp: generation_inv_def linked_job_def)
  have act: "active_job job" using assms(3) by (simp add: active_job_def)
  from process_effect[OF p, of env] show ?thesis
    using ends_inv[OF assms(1,2) act p(2)] requeues_inv[OF assms(1,2)] by blast
qed

lemma claim_effect:
  assumes "claim_generation_job now held w db = Some (job, db')"
  obtains j take where "j \<in> set (pl_jobs db)" "claimable now held j" "job = take j" "keeps_job take"
    "take = (\<lambda>j. j\<lparr>gj_status := OS_collecting_data, gj_locked_at := Some now, gj_locked_by := Some w, gj_heartbeat_at := Some now\<rparr>)"
    "db' = update_generation_job (gj_id j) take db"
proof -
  from assms obtain j where j: "argmin (\<lambda>j. (- gj_priority j, gj_id j)) (filter (claimable now held) (pl_jobs db)) = Some j"
    and "job = j\<lparr>gj_status := OS_collecting_data, gj_locked_at := Some now, gj_locked_by := Some w, gj_heartbeat_at := Some now\<rparr>"
    "db' = update_generation_job (gj_id j) (\<lambda>j. j\<lparr>gj_status := OS_collecting_data, gj_locked_at := Some now,
       gj_locked_by := Some w, gj_heartbeat_at := Some now\<rparr>) db"
    by (auto simp: claim_generation_job_def Let_def split: option.splits)
  with argmin_Some(1)[OF j] show thesis
    by (intro that[OF _ _ _ _ refl]) (auto simp: keeps_job_def)
qed

lemma claim_inv:
  assumes "generation_inv db" "claim_generation_job now held w db = Some (job, db')"
  shows "generation_inv db' \<and> job \<in> set (pl_jobs db') \<and> gj_status job = OS_collecting_data"
  using assms(2)
proof (rule claim_effect)
  fix j take
  assume j: "j \<in> set (pl_jobs db)" "claimable now held j" "job = take j" and keep: "keeps_job take"
    and take: "take = (\<lambda>j. j\<lparr>gj_status := OS_collecting_data, gj_locked_at := Some now, gj_locked_by := Some w, gj_heartbeat_at := Some now\<rparr>)"
    and db': "db' = update_generation_job (gj_id j) take db"
  have "generation_job_ok j" "gj_status j = OS_queued" using assms(1) j by (simp_all add: generation_inv_def claimable_def)
  then have "generation_job_ok (take j)" "active_job (take j)"
    by (auto simp: take generation_job_ok_def active_job_def)
  from active_inv[OF assms(1) j(1) _ keep this, of db'] j(1,3) show ?thesis
    by (auto simp: db' set_update_row take intro!: bexI[of _ j])
qed

lemma recover_effect:
  "(if gj_max_attempts j \<le> gj_attempts j + 1
    then gj_plan j = Some p \<longrightarrow> ends_job (gj_id j) p (gj_attempts j + 1) db (recover_job now j db)
    else requeues_job (gj_id j) (gj_attempts j + 1) None db (recover_job now j db))"
proof (cases "gj_max_attempts j \<le> gj_attempts j + 1")
  case True
  let ?dead = "\<lambda>r. r\<lparr>gj_attempts := gj_attempts j + 1, gj_locked_at := None, gj_locked_by := None,
    gj_heartbeat_at := None, gj_status := OS_failed, gj_last_error := Some Reaped\<rparr>"
  show ?thesis
  proof (cases "gj_run j")
    case None
    with True show ?thesis
      by (auto simp: recover_job_def Let_def fail_linked_def ends_job_def keeps_job_def intro!: exI[of _ MP_failed] exI[of _ ?dead])
  next
    case (Some k)
    with True show ?thesis
      by (auto simp: recover_job_def Let_def fail_linked_def ends_job_def keeps_job_def fun_eq_iff
          intro!: exI[of _ MP_failed] exI[of _ ?dead])
  qed
next
  case False
  let ?again = "\<lambda>r. r\<lparr>gj_attempts := gj_attempts j + 1, gj_locked_at := None, gj_locked_by := None,
    gj_heartbeat_at := None, gj_status := OS_queued, gj_run_after := None\<rparr>"
  from False show ?thesis
    by (auto simp: recover_job_def Let_def requeues_job_def keeps_job_def intro!: exI[of _ ?again])
qed

lemma recover_job_inv:
  assumes "generation_inv db" "j \<in> set (pl_jobs db)" "in_progress (gj_status j)"
  shows "generation_inv (recover_job now j db)"
proof -
  from assms obtain p where p: "gj_plan j = Some p" by (auto simp: generation_inv_def linked_job_def)
  have act: "active_job j" using assms(3) by (simp add: active_job_def)
  show ?thesis
  proof (cases "gj_max_attempts j \<le> gj_attempts j + 1")
    case True
    then have "ends_job (gj_id j) p (gj_attempts j + 1) db (recover_job now j db)"
      using recover_effect[of j p db now] p by simp
    then show ?thesis by (rule ends_inv[OF assms(1,2) act p])
  next
    case False
    then have "requeues_job (gj_id j) (gj_attempts j + 1) None db (recover_job now j db)"
      using recover_effect[of j p db now] by simp
    with False show ?thesis by (intro requeues_inv[OF assms(1,2)]) auto
  qed
qed

text \<open>A change of one row leaves the others.\<close>

definition one_row :: "int \<Rightarrow> plan_db \<Rightarrow> plan_db \<Rightarrow> bool" where
  "one_row i db db' \<longleftrightarrow> (\<exists>f. pl_jobs db' = update_row gj_id i f (pl_jobs db) \<and> keeps_job f)"

lemma one_row_other: "one_row i db db' \<Longrightarrow> q \<in> set (pl_jobs db) \<Longrightarrow> gj_id q \<noteq> i \<Longrightarrow> q \<in> set (pl_jobs db')"
  by (auto simp: one_row_def set_update_row intro!: bexI[of _ q])

lemma one_row_effects: "ends_job i p n db db' \<Longrightarrow> one_row i db db'" "requeues_job i n due db db' \<Longrightarrow> one_row i db db'"
  by (auto simp: ends_job_def requeues_job_def one_row_def)

lemma one_row_recover: "gj_plan j = Some p \<Longrightarrow> one_row (gj_id j) db (recover_job now j db)"
  using recover_effect[of j p db now] one_row_effects by (auto split: if_splits)

lemma recover_fold_inv:
  assumes "generation_inv db" "\<forall>j\<in>set js. j \<in> set (pl_jobs db) \<and> in_progress (gj_status j)" "distinct (map gj_id js)"
  shows "generation_inv (fold (recover_job now) js db)"
  using assms
proof (induction js arbitrary: db)
  case Nil
  then show ?case by simp
next
  case (Cons j js)
  from Cons.prems obtain p where "gj_plan j = Some p" by (auto simp: generation_inv_def linked_job_def)
  then have one: "one_row (gj_id j) db (recover_job now j db)" by (rule one_row_recover)
  have "\<forall>q\<in>set js. q \<in> set (pl_jobs (recover_job now j db)) \<and> in_progress (gj_status q)"
  proof
    fix q assume q: "q \<in> set js"
    with Cons.prems(3) have "gj_id q \<noteq> gj_id j" by (metis distinct.simps(2) imageI list.set_map list.simps(9))
    with q Cons.prems(2) one_row_other[OF one, of q] show "q \<in> set (pl_jobs (recover_job now j db)) \<and> in_progress (gj_status q)"
      by simp
  qed
  moreover have "generation_inv (recover_job now j db)" using Cons.prems by (intro recover_job_inv) auto
  ultimately show ?case using Cons.IH[of "recover_job now j db"] Cons.prems(3) by simp
qed

lemma recover_inv: "generation_inv db \<Longrightarrow> generation_inv (snd (recover_abandoned_jobs st now held db))"
proof -
  assume inv: "generation_inv db"
  have "distinct (map gj_id (filter P (pl_jobs db)))" for P
    using inv by (simp add: generation_inv_def keys_ok_def distinct_map_filter)
  with inv show ?thesis
    unfolding recover_abandoned_jobs_def Let_def snd_conv by (intro recover_fold_inv) (auto simp: abandoned_def)
qed

text \<open>Queueing a run for a plan of the table, whose status becomes \<open>generating\<close>.\<close>

lemma enqueue_inv:
  assumes e: "enqueue_run st now mp kind seed payload db = (run, job, db')"
    and keys: "keys_ok gj_id (pl_jobs db)" and rows: "\<forall>j\<in>set (pl_jobs db). generation_job_ok j \<and> linked_job db j"
    and served: "\<forall>q\<in>set (pl_plans db). mp_status q = MP_generating \<longrightarrow>
      mp_id q = mp_id mp \<or> (\<exists>j\<in>set (pl_jobs db). gj_plan j = Some (mp_id q) \<and> active_job j)"
    and mp: "mp_id mp \<in> mp_id ` set (pl_plans db)" and attempts: "1 \<le> ps_worker_job_max_attempts st"
  shows "generation_inv db'"
proof -
  let ?k = "next_id orn_id (pl_runs db)"
  from e have db': "db' = db\<lparr>pl_runs := pl_runs db @ [run], pl_jobs := pl_jobs db @ [job]\<rparr>"
    and run: "orn_id run = ?k" "orn_plan run = mp_id mp"
    and job: "gj_id job = next_id gj_id (pl_jobs db)" "gj_run job = Some ?k" "gj_plan job = Some (mp_id mp)"
      "generation_job_ok job" "active_job job"
    using attempts by (auto simp: enqueue_run_def Let_def generation_job_ok_def active_job_def)
  have fresh: "run_plan db ?k = None"
    unfolding find_row_plan using find_row_None next_id_not_in by fastforce
  have runs: "run_plan db' k = (case run_plan db k of None \<Rightarrow> if k = ?k then Some (mp_id mp) else None | Some p \<Rightarrow> Some p)" for k
    by (cases "run_plan db k"; cases "k = ?k") (auto simp: run_plan_def db' run map_add_def)
  have linked: "linked_job db' j" if "linked_job db j" for j
  proof -
    from that obtain k p where kp: "gj_run j = Some k" "gj_plan j = Some p" "run_plan db k = Some p" "p \<in> mp_id ` set (pl_plans db)"
      unfolding linked_job_def by blast
    moreover have "run_plan db' k = Some p" using kp(3) by (simp add: runs)
    moreover have "p \<in> mp_id ` set (pl_plans db')" using kp(4) by (simp add: db')
    ultimately show ?thesis unfolding linked_job_def by blast
  qed
  have "run_plan db' ?k = Some (mp_id mp)" by (simp add: runs fresh)
  moreover have "pl_plans db' = pl_plans db" by (simp add: db')
  ultimately have "linked_job db' job" using job mp by (simp add: linked_job_def)
  moreover have "keys_ok gj_id (pl_jobs db')" unfolding db' using keys_ok_snoc[OF keys] job(1) next_id_not_in[of gj_id "pl_jobs db"] by simp
  moreover have "generating_served db'"
    using served job(3,5) by (fastforce simp: generating_served_def db')
  ultimately show ?thesis using rows linked job(4) by (auto simp: generation_inv_def db')
qed

lemma create_inv:
  assumes inv: "generation_inv db" and c: "create_generation st now seed hh rq db = Inr (mp, run, job, db')"
    and attempts: "1 \<le> ps_worker_job_max_attempts st"
  shows "generation_inv db'"
proof -
  let ?id = "next_id mp_id (pl_plans db)"
  have reqs: "pl_jobs (fold (add_requirement i) qs d) = pl_jobs d \<and> pl_plans (fold (add_requirement i) qs d) = pl_plans d \<and>
      pl_runs (fold (add_requirement i) qs d) = pl_runs d" for i qs d
    by (induction qs arbitrary: d) (simp_all add: add_requirement_def)
  from c obtain d where e: "enqueue_run st now mp ''generate'' seed None d = (run, job, db')"
    and mp: "mp_id mp = ?id" and d: "pl_jobs d = pl_jobs db" "pl_plans d = pl_plans db @ [mp]" "pl_runs d = pl_runs db"
    by (auto simp: create_generation_def Let_def reqs split: sum.splits prod.splits)
  have old: "mp_id q \<noteq> ?id" if "q \<in> set (pl_plans db)" for q
    using that next_id_fresh[OF that, of mp_id] by simp
  show ?thesis
  proof (rule enqueue_inv[OF e _ _ _ _ attempts])
    show "keys_ok gj_id (pl_jobs d)" using inv by (simp add: d generation_inv_def)
    show "\<forall>j\<in>set (pl_jobs d). generation_job_ok j \<and> linked_job d j"
      using inv by (auto simp: d generation_inv_def linked_job_def run_plan_def)
    show "\<forall>q\<in>set (pl_plans d). mp_status q = MP_generating \<longrightarrow> mp_id q = mp_id mp \<or>
        (\<exists>j\<in>set (pl_jobs d). gj_plan j = Some (mp_id q) \<and> active_job j)"
      using inv by (auto simp: d generation_inv_def generating_served_def)
    show "mp_id mp \<in> mp_id ` set (pl_plans d)" by (simp add: d)
  qed
qed

lemma regenerate_inv:
  assumes inv: "generation_inv db" and e: "enqueue_regeneration st now seed mp kind payload db = (run, job, db')"
    and mp: "mp \<in> set (pl_plans db)" and attempts: "1 \<le> ps_worker_job_max_attempts st"
  shows "generation_inv db'"
proof -
  let ?d = "set_plan_status MP_generating (mp_id mp) db"
  have ids: "mp_id ` set (pl_plans ?d) = mp_id ` set (pl_plans db)"
    unfolding set_plan_status_tables by (rule update_row_keys) simp
  show ?thesis
  proof (rule enqueue_inv[OF e[unfolded enqueue_regeneration_def] _ _ _ _ attempts])
    show "keys_ok gj_id (pl_jobs ?d)" using inv by (simp add: generation_inv_def)
    have "linked_job ?d j = linked_job db j" for j by (rule run_plan_linked[OF _ ids]) simp_all
    then show "\<forall>j\<in>set (pl_jobs ?d). generation_job_ok j \<and> linked_job ?d j" using inv by (simp add: generation_inv_def)
    have "mp_id q = mp_id mp \<or> q \<in> set (pl_plans db)" if "q \<in> set (pl_plans ?d)" for q
      using that by (auto simp: set_update_row split: if_splits)
    then show "\<forall>q\<in>set (pl_plans ?d). mp_status q = MP_generating \<longrightarrow> mp_id q = mp_id mp \<or>
        (\<exists>j\<in>set (pl_jobs ?d). gj_plan j = Some (mp_id q) \<and> active_job j)"
      using inv unfolding generation_inv_def generating_served_def by (metis set_plan_status_tables(1))
    show "mp_id mp \<in> mp_id ` set (pl_plans ?d)" using mp by (simp only: ids imageI)
  qed
qed

lemma no_generation_inv: "no_generation db \<Longrightarrow> generation_inv db"
  by (simp add: no_generation_def generation_inv_def generating_served_def)

lemma generation_inv_step:
  assumes "generation_step e db db'" "generation_inv db" shows "generation_inv db'"
  using assms
proof (cases rule: generation_step.cases)
  case (recover st now held n)
  with recover_inv[OF assms(2), of st now held] show ?thesis by simp
qed (auto intro: create_inv regenerate_inv process_inv simp: duplicate_generation_def dest: claim_inv)

interpretation generation: invariant_system no_generation generation_step generation_inv
  by unfold_locales (fact no_generation_inv, erule (1) generation_inv_step)

section \<open>The tries that are left\<close>

definition job_tries :: "generation_job \<Rightarrow> nat" where
  "job_tries j = (if active_job j then nat (gj_max_attempts j - gj_attempts j) else 0)"

definition tries_left :: "plan_db \<Rightarrow> nat" where
  "tries_left db = (\<Sum>j\<leftarrow>pl_jobs db. job_tries j)"

lemma tries_sum_update:
  fixes w :: "'r \<Rightarrow> nat"
  assumes "keys_ok key t" "r \<in> set t" "i = key r"
  shows "(\<Sum>x\<leftarrow>update_row key i f t. w x) + w r = (\<Sum>x\<leftarrow>t. w x) + w (f r)"
  using assms(1,2) unfolding assms(3)
proof (induction t)
  case Nil
  then show ?case by simp
next
  case (Cons x t)
  show ?case
  proof (cases "key x = key r")
    case True
    with Cons.prems have "x = r" "key r \<notin> key ` set t" by (auto simp: keys_ok_def)
    moreover have "update_row key (key r) f (x # t) = f x # update_row key (key r) f t"
      using True by (simp add: update_row_def)
    ultimately show ?thesis by (simp add: update_row_id)
  next
    case False
    with Cons.prems have "keys_ok key t" "r \<in> set t" by (auto simp: keys_ok_def)
    from Cons.IH[OF this] False show ?thesis by (simp add: update_row_def)
  qed
qed

lemma tries_one:
  assumes "generation_inv db" "job \<in> set (pl_jobs db)" "pl_jobs db' = update_row gj_id (gj_id job) f (pl_jobs db)"
  shows "tries_left db' + job_tries job = tries_left db + job_tries (f job)"
  using assms tries_sum_update[of gj_id "pl_jobs db" job "gj_id job" job_tries f]
  by (simp add: tries_left_def generation_inv_def)

lemma active_tries: "generation_job_ok j \<Longrightarrow> active_job j \<Longrightarrow> 0 < job_tries j"
  by (simp add: job_tries_def generation_job_ok_def)

lemma process_tries:
  assumes inv: "generation_inv db" and job: "job \<in> set (pl_jobs db)" "gj_status job = OS_collecting_data"
  shows "tries_left (process_generation_job env job db) < tries_left db"
proof -
  from assms obtain p where p: "linked_job db job" "gj_plan job = Some p"
    by (auto simp: generation_inv_def linked_job_def)
  have ok: "generation_job_ok job" using inv job by (simp add: generation_inv_def)
  have act: "active_job job" using job(2) by (simp add: active_job_def)
  let ?db' = "process_generation_job env job db"
  from process_effect[OF p, of env] obtain f where f: "pl_jobs ?db' = update_row gj_id (gj_id job) f (pl_jobs db)"
    "job_tries (f job) < job_tries job"
  proof (elim disjE conjE)
    assume "ends_job (gj_id job) p (gj_attempts job + 1) db ?db'"
    then obtain f where "pl_jobs ?db' = update_row gj_id (gj_id job) f (pl_jobs db)" "gj_status (f job) \<in> {OS_completed, OS_failed}"
      unfolding ends_job_def by blast
    with active_tries[OF ok act] that show thesis by (auto simp: job_tries_def active_job_def)
  next
    assume left: "gj_attempts job + 1 < gj_max_attempts job"
      and "requeues_job (gj_id job) (gj_attempts job + 1)
        (Some (ge_now env + generation_backoff (ge_settings env) (gj_attempts job + 1))) db ?db'"
    then obtain f where "pl_jobs ?db' = update_row gj_id (gj_id job) f (pl_jobs db)" "keeps_job f"
      "gj_attempts (f job) = gj_attempts job + 1"
      unfolding requeues_job_def by blast
    with left act that show thesis by (auto simp: job_tries_def keeps_job_def)
  qed
  with tries_one[OF inv job(1) f(1)] show ?thesis by linarith
qed

text \<open>When nothing but some given rows is in progress and every queued job is due by a time.\<close>

definition due_by :: "time \<Rightarrow> generation_job \<Rightarrow> bool" where
  "due_by t j \<longleftrightarrow> gj_status j = OS_queued \<longrightarrow> (case gj_run_after j of None \<Rightarrow> True | Some due \<Rightarrow> due \<le> t)"

definition settled_by :: "generation_job set \<Rightarrow> time \<Rightarrow> plan_db \<Rightarrow> bool" where
  "settled_by kept t db \<longleftrightarrow> (\<forall>j\<in>set (pl_jobs db). (in_progress (gj_status j) \<longrightarrow> j \<in> kept) \<and> due_by t j)"

lemma due_by_mono: "due_by t j \<Longrightarrow> t \<le> t' \<Longrightarrow> due_by t' j"
  by (auto simp: due_by_def split: option.splits)

lemma settled_mono: "settled_by kept t db \<Longrightarrow> t \<le> t' \<Longrightarrow> settled_by kept t' db"
  by (auto simp: settled_by_def intro: due_by_mono)

lemma settled_row:
  assumes s: "settled_by kept t db" and le: "t \<le> t'" and jobs: "pl_jobs db' = update_row gj_id i f (pl_jobs db)"
    and row: "\<And>r. gj_status (f r) \<in> {OS_completed, OS_failed} \<or>
      gj_status (f r) = OS_queued \<and> (case gj_run_after (f r) of None \<Rightarrow> True | Some due \<Rightarrow> due \<le> t')"
  shows "settled_by kept t' db'"
  unfolding settled_by_def
proof
  fix j assume "j \<in> set (pl_jobs db')"
  then obtain q where q: "q \<in> set (pl_jobs db)" "(if gj_id q = i then f q else q) = j"
    unfolding jobs set_update_row by blast
  show "(in_progress (gj_status j) \<longrightarrow> j \<in> kept) \<and> due_by t' j"
  proof (cases "gj_id q = i")
    case True
    with q(2) row[of q] show ?thesis by (auto simp: due_by_def)
  next
    case False
    with q s le show ?thesis by (auto simp: settled_by_def intro: due_by_mono)
  qed
qed

text \<open>A claimed job that is processed uses up a try, and is due five minutes later at most.\<close>

lemma claim_uses_try:
  assumes inv: "generation_inv db" and claim: "claim_generation_job now held w db = Some (job, db1)"
  shows "tries_left (process_generation_job env job db1) < tries_left db"
  using claim
proof (rule claim_effect)
  fix j take
  assume j: "j \<in> set (pl_jobs db)" "claimable now held j" "job = take j"
    and take: "take = (\<lambda>j. j\<lparr>gj_status := OS_collecting_data, gj_locked_at := Some now,
      gj_locked_by := Some w, gj_heartbeat_at := Some now\<rparr>)"
    and db1: "db1 = update_generation_job (gj_id j) take db"
  from claim_inv[OF inv claim] have "tries_left (process_generation_job env job db1) < tries_left db1"
    by (intro process_tries) blast+
  moreover have "job_tries (take j) = job_tries j"
    using j(2) by (simp add: job_tries_def active_job_def take claimable_def)
  ultimately show ?thesis using tries_one[OF inv j(1), of db1 take] by (simp add: db1)
qed

lemma claim_settled:
  assumes inv: "generation_inv db" and s: "settled_by kept t db"
    and claim: "claim_generation_job now held w db = Some (job, db1)"
  shows "settled_by kept (max t (ge_now env + 300000000)) (process_generation_job env job db1)"
  using claim
proof (rule claim_effect)
  fix j take
  let ?db' = "process_generation_job env job db1" and ?t = "max t (ge_now env + 300000000)"
  assume j: "job = take j" "keeps_job take" and db1: "db1 = update_generation_job (gj_id j) take db"
  have id: "gj_id job = gj_id j" using j by (simp add: keeps_job_def)
  from claim_inv[OF inv claim] obtain pl where pl: "linked_job db1 job" "gj_plan job = Some pl"
    by (auto simp: generation_inv_def linked_job_def)
  let ?due = "Some (ge_now env + generation_backoff (ge_settings env) (gj_attempts job + 1))"
  from process_effect[OF pl, of env] obtain f where f: "pl_jobs ?db' = update_row gj_id (gj_id j) f (pl_jobs db1)"
    "\<And>r. gj_status (f r) \<in> {OS_completed, OS_failed} \<or> gj_status (f r) = OS_queued \<and> gj_run_after (f r) = ?due"
    unfolding ends_job_def requeues_job_def id by blast
  have jobs: "pl_jobs ?db' = update_row gj_id (gj_id j) (\<lambda>r. f (take r)) (pl_jobs db)"
    using update_row_twice[of gj_id take "gj_id j" f "pl_jobs db"] j(2) by (simp add: f(1) keeps_job_def) (simp add: db1)
  show ?thesis
  proof (rule settled_row[OF s _ jobs])
    show "t \<le> ?t" by simp
    fix r
    from f(2)[of "take r"] show "gj_status (f (take r)) \<in> {OS_completed, OS_failed} \<or> gj_status (f (take r)) = OS_queued \<and>
        (case gj_run_after (f (take r)) of None \<Rightarrow> True | Some due \<Rightarrow> due \<le> ?t)"
      using backoff_bound[of "ge_settings env" "gj_attempts job + 1"] by auto
  qed
qed

text \<open>A poll with a job due processes one; the next is due five minutes later at most.\<close>

lemma poll_settled:
  assumes inv: "generation_inv db" and s: "settled_by kept t db"
    and poll: "poll_once env {} w db = (processed, db')"
  shows "generation_inv db' \<and> settled_by kept (max t (ge_now env + 300000000)) db' \<and>
    (if processed then tries_left db' < tries_left db
     else db' = db \<and> (t \<le> ge_now env \<longrightarrow> (\<forall>j\<in>set (pl_jobs db). gj_status j \<noteq> OS_queued)))"
proof (cases "claim_generation_job (ge_now env) {} w db")
  case None
  then have none: "filter (claimable (ge_now env) {}) (pl_jobs db) = []"
    by (auto simp: claim_generation_job_def Let_def split: option.splits)
  have idle: "gj_status j \<noteq> OS_queued" if j: "j \<in> set (pl_jobs db)" "t \<le> ge_now env" for j
  proof
    assume q: "gj_status j = OS_queued"
    have "due_by (ge_now env) j" using s j by (auto simp: settled_by_def intro: due_by_mono)
    with q have "claimable (ge_now env) {} j" by (auto simp: due_by_def claimable_def split: option.splits)
    with none j show False by (auto simp: filter_empty_conv)
  qed
  from None poll have "db' = db" "\<not> processed" by (auto simp: poll_once_def)
  with inv idle settled_mono[OF s] show ?thesis by simp
next
  case (Some c)
  obtain job db1 where c: "c = (job, db1)" by fastforce
  note claim = Some[unfolded c]
  from claim poll have p: "processed" "db' = process_generation_job env job db1" by (auto simp: poll_once_def)
  from claim_inv[OF inv claim] have "generation_inv db'" unfolding p(2) by (intro process_inv) blast+
  with claim_uses_try[OF inv claim] claim_settled[OF inv s claim] p show ?thesis by simp
qed

text \<open>
  A worker that polls with time going forward and is not stopped; and how many of its polls are five
  minutes apart, from a time on.
\<close>

fun polls_on :: "time \<Rightarrow> (bool \<times> generation_env) list \<Rightarrow> bool" where
  "polls_on s [] = True"
| "polls_on s ((stop, env) # polls) = (\<not> stop \<and> s \<le> ge_now env \<and> polls_on (ge_now env) polls)"

fun rounds :: "time \<Rightarrow> (bool \<times> generation_env) list \<Rightarrow> nat" where
  "rounds t [] = 0"
| "rounds t ((stop, env) # polls) =
     (if t \<le> ge_now env then Suc (rounds (ge_now env + 300000000) polls) else rounds t polls)"

lemma idle_loop:
  "\<forall>j\<in>set (pl_jobs db). gj_status j \<noteq> OS_queued \<Longrightarrow> generation_loop None idle w polls db = db"
proof (induction polls arbitrary: idle)
  case Nil
  then show ?case by simp
next
  case (Cons p polls)
  obtain stop env where p: "p = (stop, env)" by fastforce
  have "filter (claimable (ge_now env) {}) (pl_jobs db) = []"
    using Cons.prems by (auto simp: filter_empty_conv claimable_def)
  then have "poll_once env {} w db = (False, db)" by (simp add: poll_once_def claim_generation_job_def argmin_def)
  with Cons show ?case by (simp add: p)
qed

lemma settled_idle: "settled_by kept t db \<Longrightarrow> j \<in> set (pl_jobs db) \<Longrightarrow> gj_status j \<noteq> OS_queued \<Longrightarrow> active_job j \<Longrightarrow> j \<in> kept"
  by (auto simp: settled_by_def active_job_def)

text \<open>
  What is queued is due by \<open>d\<close>, at most five minutes after the last poll \<open>s\<close>. A poll from \<open>t\<close> on
  that finds nothing because \<open>d\<close> is later makes up for the try an earlier poll used.
\<close>

lemma loop_drains:
  assumes "generation_inv db" "settled_by kept d db" "polls_on s polls"
    "d \<le> t \<or> d \<le> s + 300000000" "tries_left db + (if d \<le> t then 0 else 1) \<le> rounds t polls"
  shows "generation_inv (generation_loop None idle w polls db) \<and>
    (\<forall>j\<in>set (pl_jobs (generation_loop None idle w polls db)). active_job j \<longrightarrow> j \<in> kept)"
  using assms
proof (induction polls arbitrary: s t d db idle)
  case Nil
  then have "\<not> active_job j" if "j \<in> set (pl_jobs db)" for j
    using that active_tries[of j] by (auto simp: tries_left_def generation_inv_def split: if_splits)
  with Nil show ?case by simp
next
  case (Cons p polls)
  obtain stop env where p: "p = (stop, env)" by fastforce
  let ?now = "ge_now env" and ?later = "ge_now env + 300000000"
  let ?d = "max d ?later"
  from Cons.prems(3) have go: "\<not> stop" "s \<le> ?now" "polls_on ?now polls" by (simp_all add: p)
  obtain processed db' where poll: "poll_once env {} w db = (processed, db')" by fastforce
  note step = poll_settled[OF Cons.prems(1,2) poll]
  have loop: "generation_loop None idle w (p # polls) db = generation_loop None (if processed then 0 else idle + 1) w polls db'"
    using poll go(1) by (simp add: p)
  consider (idle) "\<not> processed" "d \<le> ?now" | (before) "?now < t" "processed \<or> ?now < d" | (counted) "t \<le> ?now" "processed \<or> ?now < d"
    by linarith
  then show ?case
  proof cases
    case idle
    with step have none: "\<forall>j\<in>set (pl_jobs db). gj_status j \<noteq> OS_queued" "db' = db" by simp_all
    with loop idle_loop[OF none(1)] Cons.prems(1) settled_idle[OF Cons.prems(2)] show ?thesis by simp
  next
    case before
    have tries: "tries_left db + (if d \<le> t then 0 else 1) \<le> rounds t polls" using Cons.prems(5) before(1) by (simp add: p)
    show ?thesis
    proof (cases processed)
      case True
      with step tries have less: "tries_left db' + (if ?d \<le> t then 0 else 1) \<le> rounds t polls" by auto
      have "?d \<le> t \<or> ?d \<le> ?now + 300000000" using Cons.prems(4) go(2) by auto
      from Cons.IH[OF _ _ go(3) this less] step show ?thesis unfolding loop by blast
    next
      case False
      with step have "db' = db" by simp
      moreover have "d \<le> t \<or> d \<le> ?now + 300000000" using Cons.prems(4) go(2) by auto
      from Cons.IH[OF Cons.prems(1,2) go(3) this tries] have
        "generation_inv (generation_loop None (idle + 1) w polls db) \<and>
         (\<forall>j\<in>set (pl_jobs (generation_loop None (idle + 1) w polls db)). active_job j \<longrightarrow> j \<in> kept)" .
      ultimately show ?thesis using False unfolding loop by simp
    qed
  next
    case counted
    have "tries_left db + (if d \<le> t then 0 else 1) \<le> Suc (rounds ?later polls)"
      using Cons.prems(5) counted(1) by (simp add: p)
    moreover have "tries_left db' < tries_left db \<or> t < d \<and> db' = db"
      using step counted by (auto split: if_splits)
    moreover from step have "tries_left db' \<le> tries_left db" by (auto split: if_splits)
    moreover have "?d = ?later" using Cons.prems(4) go(2) counted(1) by auto
    ultimately have less: "tries_left db' + (if ?d \<le> ?later then 0 else 1) \<le> rounds ?later polls"
      by (auto split: if_splits)
    have "?d \<le> ?later \<or> ?d \<le> ?now + 300000000" using \<open>?d = ?later\<close> by simp
    from Cons.IH[OF _ _ go(3) this less] step show ?thesis unfolding loop by blast
  qed
qed

text \<open>Recovering what the dead worker held leaves queued rows that are due, and no more tries.\<close>

lemma recover_row:
  assumes inv: "generation_inv db" and job: "j \<in> set (pl_jobs db)" "in_progress (gj_status j)"
  obtains f where "pl_jobs (recover_job now j db) = update_row gj_id (gj_id j) f (pl_jobs db)"
    "\<not> in_progress (gj_status (f j)) \<and> due_by t (f j)" "job_tries (f j) \<le> job_tries j"
proof -
  from inv job obtain p where p: "gj_plan j = Some p" by (auto simp: generation_inv_def linked_job_def)
  have act: "active_job j" using job(2) by (simp add: active_job_def)
  show thesis
  proof (cases "gj_max_attempts j \<le> gj_attempts j + 1")
    case True
    then have "ends_job (gj_id j) p (gj_attempts j + 1) db (recover_job now j db)"
      using recover_effect[of j p db now] p by simp
    then obtain f where "pl_jobs (recover_job now j db) = update_row gj_id (gj_id j) f (pl_jobs db)"
      "gj_status (f j) \<in> {OS_completed, OS_failed}" unfolding ends_job_def by blast
    moreover from this have "\<not> in_progress (gj_status (f j)) \<and> due_by t (f j)" "job_tries (f j) = 0"
      by (auto simp: due_by_def job_tries_def active_job_def)
    ultimately show thesis using that by simp
  next
    case False
    then have "requeues_job (gj_id j) (gj_attempts j + 1) None db (recover_job now j db)"
      using recover_effect[of j p db now] by simp
    then obtain f where f: "pl_jobs (recover_job now j db) = update_row gj_id (gj_id j) f (pl_jobs db)"
      "gj_max_attempts (f j) = gj_max_attempts j"
      "gj_attempts (f j) = gj_attempts j + 1" "gj_status (f j) = OS_queued" "gj_run_after (f j) = None"
      unfolding requeues_job_def keeps_job_def by blast
    show thesis
    proof (rule that[OF f(1)])
      show "\<not> in_progress (gj_status (f j)) \<and> due_by t (f j)" by (simp add: due_by_def f(4,5))
      show "job_tries (f j) \<le> job_tries j" using act f(2-4) by (simp add: job_tries_def active_job_def)
    qed
  qed
qed

lemma recover_fold_settled:
  assumes "generation_inv db" "\<forall>j\<in>set js. j \<in> set (pl_jobs db) \<and> in_progress (gj_status j)" "distinct (map gj_id js)"
    "\<forall>j\<in>set (pl_jobs db). (in_progress (gj_status j) \<longrightarrow> j \<in> set js \<union> kept) \<and> due_by t j"
  shows "settled_by kept t (fold (recover_job now) js db) \<and> tries_left (fold (recover_job now) js db) \<le> tries_left db"
  using assms
proof (induction js arbitrary: db)
  case Nil
  then show ?case by (auto simp: settled_by_def due_by_def)
next
  case (Cons j js)
  let ?db = "recover_job now j db"
  have j: "j \<in> set (pl_jobs db)" "in_progress (gj_status j)" using Cons.prems(2) by simp_all
  obtain f where f: "pl_jobs ?db = update_row gj_id (gj_id j) f (pl_jobs db)"
    "\<not> in_progress (gj_status (f j)) \<and> due_by t (f j)" "job_tries (f j) \<le> job_tries j"
    using recover_row[OF Cons.prems(1) j] by blast
  have keys: "keys_ok gj_id (pl_jobs db)" using Cons.prems(1) by (simp add: generation_inv_def)
  have other: "gj_id q \<noteq> gj_id j" if "q \<in> set js" for q
    using that Cons.prems(3) by (metis distinct.simps(2) imageI list.set_map list.simps(9))
  have here: "\<forall>q\<in>set js. q \<in> set (pl_jobs ?db) \<and> in_progress (gj_status q)"
    using Cons.prems(2) other unfolding f(1) set_update_row by fastforce
  have rest: "(in_progress (gj_status q) \<longrightarrow> q \<in> set js \<union> kept) \<and> due_by t q" if "q \<in> set (pl_jobs ?db)" for q
  proof -
    from that obtain r where r: "r \<in> set (pl_jobs db)" "(if gj_id r = gj_id j then f r else r) = q"
      unfolding f(1) set_update_row by blast
    show ?thesis
    proof (cases "gj_id r = gj_id j")
      case True
      then have "r = j" by (rule only_row[OF keys j(1) r(1)])
      with r(2) have "f j = q" by simp
      with f(2) show ?thesis by simp
    next
      case False
      then have "r = q" using r(2) by simp
      moreover have "r \<noteq> j" using False by blast
      moreover have "(in_progress (gj_status r) \<longrightarrow> r \<in> set (j # js) \<union> kept) \<and> due_by t r" by (rule bspec[OF Cons.prems(4) r(1)])
      ultimately show ?thesis by simp
    qed
  qed
  have inv: "generation_inv ?db" by (rule recover_job_inv[OF Cons.prems(1) j])
  have "distinct (map gj_id js)" using Cons.prems(3) by simp
  then have "settled_by kept t (fold (recover_job now) js ?db) \<and> tries_left (fold (recover_job now) js ?db) \<le> tries_left ?db"
    by (rule Cons.IH[OF inv here]) (rule ballI, erule rest)
  moreover have "tries_left ?db \<le> tries_left db" using tries_one[OF Cons.prems(1) j(1) f(1)] f(3) by linarith
  ultimately show ?case by simp
qed

text \<open>The jobs the reaper leaves alone: in progress with a heartbeat within its timeout.\<close>

definition fresh_job :: "plan_settings \<Rightarrow> time \<Rightarrow> generation_job \<Rightarrow> bool" where
  "fresh_job st now j \<longleftrightarrow> in_progress (gj_status j) \<and>
     (case gj_heartbeat_at j of None \<Rightarrow> False | Some beat \<Rightarrow> now - reaper_timeout st \<le> beat)"

lemma recover_settled:
  assumes inv: "generation_inv db" and due: "list_all (due_by t) (pl_jobs db)"
  shows "settled_by {j \<in> set (pl_jobs db). fresh_job st now j} t (snd (recover_abandoned_jobs st now {} db)) \<and>
    tries_left (snd (recover_abandoned_jobs st now {} db)) \<le> tries_left db"
proof -
  let ?js = "filter (abandoned (now - reaper_timeout st) {}) (pl_jobs db)"
  let ?kept = "{j \<in> set (pl_jobs db). fresh_job st now j}"
  have "distinct (map gj_id ?js)" using inv by (simp add: generation_inv_def keys_ok_def distinct_map_filter)
  moreover have "\<forall>j\<in>set (pl_jobs db). (in_progress (gj_status j) \<longrightarrow> j \<in> set ?js \<union> ?kept) \<and> due_by t j"
    using due by (auto simp: fresh_job_def list_all_iff abandoned_def split: option.splits)
  ultimately show ?thesis
    unfolding recover_abandoned_jobs_def Let_def snd_conv
    by (intro recover_fold_settled[OF inv]) (auto simp: abandoned_def)
qed


section \<open>Properties\<close>

text \<open>C8 Whatever plans are created, duplicated and regenerated, and however workers claim, process,
die and have their jobs recovered: no plan is left in the state \<open>generating\<close> without a job that is
queued or being processed; the keys of the jobs differ; and a job that is not over still has a try
left and names a run of its own plan, while one that is processed has an owner and a heartbeat.\<close>

theorem generating_has_job:
  assumes "generation_reachable db"
  shows "distinct (map gj_id (pl_jobs db)) \<and>
    list_all (\<lambda>j. generation_job_ok j \<and> linked_job db j) (pl_jobs db) \<and>
    list_all (\<lambda>mp. mp_status mp \<noteq> MP_generating \<or>
      list_ex (\<lambda>j. gj_plan j = Some (mp_id mp) \<and> active_job j) (pl_jobs db)) (pl_plans db)"
  using generation.reachable_inv[OF assms]
  by (auto simp: generation_inv_def generating_served_def list_all_iff list_ex_iff keys_ok_def)

text \<open>C9 A worker that starts, with nobody else at work, ends every job that is queued or that a dead
worker left: when it polls for long enough - every queued job is due by \<open>t\<close>, and among its polls from
\<open>t\<close> on there are as many that are five minutes apart as there are tries left, whatever polls come in
between - every job is completed or failed, and no plan is left \<open>generating\<close>. Only a job that was in
progress with a heartbeat within the timeout of the reaper when the worker started stays as it was,
and with it its plan: the worker looks for abandoned jobs only when it starts.\<close>

theorem generation_worker_drains:
  assumes "generation_reachable db" and "list_all (due_by t) (pl_jobs db)"
    and "polls_on now polls" and "tries_left db \<le> rounds t polls"
  shows "let after = run_generation_worker st now None w polls db in
    list_all (\<lambda>j. gj_status j = OS_completed \<or> gj_status j = OS_failed \<or>
      j \<in> set (pl_jobs db) \<and> fresh_job st now j) (pl_jobs after) \<and>
    list_all (\<lambda>mp. mp_status mp \<noteq> MP_generating \<or>
      list_ex (\<lambda>j. gj_plan j = Some (mp_id mp) \<and> fresh_job st now j) (pl_jobs db)) (pl_plans after)"
proof -
  let ?db = "snd (recover_abandoned_jobs st now {} db)" and ?after = "run_generation_worker st now None w polls db"
  have inv: "generation_inv db" by (rule generation.reachable_inv[OF assms(1)])
  have left: "generation_inv ?db" by (rule recover_inv[OF inv])
  from recover_settled[OF inv assms(2), of st now] assms(4)
    loop_drains[OF left _ assms(3), where idle = 0 and w = w and d = t and t = t and
      kept = "{j \<in> set (pl_jobs db). fresh_job st now j}"]
  have "generation_inv ?after \<and>
      (\<forall>j\<in>set (pl_jobs ?after). active_job j \<longrightarrow> j \<in> set (pl_jobs db) \<and> fresh_job st now j)"
    by (simp add: run_generation_worker_def)
  moreover have "gj_status j = OS_completed \<or> gj_status j = OS_failed" if "generation_job_ok j" "\<not> active_job j" for j
    using that by (auto simp: generation_job_ok_def active_job_def)
  ultimately show ?thesis
    unfolding Let_def generation_inv_def generating_served_def list_all_iff list_ex_iff by (intro conjI ballI) blast+
qed

section \<open>An example\<close>

text \<open>The plan of the example is generated again; the worker that claims the job dies.\<close>

definition idle_plan :: meal_plan where
  "idle_plan = example_plan\<lparr>mp_status := MP_ready\<rparr>"

definition idle_tables :: plan_db where
  "idle_tables = example_tables\<lparr>pl_plans := [idle_plan], pl_runs := [], pl_jobs := []\<rparr>"

definition queued_tables :: plan_db where
  "queued_tables = snd (snd (enqueue_regeneration example_settings 0 7 idle_plan ''regenerate_menu'' None idle_tables))"

definition claimed_tables :: plan_db where
  "claimed_tables = snd (the (claim_generation_job 0 {} ''old'' queued_tables))"

definition generation_poll :: "time \<Rightarrow> bool \<times> generation_env" where
  "generation_poll now = (False, \<lparr>ge_settings = example_settings, ge_call = (\<lambda>_ _. Inl ''''), ge_parse = (\<lambda>_. None),
     ge_draw = (\<lambda>_ _. 0), ge_today = 739000, ge_now = now\<rparr>)"

lemma idle_no_generation: "no_generation idle_tables"
  by (simp add: no_generation_def idle_tables_def idle_plan_def)

lemma queued_reachable: "generation_reachable queued_tables"
proof (rule reachable.step)
  show "generation_reachable idle_tables" by (rule reachable.start, rule idle_no_generation)
  show "generation_step (Ev_regenerate example_settings 0 7 idle_plan ''regenerate_menu'' None) idle_tables queued_tables"
  proof (rule generation_step.regenerate)
    show "enqueue_regeneration example_settings 0 7 idle_plan ''regenerate_menu'' None idle_tables =
      (fst (enqueue_regeneration example_settings 0 7 idle_plan ''regenerate_menu'' None idle_tables),
       fst (snd (enqueue_regeneration example_settings 0 7 idle_plan ''regenerate_menu'' None idle_tables)), queued_tables)"
      by (simp add: queued_tables_def)
  qed (simp_all add: idle_tables_def example_settings_def)
qed

lemma claimed_reachable: "generation_reachable claimed_tables"
proof (rule reachable.step)
  show "generation_reachable queued_tables" by (rule queued_reachable)
  have "claim_generation_job 0 {} ''old'' queued_tables \<noteq> None" by code_simp
  then have "claim_generation_job 0 {} ''old'' queued_tables =
      Some (fst (the (claim_generation_job 0 {} ''old'' queued_tables)), claimed_tables)"
    by (auto simp: claimed_tables_def)
  then show "generation_step (Ev_claim 0 {} ''old'') queued_tables claimed_tables" by (rule generation_step.claim)
qed

theorem generating_has_job_witness:
  "map mp_status (pl_plans claimed_tables) = [MP_generating] \<and>
   list_ex (\<lambda>j. gj_plan j = Some 1 \<and> active_job j) (pl_jobs claimed_tables)"
proof -
  have p: "map (\<lambda>mp. (mp_id mp, mp_status mp)) (pl_plans claimed_tables) = [(1, MP_generating)]" by code_simp
  with generating_has_job[OF claimed_reachable] show ?thesis by (auto simp: map_eq_Cons_conv)
qed

theorem generation_worker_drains_witness:
  "let after = run_generation_worker example_settings 600000001 None ''new''
     (map generation_poll [600000001, 602000001, 902000001, 1202000001, 1202500001]) claimed_tables in
   list_all (\<lambda>j. gj_status j = OS_completed \<or> gj_status j = OS_failed) (pl_jobs after) \<and>
   list_all (\<lambda>mp. mp_status mp \<noteq> MP_generating) (pl_plans after)"
proof -
  let ?polls = "map generation_poll [600000001, 602000001, 902000001, 1202000001, 1202500001]"
  have due: "list_all (due_by 600000001) (pl_jobs claimed_tables)" by code_simp
  have on: "polls_on 600000001 ?polls" by (simp add: generation_poll_def)
  have "tries_left claimed_tables = 3" by code_simp
  then have tries: "tries_left claimed_tables \<le> rounds 600000001 ?polls" by (simp add: generation_poll_def)
  have none: "filter (fresh_job example_settings 600000001) (pl_jobs claimed_tables) = []" by code_simp
  from none generation_worker_drains[OF claimed_reachable due on tries, of example_settings "''new''"] show ?thesis
    by (auto simp: Let_def list_all_iff list_ex_iff filter_empty_conv)
qed

text \<open>A worker restarted at once leaves the job its predecessor held in progress, however long it polls.\<close>

lemma prompt_restart_leaves_job:
  "map gj_status (pl_jobs (run_generation_worker example_settings 1000000 None ''new''
     (map generation_poll [1000000, 600000001, 902000001, 1202000001]) claimed_tables)) = [OS_collecting_data]"
  by code_simp

end
