(* ===== verification/PriceScope.thy ===== *)
theory PriceScope
  imports CurrentPrice
begin

text \<open>
  \<open>services/price_scope.py\<close>: which price may cost which plan. Scopes are the texts the
  columns hold; a text outside the table of ranks has the default of the lookup.
\<close>

section \<open>The rule\<close>

definition scope_rank :: "(string, int) dict" where
  "scope_rank = [(''exact_store'', 1), (''delivery_zone'', 2), (''postal_code'', 3), (''municipality'', 4),
     (''province'', 5), (''region'', 6), (''national'', 7), (''unknown'', 8)]"

definition scope_satisfies :: "string \<Rightarrow> string \<Rightarrow> bool" where
  "scope_satisfies candidate_scope required_scope =
     (if candidate_scope = ''unknown'' then required_scope = ''unknown''
      else dget scope_rank required_scope 99 \<le> dget scope_rank candidate_scope 0)"

fun scope_text :: "price_scope \<Rightarrow> string" where
  "scope_text PS_exact_store = ''exact_store''"
| "scope_text PS_delivery_zone = ''delivery_zone''"
| "scope_text PS_postal_code = ''postal_code''"
| "scope_text PS_municipality = ''municipality''"
| "scope_text PS_province = ''province''"
| "scope_text PS_region = ''region''"
| "scope_text PS_national = ''national''"
| "scope_text PS_unknown = ''unknown''"

definition gated_current_price ::
  "int \<times> int \<Rightarrow> db \<Rightarrow> int \<Rightarrow> int option \<Rightarrow> string \<Rightarrow> time \<Rightarrow> bool \<Rightarrow> current_price option" where
  "gated_current_price thresholds db variant_id store_id required_scope as_of staging =
     (let usable = (\<lambda>p. scope_satisfies (scope_text (cp_scope p)) required_scope);
          national = current thresholds db variant_id None (Some PS_national) as_of staging
      in case current thresholds db variant_id store_id None as_of staging of
           Some p \<Rightarrow> if usable p then Some p
             else (case national of Some n \<Rightarrow> if usable n then Some n else None | None \<Rightarrow> None)
         | None \<Rightarrow> (case national of Some n \<Rightarrow> if usable n then Some n else None | None \<Rightarrow> None))"


section \<open>Lemmas\<close>

lemma scope_text_inj: "scope_text a = scope_text b \<Longrightarrow> a = b"
  by (cases a; cases b) simp_all

text \<open>
  The areas a price of a scope may serve, from the narrowest to the broadest, written without the
  ranks of the code: a price of a scope serves the plans of that scope and of the narrower ones, and
  one of unknown scope serves no plan of a known scope.
\<close>

fun served_scopes :: "price_scope \<Rightarrow> price_scope set" where
  "served_scopes PS_exact_store = {PS_exact_store}"
| "served_scopes PS_delivery_zone = {PS_exact_store, PS_delivery_zone}"
| "served_scopes PS_postal_code = {PS_exact_store, PS_delivery_zone, PS_postal_code}"
| "served_scopes PS_municipality = {PS_exact_store, PS_delivery_zone, PS_postal_code, PS_municipality}"
| "served_scopes PS_province = {PS_exact_store, PS_delivery_zone, PS_postal_code, PS_municipality, PS_province}"
| "served_scopes PS_region =
     {PS_exact_store, PS_delivery_zone, PS_postal_code, PS_municipality, PS_province, PS_region}"
| "served_scopes PS_national =
     {PS_exact_store, PS_delivery_zone, PS_postal_code, PS_municipality, PS_province, PS_region, PS_national}"
| "served_scopes PS_unknown = {PS_unknown}"

lemma scope_satisfies_served: "scope_satisfies (scope_text c) (scope_text r) \<longleftrightarrow> r \<in> served_scopes c"
  by (cases c; cases r; simp add: scope_satisfies_def scope_rank_def dget_def)

lemma served_national: "PS_national \<in> served_scopes c \<longleftrightarrow> c = PS_national"
  by (cases c) simp_all

lemma national_serves: "r \<noteq> PS_unknown \<Longrightarrow> r \<in> served_scopes PS_national"
  by (cases r) simp_all

text \<open>The module promises that a national price satisfies any plan; one of unknown scope is the exception.\<close>

lemma national_not_for_unknown: "\<not> scope_satisfies ''national'' ''unknown''"
  by code_simp

lemma current_Some:
  assumes "current thresholds db v s sc t st = Some p"
  obtains q where "q \<in> set (observations db)" "eligible v s sc st (Some t) q"
    "p = to_current (fst thresholds) (snd thresholds) t q"
  using assms latest_valid_Some[of db v s sc st "Some t"] by (auto simp: current_def)

text \<open>C12 No price of the wrong zone. For a plan of a known scope the gated read returns only a price that
serves this scope: one of the same scope or of a broader known one. It is the price of an undisputed, not
withdrawn observation of the variant, nationwide or, when the plan has a store, taken at that store (without a store any
observation of a scope that serves the plan will do). Nothing is returned only when the variant has no
undisputed nationwide observation that, in staging, is in force.\<close>

theorem gated_price_zone_safe:
  assumes "required \<noteq> PS_unknown"
  shows "case gated_current_price thresholds db v store (scope_text required) t staging of
      None \<Rightarrow> list_all (\<lambda>q. \<not> (obs_variant q = v \<and> obs_scope q = PS_national \<and> obs_verification q \<noteq> VS_disputed \<and>
          obs_rolled_back_at q = None \<and> obs_staging_only q = staging \<and>
          (staging \<longrightarrow> obs_valid_from q \<le> t \<and> (case obs_valid_until q of None \<Rightarrow> True | Some u \<Rightarrow> t < u))))
        (observations db)
    | Some p \<Rightarrow> required \<in> served_scopes (cp_scope p) \<and>
        (if cp_scope p = PS_national then True else case store of None \<Rightarrow> True | Some s \<Rightarrow> cp_store p = Some s) \<and>
        list_ex (\<lambda>q. obs_variant q = v \<and> obs_amount q = cp_amount p \<and> obs_scope q = cp_scope p \<and>
          obs_store q = cp_store p \<and> obs_verification q \<noteq> VS_disputed \<and> obs_rolled_back_at q = None \<and>
          obs_staging_only q = staging) (observations db)"
proof -
  let ?cur = "current thresholds db v store None t staging"
  let ?nat = "current thresholds db v None (Some PS_national) t staging"
  let ?row = "\<lambda>p. list_ex (\<lambda>q. obs_variant q = v \<and> obs_amount q = cp_amount p \<and> obs_scope q = cp_scope p \<and>
    obs_store q = cp_store p \<and> obs_verification q \<noteq> VS_disputed \<and> obs_rolled_back_at q = None \<and>
    obs_staging_only q = staging) (observations db)"
  have row: "?row p" if "current thresholds db v s sc t staging = Some p" for s sc p
    using that by (elim current_Some) (auto simp: list_ex_iff eligible_def to_current_def Let_def)
  have scope: "cp_scope p = PS_national" if "?nat = Some p" for p
    using that by (elim current_Some) (auto simp: eligible_def to_current_def Let_def)
  have at: "case store of None \<Rightarrow> True | Some s \<Rightarrow> cp_store p = Some s" if "?cur = Some p" for p
    using that by (elim current_Some) (auto simp: eligible_def to_current_def Let_def split: option.splits)
  have none: "list_all (\<lambda>q. \<not> eligible v None (Some PS_national) staging (Some t) q) (observations db)" if "?nat = None"
    using that by (simp add: current_def latest_valid_def filter_empty_conv list_all_iff)
  have nat: "scope_satisfies (scope_text (cp_scope p)) (scope_text required)" if "?nat = Some p" for p
    unfolding scope_satisfies_served scope[OF that] by (rule national_serves[OF assms])
  show ?thesis
  proof (cases "\<exists>p. ?cur = Some p \<and> required \<in> served_scopes (cp_scope p)")
    case True
    then obtain p where p: "?cur = Some p" "required \<in> served_scopes (cp_scope p)" by blast
    then have "gated_current_price thresholds db v store (scope_text required) t staging = Some p"
      by (simp add: gated_current_price_def scope_satisfies_served)
    with p at row show ?thesis by simp
  next
    case False
    then have gated: "gated_current_price thresholds db v store (scope_text required) t staging = ?nat"
      using nat by (auto simp: gated_current_price_def scope_satisfies_served Let_def split: option.split)
    show ?thesis
    proof (cases ?nat)
      case None
      from none[OF this] show ?thesis by (simp add: gated None eligible_def list_all_iff) blast
    next
      case (Some p)
      with scope row[of None "Some PS_national"] national_serves[OF assms] show ?thesis by (simp add: gated)
    qed
  qed
qed

text \<open>A nationwide price and a newer one of a postal code: the national plan gets the former.\<close>

definition zoned_history :: db where
  "zoned_history = snd (record_observation ((example_observation 1 20)\<lparr>no_price_scope := PS_postal_code\<rparr>)
     (example_context 20 False) example_history)"

theorem gated_price_zone_safe_witness:
  "case gated_current_price (24, 48) zoned_history 4 None (scope_text PS_national) 30 False of
     None \<Rightarrow> False | Some p \<Rightarrow> cp_scope p = PS_national"
proof -
  have "list_ex (\<lambda>q. obs_variant q = 4 \<and> obs_scope q = PS_national \<and> obs_verification q \<noteq> VS_disputed \<and>
      obs_rolled_back_at q = None \<and> obs_staging_only q = False) (observations zoned_history)"
    by code_simp
  with gated_price_zone_safe[where required = PS_national and thresholds = "(24, 48)" and db = zoned_history and v = 4
      and store = None and t = 30 and staging = False] show ?thesis
    by (auto simp: served_national list_all_iff list_ex_iff split: option.splits)
qed

end
