(* ===== verification/PriceFallback.thy ===== *)
theory PriceFallback
  imports PriceScope
begin

text \<open>
  \<open>services/price_fallback.py\<close>: the ladder for an ingredient that cannot be costed with its
  original product, over candidates that were fetched before. Reasons and warnings are
  constructors for the fixed texts, with the values they interpolate.
\<close>

section \<open>Data\<close>

datatype fallback_action =
    FA_alternate_variant | FA_alternate_brand | FA_alternate_package | FA_canonical_equivalent
  | FA_dietary_substitution | FA_recipe_regeneration_required | FA_partial_cost
  | FA_user_approval_required | FA_no_verified_solution

datatype fallback_freshness = FF_fresh | FF_stale | FF_expired

datatype costing_mode =
    CM_fixed_package | CM_variable_weight | CM_variable_volume | CM_discrete_unit | CM_unresolved

datatype fallback_reason =
    FR_variant | FR_package | FR_brand | FR_equivalent | FR_substitution | FR_only_old
  | FR_unresolved | FR_only_breaching | FR_unpriced | FR_none

datatype fallback_warning =
    FW_scope_changed string string | FW_brand string | FW_approval | FW_partial | FW_uncosted

record fallback_candidate =
  fc_product_id :: int
  fc_variant_id :: "int option"
  fc_canonical_name :: string
  fc_brand :: "string option"
  fc_mode :: costing_mode
  fc_price :: "dec option"
  fc_scope :: string
  fc_freshness :: fallback_freshness
  fc_community :: bool
  fc_estimated :: bool
  fc_net_content :: "string option"
  fc_allergens :: "string set"
  fc_diet_tags :: "string set"
  fc_same_canonical :: bool
  fc_substitution :: bool

record ingredient_need =
  nd_ingredient_id :: int
  nd_canonical_name :: string
  nd_quantity :: dec
  nd_unit :: string
  nd_scope :: string
  nd_allergens :: "string set"
  nd_diets :: "string set"
  nd_product_id :: "int option"
  nd_net_content :: "string option"
  nd_brand :: "string option"
  nd_cost :: "dec option"

record fallback_decision =
  fd_ingredient_id :: int
  fd_action :: fallback_action
  fd_reason :: fallback_reason
  fd_scope :: "string option"
  fd_original_product :: "int option"
  fd_selected_product :: "int option"
  fd_original_cost :: "dec option"
  fd_replacement_cost :: "dec option"
  fd_confidence :: dec
  fd_warnings :: "fallback_warning list"

record fallback_policy =
  fp_stale :: bool
  fp_estimated :: bool
  fp_community :: bool


section \<open>Operations\<close>

definition blocks_on_constraint :: "fallback_candidate \<Rightarrow> ingredient_need \<Rightarrow> bool" where
  "blocks_on_constraint c need \<longleftrightarrow>
     fc_allergens c \<inter> nd_allergens need \<noteq> {} \<or> fc_diet_tags c \<inter> nd_diets need \<noteq> {}"

definition fallback_usable :: "fallback_policy \<Rightarrow> ingredient_need \<Rightarrow> fallback_candidate \<Rightarrow> bool" where
  "fallback_usable policy need c =
     (if (case fc_price c of None \<Rightarrow> True | Some p \<Rightarrow> p \<le> 0) then False
      else if fc_mode c = CM_unresolved then False
      else if blocks_on_constraint c need then False
      else if \<not> scope_satisfies (fc_scope c) (nd_scope need) then False
      else if fc_freshness c \<noteq> FF_fresh \<and> \<not> fp_stale policy then False
      else if fc_community c \<and> \<not> fp_community policy then False
      else \<not> (fc_estimated c \<and> \<not> fp_estimated policy))"

definition decide ::
  "ingredient_need \<Rightarrow> fallback_candidate \<Rightarrow> fallback_action \<Rightarrow> fallback_reason \<Rightarrow> dec \<Rightarrow> fallback_decision" where
  "decide need c action reason confidence =
     \<lparr>fd_ingredient_id = nd_ingredient_id need, fd_action = action, fd_reason = reason,
      fd_scope = Some (fc_scope c), fd_original_product = nd_product_id need,
      fd_selected_product = Some (fc_product_id c), fd_original_cost = nd_cost need,
      fd_replacement_cost = fc_price c, fd_confidence = confidence,
      fd_warnings =
        (if fc_scope c \<noteq> nd_scope need then [FW_scope_changed (nd_scope need) (fc_scope c)] else []) @
        (case fc_brand c of
           Some b \<Rightarrow> if b \<noteq> [] \<and> action = FA_alternate_brand then [FW_brand b] else []
         | None \<Rightarrow> [])\<rparr>"

definition give_up ::
  "ingredient_need \<Rightarrow> fallback_action \<Rightarrow> fallback_reason \<Rightarrow> dec \<Rightarrow> fallback_warning list \<Rightarrow> fallback_decision" where
  "give_up need action reason confidence warnings =
     \<lparr>fd_ingredient_id = nd_ingredient_id need, fd_action = action, fd_reason = reason, fd_scope = None,
      fd_original_product = nd_product_id need, fd_selected_product = None, fd_original_cost = None,
      fd_replacement_cost = None, fd_confidence = confidence, fd_warnings = warnings\<rparr>"

definition ask_approval :: "ingredient_need \<Rightarrow> fallback_candidate \<Rightarrow> fallback_decision" where
  "ask_approval need c =
     \<lparr>fd_ingredient_id = nd_ingredient_id need, fd_action = FA_user_approval_required, fd_reason = FR_only_old,
      fd_scope = Some (fc_scope c), fd_original_product = nd_product_id need,
      fd_selected_product = Some (fc_product_id c), fd_original_cost = nd_cost need,
      fd_replacement_cost = fc_price c, fd_confidence = 4 / 10, fd_warnings = [FW_approval]\<rparr>"

definition has_price :: "fallback_candidate \<Rightarrow> bool" where
  "has_price c = (case fc_price c of None \<Rightarrow> False | Some p \<Rightarrow> 0 < p)"

definition needs_approval :: "fallback_policy \<Rightarrow> fallback_candidate \<Rightarrow> bool" where
  "needs_approval policy c \<longleftrightarrow>
     fc_mode c \<noteq> CM_unresolved \<and>
     ((fc_freshness c \<noteq> FF_fresh \<and> \<not> fp_stale policy) \<or> (fc_community c \<and> \<not> fp_community policy) \<or>
      (fc_estimated c \<and> \<not> fp_estimated policy))"

definition is_variant :: "ingredient_need \<Rightarrow> fallback_candidate \<Rightarrow> bool" where
  "is_variant need c \<longleftrightarrow> nd_product_id need = Some (fc_product_id c) \<and> fc_variant_id c \<noteq> None"

definition is_package :: "ingredient_need \<Rightarrow> fallback_candidate \<Rightarrow> bool" where
  "is_package need c \<longleftrightarrow> fc_same_canonical c \<and> fc_net_content c \<noteq> nd_net_content need"

definition is_brand :: "ingredient_need \<Rightarrow> fallback_candidate \<Rightarrow> bool" where
  "is_brand need c \<longleftrightarrow> fc_same_canonical c \<and> fc_brand c \<noteq> None \<and> fc_brand c \<noteq> nd_brand need"

definition is_equivalent :: "ingredient_need \<Rightarrow> fallback_candidate \<Rightarrow> bool" where
  "is_equivalent need c \<longleftrightarrow> fc_same_canonical c \<and> nd_product_id need \<noteq> Some (fc_product_id c)"

text \<open>Steps 1 to 5: the first usable candidate of the first relation that has one.\<close>

fun ladder ::
  "ingredient_need \<Rightarrow> fallback_candidate list
     \<Rightarrow> ((fallback_candidate \<Rightarrow> bool) \<times> fallback_action \<times> fallback_reason \<times> dec) list \<Rightarrow> fallback_decision option" where
  "ladder need usable [] = None"
| "ladder need usable ((relation, action, reason, confidence) # steps) =
     (case find relation usable of
        Some c \<Rightarrow> Some (decide need c action reason confidence)
      | None \<Rightarrow> ladder need usable steps)"

definition ladder_steps ::
  "ingredient_need \<Rightarrow> ((fallback_candidate \<Rightarrow> bool) \<times> fallback_action \<times> fallback_reason \<times> dec) list" where
  "ladder_steps need =
     [(is_variant need, FA_alternate_variant, FR_variant, 95 / 100),
      (is_package need, FA_alternate_package, FR_package, 85 / 100),
      (is_brand need, FA_alternate_brand, FR_brand, 8 / 10),
      (is_equivalent need, FA_canonical_equivalent, FR_equivalent, 9 / 10),
      (fc_substitution, FA_dietary_substitution, FR_substitution, 7 / 10)]"

definition resolve_with_fallback ::
  "ingredient_need \<Rightarrow> fallback_candidate list \<Rightarrow> fallback_policy \<Rightarrow> fallback_decision" where
  "resolve_with_fallback need candidates policy =
     (case ladder need (filter (fallback_usable policy need) candidates) (ladder_steps need) of
        Some d \<Rightarrow> d
      | None \<Rightarrow>
          (let priced_safe = filter (\<lambda>c. has_price c \<and> \<not> blocks_on_constraint c need) candidates
           in case find (needs_approval policy) priced_safe of
                Some c \<Rightarrow> ask_approval need c
              | None \<Rightarrow>
                  if priced_safe \<noteq> [] then give_up need FA_partial_cost FR_unresolved (3 / 10) [FW_partial]
                  else if list_ex has_price candidates
                  then give_up need FA_no_verified_solution FR_only_breaching 0 [FW_uncosted]
                  else if candidates \<noteq> []
                  then give_up need FA_recipe_regeneration_required FR_unpriced (1 / 10) []
                  else give_up need FA_no_verified_solution FR_none 0 [FW_uncosted]))"


section \<open>Lemmas\<close>

lemma ladder_Some:
  assumes "ladder need usable steps = Some d"
  obtains relation action reason confidence c where
    "(relation, action, reason, confidence) \<in> set steps" "c \<in> set usable" "relation c"
    "d = decide need c action reason confidence"
  using assms
proof (induction steps)
  case (Cons s steps)
  obtain relation action reason confidence where s: "s = (relation, action, reason, confidence)"
    by (cases s)
  show ?case
  proof (cases "find relation usable")
    case None
    with Cons.prems(2) s have "ladder need usable steps = Some d" by simp
    with Cons.IH Cons.prems(1) show ?thesis by (metis list.set_intros(2))
  next
    case (Some c)
    with Cons.prems s have "d = decide need c action reason confidence" by simp
    moreover have "c \<in> set usable" "relation c" using Some by (auto simp: find_Some_iff)
    ultimately show ?thesis using Cons.prems(1) s by (metis list.set_intros(1))
  qed
qed simp

lemma ladder_None:
  "ladder need usable steps = None \<longleftrightarrow> (\<forall>s\<in>set steps. \<forall>c\<in>set usable. \<not> fst s c)"
  by (induction steps) (auto simp: find_None_iff find_Some_iff split: option.splits)

lemma usable_iff:
  "fallback_usable policy need c \<longleftrightarrow> has_price c \<and> fc_mode c \<noteq> CM_unresolved \<and> \<not> blocks_on_constraint c need \<and>
     scope_satisfies (fc_scope c) (nd_scope need) \<and> \<not> needs_approval policy c"
  by (auto simp: fallback_usable_def has_price_def needs_approval_def split: option.splits)

text \<open>C13 A fallback never costs an ingredient with a forbidden, unpriced or out-of-zone product. Whatever the
ladder answers: a selected product is one of the candidates, with a positive price and none of
the household's allergens or forbidden diet tags, and can be costed; unless the user is asked,
it is in scope, and fresh, own and observed as far as the policy demands, and a change of scope is
announced; and the ladder answers without a product only by the three actions that cost nothing.\<close>

theorem fallback_is_safe:
  "let d = resolve_with_fallback need candidates policy in
   case fd_selected_product d of
     None \<Rightarrow> fd_replacement_cost d = None \<and>
       fd_action d \<in> {FA_partial_cost, FA_recipe_regeneration_required, FA_no_verified_solution}
   | Some p \<Rightarrow> list_ex (\<lambda>c. fc_product_id c = p \<and> fd_replacement_cost d = fc_price c \<and> has_price c \<and>
        fc_mode c \<noteq> CM_unresolved \<and> fc_allergens c \<inter> nd_allergens need = {} \<and> fc_diet_tags c \<inter> nd_diets need = {} \<and>
        (if fd_action d = FA_user_approval_required then needs_approval policy c
         else scope_satisfies (fc_scope c) (nd_scope need) \<and> \<not> needs_approval policy c \<and>
           (if fc_scope c = nd_scope need then True
            else FW_scope_changed (nd_scope need) (fc_scope c) \<in> set (fd_warnings d)))) candidates"
proof (cases "ladder need (filter (fallback_usable policy need) candidates) (ladder_steps need)")
  case (Some d)
  then obtain relation action reason confidence c where
    c: "(relation, action, reason, confidence) \<in> set (ladder_steps need)" "c \<in> set candidates"
      "fallback_usable policy need c" "d = decide need c action reason confidence"
    by (elim ladder_Some) auto
  then have "action \<noteq> FA_user_approval_required" by (auto simp: ladder_steps_def)
  with Some c show ?thesis
    by (auto simp: resolve_with_fallback_def decide_def list_ex_iff usable_iff blocks_on_constraint_def
        intro!: bexI[of _ c])
next
  case None
  let ?priced = "filter (\<lambda>c. has_price c \<and> \<not> blocks_on_constraint c need) candidates"
  show ?thesis
  proof (cases "find (needs_approval policy) ?priced")
    case (Some c)
    then have "c \<in> set candidates" "has_price c" "\<not> blocks_on_constraint c need" "needs_approval policy c"
      by (auto simp: find_Some_iff) (metis nth_mem mem_Collect_eq set_filter)+
    with None Some show ?thesis
      by (auto simp: resolve_with_fallback_def ask_approval_def list_ex_iff needs_approval_def blocks_on_constraint_def
          intro!: bexI[of _ c])
  qed (use None in \<open>auto simp: resolve_with_fallback_def give_up_def Let_def\<close>)
qed

text \<open>A candidate of another zone is offered for approval, with its cost and without a word on the zone.\<close>

definition zone_candidate :: fallback_candidate where
  "zone_candidate =
     \<lparr>fc_product_id = 5, fc_variant_id = Some 1, fc_canonical_name = ''leche'', fc_brand = None,
      fc_mode = CM_fixed_package, fc_price = Some 1, fc_scope = ''postal_code'', fc_freshness = FF_stale,
      fc_community = False, fc_estimated = False, fc_net_content = None, fc_allergens = {}, fc_diet_tags = {},
      fc_same_canonical = True, fc_substitution = False\<rparr>"

definition national_need :: ingredient_need where
  "national_need =
     \<lparr>nd_ingredient_id = 1, nd_canonical_name = ''leche'', nd_quantity = 1, nd_unit = ''l'', nd_scope = ''national'',
      nd_allergens = {}, nd_diets = {}, nd_product_id = None, nd_net_content = None, nd_brand = None, nd_cost = None\<rparr>"

lemma approval_ignores_scope:
  "let d = resolve_with_fallback national_need [zone_candidate] \<lparr>fp_stale = False, fp_estimated = False, fp_community = False\<rparr> in
   \<not> scope_satisfies (fc_scope zone_candidate) (nd_scope national_need) \<and> fd_action d = FA_user_approval_required \<and>
   fd_replacement_cost d = Some 1 \<and> fd_warnings d = [FW_approval]"
  by code_simp

end
