(* ===== verification/PriceResolution.thy ===== *)
theory PriceResolution
  imports CurrentPrice
begin

text \<open>
  \<open>services/price_resolution.py\<close>: one price out of several observations of a product, by scope,
  usability and confidence. Ages are exact; the hours the result shows are left in microseconds.
\<close>

section \<open>Data\<close>

datatype freshness_state =
    FT_fresh | FT_aging | FT_stale | FT_expired | FT_missing | FT_conflicting | FT_quarantined

record freshness_settings =
  fs_fresh_hours :: int
  fs_aging_hours :: int
  fs_expired_hours :: int

definition classify_freshness :: "freshness_settings \<Rightarrow> rat \<Rightarrow> freshness_state" where
  "classify_freshness st hours =
     (if hours < of_int (fs_fresh_hours st) then FT_fresh
      else if hours < of_int (fs_aging_hours st) then FT_aging
      else if hours < of_int (fs_expired_hours st) then FT_stale
      else FT_expired)"

record observation_view =
  ov_amount :: dec
  ov_type :: string
  ov_scope :: price_scope
  ov_retailer :: string
  ov_provider :: string
  ov_observed_at :: time
  ov_confidence :: dec
  ov_verification :: string
  ov_store :: "string option"
  ov_authorized :: bool
  ov_evidence :: bool
  ov_community :: bool
  ov_quarantined :: bool

record resolution_request =
  rr_now :: time
  rr_stale :: bool
  rr_estimated :: bool
  rr_community :: bool

datatype resolution_reason = RR_no_observation | RR_no_usable | RR_conflict | RR_selected int

datatype resolution_warning = RW_none_usable | RW_conflict | RW_aging | RW_stale_used

record price_alternative =
  pa_amount :: dec
  pa_scope :: price_scope
  pa_retailer :: string
  pa_provider :: string
  pa_age :: int
  pa_confidence :: dec

record price_resolution =
  rs_price :: "dec option"
  rs_source :: "observation_view option"
  rs_age :: "int option"
  rs_freshness :: freshness_state
  rs_level :: "int option"
  rs_reason :: resolution_reason
  rs_alternatives :: "price_alternative list"
  rs_warnings :: "resolution_warning list"


section \<open>Operations\<close>

definition view_age :: "time \<Rightarrow> observation_view \<Rightarrow> int" where
  "view_age now obs = max 0 (now - ov_observed_at obs)"

definition view_rank :: "price_scope \<Rightarrow> int" where
  "view_rank s = dget [(PS_exact_store, 1), (PS_delivery_zone, 2), (PS_postal_code, 3), (PS_municipality, 4),
     (PS_province, 5), (PS_region, 6), (PS_national, 7)] s 11"

definition view_level :: "observation_view \<Rightarrow> int" where
  "view_level obs =
     (if ov_type obs = ''estimated'' then 10
      else if ov_type obs = ''manual'' then 9
      else if ov_community obs then 8
      else view_rank (ov_scope obs))"

definition verification_rank :: "string \<Rightarrow> int" where
  "verification_rank s =
     dget [(''manually_verified'', 3), (''automatically_validated'', 2), (''provider_reported'', 1)] s 0"

definition view_freshness :: "freshness_settings \<Rightarrow> time \<Rightarrow> observation_view \<Rightarrow> freshness_state" where
  "view_freshness st now obs = classify_freshness st (age_hours (view_age now obs))"

definition view_usable :: "freshness_settings \<Rightarrow> resolution_request \<Rightarrow> observation_view \<Rightarrow> bool" where
  "view_usable st request obs =
     (if ov_quarantined obs then False
      else let fresh = view_freshness st (rr_now request) obs in
        if fresh = FT_expired then False
        else if fresh = FT_stale \<and> \<not> rr_stale request then False
        else if ov_type obs = ''estimated'' \<and> \<not> rr_estimated request then False
        else if ov_community obs \<and> \<not> rr_community request then False
        else True)"

definition material_conflict :: "observation_view list \<Rightarrow> bool" where
  "material_conflict tier =
     (if length tier < 2 then False
      else let amounts = map ov_amount tier; low = Min (set amounts); high = Max (set amounts) in
        if low \<le> 0 then 0 < high
        else 15 / 100 < ddiv (dsub high low) low)"

text \<open>The first of the greatest keys; the order of the key is turned around.\<close>

definition view_priority :: "observation_view \<Rightarrow> bool \<times> dec \<times> int \<times> bool \<times> int" where
  "view_priority obs = (\<not> ov_authorized obs, - ov_confidence obs,
     - verification_rank (ov_verification obs), \<not> ov_evidence obs, - ov_observed_at obs)"

definition alternative_of :: "time \<Rightarrow> observation_view \<Rightarrow> price_alternative" where
  "alternative_of now obs =
     \<lparr>pa_amount = ov_amount obs, pa_scope = ov_scope obs, pa_retailer = ov_retailer obs,
      pa_provider = ov_provider obs, pa_age = view_age now obs, pa_confidence = ov_confidence obs\<rparr>"

definition no_price :: "resolution_reason \<Rightarrow> resolution_warning list \<Rightarrow> price_resolution" where
  "no_price reason warnings =
     \<lparr>rs_price = None, rs_source = None, rs_age = None, rs_freshness = FT_missing, rs_level = None,
      rs_reason = reason, rs_alternatives = [], rs_warnings = warnings\<rparr>"

definition build_resolution ::
  "freshness_settings \<Rightarrow> resolution_request \<Rightarrow> observation_view \<Rightarrow> observation_view list \<Rightarrow> int \<Rightarrow> price_resolution" where
  "build_resolution st request chosen tier level =
     (let fresh = view_freshness st (rr_now request) chosen
      in \<lparr>rs_price = Some (ov_amount chosen), rs_source = Some chosen,
          rs_age = Some (view_age (rr_now request) chosen), rs_freshness = fresh, rs_level = Some level,
          rs_reason = RR_selected level,
          rs_alternatives = map (alternative_of (rr_now request)) (remove1 chosen tier),
          rs_warnings = (if fresh = FT_aging then [RW_aging] else []) @
            (if fresh = FT_stale then [RW_stale_used] else [])\<rparr>)"

definition resolve_price ::
  "freshness_settings \<Rightarrow> resolution_request \<Rightarrow> observation_view list \<Rightarrow> price_resolution" where
  "resolve_price st request observations_seen =
     (if observations_seen = [] then no_price RR_no_observation []
      else
        let usable = filter (view_usable st request) observations_seen in
        if usable = [] then no_price RR_no_usable [RW_none_usable]
        else
          let best_level = Min (set (map view_level usable));
              tier = filter (\<lambda>v. view_level v = best_level) usable
          in if material_conflict tier
             then (no_price RR_conflict [RW_conflict])\<lparr>rs_freshness := FT_conflicting, rs_level := Some best_level,
                    rs_alternatives := map (alternative_of (rr_now request)) tier\<rparr>
             else (case argmin view_priority tier of
                     Some chosen \<Rightarrow> build_resolution st request chosen tier best_level
                   | None \<Rightarrow> no_price RR_no_usable []))"

section \<open>Lemmas\<close>

text \<open>
  The policy, written without the code's bands, levels and keys. An observation may be used when it is not
  quarantined, young enough, and of a kind the request allows; ages are in microseconds.
\<close>

definition hours_us :: "int \<Rightarrow> int" where
  "hours_us h = h * 3600000000"

definition admissible_view :: "freshness_settings \<Rightarrow> resolution_request \<Rightarrow> observation_view \<Rightarrow> bool" where
  "admissible_view st request v =
     (let age = max 0 (rr_now request - ov_observed_at v) in
      \<not> ov_quarantined v \<and>
      (age < hours_us (fs_fresh_hours st) \<or> age < hours_us (fs_aging_hours st) \<or>
       age < hours_us (fs_expired_hours st) \<and> rr_stale request) \<and>
      (ov_type v \<noteq> ''estimated'' \<or> rr_estimated request) \<and> (\<not> ov_community v \<or> rr_community request))"

lemma view_usable_admissible: "view_usable st request v = admissible_view st request v"
proof -
  have hours: "age_hours a < of_int h \<longleftrightarrow> a < hours_us h" for a h
  proof -
    have "age_hours a < of_int h \<longleftrightarrow> (of_int a :: rat) < of_int (hours_us h)"
      by (simp add: age_hours_def hours_us_def field_simps)
    then show ?thesis by simp
  qed
  show ?thesis
    by (auto simp: view_usable_def admissible_view_def view_freshness_def classify_freshness_def view_age_def hours Let_def
        split: if_splits)
qed

text \<open>The kinds of sources from the best to the last resort.\<close>

datatype source_kind = SK_shop price_scope | SK_community | SK_manual | SK_estimated

definition kind_of_view :: "observation_view \<Rightarrow> source_kind" where
  "kind_of_view v =
     (if ov_type v = ''estimated'' then SK_estimated
      else if ov_type v = ''manual'' then SK_manual
      else if ov_community v then SK_community
      else SK_shop (ov_scope v))"

definition kinds_in_order :: "source_kind list" where
  "kinds_in_order = [SK_shop PS_exact_store, SK_shop PS_delivery_zone, SK_shop PS_postal_code,
     SK_shop PS_municipality, SK_shop PS_province, SK_shop PS_region, SK_shop PS_national,
     SK_community, SK_manual, SK_estimated, SK_shop PS_unknown]"

definition no_later :: "source_kind \<Rightarrow> source_kind \<Rightarrow> bool" where
  "no_later a b \<longleftrightarrow> b \<in> set (dropWhile (\<lambda>k. k \<noteq> a) kinds_in_order)"

fun kind_level :: "source_kind \<Rightarrow> int" where
  "kind_level (SK_shop s) = view_rank s"
| "kind_level SK_community = 8"
| "kind_level SK_manual = 9"
| "kind_level SK_estimated = 10"

lemma view_level_kind: "view_level v = kind_level (kind_of_view v)"
  by (simp add: view_level_def kind_of_view_def)

lemma kind_level_le: "kind_level a \<le> kind_level b \<longleftrightarrow> no_later a b"
proof -
  have ranks: "view_rank PS_exact_store = 1" "view_rank PS_delivery_zone = 2" "view_rank PS_postal_code = 3"
    "view_rank PS_municipality = 4" "view_rank PS_province = 5" "view_rank PS_region = 6"
    "view_rank PS_national = 7" "view_rank PS_unknown = 11"
    by (simp_all add: view_rank_def dget_def)
  have "kind_level (SK_shop x) \<le> kind_level b \<longleftrightarrow> no_later (SK_shop x) b" for x b
  proof (cases b)
    case (SK_shop y)
    then show ?thesis by (cases x; cases y; simp add: ranks no_later_def kinds_in_order_def)
  qed (cases x; simp add: ranks no_later_def kinds_in_order_def)+
  moreover have "kind_level a \<le> kind_level b \<longleftrightarrow> no_later a b" if "a \<in> {SK_community, SK_manual, SK_estimated}"
  proof (cases b)
    case (SK_shop y)
    with that show ?thesis by (cases y; auto simp: ranks no_later_def kinds_in_order_def)
  qed (use that in \<open>auto simp: no_later_def kinds_in_order_def\<close>)
  ultimately show ?thesis by (cases a) auto
qed

text \<open>What makes one observation of a level better than another.\<close>

definition more_trusted :: "string \<Rightarrow> string \<Rightarrow> bool" where
  "more_trusted a b \<longleftrightarrow>
     (if a = ''manually_verified'' then b \<noteq> a
      else if a = ''automatically_validated'' then b \<notin> {''manually_verified'', a}
      else a = ''provider_reported'' \<and> b \<notin> {''manually_verified'', ''automatically_validated'', a})"

definition preferred_view :: "observation_view \<Rightarrow> observation_view \<Rightarrow> bool" where
  "preferred_view v c =
     (if ov_authorized v \<noteq> ov_authorized c then ov_authorized v
      else if ov_confidence v \<noteq> ov_confidence c then ov_confidence c < ov_confidence v
      else if more_trusted (ov_verification v) (ov_verification c) then True
      else if more_trusted (ov_verification c) (ov_verification v) then False
      else if ov_evidence v \<noteq> ov_evidence c then ov_evidence v
      else ov_observed_at c < ov_observed_at v)"

lemma verification_rank_less: "verification_rank b < verification_rank a \<longleftrightarrow> more_trusted a b"
  by (auto simp: verification_rank_def more_trusted_def dget_def)

lemma view_priority_le: "view_priority c \<le> view_priority v \<longleftrightarrow> \<not> preferred_view v c"
  unfolding preferred_view_def verification_rank_less[symmetric]
  by (auto simp: view_priority_def less_eq_prod_def less_prod_def le_bool_def less_bool_def)

text \<open>Without a conflict any two prices of the tier are within fifteen percent.\<close>

definition prices_agree :: "dec \<Rightarrow> dec \<Rightarrow> bool" where
  "prices_agree a b \<longleftrightarrow> (if 0 < a then 0 < b \<and> ddiv (dsub (max a b) (min a b)) (min a b) \<le> 15 / 100 else b \<le> 0)"

lemma prices_agree_refl: "prices_agree a a"
  by (simp add: prices_agree_def)

lemma no_conflict_agree:
  assumes "\<not> material_conflict tier" "v \<in> set tier" "w \<in> set tier"
  shows "prices_agree (ov_amount v) (ov_amount w)"
proof (cases "length tier < 2")
  case True
  with assms(2,3) have "v = w" by (cases tier) auto
  then show ?thesis by (simp add: prices_agree_refl)
next
  case False
  let ?low = "Min (set (map ov_amount tier))" and ?high = "Max (set (map ov_amount tier))"
  let ?lo = "min (ov_amount v) (ov_amount w)" and ?hi = "max (ov_amount v) (ov_amount w)"
  have bounds: "?low \<le> ?lo" "?hi \<le> ?high" "?lo \<le> ?hi" using assms(2,3) by auto
  show ?thesis
  proof (cases "?low \<le> 0")
    case True
    with assms(1) False have "?high \<le> 0" by (simp add: material_conflict_def Let_def split: if_splits)
    with bounds show ?thesis by (simp add: prices_agree_def)
  next
    case pos: False
    with assms(1) False have c: "ddiv (dsub ?high ?low) ?low \<le> 15 / 100"
      by (simp add: material_conflict_def Let_def split: if_splits)
    have "dsub ?hi ?lo \<le> dsub ?high ?low" using bounds unfolding dsub_def by (intro dround_mono) linarith
    moreover have "0 \<le> dsub ?hi ?lo" using bounds(3) by simp
    ultimately have "dsub ?hi ?lo / ?lo \<le> dsub ?high ?low / ?low"
      using pos bounds(1) by (intro frac_le) linarith+
    then have "ddiv (dsub ?hi ?lo) ?lo \<le> ddiv (dsub ?high ?low) ?low" unfolding ddiv_def by (rule dround_mono)
    with c pos bounds(1) show ?thesis by (simp add: prices_agree_def)
  qed
qed

definition all_agree :: "observation_view list \<Rightarrow> bool" where
  "all_agree tier = list_all (\<lambda>v. list_all (\<lambda>w. prices_agree (ov_amount v) (ov_amount w)) tier) tier"

lemma material_conflict_iff: "material_conflict tier \<longleftrightarrow> \<not> all_agree tier"
proof
  assume c: "material_conflict tier"
  let ?low = "Min (set (map ov_amount tier))" and ?high = "Max (set (map ov_amount tier))"
  from c have "tier \<noteq> []" by (auto simp: material_conflict_def)
  then have "?low \<in> set (map ov_amount tier)" "?high \<in> set (map ov_amount tier)" by (simp_all del: set_map)
  then obtain v w where vw: "v \<in> set tier" "ov_amount v = ?low" "w \<in> set tier" "ov_amount w = ?high" by auto
  have le: "?low \<le> ?high" using vw(1,2) by (metis Max_ge List.finite_set image_eqI set_map)
  have "\<not> prices_agree ?high ?low"
    using c le by (auto simp: material_conflict_def prices_agree_def Let_def max_def min_def not_le split: if_splits)
  with vw show "\<not> all_agree tier" unfolding all_agree_def list_all_iff by metis
qed (use no_conflict_agree in \<open>auto simp: all_agree_def list_all_iff\<close>)

text \<open>C16 The price that is used is usable, of the best kind, and not contradicted. The usable
observations are those that are not quarantined, not expired, and stale, estimated or community only when
the request allows it; the best of them are those of the first kind that occurs, from the exact shop over the
broader areas and the community to manual and estimated prices. A selected price comes from one of the best;
any two of the best differ by fifteen percent at most, and none is preferred to it in authorisation, then confidence,
verification, evidence and recency. No price is selected only when nothing is usable or the best
contradict each other.\<close>

theorem resolve_price_policy:
  "let r = resolve_price st request views;
       usable = filter (admissible_view st request) views;
       best = filter (\<lambda>v. list_all (\<lambda>w. no_later (kind_of_view v) (kind_of_view w)) usable) usable in
   case rs_source r of
     None \<Rightarrow> rs_price r = None \<and> \<not> (usable \<noteq> [] \<and> all_agree best)
   | Some c \<Rightarrow> rs_price r = Some (ov_amount c) \<and> c \<in> set best \<and> all_agree best \<and>
       list_all (\<lambda>v. \<not> preferred_view v c) best"
proof -
  let ?usable = "filter (admissible_view st request) views"
  let ?best = "Min (set (map view_level ?usable))"
  let ?tier = "filter (\<lambda>v. view_level v = ?best) ?usable"
  have first: "filter (\<lambda>v. list_all (\<lambda>w. no_later (kind_of_view v) (kind_of_view w)) ?usable) ?usable = ?tier"
  proof (rule filter_cong[OF refl])
    fix v assume v: "v \<in> set ?usable"
    then have "?best \<le> view_level v" "\<And>w. w \<in> set ?usable \<Longrightarrow> ?best \<le> view_level w" by (simp_all add: Min_le)
    moreover have "?best \<in> set (map view_level ?usable)" using v by (intro Min_in) auto
    ultimately have "(\<forall>w\<in>set ?usable. view_level v \<le> view_level w) \<longleftrightarrow> view_level v = ?best"
      by (metis (no_types, lifting) dual_order.antisym imageE set_map)
    then show "list_all (\<lambda>w. no_later (kind_of_view v) (kind_of_view w)) ?usable \<longleftrightarrow> view_level v = ?best"
      by (simp only: list_all_iff kind_level_le[symmetric] view_level_kind[symmetric])
  qed
  have code: "view_usable st request = admissible_view st request" by (rule ext) (rule view_usable_admissible)
  show ?thesis
  proof (cases "?usable = [] \<or> material_conflict ?tier")
    case True
    then show ?thesis
      unfolding Let_def first by (auto simp: resolve_price_def no_price_def Let_def code material_conflict_iff)
  next
    case False
    then have "set (map view_level ?usable) \<noteq> {}" by (simp only: set_empty map_is_Nil_conv) simp
    then have "?best \<in> set (map view_level ?usable)" by (intro Min_in finite_set)
    then have "?tier \<noteq> []" by (auto simp: filter_empty_conv)
    then obtain c where c: "argmin view_priority ?tier = Some c" using argmin_Some_ex by blast
    note m = argmin_Some[OF c]
    have "views \<noteq> []" using False by auto
    with False c have r: "resolve_price st request views = build_resolution st request c ?tier ?best"
      by (simp add: resolve_price_def Let_def code)
    have "list_all (\<lambda>v. \<not> preferred_view v c) ?tier"
      using m(2) by (simp add: list_all_iff view_priority_le)
    with m(1) False show ?thesis
      unfolding Let_def first r by (simp add: build_resolution_def Let_def material_conflict_iff)
  qed
qed

end
