(* ===== verification/Cents.thy ===== *)
theory Cents
  imports Decimals
begin

text \<open>Amounts in whole cents: sums and products of such amounts are exact, whatever their order.\<close>

section \<open>Whole cents add up exactly\<close>

definition whole_cents :: "dec \<Rightarrow> bool" where
  "whole_cents x \<longleftrightarrow> 0 \<le> x \<and> x * 100 = of_int \<lfloor>x * 100\<rfloor>"

lemma whole_cents_iff: "whole_cents x \<longleftrightarrow> (\<exists>m. 0 \<le> m \<and> x = of_int m / 100)"
proof
  assume "whole_cents x"
  then have "0 \<le> \<lfloor>x * 100\<rfloor>" "x = of_int \<lfloor>x * 100\<rfloor> / 100" by (simp_all add: whole_cents_def field_simps)
  then show "\<exists>m. 0 \<le> m \<and> x = of_int m / 100" by blast
qed (auto simp: whole_cents_def)

lemma whole_cents_add:
  assumes "whole_cents x" "whole_cents y" shows "whole_cents (x + y)"
proof -
  from assms obtain m n where "0 \<le> m" "x = of_int m / 100" "0 \<le> n" "y = of_int n / 100"
    unfolding whole_cents_iff by blast
  then have "0 \<le> m + n" "x + y = of_int (m + n) / 100" by (simp_all add: add_divide_distrib)
  then show ?thesis unfolding whole_cents_iff by blast
qed

lemma whole_cents_times:
  assumes "whole_cents x" "0 \<le> k" shows "whole_cents (of_int k * x)"
proof -
  from assms obtain m where "0 \<le> m" "x = of_int m / 100" unfolding whole_cents_iff by blast
  with assms(2) have "0 \<le> k * m" "of_int k * x = of_int (k * m) / 100" by simp_all
  then show ?thesis unfolding whole_cents_iff by blast
qed

lemma whole_cents_nonneg: "whole_cents x \<Longrightarrow> 0 \<le> x"
  by (simp add: whole_cents_def)

lemma whole_cents_dec28:
  assumes "whole_cents x" "x \<le> 10 ^ 26" shows "dec28 x"
proof -
  from assms(1) obtain m where m: "0 \<le> m" "x = of_int m / 100" unfolding whole_cents_iff by blast
  with assms(2) have "of_int m \<le> (of_int (10 ^ 28) :: rat)" by simp
  then have "\<bar>m\<bar> \<le> 10 ^ 28" using m(1) by (simp only: of_int_le_iff abs_of_nonneg)
  from dec28_scaled[OF this, of 2] show ?thesis by (simp add: m(2))
qed

lemma whole_cents_sum: "list_all whole_cents xs \<Longrightarrow> whole_cents (sum_list xs)"
  by (induction xs) (simp_all add: whole_cents_add, simp add: whole_cents_def)

lemma fold_cents:
  assumes "list_all whole_cents xs" "whole_cents a" "a + sum_list xs \<le> 10 ^ 26"
  shows "fold (\<lambda>x acc. dadd acc x) xs a = a + sum_list xs"
  using assms
proof (induction xs arbitrary: a)
  case (Cons x xs)
  have c: "whole_cents (a + x)" using Cons.prems by (simp add: whole_cents_add)
  have "0 \<le> sum_list xs" using Cons.prems(1) by (simp add: whole_cents_nonneg whole_cents_sum)
  then have "dadd a x = a + x" using Cons.prems c whole_cents_dec28[of "a + x"] by (simp add: dadd_def dround_dec28)
  with Cons.IH[OF _ c] Cons.prems show ?case by (simp add: add.assoc)
qed simp

lemma dsum_cents: "list_all whole_cents xs \<Longrightarrow> sum_list xs \<le> 10 ^ 26 \<Longrightarrow> dsum xs = sum_list xs"
  unfolding dsum_def by (subst fold_cents) (simp_all add: whole_cents_def)

lemma dsum_mono: "list_all2 (\<le>) xs ys \<Longrightarrow> dsum xs \<le> dsum ys"
proof -
  have "list_all2 (\<le>) xs ys \<Longrightarrow> a \<le> b \<Longrightarrow> fold (\<lambda>x acc. dadd acc x) xs a \<le> fold (\<lambda>x acc. dadd acc x) ys b" for a b
    by (induction xs ys arbitrary: a b rule: list_all2_induct) (simp_all add: dadd_mono)
  then show "list_all2 (\<le>) xs ys \<Longrightarrow> dsum xs \<le> dsum ys" by (simp add: dsum_def)
qed

end
