(* ===== verification/PlanComparison.thy ===== *)
theory PlanComparison
  imports PlanContext PlanExamples Facade Cents
begin

text \<open>
  \<open>services/plan_comparison.py\<close>: the mandatory ingredients of a stored plan, costed with the
  engine at every visible chain; the cheapest chain and the cheapest split over chains, and both
  with the cost of the trip. Amounts travel as exact decimal texts in the code and are numbers
  here; an id stands for its public id. The distances come from the geography service and are
  an argument.
\<close>

section \<open>The basket\<close>

record basket_item =
  bi_canonical_name :: string
  bi_display_name :: string
  bi_quantity :: dec
  bi_unit :: string

definition mandatory_recipe_dto :: "recipe \<Rightarrow> candidate_recipe_dto" where
  "mandatory_recipe_dto r =
     \<lparr>cr_recipe_id = int_str (rcp_id r), cr_title = rcp_title r, cr_description = [],
      cr_servings = (if rcp_servings r = 0 then 1 else rcp_servings r), cr_meal_types = {}, cr_cuisine = [],
      cr_preference_tags = [],
      cr_ingredients = map (\<lambda>ri. \<lparr>ri_canonical_name = rgi_canonical_name ri,
          ri_display_name = text_or (rgi_display_name ri) (rgi_canonical_name ri),
          ri_quantity = rgi_quantity ri, ri_unit = rgi_unit ri, ri_optional = False,
          ri_substitution_group = rgi_substitution_group ri, ri_category = None, ri_allergen_assessed = True\<rparr>)
        (filter (\<lambda>ri. \<not> rgi_optional ri) (rcp_ingredients r)),
      cr_steps = [], cr_preparation_minutes = 0, cr_cooking_minutes = 0, cr_required_equipment = {},
      cr_leftover_reuse = False, cr_storage_instructions = None, cr_reheating_instructions = None,
      cr_allergens_declared = {}\<rparr>"

definition plan_meals :: "plan_db \<Rightarrow> meal_plan \<Rightarrow> meal_assignment list" where
  "plan_meals db mp =
     List.map_filter (\<lambda>(i, pm).
       (case find_row rcp_id (pml_recipe pm) (pl_recipes db) of
          None \<Rightarrow> None
        | Some r \<Rightarrow> Some \<lparr>ma_slot_index = int i,
            ma_date = (case pml_scheduled_date pm of None \<Rightarrow> mp_start_date mp | Some d \<Rightarrow> d),
            ma_meal_type = pml_meal_type pm, ma_recipe = mandatory_recipe_dto r,
            ma_servings = pml_servings pm, ma_participants = []\<rparr>))
     (enumerate 0 (sort_key pml_id (filter (\<lambda>pm. pml_plan pm = mp_id mp) (pl_meals db))))"

definition basket_groups :: "meal_assignment list \<Rightarrow> (string, string list) dict" where
  "basket_groups meals = substitution_groups (map ma_recipe meals)"

definition consolidate_ingredient ::
  "unit_converter \<Rightarrow> dec \<Rightarrow> recipe_ingredient_dto \<Rightarrow> (string, basket_item) dict \<Rightarrow> (string, basket_item) dict" where
  "consolidate_ingredient converter scale ing agg =
     (let canonical = ri_canonical_name ing;
          agg = dsetdefault canonical \<lparr>bi_canonical_name = canonical, bi_display_name = ri_display_name ing,
            bi_quantity = 0, bi_unit = ri_unit ing\<rparr> agg;
          qty = dmul (ri_quantity ing) scale
      in case map_of agg canonical of
           None \<Rightarrow> agg
         | Some entry \<Rightarrow>
             (case convert converter qty (ri_unit ing) (bi_unit entry) (Some canonical) of
                Inr q \<Rightarrow> dset canonical (entry\<lparr>bi_quantity := dadd (bi_quantity entry) q\<rparr>) agg
              | Inl _ \<Rightarrow>
                  if ri_unit ing \<noteq> bi_unit entry then agg
                  else dset canonical (entry\<lparr>bi_quantity := dadd (bi_quantity entry) qty\<rparr>) agg))"

definition consolidate_meal ::
  "unit_converter \<Rightarrow> meal_assignment \<Rightarrow> (string, basket_item) dict \<Rightarrow> (string, basket_item) dict" where
  "consolidate_meal converter meal agg =
     fold (consolidate_ingredient converter (meal_scale meal)) (cr_ingredients (ma_recipe meal)) agg"

definition consolidate_basket :: "meal_assignment list \<Rightarrow> unit_converter \<Rightarrow> basket_item list" where
  "consolidate_basket meals converter = map snd (fold (consolidate_meal converter) meals [])"


section \<open>One chain\<close>

record chain_result =
  cx_retailer :: retailer
  cx_known_cost :: dec
  cx_coverage :: coverage_dto
  cx_costs :: "(string, dec) dict"

definition cost_basket ::
  "meal_assignment list \<Rightarrow> (string, string list) dict \<Rightarrow> catalog_product_dto list
     \<Rightarrow> ingredient_conversion_dto list \<Rightarrow> date \<Rightarrow> provision" where
  "cost_basket meals groups catalog conversions as_of =
     (let converter = unit_converter_init conversions
      in provision_meals \<lparr>ps_matcher = product_matcher_init catalog groups,
           ps_pantry = pantry_calculator_init [] converter (Some as_of), ps_weights = default_weights,
           ps_converter = converter, ps_as_of = Some as_of\<rparr> meals)"

definition add_cost :: "grocery_line_dto \<Rightarrow> (string, dec) dict \<Rightarrow> (string, dec) dict" where
  "add_cost l costs =
     (if gl_subtotal_known l then dsetdefault (gl_canonical_name l) (gl_subtotal l) costs else costs)"

definition chain_costs :: "provision \<Rightarrow> (string, dec) dict" where
  "chain_costs p = fold add_cost (pv_grocery_lines p) []"

definition visible_chains :: "plan_db \<Rightarrow> retailer list" where
  "visible_chains db =
     sort_key ret_name (filter (\<lambda>r. ret_active r \<and>
        ret_id r \<in> prc_retailer ` set (filter (\<lambda>p. \<not> prc_synthetic p) (product_prices (pl_market db))))
       (retailers (pl_market db)))"

definition chain_result_of ::
  "plan_settings \<Rightarrow> plan_db \<Rightarrow> meal_assignment list \<Rightarrow> date \<Rightarrow> retailer \<Rightarrow> chain_result" where
  "chain_result_of st db meals as_of r =
     (let p = cost_basket meals (basket_groups meals) (build_catalog st db (Some (ret_id r)))
                (build_conversions db) as_of
      in \<lparr>cx_retailer = r, cx_known_cost = pv_cost_known p, cx_coverage = compute_coverage (pv_grocery_lines p),
          cx_costs = chain_costs p\<rparr>)"

definition cx_ratio :: "chain_result \<Rightarrow> dec" where
  "cx_ratio r = cv_price_coverage (cx_coverage r)"

definition full_coverage :: "chain_result \<Rightarrow> bool" where
  "full_coverage r \<longleftrightarrow> cv_price_coverage (cx_coverage r) = 1"


section \<open>The cheapest chain and the split\<close>

definition best_single :: "chain_result list \<Rightarrow> chain_result option" where
  "best_single results =
     (let priced = filter (\<lambda>r. cx_costs r \<noteq> []) results;
          full = filter full_coverage priced;
          pool = (if full \<noteq> [] then full else filter (\<lambda>r. 8 / 10 \<le> cx_ratio r) priced)
      in argmin (\<lambda>r. (- cx_ratio r, cx_known_cost r, ret_name (cx_retailer r))) pool)"

record split_item =
  si_item :: basket_item
  si_cost :: dec

definition basket_offers :: "chain_result list \<Rightarrow> basket_item \<Rightarrow> (dec \<times> chain_result) list" where
  "basket_offers results item =
     List.map_filter (\<lambda>r. map_option (\<lambda>c. (c, r)) (map_of (cx_costs r) (bi_canonical_name item))) results"

definition best_offer :: "chain_result list \<Rightarrow> basket_item \<Rightarrow> (dec \<times> chain_result) option" where
  "best_offer results item = argmin (\<lambda>(c, r). (c, ret_name (cx_retailer r))) (basket_offers results item)"

definition split_step ::
  "chain_result list \<Rightarrow> basket_item \<Rightarrow> (int, split_item list) dict \<times> dec \<times> basket_item list
     \<Rightarrow> (int, split_item list) dict \<times> dec \<times> basket_item list" where
  "split_step results item acc =
     (case acc of (items, spent, uncovered) \<Rightarrow>
        (case best_offer results item of
           None \<Rightarrow> (items, spent, uncovered @ [item])
         | Some (cost, chosen) \<Rightarrow>
             (let i = ret_id (cx_retailer chosen)
              in (dset i (dget items i [] @ [\<lparr>si_item = item, si_cost = cost\<rparr>]) items, dadd spent cost, uncovered))))"

definition split_basket ::
  "basket_item list \<Rightarrow> chain_result list \<Rightarrow> (int, split_item list) dict \<times> dec \<times> basket_item list" where
  "split_basket basket results = fold (split_step results) basket ([], 0, [])"

record split_chain =
  sc_retailer :: int
  sc_name :: string
  sc_subtotal :: dec
  sc_items :: "split_item list"

record comparison =
  cmp_basket :: "basket_item list"
  cmp_chains :: "chain_result list"
  cmp_best :: "chain_result option"
  cmp_split_total :: dec
  cmp_savings :: "dec option"
  cmp_by_chain :: "split_chain list"
  cmp_uncovered :: "basket_item list"

definition chain_name :: "chain_result list \<Rightarrow> int \<Rightarrow> string" where
  "chain_name results i = dget (map (\<lambda>r. (ret_id (cx_retailer r), ret_name (cx_retailer r))) results) i []"

definition compare_plan_across_chains :: "plan_settings \<Rightarrow> date \<Rightarrow> plan_db \<Rightarrow> meal_plan \<Rightarrow> comparison" where
  "compare_plan_across_chains st today db mp =
     (let meals = plan_meals db mp;
          basket = consolidate_basket meals (unit_converter_init (build_conversions db));
          results = map (chain_result_of st db meals today) (visible_chains db);
          best = best_single results
      in case split_basket basket results of (items, split_total, uncovered) \<Rightarrow>
        \<lparr>cmp_basket = basket, cmp_chains = results, cmp_best = best, cmp_split_total = split_total,
         cmp_savings = map_option (\<lambda>b. dsub (cx_known_cost b) split_total) best,
         cmp_by_chain = map (\<lambda>(i, its). \<lparr>sc_retailer = i, sc_name = chain_name results i,
             sc_subtotal = dsum (map si_cost its), sc_items = its\<rparr>)
           (sort_key (\<lambda>(i, its). chain_name results i) items),
         cmp_uncovered = uncovered\<rparr>)"


section \<open>With the trip\<close>

record travel_info =
  ti_distance :: "dec option"
  ti_cost :: "dec option"
  ti_found :: bool

record travel_comparison =
  tv_travel :: "(chain_result \<times> travel_info \<times> dec option) list"
  tv_best :: "(chain_result \<times> dec) option"
  tv_split_travel :: "dec option"
  tv_split_total :: "dec option"
  tv_savings :: "dec option"

definition no_travel :: travel_info where
  "no_travel = \<lparr>ti_distance = None, ti_cost = None, ti_found = False\<rparr>"

definition chain_travel :: "(int \<Rightarrow> travel_info option) \<Rightarrow> int \<Rightarrow> travel_info" where
  "chain_travel travel i = (case travel i of None \<Rightarrow> no_travel | Some info \<Rightarrow> info)"

definition with_travel :: "(int \<Rightarrow> travel_info option) \<Rightarrow> chain_result \<Rightarrow> dec option" where
  "with_travel travel r =
     map_option (dadd (cx_known_cost r)) (ti_cost (chain_travel travel (ret_id (cx_retailer r))))"

definition best_with_travel :: "(int \<Rightarrow> travel_info option) \<Rightarrow> chain_result list \<Rightarrow> (chain_result \<times> dec) option" where
  "best_with_travel travel results =
     (let full = filter full_coverage results;
          eligible = (if full \<noteq> [] then full else filter (\<lambda>r. 8 / 10 \<le> cx_ratio r) results)
      in argmin (\<lambda>(r, t). (t, ret_name (cx_retailer r)))
           (List.map_filter (\<lambda>r. map_option (Pair r) (with_travel travel r)) eligible))"

fun travel_sum :: "(int \<Rightarrow> travel_info option) \<Rightarrow> split_chain list \<Rightarrow> dec \<Rightarrow> dec option" where
  "travel_sum travel [] spent = Some spent"
| "travel_sum travel (e # entries) spent =
     (case ti_cost (chain_travel travel (sc_retailer e)) of
        None \<Rightarrow> None
      | Some c \<Rightarrow> travel_sum travel entries (dadd spent c))"

definition travel_part :: "(int \<Rightarrow> travel_info option) \<Rightarrow> comparison \<Rightarrow> travel_comparison" where
  "travel_part travel base =
     (let best = best_with_travel travel (cmp_chains base);
          split_travel = travel_sum travel (cmp_by_chain base) 0;
          split_total = map_option (dadd (cmp_split_total base)) split_travel
      in \<lparr>tv_travel = map (\<lambda>r. (r, chain_travel travel (ret_id (cx_retailer r)), with_travel travel r)) (cmp_chains base),
          tv_best = best, tv_split_travel = split_travel, tv_split_total = split_total,
          tv_savings = (case (best, split_total) of (Some (_, b), Some t) \<Rightarrow> Some (dsub b t) | _ \<Rightarrow> None)\<rparr>)"

definition compare_plan_with_travel ::
  "plan_settings \<Rightarrow> date \<Rightarrow> bool \<Rightarrow> bool \<Rightarrow> (int \<Rightarrow> travel_info option) \<Rightarrow> plan_db \<Rightarrow> meal_plan
     \<Rightarrow> comparison \<times> travel_comparison option" where
  "compare_plan_with_travel st today geo_enabled has_address travel db mp =
     (let base = compare_plan_across_chains st today db mp
      in (base, if \<not> geo_enabled \<or> \<not> has_address then None else Some (travel_part travel base)))"

section \<open>What the split says\<close>

lemma basket_offers_costs:
  "map fst (basket_offers results item) = List.map_filter (\<lambda>r. map_of (cx_costs r) (bi_canonical_name item)) results"
  by (induction results) (auto simp: basket_offers_def List.map_filter_simps split: option.split)

lemma best_offer_None: "best_offer results item = None \<longleftrightarrow> basket_offers results item = []"
  by (simp add: best_offer_def)

lemma best_offer_Some:
  assumes "best_offer results item = Some (c, r)"
  shows "r \<in> set results" and "map_of (cx_costs r) (bi_canonical_name item) = Some c"
    and "c = Min (set (map fst (basket_offers results item)))"
    and "\<And>q d. q \<in> set results \<Longrightarrow> map_of (cx_costs q) (bi_canonical_name item) = Some d \<Longrightarrow> c \<le> d"
proof -
  note m = argmin_Some[OF assms[unfolded best_offer_def]]
  from m(1) show r: "r \<in> set results" and c: "map_of (cx_costs r) (bi_canonical_name item) = Some c"
    by (auto simp: basket_offers_def List.map_filter_def)
  have least: "c \<le> fst o'" if "o' \<in> set (basket_offers results item)" for o'
    using m(2)[OF that] by (cases o') (auto simp: less_eq_prod_def)
  show "c = Min (set (map fst (basket_offers results item)))"
    using m(1) least by (intro Min_eqI[symmetric]) (auto intro: rev_image_eqI)
  show "c \<le> d" if "q \<in> set results" "map_of (cx_costs q) (bi_canonical_name item) = Some d" for q d
    using least[of "(d, q)"] that by (force simp: basket_offers_def List.map_filter_def)
qed

definition bought_at :: "chain_result list \<Rightarrow> int \<Rightarrow> basket_item \<Rightarrow> split_item option" where
  "bought_at results k item =
     (case best_offer results item of
        None \<Rightarrow> None
      | Some (c, r) \<Rightarrow> if ret_id (cx_retailer r) = k then Some \<lparr>si_item = item, si_cost = c\<rparr> else None)"

lemma split_fold:
  assumes "fold (split_step results) basket (items, t, unc) = (items', t', unc')"
  shows "unc' = unc @ filter (\<lambda>i. best_offer results i = None) basket \<and>
    t' = fold (\<lambda>c acc. dadd acc c) (map fst (List.map_filter (best_offer results) basket)) t \<and>
    (\<forall>k. dget items' k [] = dget items k [] @ List.map_filter (bought_at results k) basket)"
  using assms
proof (induction basket arbitrary: items t unc)
  case Nil
  then show ?case by (simp add: List.map_filter_simps)
next
  case (Cons b basket)
  show ?case
  proof (cases "best_offer results b")
    case None
    with Cons.prems have "fold (split_step results) basket (items, t, unc @ [b]) = (items', t', unc')"
      by (simp add: split_step_def[of results b])
    from Cons.IH[OF this] None show ?thesis by (simp add: List.map_filter_simps bought_at_def)
  next
    case (Some o')
    obtain c r where o': "o' = (c, r)" by (cases o')
    let ?k = "ret_id (cx_retailer r)"
    from Some o' Cons.prems have "fold (split_step results) basket
        (dset ?k (dget items ?k [] @ [\<lparr>si_item = b, si_cost = c\<rparr>]) items, dadd t c, unc) = (items', t', unc')"
      by (simp add: split_step_def[of results b] Let_def)
    from Cons.IH[OF this] Some o' show ?thesis by (auto simp: List.map_filter_simps bought_at_def dget_dset)
  qed
qed

lemma split_basket_eq:
  assumes "split_basket basket results = (items, t, unc)"
  shows "unc = filter (\<lambda>i. best_offer results i = None) basket"
    and "t = dsum (map fst (List.map_filter (best_offer results) basket))"
    and "dget items k [] = List.map_filter (bought_at results k) basket"
  using split_fold[OF assms[unfolded split_basket_def]] by (simp_all add: dsum_def dget_Nil)

text \<open>The parts of a comparison in terms of its chains and its basket.\<close>

lemma comparison_parts:
  fixes st today db mp
  defines "cmp \<equiv> compare_plan_across_chains st today db mp"
  shows "cmp_basket cmp = consolidate_basket (plan_meals db mp) (unit_converter_init (build_conversions db))"
    and "cmp_chains cmp = map (chain_result_of st db (plan_meals db mp) today) (visible_chains db)"
    and "cmp_best cmp = best_single (cmp_chains cmp)"
    and "cmp_split_total cmp = fst (snd (split_basket (cmp_basket cmp) (cmp_chains cmp)))"
    and "cmp_uncovered cmp = snd (snd (split_basket (cmp_basket cmp) (cmp_chains cmp)))"
    and "cmp_savings cmp = map_option (\<lambda>b. dsub (cx_known_cost b) (cmp_split_total cmp)) (cmp_best cmp)"
    and "cmp_by_chain cmp = map (\<lambda>(i, its). \<lparr>sc_retailer = i, sc_name = chain_name (cmp_chains cmp) i,
       sc_subtotal = dsum (map si_cost its), sc_items = its\<rparr>)
      (sort_key (\<lambda>(i, its). chain_name (cmp_chains cmp) i) (fst (split_basket (cmp_basket cmp) (cmp_chains cmp))))"
  unfolding cmp_def compare_plan_across_chains_def Let_def by (simp_all split: prod.split)

lemma split_basket_ok: "dict_ok (fst (split_basket basket results))"
proof -
  have "dict_ok (fst acc) \<Longrightarrow> dict_ok (fst (fold (split_step results) basket acc))" for acc
  proof (induction basket arbitrary: acc)
    case (Cons b basket)
    then show ?case
      by (cases acc; cases "best_offer results b") (auto simp: split_step_def Let_def dict_ok_dset)
  qed simp
  then show ?thesis by (simp add: split_basket_def)
qed

lemma bought_at_Some:
  assumes "bought_at results k item = Some s"
  obtains r where "si_item s = item" "best_offer results item = Some (si_cost s, r)" "ret_id (cx_retailer r) = k" "r \<in> set results"
    "map_of (cx_costs r) (bi_canonical_name item) = Some (si_cost s)"
  using assms best_offer_Some(1,2)[of results item] by (auto simp: bought_at_def split: option.splits if_splits)

text \<open>The entry an ingredient goes to, what an entry holds, and the costs in the total.\<close>

lemma split_entry_of:
  fixes st today db mp
  defines "cmp \<equiv> compare_plan_across_chains st today db mp"
  assumes item: "item \<in> set (cmp_basket cmp)" and best: "best_offer (cmp_chains cmp) item = Some (c, r)"
  shows "list_ex (\<lambda>e. list_ex (\<lambda>r. ret_id (cx_retailer r) = sc_retailer e \<and>
      map_of (cx_costs r) (bi_canonical_name item) = Some c) (cmp_chains cmp) \<and>
      \<lparr>si_item = item, si_cost = c\<rparr> \<in> set (sc_items e)) (cmp_by_chain cmp)"
proof -
  let ?k = "ret_id (cx_retailer r)"
  obtain items t unc where s: "split_basket (cmp_basket cmp) (cmp_chains cmp) = (items, t, unc)"
    by (metis prod_cases3)
  have "bought_at (cmp_chains cmp) ?k item = Some \<lparr>si_item = item, si_cost = c\<rparr>" by (simp add: bought_at_def best)
  with item split_basket_eq(3)[OF s, of ?k] have "\<lparr>si_item = item, si_cost = c\<rparr> \<in> set (dget items ?k [])"
    by (force simp: List.map_filter_def)
  then obtain its where its: "(?k, its) \<in> set items" "\<lparr>si_item = item, si_cost = c\<rparr> \<in> set its"
    by (cases "map_of items ?k") (auto simp: dget_def dest: map_of_SomeD)
  have "list_ex (\<lambda>r. ret_id (cx_retailer r) = ?k \<and> map_of (cx_costs r) (bi_canonical_name item) = Some c) (cmp_chains cmp)"
    using best_offer_Some(1,2)[OF best] by (auto simp: list_ex_iff)
  moreover obtain e where "e \<in> set (cmp_by_chain cmp)" "sc_retailer e = ?k" "sc_items e = its"
    using its(1) s comparison_parts(7)[of st today db mp, folded cmp_def] by fastforce
  ultimately show ?thesis
    using its(2) by (intro list_ex_iff[THEN iffD2] bexI[of _ e]) simp_all
qed

lemma split_entry_holds:
  fixes st today db mp
  defines "cmp \<equiv> compare_plan_across_chains st today db mp"
  assumes "e \<in> set (cmp_by_chain cmp)"
  shows "sc_subtotal e = dsum (map si_cost (sc_items e))"
    and "x \<in> set (sc_items e) \<Longrightarrow> si_item x \<in> set (cmp_basket cmp) \<and>
      (\<exists>r. best_offer (cmp_chains cmp) (si_item x) = Some (si_cost x, r) \<and> ret_id (cx_retailer r) = sc_retailer e)"
proof -
  obtain items t unc where s: "split_basket (cmp_basket cmp) (cmp_chains cmp) = (items, t, unc)"
    by (metis prod_cases3)
  from assms(2) s obtain its where e: "(sc_retailer e, its) \<in> set items" "sc_items e = its" "sc_subtotal e = dsum (map si_cost its)"
    by (auto simp: comparison_parts(7)[of st today db mp, folded cmp_def])
  from e(3) show "sc_subtotal e = dsum (map si_cost (sc_items e))" by (simp add: e(2))
  assume "x \<in> set (sc_items e)"
  with e(1) split_basket_ok[of "cmp_basket cmp" "cmp_chains cmp"] have "x \<in> set (dget items (sc_retailer e) [])"
    by (simp add: s e(2) dget_def dict_ok_def)
  then obtain item where "item \<in> set (cmp_basket cmp)" "bought_at (cmp_chains cmp) (sc_retailer e) item = Some x"
    by (auto simp: split_basket_eq(3)[OF s] List.map_filter_def)
  then show "si_item x \<in> set (cmp_basket cmp) \<and>
      (\<exists>r. best_offer (cmp_chains cmp) (si_item x) = Some (si_cost x, r) \<and> ret_id (cx_retailer r) = sc_retailer e)"
    by (auto elim: bought_at_Some)
qed

lemma lowest_costs:
  "map fst (List.map_filter (best_offer results) t) =
     map (\<lambda>item. Min (set (map fst (basket_offers results item)))) (filter (\<lambda>item. map fst (basket_offers results item) \<noteq> []) t)"
proof (induction t)
  case (Cons b t)
  then show ?case
    using best_offer_None[of results b] best_offer_Some(3)[of results b]
    by (cases "best_offer results b") (auto simp: List.map_filter_simps)
qed (simp add: List.map_filter_simps)

text \<open>C10 Every ingredient of the basket is bought at the cheapest chain that prices it. An ingredient
that no chain prices is reported as uncovered; any other is bought at the lowest of the costs of the
chains, in the entry of a chain that sells it at that cost. The entries hold nothing else - whatever
one lists is an ingredient of the basket, at the cost of that very chain, which is the lowest - and
their subtotals are the sums of their costs. The total of the split is the sum of the lowest costs in
the order of the basket.\<close>

theorem split_is_cheapest:
  "let cmp = compare_plan_across_chains st today db mp;
       costs = (\<lambda>item. List.map_filter (\<lambda>r. map_of (cx_costs r) (bi_canonical_name item)) (cmp_chains cmp));
       sold = (\<lambda>e item cost. list_ex (\<lambda>r. ret_id (cx_retailer r) = sc_retailer e \<and>
         map_of (cx_costs r) (bi_canonical_name item) = Some cost) (cmp_chains cmp)) in
   list_all (\<lambda>item. if costs item = [] then item \<in> set (cmp_uncovered cmp)
     else item \<notin> set (cmp_uncovered cmp) \<and>
       list_ex (\<lambda>e. sold e item (Min (set (costs item))) \<and>
         \<lparr>si_item = item, si_cost = Min (set (costs item))\<rparr> \<in> set (sc_items e)) (cmp_by_chain cmp))
     (cmp_basket cmp) \<and>
   list_all (\<lambda>e. sc_subtotal e = dsum (map si_cost (sc_items e)) \<and>
     list_all (\<lambda>s. si_item s \<in> set (cmp_basket cmp) \<and> costs (si_item s) \<noteq> [] \<and>
       si_cost s = Min (set (costs (si_item s))) \<and> sold e (si_item s) (si_cost s)) (sc_items e)) (cmp_by_chain cmp) \<and>
   cmp_split_total cmp = dsum (map (\<lambda>item. Min (set (costs item))) (filter (\<lambda>item. costs item \<noteq> []) (cmp_basket cmp)))"
proof -
  let ?cmp = "compare_plan_across_chains st today db mp"
  let ?res = "cmp_chains ?cmp"
  obtain items t unc where s: "split_basket (cmp_basket ?cmp) ?res = (items, t, unc)" by (metis prod_cases3)
  note parts = comparison_parts(4,5)[of st today db mp, unfolded s fst_conv snd_conv] and eq = split_basket_eq[OF s]
  show ?thesis
    unfolding Let_def basket_offers_costs[symmetric] list_all_iff
  proof (intro conjI ballI)
    fix item assume item: "item \<in> set (cmp_basket ?cmp)"
    show "if map fst (basket_offers ?res item) = [] then item \<in> set (cmp_uncovered ?cmp)
      else item \<notin> set (cmp_uncovered ?cmp) \<and> list_ex (\<lambda>e. list_ex (\<lambda>r. ret_id (cx_retailer r) = sc_retailer e \<and>
          map_of (cx_costs r) (bi_canonical_name item) = Some (Min (set (map fst (basket_offers ?res item))))) ?res \<and>
        \<lparr>si_item = item, si_cost = Min (set (map fst (basket_offers ?res item)))\<rparr> \<in> set (sc_items e)) (cmp_by_chain ?cmp)"
    proof (cases "best_offer ?res item")
      case None
      with item show ?thesis by (simp add: parts eq(1) best_offer_None)
    next
      case (Some o')
      obtain c r where best: "best_offer ?res item = Some (c, r)" using Some by (cases o') simp
      then have "map fst (basket_offers ?res item) \<noteq> []" using best_offer_None[of ?res item] by simp
      with split_entry_of[OF item best] show ?thesis
        unfolding best_offer_Some(3)[OF best, symmetric] by (simp add: parts(2) eq(1) best)
    qed
  next
    fix e assume e: "e \<in> set (cmp_by_chain ?cmp)"
    show "sc_subtotal e = dsum (map si_cost (sc_items e))" by (rule split_entry_holds(1)[OF e])
    fix x assume "x \<in> set (sc_items e)"
    from split_entry_holds(2)[OF e this] obtain r where r: "si_item x \<in> set (cmp_basket ?cmp)"
      "best_offer ?res (si_item x) = Some (si_cost x, r)" "ret_id (cx_retailer r) = sc_retailer e" by blast
    show "si_item x \<in> set (cmp_basket ?cmp)" by (rule r(1))
    show "map fst (basket_offers ?res (si_item x)) \<noteq> []" using r(2) best_offer_None[of ?res "si_item x"] by auto
    show "si_cost x = Min (set (map fst (basket_offers ?res (si_item x))))" by (rule best_offer_Some(3)[OF r(2)])
    show "list_ex (\<lambda>r. ret_id (cx_retailer r) = sc_retailer e \<and>
        map_of (cx_costs r) (bi_canonical_name (si_item x)) = Some (si_cost x)) ?res"
      using r(3) best_offer_Some(1,2)[OF r(2)] by (auto simp: list_ex_iff)
  qed (simp add: parts eq(2) lowest_costs)
qed

section \<open>The split against one chain\<close>

definition named_basket :: "(string, basket_item) dict \<Rightarrow> bool" where
  "named_basket d \<longleftrightarrow> dict_ok d \<and> (\<forall>n b. map_of d n = Some b \<longrightarrow> bi_canonical_name b = n)"

lemma named_basket_dset: "named_basket d \<Longrightarrow> bi_canonical_name b = n \<Longrightarrow> named_basket (dset n b d)"
  by (simp add: named_basket_def dict_ok_dset map_of_dset)

lemma named_basket_dsetdefault: "named_basket d \<Longrightarrow> bi_canonical_name b = n \<Longrightarrow> named_basket (dsetdefault n b d)"
  by (auto simp: named_basket_def dict_ok_dsetdefault map_of_dsetdefault)

lemma named_basket_ingredient:
  assumes "named_basket d" shows "named_basket (consolidate_ingredient converter scale i d)"
proof -
  let ?n = "ri_canonical_name i"
  define d' where "d' = dsetdefault ?n \<lparr>bi_canonical_name = ?n, bi_display_name = ri_display_name i,
    bi_quantity = 0, bi_unit = ri_unit i\<rparr> d"
  have d: "named_basket d'" unfolding d'_def using assms by (rule named_basket_dsetdefault) simp
  then have step: "named_basket (dset ?n (b\<lparr>bi_quantity := q\<rparr>) d')" if "map_of d' ?n = Some b" for b q
    using that by (intro named_basket_dset) (simp_all add: named_basket_def)
  show ?thesis
    unfolding consolidate_ingredient_def Let_def d'_def[symmetric]
    using d step by (simp split: option.split sum.split)
qed

lemma named_basket_meals: "named_basket d \<Longrightarrow> named_basket (fold (consolidate_meal converter) meals d)"
proof -
  have "named_basket d \<Longrightarrow> named_basket (fold (consolidate_ingredient converter scale) ingredients d)" for scale ingredients d
    by (induction ingredients arbitrary: d) (simp_all add: named_basket_ingredient)
  then show "named_basket d \<Longrightarrow> ?thesis"
    by (induction meals arbitrary: d) (simp_all add: consolidate_meal_def)
qed

lemma basket_names_distinct: "distinct (map bi_canonical_name (consolidate_basket meals converter))"
proof -
  let ?d = "fold (consolidate_meal converter) meals []"
  have d: "named_basket ?d" by (rule named_basket_meals) (simp add: named_basket_def)
  then have "map (bi_canonical_name \<circ> snd) ?d = map fst ?d"
    by (intro map_cong refl) (auto simp: named_basket_def dict_ok_def)
  then have "map bi_canonical_name (consolidate_basket meals converter) = map fst ?d" by (simp add: consolidate_basket_def)
  with d show ?thesis by (simp only: named_basket_def dict_ok_def)
qed

lemma add_cost_ok:
  assumes "dict_ok d" "0 \<le> gl_subtotal l"
  shows "dict_ok (add_cost l d)"
    and "sum_list (map snd (add_cost l d)) \<le> sum_list (map snd d) + (if gl_subtotal_known l then gl_subtotal l else 0)"
    and "snd ` set (add_cost l d) \<subseteq> snd ` set d \<union> (if gl_subtotal_known l then {gl_subtotal l} else {})"
proof -
  have "add_cost l d = d \<or> gl_subtotal_known l \<and> add_cost l d = d @ [(gl_canonical_name l, gl_subtotal l)]"
    by (auto simp: add_cost_def dsetdefault_def split: option.split)
  then show "sum_list (map snd (add_cost l d)) \<le> sum_list (map snd d) + (if gl_subtotal_known l then gl_subtotal l else 0)"
    "snd ` set (add_cost l d) \<subseteq> snd ` set d \<union> (if gl_subtotal_known l then {gl_subtotal l} else {})"
    using assms(2) by fastforce+
  show "dict_ok (add_cost l d)" using assms(1) by (simp add: add_cost_def dict_ok_dsetdefault)
qed

lemma sum_filter_le: "list_all (\<lambda>x. 0 \<le> f x) xs \<Longrightarrow> sum_list (map f (filter P xs)) \<le> sum_list (map f xs)"
  for f :: "'a \<Rightarrow> rat"
  by (induction xs) auto

lemma chain_costs_fold:
  assumes "list_all (\<lambda>l. 0 \<le> gl_subtotal l) ls" "dict_ok d"
  shows "dict_ok (fold add_cost ls d) \<and>
    sum_list (map snd (fold add_cost ls d)) \<le> sum_list (map snd d) + sum_list (map gl_subtotal (filter gl_subtotal_known ls)) \<and>
    snd ` set (fold add_cost ls d) \<subseteq> snd ` set d \<union> gl_subtotal ` set (filter gl_subtotal_known ls)"
  using assms
proof (induction ls arbitrary: d)
  case Nil
  then show ?case by simp
next
  case (Cons l ls)
  have l: "0 \<le> gl_subtotal l" using Cons.prems(1) by simp
  note step = add_cost_ok[OF Cons.prems(2) l]
  from Cons.IH[OF _ step(1)] Cons.prems(1) have ih:
    "dict_ok (fold add_cost ls (add_cost l d))"
    "sum_list (map snd (fold add_cost ls (add_cost l d))) \<le>
      sum_list (map snd (add_cost l d)) + sum_list (map gl_subtotal (filter gl_subtotal_known ls))"
    "snd ` set (fold add_cost ls (add_cost l d)) \<subseteq> snd ` set (add_cost l d) \<union> gl_subtotal ` set (filter gl_subtotal_known ls)"
    by simp_all
  from ih(1,2) step(2) have "sum_list (map snd (fold add_cost (l # ls) d)) \<le>
      sum_list (map snd d) + sum_list (map gl_subtotal (filter gl_subtotal_known (l # ls)))"
    by (cases "gl_subtotal_known l") simp_all
  moreover have "snd ` set (fold add_cost (l # ls) d) \<subseteq> snd ` set d \<union> gl_subtotal ` set (filter gl_subtotal_known (l # ls))"
    using ih(3) step(3) by (cases "gl_subtotal_known l") auto
  ultimately show ?case using ih(1) by simp
qed

lemma sum_distinct_names:
  assumes "dict_ok d" "distinct ns" "\<forall>n\<in>set ns. map_of d n \<noteq> None" "\<forall>v\<in>snd ` set d. 0 \<le> (v::rat)"
  shows "(\<Sum>n\<leftarrow>ns. the (map_of d n)) \<le> sum_list (map snd d)"
proof -
  have "(\<Sum>n\<leftarrow>ns. the (map_of d n)) = (\<Sum>n\<in>set ns. the (map_of d n))"
    by (simp add: assms(2) sum_list_distinct_conv_sum_set)
  also have "\<dots> \<le> (\<Sum>n\<in>fst ` set d. the (map_of d n))"
  proof (rule sum_mono2)
    show "set ns \<subseteq> fst ` set d" using assms(3) by (auto simp: map_of_eq_None_iff)
    show "0 \<le> the (map_of d n)" if "n \<in> fst ` set d - set ns" for n
    proof -
      from that obtain v where "map_of d n = Some v" by (metis DiffD1 map_of_eq_None_iff not_None_eq)
      with assms(4) show ?thesis by (auto dest!: map_of_SomeD intro: bspec rev_image_eqI)
    qed
  qed simp
  also have "\<dots> = (\<Sum>n\<leftarrow>map fst d. the (map_of d n))"
    using assms(1) sum.distinct_set_conv_list[of "map fst d" "\<lambda>n. the (map_of d n)"] by (simp add: dict_ok_def)
  also have "\<dots> = sum_list (map snd d)"
    using assms(1) by (auto simp: dict_ok_def intro!: arg_cong[where f = sum_list])
  finally show ?thesis .
qed

text \<open>C18 Splitting the purchase never costs more than one chain that sells everything. When the
prices of a visible chain are whole cents and it prices every ingredient of the basket, the
total of the split is at most what the plan costs at that chain.\<close>

theorem split_never_dearer:
  assumes "r \<in> set (visible_chains db)"
    and "p = cost_basket (plan_meals db mp) (basket_groups (plan_meals db mp))
      (build_catalog st db (Some (ret_id r))) (build_conversions db) today"
    and "list_all (\<lambda>l. whole_cents (gl_subtotal l)) (pv_grocery_lines p)"
    and "sum_list (map gl_subtotal (pv_grocery_lines p)) \<le> 10 ^ 26"
    and "list_all (\<lambda>b. map_of (chain_costs p) (bi_canonical_name b) \<noteq> None)
      (cmp_basket (compare_plan_across_chains st today db mp))"
  shows "cmp_split_total (compare_plan_across_chains st today db mp) \<le> pv_cost_known p"
proof -
  let ?cmp = "compare_plan_across_chains st today db mp" and ?known = "filter gl_subtotal_known (pv_grocery_lines p)"
  let ?b = "cmp_basket ?cmp" and ?res = "cmp_chains ?cmp" and ?cost = "\<lambda>b. the (map_of (chain_costs p) (bi_canonical_name b))"
  have r: "chain_result_of st db (plan_meals db mp) today r \<in> set ?res"
    "cx_costs (chain_result_of st db (plan_meals db mp) today r) = chain_costs p"
    using assms(1) by (simp_all add: comparison_parts(2) chain_result_of_def Let_def assms(2))
  obtain items t unc where s: "split_basket ?b ?res = (items, t, unc)" by (metis prod_cases3)
  have total: "cmp_split_total ?cmp = dsum (map fst (List.map_filter (best_offer ?res) ?b))"
    using split_basket_eq(2)[OF s] by (simp add: comparison_parts(4) s)
  have "list_all2 (\<le>) (map fst (List.map_filter (best_offer ?res) t)) (map ?cost t)"
    if "list_all (\<lambda>b. map_of (chain_costs p) (bi_canonical_name b) \<noteq> None) t" for t
    using that
  proof (induction t)
    case (Cons b t)
    then obtain c where c: "map_of (chain_costs p) (bi_canonical_name b) = Some c" by auto
    with r have "basket_offers ?res b \<noteq> []" by (force simp: basket_offers_def List.map_filter_def filter_empty_conv)
    then obtain d q where "best_offer ?res b = Some (d, q)" by (metis best_offer_None not_None_eq surj_pair)
    with best_offer_Some(4)[OF this r(1)] r(2) c Cons show ?case by (simp add: List.map_filter_simps)
  qed (simp add: List.map_filter_simps)
  then have le: "cmp_split_total ?cmp \<le> dsum (map ?cost ?b)" unfolding total using assms(5) by (intro dsum_mono)
  have ok: "dict_ok (chain_costs p)" "sum_list (map snd (chain_costs p)) \<le> sum_list (map gl_subtotal ?known)"
    "snd ` set (chain_costs p) \<subseteq> gl_subtotal ` set ?known"
    using chain_costs_fold[of "pv_grocery_lines p" "[]"] assms(3)
    by (simp_all add: chain_costs_def list_all_iff whole_cents_nonneg)
  have cents: "list_all whole_cents (map gl_subtotal ?known)" using assms(3) by (simp add: list_all_iff)
  have "sum_list (map gl_subtotal ?known) \<le> sum_list (map gl_subtotal (pv_grocery_lines p))"
    using assms(3) by (intro sum_filter_le) (simp add: list_all_iff whole_cents_nonneg)
  with assms(4) have bound: "sum_list (map gl_subtotal ?known) \<le> 10 ^ 26" by linarith
  have names: "distinct (map bi_canonical_name ?b)"
    by (simp only: comparison_parts(1) basket_names_distinct)
  have "(\<Sum>n\<leftarrow>map bi_canonical_name ?b. the (map_of (chain_costs p) n)) \<le> sum_list (map snd (chain_costs p))"
    using assms(3,5) ok(3) by (intro sum_distinct_names ok(1) names) (fastforce simp: list_all_iff whole_cents_def)+
  with ok(2) have sum: "sum_list (map ?cost ?b) \<le> sum_list (map gl_subtotal ?known)" by (simp add: comp_def)
  have "list_all whole_cents (map ?cost ?b)"
    using assms(5) ok(3) cents by (fastforce simp: list_all_iff dest: map_of_SomeD)
  from dsum_cents[OF this] sum bound have "dsum (map ?cost ?b) = sum_list (map ?cost ?b)" by simp
  moreover have "pv_cost_known p = dsum (map gl_subtotal ?known)"
    unfolding assms(2) cost_basket_def Let_def by (rule provision_lines(2))
  ultimately show ?thesis using le sum dsum_cents[OF cents bound] by simp
qed

section \<open>Examples\<close>

text \<open>
  A dish of the ingredients \<open>a\<close> to \<open>e\<close>, each mapped to the products given; the chains 7 and 8 with
  the prices given, a kilo each.
\<close>

definition market_of :: "(int \<times> int \<times> dec) list \<Rightarrow> db" where
  "market_of prices = empty_db\<lparr>
     retailers := [\<lparr>ret_id = 7, ret_slug = ''siete'', ret_active = True, ret_name = ''Siete''\<rparr>,
       \<lparr>ret_id = 8, ret_slug = ''ocho'', ret_active = True, ret_name = ''Ocho''\<rparr>],
     product_prices := map (\<lambda>(chain, p, amount). (example_price p p amount 0)\<lparr>prc_retailer := chain\<rparr>) prices\<rparr>"

definition five_names :: "(int \<times> string) list" where
  "five_names = [(1, ''a''), (2, ''b''), (3, ''c''), (4, ''d''), (5, ''e'')]"

definition compared_tables :: "nat \<Rightarrow> (int \<times> int) list \<Rightarrow> (int \<times> int \<times> dec) list \<Rightarrow> plan_db" where
  "compared_tables n mappings prices = example_tables\<lparr>
     pl_market := market_of prices,
     pl_products := map (\<lambda>(i, name). \<lparr>prd_id = i, prd_retailer = None, prd_deleted_at = None, prd_nutrition = None\<rparr>) five_names,
     pl_ingredients := map (\<lambda>(i, name). example_row i name []) five_names,
     pl_mappings := map (\<lambda>(i, p). \<lparr>ipm_ingredient = i, ipm_product = p, ipm_variant = None,
       ipm_preference_rank = Some 1, ipm_active = True\<rparr>) mappings,
     pl_recipes := [(example_dish 1 ''Guiso'' 1 ''a'')\<lparr>rcp_ingredients := map (\<lambda>(i, name).
       \<lparr>rgi_ingredient = i, rgi_canonical_name = name, rgi_display_name = None, rgi_quantity = 200, rgi_unit = ''g'',
        rgi_optional = False, rgi_substitution_group = None\<rparr>) (take n five_names)\<rparr>],
     pl_meals := [\<lparr>pml_id = 1, pml_plan = 1, pml_requirement = None, pml_recipe = 1, pml_scheduled_date = None,
       pml_meal_type = Lunch, pml_servings = 2, pml_status = ML_planned\<rparr>]\<rparr>"

definition two_chains :: plan_db where
  "two_chains = compared_tables 2 [(1, 1), (2, 2), (1, 3)] [(7, 1, 5 / 2), (7, 2, 3), (8, 3, 2)]"

definition seven :: retailer where
  "seven = \<lparr>ret_id = 7, ret_slug = ''siete'', ret_active = True, ret_name = ''Siete''\<rparr>"

lemma two_chains_costs:
  "let p = cost_basket (plan_meals two_chains example_plan) (basket_groups (plan_meals two_chains example_plan))
      (build_catalog example_settings two_chains (Some (ret_id seven))) (build_conversions two_chains) 719165 in
   map gl_subtotal (pv_grocery_lines p) = [5 / 2, 3] \<and> pv_cost_known p = 11 / 2 \<and> map fst (chain_costs p) = [''a'', ''b'']"
  by code_simp

theorem split_never_dearer_witness:
  "cmp_split_total (compare_plan_across_chains example_settings 719165 two_chains example_plan) \<le> 11 / 2"
proof -
  define p where "p = cost_basket (plan_meals two_chains example_plan) (basket_groups (plan_meals two_chains example_plan))
    (build_catalog example_settings two_chains (Some (ret_id seven))) (build_conversions two_chains) 719165"
  have costs: "map gl_subtotal (pv_grocery_lines p) = [5 / 2, 3]" "pv_cost_known p = 11 / 2" "map fst (chain_costs p) = [''a'', ''b'']"
    using two_chains_costs by (simp_all add: p_def Let_def)
  have basket: "map bi_canonical_name (cmp_basket (compare_plan_across_chains example_settings 719165 two_chains example_plan)) =
      [''a'', ''b'']"
    unfolding comparison_parts(1) by code_simp
  have "list_all (\<lambda>b. map_of (chain_costs p) b \<noteq> None) [''a'', ''b'']"
    using arg_cong[OF costs(3), of set] by (simp add: map_of_eq_None_iff)
  then have priced: "list_all (\<lambda>b. map_of (chain_costs p) (bi_canonical_name b) \<noteq> None)
      (cmp_basket (compare_plan_across_chains example_settings 719165 two_chains example_plan))"
    unfolding basket[symmetric] by (simp add: list_all_iff)
  have "list_all whole_cents (map gl_subtotal (pv_grocery_lines p))"
    unfolding costs(1) by (simp add: whole_cents_def)
  then have cents: "list_all (\<lambda>l. whole_cents (gl_subtotal l)) (pv_grocery_lines p)" by (simp add: list_all_iff)
  have "seven \<in> set (visible_chains two_chains)" by code_simp
  from split_never_dearer[OF this p_def cents _ priced] costs(1,2) show ?thesis by simp
qed

text \<open>
  When no chain sells everything, the savings of the split compare a basket with a smaller one and can be negative.
\<close>

definition split_figures :: "basket_item list \<Rightarrow> chain_result list \<Rightarrow> (dec \<times> dec) option \<times> dec \<times> string list" where
  "split_figures basket results =
     (map_option (\<lambda>b. (cx_ratio b, cx_known_cost b)) (best_single results),
      fst (snd (split_basket basket results)), map bi_canonical_name (snd (snd (split_basket basket results))))"

definition example_chain :: "int \<Rightarrow> string list \<Rightarrow> dec \<Rightarrow> chain_result" where
  "example_chain i names cost =
     (let lines = map (\<lambda>n. (grocery_line_defaults n None n 1)\<lparr>gl_subtotal := cost, gl_subtotal_known := n \<in> set names\<rparr>)
        (map snd five_names)
      in \<lparr>cx_retailer = seven\<lparr>ret_id := i\<rparr>, cx_known_cost = of_nat (length names) * cost,
          cx_coverage = compute_coverage lines, cx_costs = map (\<lambda>n. (n, cost)) names\<rparr>)"

lemma savings_of_unequal_baskets:
  "split_figures (map (\<lambda>(i, n). \<lparr>bi_canonical_name = n, bi_display_name = n, bi_quantity = 1, bi_unit = ''g''\<rparr>) five_names)
     [example_chain 7 [''a'', ''b'', ''c'', ''d''] 1, example_chain 8 [''e''] 9] = (Some (8 / 10, 4), 13, []) \<and> dsub 4 13 = - 9"
  by code_simp

text \<open>
  Two ingredients mapped to one product have one line: a chain that sells both covers the whole list,
  and only the first has a cost, so the other is reported as uncovered.
\<close>

lemma shared_product_uncovered:
  "let product = (\<lambda>n. (example_product n {} [example_package ''1'' 1000 1])\<lparr>cp_product_id := ''1''\<rparr>);
       meal = example_meal 0 2 (example_recipe ''r'' 2 [example_ingredient ''a'' 200 ''g'', example_ingredient ''b'' 200 ''g'']);
       p = cost_basket [meal] [] [product ''a'', product ''b''] [] 0 in
   cv_price_coverage (compute_coverage (pv_grocery_lines p)) = 1 \<and> map fst (chain_costs p) = [''a'']"
  by code_simp

end
