(* ===== verification/BasketResolver.thy ===== *)
theory BasketResolver
  imports PriceScope Provisioning Cents "HOL-Library.Multiset"
begin

text \<open>
  \<open>services/basket_resolver.py\<close>: a shopping request costed at one chain. For each item the
  variants that match, their gated current prices, whole packages and the promotion of the
  observation. The converter has no ingredient factors. Names of products and promotion rules are
  tables of their own here; a key stands for its public id, and the texts of a result are left out.
\<close>

section \<open>Data\<close>

record promotion_rule =
  pmr_id :: int
  pmr_observation :: int
  pmr_type :: string
  pmr_required :: "int option"
  pmr_charged :: "int option"
  pmr_percentage :: "dec option"
  pmr_fixed :: "dec option"

record basket_tables =
  bt_market :: db
  bt_product_names :: "(int, string) dict"
  bt_promotions :: "promotion_rule list"

text \<open>What an item asks for: a variant, else a product, else an ingredient by name, else nothing.\<close>

record requested_item =
  rq_required :: dec
  rq_item_unit :: string
  rq_variant :: "int option"
  rq_product :: "int option"
  rq_name :: "string option"

record resolved_line =
  rl_item :: requested_item
  rl_variant :: int
  rl_product :: "int option"
  rl_package_quantity :: dec
  rl_package_unit :: string
  rl_packages :: int
  rl_purchased :: dec
  rl_used :: dec
  rl_leftover :: dec
  rl_price :: current_price
  rl_list_cost :: dec
  rl_line_cost :: dec
  rl_promotion :: "promotion_rule option"

datatype unresolved_reason = UR_no_match | UR_no_price | UR_no_package_info | UR_unit_incompatible

type_synonym unresolved_line = "requested_item \<times> unresolved_reason \<times> int option"


section \<open>Promotions\<close>

definition discount_fraction :: "dec \<Rightarrow> dec" where
  "discount_fraction pct =
     (let frac = (if 1 < pct then ddiv pct 100 else pct)
      in if frac < 0 then 0 else if 1 < frac then 1 else frac)"

definition given :: "int option \<Rightarrow> bool" where
  "given n \<longleftrightarrow> (case n of None \<Rightarrow> False | Some k \<Rightarrow> k \<noteq> 0)"

definition promotion_kind :: "promotion_rule \<Rightarrow> string set \<Rightarrow> bool" where
  "promotion_kind rule kinds \<longleftrightarrow> pmr_type rule \<in> kinds"

definition apply_promotion ::
  "promotion_rule option \<Rightarrow> int \<Rightarrow> dec \<Rightarrow> dec \<times> promotion_rule option" where
  "apply_promotion rule packages package_price =
     (let base = dmul (of_int packages) package_price in
      case rule of
        None \<Rightarrow> (base, None)
      | Some r \<Rightarrow>
          if packages \<le> 0 then (base, None)
          else if promotion_kind r {''nxm'', ''pack''} \<and> given (pmr_required r) \<and> given (pmr_charged r)
          then (let n = the (pmr_required r); m = the (pmr_charged r);
                    paid_units = packages div n * m + packages mod n
                in (dmul (of_int paid_units) package_price, rule))
          else if promotion_kind r {''second_unit''} \<and> pmr_percentage r \<noteq> None
          then (let n = (if given (pmr_required r) then the (pmr_required r) else 2);
                    pct = discount_fraction (the (pmr_percentage r));
                    discounted_units = packages div n;
                    full_units = packages - discounted_units
                in (dadd (dmul (of_int full_units) package_price)
                      (dmul (dmul (of_int discounted_units) package_price) (dsub 1 pct)), rule))
          else if promotion_kind r {''percentage'', ''min_quantity''} \<and> pmr_percentage r \<noteq> None
          then if (case pmr_required r of None \<Rightarrow> True | Some n \<Rightarrow> n \<le> packages)
               then (dmul base (dsub 1 (discount_fraction (the (pmr_percentage r)))), rule)
               else (base, None)
          else if promotion_kind r {''fixed''} \<and> pmr_fixed r \<noteq> None
          then (let cost = dsub base (the (pmr_fixed r)) in (if cost < 0 then 0 else cost, rule))
          else (base, None))"


section \<open>Resolution\<close>

text \<open>\<open>ILIKE\<close>: \<open>%\<close> stands for any text, an underscore for one character, a backslash takes the next
  one as it is.\<close>

fun like :: "string \<Rightarrow> string \<Rightarrow> bool" where
  "like [] t = (t = [])"
| "like (p # ps) t =
     (if p = CHR ''%'' then like ps t \<or> (case t of [] \<Rightarrow> False | c # cs \<Rightarrow> like (p # ps) cs)
      else if p = CHR 0x5C then
        (case ps of [] \<Rightarrow> False | q # qs \<Rightarrow> (case t of [] \<Rightarrow> False | c # cs \<Rightarrow> q = c \<and> like qs cs))
      else (case t of [] \<Rightarrow> False | c # cs \<Rightarrow> (p = CHR ''_'' \<or> p = c) \<and> like ps cs))"

definition ilike :: "string \<Rightarrow> string \<Rightarrow> bool" where
  "ilike text pattern = like (py_lower pattern) (py_lower text)"

definition is_degraded :: "current_price \<Rightarrow> bool" where
  "is_degraded p \<longleftrightarrow> cp_type p = PT_estimated \<or> cp_status p = FS_expired"

definition candidate_variants :: "basket_tables \<Rightarrow> int \<Rightarrow> requested_item \<Rightarrow> product_variant list" where
  "candidate_variants bt retailer_id item =
     (let active = active_variants (bt_market bt) retailer_id in
      case rq_variant item of
        Some v \<Rightarrow> filter (\<lambda>x. var_id x = v) active
      | None \<Rightarrow>
          (case rq_product item of
             Some p \<Rightarrow> if map_of (bt_product_names bt) p = None then [] else filter (\<lambda>x. var_product x = Some p) active
           | None \<Rightarrow>
               (case rq_name item of
                  Some n \<Rightarrow>
                    (let pattern = ''%'' @ py_strip n @ ''%''
                     in filter (\<lambda>x. ilike (var_display_name x) pattern \<or>
                          (case Option.bind (var_product x) (map_of (bt_product_names bt)) of
                             None \<Rightarrow> False | Some name \<Rightarrow> ilike name pattern)) active)
                | None \<Rightarrow> [])))"

definition prefers :: "current_price \<Rightarrow> current_price \<Rightarrow> bool" where
  "prefers candidate cur =
     (if is_degraded candidate \<noteq> is_degraded cur then \<not> is_degraded candidate
      else cp_amount candidate < cp_amount cur)"

definition choose_step ::
  "(product_variant \<Rightarrow> current_price option) \<Rightarrow> product_variant \<Rightarrow> (product_variant \<times> current_price) option
     \<Rightarrow> (product_variant \<times> current_price) option" where
  "choose_step price_of v chosen =
     (case price_of v of
        None \<Rightarrow> chosen
      | Some p \<Rightarrow>
          (case chosen of
             None \<Rightarrow> Some (v, p)
           | Some (w, q) \<Rightarrow> if prefers p q then Some (v, p) else chosen))"

definition promotion_of :: "basket_tables \<Rightarrow> int \<Rightarrow> current_price \<Rightarrow> promotion_rule option" where
  "promotion_of bt variant_id price =
     (case argmin (\<lambda>o'. - obs_id o')
         (filter (\<lambda>o'. obs_variant o' = variant_id \<and> obs_scope o' = cp_scope price \<and>
             obs_observed_at o' = cp_observed_at price \<and>
             (case cp_store price of None \<Rightarrow> True | Some s \<Rightarrow> obs_store o' = Some s)) (observations (bt_market bt))) of
        None \<Rightarrow> None
      | Some o' \<Rightarrow> argmin (\<lambda>r. - pmr_id r) (filter (\<lambda>r. pmr_observation r = obs_id o') (bt_promotions bt)))"

definition resolve_item ::
  "int \<times> int \<Rightarrow> basket_tables \<Rightarrow> int \<Rightarrow> int option \<Rightarrow> time \<Rightarrow> requested_item
     \<Rightarrow> py_exn + (unresolved_line + resolved_line)" where
  "resolve_item thresholds bt retailer_id store_id as_of item =
     (let candidates = candidate_variants bt retailer_id item;
          required_scope = (if store_id \<noteq> None then ''exact_store'' else ''national'');
          price_of = (\<lambda>v. gated_current_price thresholds (bt_market bt) (var_id v) store_id required_scope as_of False)
      in case candidates of
           [] \<Rightarrow> Inr (Inl (item, UR_no_match, None))
         | c # _ \<Rightarrow>
             (case fold (choose_step price_of) candidates None of
                None \<Rightarrow> Inr (Inl (item, UR_no_price, Some (var_id c)))
              | Some (v, price) \<Rightarrow>
                  (case (var_package_quantity v, var_package_unit v) of
                     (Some pq, Some pu) \<Rightarrow>
                       (case convert (unit_converter_init []) (rq_required item) (rq_item_unit item) pu None of
                          Inl _ \<Rightarrow> Inr (Inl (item, UR_unit_incompatible, Some (var_id v)))
                        | Inr needed \<Rightarrow>
                            (case compute_packages needed 0 pq (cp_amount price) of
                               Inl e \<Rightarrow> Inl e
                             | Inr result \<Rightarrow>
                                 (case apply_promotion (promotion_of bt (var_id v) price) (pk_packages result) (cp_amount price) of
                                    (line_cost, applied) \<Rightarrow>
                                      Inr (Inr \<lparr>rl_item = item, rl_variant = var_id v, rl_product = var_product v,
                                        rl_package_quantity = pq, rl_package_unit = pu,
                                        rl_packages = pk_packages result, rl_purchased = pk_purchased result,
                                        rl_used = pk_used result, rl_leftover = pk_leftover result, rl_price = price,
                                        rl_list_cost = pk_total_cost result, rl_line_cost = line_cost,
                                        rl_promotion = applied\<rparr>))))
                   | _ \<Rightarrow> Inr (Inl (item, UR_no_package_info, Some (var_id v))))))"

text \<open>An exception of an item leaves the loop.\<close>

fun resolve_basket ::
  "int \<times> int \<Rightarrow> basket_tables \<Rightarrow> int \<Rightarrow> int option \<Rightarrow> time \<Rightarrow> requested_item list
     \<Rightarrow> py_exn + resolved_line list \<times> unresolved_line list" where
  "resolve_basket thresholds bt retailer_id store_id as_of [] = Inr ([], [])"
| "resolve_basket thresholds bt retailer_id store_id as_of (item # items) =
     (case resolve_item thresholds bt retailer_id store_id as_of item of
        Inl e \<Rightarrow> Inl e
      | Inr r \<Rightarrow>
          (case resolve_basket thresholds bt retailer_id store_id as_of items of
             Inl e \<Rightarrow> Inl e
           | Inr (lines, unresolved) \<Rightarrow>
               Inr (case r of Inl u \<Rightarrow> (lines, u # unresolved) | Inr l \<Rightarrow> (l # lines, unresolved))))"

definition basket_known_cost :: "resolved_line list \<Rightarrow> dec" where
  "basket_known_cost lines = dsum (map rl_line_cost (filter (\<lambda>l. \<not> is_degraded (rl_price l)) lines))"

definition basket_estimated_cost :: "resolved_line list \<Rightarrow> dec" where
  "basket_estimated_cost lines = dsum (map rl_line_cost (filter (\<lambda>l. is_degraded (rl_price l)) lines))"

definition basket_total_cost :: "resolved_line list \<Rightarrow> dec" where
  "basket_total_cost lines = dadd (basket_known_cost lines) (basket_estimated_cost lines)"

definition basket_coverage_ratio :: "nat \<Rightarrow> nat \<Rightarrow> dec" where
  "basket_coverage_ratio resolved unresolved =
     (if resolved + unresolved = 0 then 0
      else of_int (round_half_even (10000 * ddiv (of_nat resolved) (of_nat (resolved + unresolved)))) / 10000)"

section \<open>Promotions never cost more\<close>

definition promotion_ok :: "promotion_rule \<Rightarrow> bool" where
  "promotion_ok r \<longleftrightarrow>
     (case pmr_required r of None \<Rightarrow> True | Some n \<Rightarrow> 0 < n) \<and>
     (case (pmr_required r, pmr_charged r) of (Some n, Some m) \<Rightarrow> 0 \<le> m \<and> m \<le> n | _ \<Rightarrow> True) \<and>
     (case pmr_fixed r of None \<Rightarrow> True | Some f \<Rightarrow> 0 \<le> f)"

lemma discount_fraction_bounds: "0 \<le> discount_fraction pct" "discount_fraction pct \<le> 1"
  by (simp_all add: discount_fraction_def Let_def)

lemma discount_rest: "0 \<le> dsub 1 (discount_fraction pct)" "dsub 1 (discount_fraction pct) \<le> 1"
proof -
  show "0 \<le> dsub 1 (discount_fraction pct)" using discount_fraction_bounds by simp
  have "dround (1 - discount_fraction pct) \<le> dround 1" using discount_fraction_bounds(1) by (intro dround_mono) simp
  then show "dsub 1 (discount_fraction pct) \<le> 1" by (simp add: dsub_def dround_dec28)
qed

lemma times_cents:
  assumes "whole_cents price" "0 \<le> k" "k \<le> n" "of_int n * price \<le> 10 ^ 26"
  shows "dmul (of_int k) price = of_int k * price"
proof -
  have "of_int k * price \<le> of_int n * price"
    using assms(1,3) by (intro mult_right_mono) (simp_all add: whole_cents_nonneg)
  with assms have "dec28 (of_int k * price)" by (intro whole_cents_dec28 whole_cents_times) linarith+
  then show ?thesis by (simp add: dmul_def dround_dec28)
qed

lemma dmul_fraction:
  assumes "0 \<le> x" "dec28 x" "0 \<le> f" "f \<le> 1" shows "0 \<le> dmul x f" "dmul x f \<le> x"
proof -
  show "0 \<le> dmul x f" using assms by simp
  have "dround (x * f) \<le> dround x" using assms by (intro dround_mono mult_left_le) simp_all
  with assms(2) show "dmul x f \<le> x" by (simp add: dmul_def dround_dec28)
qed

lemma nxm_cost:
  assumes "whole_cents price" "0 \<le> packages" "of_int packages * price \<le> 10 ^ 26" "0 < n" "0 \<le> m" "m \<le> (n::int)"
  defines "paid \<equiv> packages div n * m + packages mod n"
  shows "0 \<le> dmul (of_int paid) price \<and> dmul (of_int paid) price \<le> of_int packages * price"
proof -
  have "0 \<le> packages div n" using assms by (simp add: pos_imp_zdiv_nonneg_iff)
  then have "packages div n * m \<le> packages div n * n" "0 \<le> packages div n * m"
    using assms(5,6) by (simp_all add: mult_left_mono)
  then have paid: "0 \<le> paid" "paid \<le> packages"
    using assms(4) div_mult_mod_eq[of packages n] pos_mod_sign[of n packages] unfolding paid_def by linarith+
  have "of_int paid * price \<le> of_int packages * price"
    using paid(2) assms(1) by (intro mult_right_mono) (simp_all add: whole_cents_nonneg)
  then show ?thesis
    using times_cents[OF assms(1) paid assms(3)] paid(1) assms(1) by (simp add: whole_cents_nonneg)
qed

lemma second_unit_cost:
  assumes "whole_cents price" "0 \<le> packages" "of_int packages * price \<le> 10 ^ 26" "0 < (n::int)" "0 \<le> f" "f \<le> 1"
  defines "cost \<equiv> dadd (dmul (of_int (packages - packages div n)) price) (dmul (dmul (of_int (packages div n)) price) f)"
  shows "0 \<le> cost \<and> cost \<le> of_int packages * price"
proof -
  have d: "0 \<le> packages div n" "packages div n \<le> packages"
    using assms zdiv_mono2[of packages 1 n] by (simp_all add: pos_imp_zdiv_nonneg_iff)
  let ?d = "of_int (packages div n) * price" and ?full = "of_int (packages - packages div n) * price"
  have eq: "dmul (of_int (packages div n)) price = ?d" "dmul (of_int (packages - packages div n)) price = ?full"
    by (rule times_cents[OF assms(1) _ _ assms(3)]; use d in linarith)+
  have price: "0 \<le> price" using assms(1) by (rule whole_cents_nonneg)
  have sum: "?full + ?d = of_int packages * price" by (simp add: left_diff_distrib)
  have nonneg: "0 \<le> ?d" "0 \<le> ?full" using d price by simp_all
  have "dec28 ?d" unfolding eq(1)[symmetric] by simp
  note disc = dmul_fraction[OF nonneg(1) this assms(5,6)]
  have "cost \<le> dadd ?full ?d" unfolding cost_def eq by (rule dadd_mono[OF order.refl disc(2)])
  also have "\<dots> = of_int packages * price"
    unfolding dadd_def sum by (rule dround_dec28[OF whole_cents_dec28[OF whole_cents_times[OF assms(1,2)] assms(3)]])
  finally show ?thesis using disc(1) nonneg(2) unfolding cost_def eq by simp
qed

text \<open>The five ways in which a rule charges a positive number of packages.\<close>

lemma promotion_cases:
  assumes "rule = Some r" "0 < packages" "promotion_ok r" and base: "dmul (of_int packages) price = b"
  obtains (nxm) n m where "pmr_required r = Some n" "pmr_charged r = Some m" "0 < n" "0 \<le> m" "m \<le> n"
      "fst (apply_promotion rule packages price) = dmul (of_int (packages div n * m + packages mod n)) price"
    | (second) n pct where "0 < n" "fst (apply_promotion rule packages price) =
        dadd (dmul (of_int (packages - packages div n)) price)
          (dmul (dmul (of_int (packages div n)) price) (dsub 1 (discount_fraction pct)))"
    | (percentage) pct where "fst (apply_promotion rule packages price) = dmul b (dsub 1 (discount_fraction pct))"
    | (fixed) f where "0 \<le> f" "fst (apply_promotion rule packages price) = max 0 (dsub b f)"
    | (plain) "fst (apply_promotion rule packages price) = b"
proof -
  let ?cost = "fst (apply_promotion rule packages price)"
  have pos: "\<not> packages \<le> 0" using assms(2) by simp
  note unfold_rule = apply_promotion_def assms(1) Let_def option.case if_not_P[OF pos]
  show thesis
  proof (cases "promotion_kind r {''nxm'', ''pack''} \<and> given (pmr_required r) \<and> given (pmr_charged r)")
    case True
    then obtain n m where nm: "pmr_required r = Some n" "pmr_charged r = Some m" by (auto simp: given_def split: option.splits)
    with assms(3) have "0 < n" "0 \<le> m" "m \<le> n" by (auto simp: promotion_ok_def)
    moreover have "?cost = dmul (of_int (packages div n * m + packages mod n)) price"
      by (simp only: unfold_rule if_P[OF True] fst_conv) (simp only: nm option.sel)
    ultimately show thesis using nm nxm by blast
  next
    case n1: False
    show thesis
    proof (cases "promotion_kind r {''second_unit''} \<and> pmr_percentage r \<noteq> None")
      case True
      define n where "n = (if given (pmr_required r) then the (pmr_required r) else 2)"
      have "0 < n" using assms(3) by (auto simp: n_def given_def promotion_ok_def split: option.splits)
      then show thesis
        by (rule second[of n "the (pmr_percentage r)"]) (simp only: unfold_rule if_not_P[OF n1] if_P[OF True] fst_conv n_def)
    next
      case n2: False
      show thesis
      proof (cases "promotion_kind r {''percentage'', ''min_quantity''} \<and> pmr_percentage r \<noteq> None")
        case True
        have "?cost = b \<or> ?cost = dmul b (dsub 1 (discount_fraction (the (pmr_percentage r))))"
          by (simp only: unfold_rule if_not_P[OF n1] if_not_P[OF n2] if_P[OF True] base) simp
        then show thesis using percentage plain by blast
      next
        case n3: False
        show thesis
        proof (cases "promotion_kind r {''fixed''} \<and> pmr_fixed r \<noteq> None")
          case True
          then obtain f where f: "pmr_fixed r = Some f" by blast
          with assms(3) have "0 \<le> f" by (simp add: promotion_ok_def)
          moreover have "?cost = max 0 (dsub b f)"
            by (simp only: unfold_rule if_not_P[OF n1] if_not_P[OF n2] if_not_P[OF n3] if_P[OF True] base)
              (simp add: f)
          ultimately show thesis by (rule fixed)
        next
          case False
          show thesis
            by (rule plain) (simp only: unfold_rule if_not_P[OF n1] if_not_P[OF n2] if_not_P[OF n3] if_not_P[OF False] base fst_conv)
        qed
      qed
    qed
  qed
qed

text \<open>C17 A promotion never makes a line dearer and never pays the customer. For a price in whole cents and
a rule that charges at most what it groups, the cost of a line lies between zero and the full
price of its packages, whatever the kind of the promotion.\<close>

theorem promotion_bounds:
  assumes "whole_cents price" and "0 \<le> packages" and "of_int packages * price \<le> 10 ^ 26"
    and "list_all promotion_ok (case rule of None \<Rightarrow> [] | Some r \<Rightarrow> [r])"
  shows "0 \<le> fst (apply_promotion rule packages price) \<and>
    fst (apply_promotion rule packages price) \<le> of_int packages * price"
proof -
  have price: "0 \<le> price" using assms(1) by (rule whole_cents_nonneg)
  have base: "dmul (of_int packages) price = of_int packages * price"
    by (rule times_cents[OF assms(1,2) order.refl assms(3)])
  have base_ok: "0 \<le> of_int packages * price" "dec28 (of_int packages * price)"
    using assms price by (simp_all add: whole_cents_dec28 whole_cents_times)
  show ?thesis
  proof (cases "rule = None \<or> packages \<le> 0")
    case True
    then have "fst (apply_promotion rule packages price) = of_int packages * price"
      by (cases rule) (simp_all add: apply_promotion_def Let_def base)
    then show ?thesis using base_ok by simp
  next
    case False
    then obtain r where r: "rule = Some r" "0 < packages" "promotion_ok r" using assms(4) by auto
    consider (nxm) n m where "pmr_required r = Some n" "pmr_charged r = Some m" "0 < n" "0 \<le> m" "m \<le> n"
        "fst (apply_promotion rule packages price) = dmul (of_int (packages div n * m + packages mod n)) price"
      | (second) n pct where "0 < n" "fst (apply_promotion rule packages price) =
          dadd (dmul (of_int (packages - packages div n)) price)
            (dmul (dmul (of_int (packages div n)) price) (dsub 1 (discount_fraction pct)))"
      | (percentage) pct where "fst (apply_promotion rule packages price) =
          dmul (of_int packages * price) (dsub 1 (discount_fraction pct))"
      | (fixed) f where "0 \<le> f" "fst (apply_promotion rule packages price) = max 0 (dsub (of_int packages * price) f)"
      | (plain) "fst (apply_promotion rule packages price) = of_int packages * price"
      by (rule promotion_cases[OF r base])
    then show ?thesis
    proof cases
      case (nxm n m)
      then show ?thesis using nxm_cost[OF assms(1-3) nxm(3-5)] by simp
    next
      case (second n pct)
      then show ?thesis using second_unit_cost[OF assms(1-3) second(1) discount_rest] by simp
    next
      case (percentage pct)
      then show ?thesis using dmul_fraction[OF base_ok discount_rest] by simp
    next
      case (fixed f)
      have "dsub (of_int packages * price) f \<le> of_int packages * price"
        unfolding dsub_def using fixed(1) dround_mono[of "of_int packages * price - f" "of_int packages * price"] base_ok(2)
        by (simp add: dround_dec28)
      with fixed(2) base_ok(1) show ?thesis by simp
    qed (use base_ok in simp)
  qed
qed

theorem promotion_bounds_witness:
  "0 \<le> fst (apply_promotion (Some \<lparr>pmr_id = 1, pmr_observation = 1, pmr_type = ''nxm'', pmr_required = Some 3,
     pmr_charged = Some 2, pmr_percentage = None, pmr_fixed = None\<rparr>) 7 (5 / 2)) \<and>
   fst (apply_promotion (Some \<lparr>pmr_id = 1, pmr_observation = 1, pmr_type = ''nxm'', pmr_required = Some 3,
     pmr_charged = Some 2, pmr_percentage = None, pmr_fixed = None\<rparr>) 7 (5 / 2)) \<le> 35 / 2"
  using promotion_bounds[of "5 / 2" 7 "Some \<lparr>pmr_id = 1, pmr_observation = 1, pmr_type = ''nxm'', pmr_required = Some 3,
     pmr_charged = Some 2, pmr_percentage = None, pmr_fixed = None\<rparr>"]
  by (simp add: whole_cents_def promotion_ok_def)


section \<open>A resolved basket\<close>

lemma choose_fold:
  assumes "fold (choose_step price_of) vs chosen = Some (v, p)"
  shows "chosen = Some (v, p) \<or> v \<in> set vs \<and> price_of v = Some p"
  using assms
proof (induction vs arbitrary: chosen)
  case Nil
  then show ?case by simp
next
  case (Cons w vs)
  from Cons.IH[of "choose_step price_of w chosen"] Cons.prems
  consider "choose_step price_of w chosen = Some (v, p)" | "v \<in> set vs \<and> price_of v = Some p" by auto
  then show ?case
    by cases (auto simp: choose_step_def split: option.splits if_splits)
qed

text \<open>A degraded price is chosen only when no candidate has a better one, and no candidate of the same grade is cheaper.\<close>

definition price_order :: "current_price \<Rightarrow> bool \<times> dec" where
  "price_order p = (is_degraded p, cp_amount p)"

lemma prefers_order: "prefers p q \<longleftrightarrow> price_order p < price_order q"
  by (auto simp: prefers_def price_order_def less_prod_def less_bool_def le_bool_def)

lemma choose_least:
  assumes "fold (choose_step price_of) vs chosen = Some (v, p)"
  shows "(\<forall>w q. w \<in> set vs \<longrightarrow> price_of w = Some q \<longrightarrow> price_order p \<le> price_order q) \<and>
    (\<forall>w q. chosen = Some (w, q) \<longrightarrow> price_order p \<le> price_order q)"
  using assms
proof (induction vs arbitrary: chosen)
  case Nil
  then show ?case by simp
next
  case (Cons u vs)
  from Cons.prems have "fold (choose_step price_of) vs (choose_step price_of u chosen) = Some (v, p)" by simp
  note ih = Cons.IH[OF this]
  have "price_order p \<le> price_order q" if "price_of u = Some q" for q
  proof (cases chosen)
    case None
    with ih that show ?thesis by (simp add: choose_step_def)
  next
    case (Some c)
    obtain w r where c: "c = (w, r)" by (cases c)
    show ?thesis
    proof (cases "prefers q r")
      case True
      with ih that Some c show ?thesis by (simp add: choose_step_def)
    next
      case False
      with ih that Some c have "price_order p \<le> price_order r" by (simp add: choose_step_def)
      with False show ?thesis by (simp add: prefers_order)
    qed
  qed
  moreover have "price_order p \<le> price_order q" if "chosen = Some (w, q)" for w q
  proof (cases "price_of u")
    case None
    with ih that show ?thesis by (simp add: choose_step_def)
  next
    case (Some r)
    show ?thesis
    proof (cases "prefers r q")
      case True
      with ih that Some have "price_order p \<le> price_order r" by (simp add: choose_step_def)
      with True show ?thesis unfolding prefers_order by (meson le_less_trans less_imp_le)
    next
      case False
      with ih that Some show ?thesis by (simp add: choose_step_def)
    qed
  qed
  ultimately show ?case using ih by auto
qed

lemma resolve_item_line:
  assumes "resolve_item thresholds bt retailer_id store_id as_of item = Inr (Inr l)"
  obtains v needed where "v \<in> set (candidate_variants bt retailer_id item)"
    "gated_current_price thresholds (bt_market bt) (var_id v) store_id
       (if store_id \<noteq> None then ''exact_store'' else ''national'') as_of False = Some (rl_price l)"
    "\<And>w q. w \<in> set (candidate_variants bt retailer_id item) \<Longrightarrow>
       gated_current_price thresholds (bt_market bt) (var_id w) store_id
         (if store_id \<noteq> None then ''exact_store'' else ''national'') as_of False = Some q \<Longrightarrow> price_order (rl_price l) \<le> price_order q"
    "rl_item l = item" "rl_variant l = var_id v" "var_package_quantity v = Some (rl_package_quantity l)"
    "var_package_unit v = Some (rl_package_unit l)"
    "convert (unit_converter_init []) (rq_required item) (rq_item_unit item) (rl_package_unit l) None = Inr needed"
    "compute_packages needed 0 (rl_package_quantity l) (cp_amount (rl_price l)) = Inr \<lparr>pk_needed = needed,
       pk_pantry = dsub needed (rl_used l), pk_pending = rl_used l, pk_package_quantity = rl_package_quantity l,
       pk_package_price = cp_amount (rl_price l), pk_packages = rl_packages l, pk_purchased = rl_purchased l,
       pk_used = rl_used l, pk_leftover = rl_leftover l, pk_total_cost = rl_list_cost l\<rparr>"
    "(rl_line_cost l, rl_promotion l) = apply_promotion (promotion_of bt (var_id v) (rl_price l)) (rl_packages l) (cp_amount (rl_price l))"
proof -
  let ?price = "\<lambda>v. gated_current_price thresholds (bt_market bt) (var_id v) store_id
    (if store_id \<noteq> None then ''exact_store'' else ''national'') as_of False"
  let ?cs = "candidate_variants bt retailer_id item"
  from assms obtain v price pq pu needed result where
    ch: "fold (choose_step ?price) ?cs None = Some (v, price)"
    and pk: "var_package_quantity v = Some pq" "var_package_unit v = Some pu"
    and cv: "convert (unit_converter_init []) (rq_required item) (rq_item_unit item) pu None = Inr needed"
    and cp: "compute_packages needed 0 pq (cp_amount price) = Inr result"
    and l: "l = \<lparr>rl_item = item, rl_variant = var_id v, rl_product = var_product v, rl_package_quantity = pq,
      rl_package_unit = pu, rl_packages = pk_packages result, rl_purchased = pk_purchased result,
      rl_used = pk_used result, rl_leftover = pk_leftover result, rl_price = price, rl_list_cost = pk_total_cost result,
      rl_line_cost = fst (apply_promotion (promotion_of bt (var_id v) price) (pk_packages result) (cp_amount price)),
      rl_promotion = snd (apply_promotion (promotion_of bt (var_id v) price) (pk_packages result) (cp_amount price))\<rparr>"
    by (auto simp: resolve_item_def Let_def split_def split: list.splits option.splits sum.splits)
  from choose_fold[OF ch] have v: "v \<in> set ?cs" "?price v = Some price" by auto
  have least: "price_order price \<le> price_order q" if "w \<in> set ?cs" "?price w = Some q" for w q
    using choose_least[OF ch] that by blast
  have "result = \<lparr>pk_needed = needed, pk_pantry = dsub needed (pk_used result), pk_pending = pk_used result,
      pk_package_quantity = pq, pk_package_price = cp_amount price, pk_packages = pk_packages result,
      pk_purchased = pk_purchased result, pk_used = pk_used result, pk_leftover = pk_leftover result,
      pk_total_cost = pk_total_cost result\<rparr>"
    using cp by (auto simp: compute_packages_def Let_def split: sum.splits)
  with cp show thesis
    by (intro that[of v needed]) (use v least pk cv in \<open>simp_all add: l\<close>)
qed

lemma compute_packages_need:
  assumes "compute_packages needed 0 q price = Inr r" "0 \<le> needed"
  shows "0 < q" "0 \<le> pk_packages r" "needed * (1 - 3 / (2 * 10 ^ 27)) \<le> pk_purchased r"
    "pk_purchased r = dmul (of_int (pk_packages r)) q" "pk_total_cost r = dmul (of_int (pk_packages r)) price"
proof -
  have u: "dsub needed 0 = dround needed" "\<not> dround needed < 0"
    using assms(2) dsub_nonneg[of 0 needed] by (simp_all add: dsub_def)
  then obtain n where n: "decimal_ceil_div (dround needed) q = Inr n" "pk_packages r = n" "pk_used r = dround needed"
    "pk_purchased r = dmul (of_int n) q" "pk_total_cost r = dmul (of_int n) price"
    using assms(1) by (auto simp: compute_packages_def Let_def split: sum.splits)
  show q: "0 < q" using decimal_ceil_div_Inl_iff[of "dround needed" q] n(1) by auto
  obtain r' where r': "compute_packages (dround needed) 0 q price = Inr r'" "pk_packages r' = n"
    "pk_purchased r' = dmul (of_int n) q"
    using n(1) u(2) by (simp add: compute_packages_def Let_def dec28_dround)
  from compute_packages_covers[OF r'(1) dec28_dround _ q] u(2) r'(2,3) n
  show "0 \<le> pk_packages r" "pk_purchased r = dmul (of_int (pk_packages r)) q"
    "pk_total_cost r = dmul (of_int (pk_packages r)) price"
    by simp_all
  have "needed * (1 - 1 / (2 * 10 ^ 27)) * (1 - 1 / 10 ^ 27) \<le> dround needed * (1 - 1 / 10 ^ 27)"
    using dround_lower[OF assms(2)] by (rule mult_right_mono) simp
  also have "\<dots> \<le> pk_purchased r"
    using compute_packages_covers(1)[OF r'(1) dec28_dround _ q] u(2) r'(3) n(4) by simp
  finally have "needed * ((1 - 1 / (2 * 10 ^ 27)) * (1 - 1 / 10 ^ 27)) \<le> pk_purchased r" by (simp only: mult.assoc)
  moreover have "needed * (1 - 3 / (2 * 10 ^ 27)) \<le> needed * ((1 - 1 / (2 * 10 ^ 27)) * (1 - 1 / 10 ^ 27))"
    using assms(2) by (intro mult_left_mono) simp_all
  ultimately show "needed * (1 - 3 / (2 * 10 ^ 27)) \<le> pk_purchased r" by (rule order_trans[rotated])
qed

text \<open>
  When an amount in one unit covers a need in another, up to one part in \<open>10 ^ 26\<close>: in one unit, or in
  two units of one dimension by their sizes.
\<close>

definition covers_need :: "dec \<Rightarrow> string \<Rightarrow> dec \<Rightarrow> string \<Rightarrow> bool" where
  "covers_need bought package_unit need unit \<longleftrightarrow>
     (if norm_unit unit = norm_unit package_unit then need * (1 - 1 / 10 ^ 26) \<le> bought
      else case (map_of unit_sizes (norm_unit unit), map_of unit_sizes (norm_unit package_unit)) of
        (Some (d, a), Some (d', b)) \<Rightarrow> d = d' \<and> need * a * (1 - 1 / 10 ^ 26) \<le> bought * b
      | _ \<Rightarrow> False)"

lemma convert_covers:
  assumes cv: "convert (unit_converter_init []) need unit package_unit None = Inr q"
    and need: "0 \<le> need" and bought: "q * (1 - 3 / (2 * 10 ^ 27)) \<le> bought"
  shows "covers_need bought package_unit need unit"
proof -
  let ?u = "norm_unit unit" and ?t = "norm_unit package_unit"
  from cv have std: "convert_standard need ?u ?t = Some q" by (simp add: convert_def Let_def split: option.splits)
  have small: "x * (1 - 1 / 10 ^ 26) \<le> bought'" if "0 \<le> x" "x * (1 - 5 / (2 * 10 ^ 27)) \<le> bought'" for x bought' :: rat
  proof -
    have "x * (1 - 1 / 10 ^ 26) \<le> x * (1 - 5 / (2 * 10 ^ 27))" using that(1) by (intro mult_left_mono) simp_all
    with that(2) show ?thesis by linarith
  qed
  have same: "need * (1 - 1 / 10 ^ 26) \<le> bought" if "q = need"
  proof -
    have "need * (1 - 1 / 10 ^ 26) \<le> need * (1 - 3 / (2 * 10 ^ 27))" using need by (intro mult_left_mono) simp_all
    with bought that show ?thesis by simp
  qed
  have scaled: "need * a * (1 - 1 / 10 ^ 26) \<le> bought * b"
    if q: "q = ddiv (dmul need a) b" and ab: "0 < a" "0 < b" for a b
  proof (rule small)
    define e :: rat where "e = 1 / (2 * 10 ^ 27)"
    have e: "0 \<le> 1 - e" "0 \<le> 1 - 3 * e" "1 - 3 / (2 * 10 ^ 27) = 1 - 3 * e" by (simp_all add: e_def)
    show x: "0 \<le> need * a" using need ab by simp
    have "dmul need a / b * (1 - e) \<le> q" unfolding q e_def using need ab by (intro ddiv_lower) simp_all
    moreover have "need * a * (1 - e) / b * (1 - e) \<le> dmul need a / b * (1 - e)"
      using dmul_lower[OF need, of a] ab e(1) unfolding e_def by (intro mult_right_mono divide_right_mono) simp_all
    ultimately have "need * a * (1 - e) / b * (1 - e) \<le> q" by linarith
    then have "need * a * (1 - e) / b * (1 - e) * (1 - 3 * e) \<le> q * (1 - 3 * e)" using e(2) by (rule mult_right_mono)
    also have "\<dots> \<le> bought" using bought unfolding e(3) .
    finally have "need * a * (1 - e) / b * (1 - e) * (1 - 3 * e) * b \<le> bought * b"
      using ab by (intro mult_right_mono) simp_all
    moreover have "need * a * (1 - e) / b * (1 - e) * (1 - 3 * e) * b = need * a * ((1 - e) * (1 - e) * (1 - 3 * e))"
      using ab by simp
    moreover have "need * a * (1 - 5 / (2 * 10 ^ 27)) \<le> need * a * ((1 - e) * (1 - e) * (1 - 3 * e))"
      by (rule mult_left_mono[OF _ x]) (simp add: e_def)
    ultimately show "need * a * (1 - 5 / (2 * 10 ^ 27)) \<le> bought * b" by linarith
  qed
  show ?thesis
  proof (cases "?u = ?t")
    case True
    with std same show ?thesis by (simp add: covers_need_def)
  next
    case False
    with std consider (mass) a b where "map_of mass_to_g ?u = Some a" "map_of mass_to_g ?t = Some b" "q = ddiv (dmul need a) b"
      | (vol) a b where "map_of volume_to_ml ?u = Some a" "map_of volume_to_ml ?t = Some b" "q = ddiv (dmul need a) b"
      | (count) "?u \<in> set count_units" "?t \<in> set count_units" "q = need"
      by (auto simp: convert_standard_def split: option.splits if_splits)
    then show ?thesis
    proof cases
      case mass
      with False scaled[OF mass(3)] show ?thesis by (simp add: covers_need_def mass_size factor_pos)
    next
      case vol
      with False scaled[OF vol(3)] show ?thesis by (simp add: covers_need_def volume_size factor_pos)
    next
      case count
      with False same show ?thesis by (simp add: covers_need_def count_size)
    qed
  qed
qed

lemma resolve_item_unresolved:
  assumes "resolve_item thresholds bt retailer_id store_id as_of item = Inr (Inl u)"
  shows "fst u = item"
  using assms by (auto simp: resolve_item_def Let_def split: list.splits option.splits sum.splits prod.splits)

definition line_honest :: "int \<times> int \<Rightarrow> basket_tables \<Rightarrow> int \<Rightarrow> int option \<Rightarrow> time \<Rightarrow> resolved_line \<Rightarrow> bool" where
  "line_honest thresholds bt retailer_id store_id as_of l \<longleftrightarrow>
     (let candidates = candidate_variants bt retailer_id (rl_item l);
          price = (\<lambda>v. gated_current_price thresholds (bt_market bt) (var_id v) store_id
            (if store_id \<noteq> None then ''exact_store'' else ''national'') as_of False)
      in list_ex (\<lambda>v. var_id v = rl_variant l \<and> price v = Some (rl_price l)) candidates \<and>
         list_all (\<lambda>v. case price v of None \<Rightarrow> True | Some q \<Rightarrow> price_order (rl_price l) \<le> price_order q) candidates \<and>
         0 < rl_package_quantity l \<and> 0 \<le> rl_packages l \<and>
         covers_need (rl_purchased l) (rl_package_unit l) (rq_required (rl_item l)) (rq_item_unit (rl_item l)) \<and>
         rl_purchased l = dmul (of_int (rl_packages l)) (rl_package_quantity l) \<and>
         rl_list_cost l = dmul (of_int (rl_packages l)) (cp_amount (rl_price l)))"

lemma resolve_item_ok:
  assumes "resolve_item thresholds bt retailer_id store_id as_of item = Inr (Inr l)" "0 \<le> rq_required item"
  shows "rl_item l = item \<and> line_honest thresholds bt retailer_id store_id as_of l"
  using assms(1)
proof (rule resolve_item_line)
  fix v needed
  assume cs: "v \<in> set (candidate_variants bt retailer_id item)" "rl_item l = item" "rl_variant l = var_id v"
    "gated_current_price thresholds (bt_market bt) (var_id v) store_id
       (if store_id \<noteq> None then ''exact_store'' else ''national'') as_of False = Some (rl_price l)"
    and least: "\<And>w q. w \<in> set (candidate_variants bt retailer_id item) \<Longrightarrow>
       gated_current_price thresholds (bt_market bt) (var_id w) store_id
         (if store_id \<noteq> None then ''exact_store'' else ''national'') as_of False = Some q \<Longrightarrow> price_order (rl_price l) \<le> price_order q"
    and cv: "convert (unit_converter_init []) (rq_required item) (rq_item_unit item) (rl_package_unit l) None = Inr needed"
    and cp: "compute_packages needed 0 (rl_package_quantity l) (cp_amount (rl_price l)) = Inr \<lparr>pk_needed = needed,
       pk_pantry = dsub needed (rl_used l), pk_pending = rl_used l, pk_package_quantity = rl_package_quantity l,
       pk_package_price = cp_amount (rl_price l), pk_packages = rl_packages l, pk_purchased = rl_purchased l,
       pk_used = rl_used l, pk_leftover = rl_leftover l, pk_total_cost = rl_list_cost l\<rparr>"
  have "0 \<le> needed" by (rule convert_nonneg[OF _ assms(2) cv]) (simp add: factors_nonneg_def unit_converter_init_def)
  note pk = compute_packages_need[OF cp this]
  have "covers_need (rl_purchased l) (rl_package_unit l) (rq_required item) (rq_item_unit item)"
    using pk(3) by (intro convert_covers[OF cv assms(2)]) simp
  with pk(1,2,4,5) cs least show ?thesis
    by (auto simp: line_honest_def Let_def list_ex_iff list_all_iff split: option.split)
qed

text \<open>C11 A resolved basket accounts for every item and for every line. Each item asked for is either a line
or reported as unresolved; a line has the gated current price of a matching variant, and no matching
variant has a better one, an observed price in force being better than an estimated or
expired one and then the cheaper; it buys whole packages, at the price of the package, that cover
the quantity asked for in the unit it was asked in, by the sizes of the units, up to one part in
\<open>10 ^ 26\<close>.\<close>

theorem basket_resolution_honest:
  assumes "resolve_basket thresholds bt retailer_id store_id as_of items = Inr (lines, unresolved)"
    and "list_all (\<lambda>i. 0 \<le> rq_required i) items"
  shows "mset (map rl_item lines @ map fst unresolved) = mset items \<and>
    list_all (line_honest thresholds bt retailer_id store_id as_of) lines"
  using assms
proof (induction items arbitrary: lines unresolved)
  case Nil
  then show ?case by simp
next
  case (Cons item items)
  from Cons.prems(1) obtain r lines' unresolved' where r: "resolve_item thresholds bt retailer_id store_id as_of item = Inr r"
    and rest: "resolve_basket thresholds bt retailer_id store_id as_of items = Inr (lines', unresolved')"
    and eq: "(lines, unresolved) = (case r of Inl u \<Rightarrow> (lines', u # unresolved') | Inr l \<Rightarrow> (l # lines', unresolved'))"
    by (auto split: sum.splits)
  note ih = Cons.IH[OF rest]
  show ?case
  proof (cases r)
    case (Inl u)
    with r have "fst u = item" using resolve_item_unresolved by auto
    with Inl eq ih Cons.prems(2) show ?thesis by simp
  next
    case (Inr l)
    from resolve_item_ok[OF r[unfolded Inr]] Cons.prems(2) Inr eq ih show ?thesis by simp
  qed
qed

section \<open>Examples\<close>

definition rice_variant :: product_variant where
  "rice_variant = \<lparr>var_id = 4, var_product = Some 1, var_retailer = 7, var_display_name = ''Arroz'',
     var_package_quantity = Some 1000, var_package_unit = Some ''g'', var_net_quantity = None, var_net_unit = None,
     var_active = True\<rparr>"

definition rice_request :: requested_item where
  "rice_request = \<lparr>rq_required = 3 / 2, rq_item_unit = ''kg'', rq_variant = None, rq_product = None, rq_name = Some '' arroz ''\<rparr>"

definition rice_tables :: basket_tables where
  "rice_tables = \<lparr>bt_market = zoned_history\<lparr>variants := [rice_variant]\<rparr>, bt_product_names = [(1, ''Arroz redondo'')],
     bt_promotions = []\<rparr>"

theorem basket_resolution_honest_witness:
  "case resolve_basket (24, 48) rice_tables 7 None 30 [rice_request] of
     Inl e \<Rightarrow> False
   | Inr (lines, unresolved) \<Rightarrow> mset (map rl_item lines @ map fst unresolved) = mset [rice_request] \<and>
       list_all (line_honest (24, 48) rice_tables 7 None 30) lines \<and> map rl_packages lines = [2]"
proof -
  have "case resolve_basket (24, 48) rice_tables 7 None 30 [rice_request] of
     Inl e \<Rightarrow> False | Inr (lines, unresolved) \<Rightarrow> map rl_packages lines = [2]"
    by code_simp
  then obtain lines unresolved where r: "resolve_basket (24, 48) rice_tables 7 None 30 [rice_request] = Inr (lines, unresolved)"
    "map rl_packages lines = [2]" by (cases "resolve_basket (24, 48) rice_tables 7 None 30 [rice_request]") auto
  have "list_all (\<lambda>i. 0 \<le> rq_required i) [rice_request]" by (simp add: rice_request_def)
  from basket_resolution_honest[OF r(1) this] r show ?thesis by simp
qed

text \<open>
  A quarantined observation of the same instant and scope lends its promotion: the price charged
  is that of the undisputed row, at half.
\<close>

definition disputed_tables :: basket_tables where
  "disputed_tables = rice_tables\<lparr>bt_market := (snd (record_observation (example_observation 1 10) (example_context 20 True)
       example_history))\<lparr>variants := [rice_variant]\<rparr>,
     bt_promotions := [\<lparr>pmr_id = 1, pmr_observation = 2, pmr_type = ''percentage'', pmr_required = None,
       pmr_charged = None, pmr_percentage = Some 50, pmr_fixed = None\<rparr>]\<rparr>"

lemma promotion_of_disputed_row:
  "map (\<lambda>o'. (obs_id o', obs_amount o', obs_verification o' = VS_disputed)) (observations (bt_market disputed_tables)) =
     [(1, 2, False), (2, 1, True)] \<and>
   (case resolve_basket (24, 48) disputed_tables 7 None 30 [rice_request] of
      Inl e \<Rightarrow> False | Inr (lines, unresolved) \<Rightarrow> map (\<lambda>l. (cp_amount (rl_price l), rl_list_cost l, rl_line_cost l)) lines = [(2, 4, 2)])"
  by code_simp

end
