(* ===== verification/RecipeCosting.thy ===== *)
theory RecipeCosting
  imports PlanDb PriceFallback Units Packaging Cents
begin

text \<open>
  \<open>services/recipe_costing.py\<close>: what a recipe costs with the staged data of one provider: whole
  packages of the cheapest product that can be bought for each mandatory ingredient, with the value used
  and the value left over. The columns of a variant that say how it is sold, the retailer of a mapping
  and the mappings of the providers are tables of their own. Texts of reasons are constructors.
\<close>

section \<open>Data\<close>

record sold_variant = product_variant +
  sv_external :: int
  sv_sell_unit :: "string option"
  sv_variable_weight :: bool
  sv_unit_price :: "dec option"
  sv_unit_price_unit :: "string option"

record retailer_mapping = ingredient_product_mapping +
  rmp_retailer :: "int option"

record provider_mapping =
  pim_provider :: string
  pim_ingredient :: int
  pim_product :: "int option"
  pim_active :: bool

record costing_tables =
  ctb_market :: db
  ctb_variants :: "sold_variant list"
  ctb_mappings :: "retailer_mapping list"
  ctb_provider_mappings :: "provider_mapping list"

datatype pantry_policy = PP_empty_pantry | PP_use_existing_stock | PP_plan_shared_inventory

datatype cost_reason = CR_no_retailer | CR_unknown_unit string string | CR_no_mapping string | CR_no_product string

record costing_candidate =
  cdt_variant :: sold_variant
  cdt_price :: dec
  cdt_scope :: price_scope
  cdt_fresh :: bool
  cdt_mode :: costing_mode

record line_choice =
  lch_candidate :: costing_candidate
  lch_package_price :: dec
  lch_units :: dec
  lch_purchased :: dec
  lch_consumed :: dec
  lch_surplus :: dec
  lch_cost :: dec
  lch_consumed_cost :: dec
  lch_surplus_value :: dec

text \<open>A line is costable exactly when it has a choice; otherwise it has a reason.\<close>

record ingredient_cost_line =
  icl_ingredient :: int
  icl_name :: string
  icl_display :: string
  icl_quantity :: dec
  icl_unit :: string
  icl_optional :: bool
  icl_answer :: "cost_reason + line_choice"

record recipe_totals =
  rct_purchase :: dec
  rct_consumed :: dec
  rct_leftover :: dec
  rct_reusable :: dec
  rct_non_reusable :: dec
  rct_unallocated :: dec
  rct_serving_purchase :: dec
  rct_serving_consumed :: dec

text \<open>A recipe is fully costable exactly when it has totals.\<close>

record recipe_costing =
  rcg_recipe :: int
  rcg_servings :: int
  rcg_slug :: string
  rcg_scope :: string
  rcg_policy :: pantry_policy
  rcg_lines :: "ingredient_cost_line list"
  rcg_totals :: "recipe_totals option"
  rcg_excluded :: "string list"
  rcg_reasons :: "cost_reason list"


section \<open>How a variant can cost a quantity\<close>

definition lower_or_empty :: "string option \<Rightarrow> string" where
  "lower_or_empty t = (case t of None \<Rightarrow> [] | Some s \<Rightarrow> py_lower s)"

definition unit_price_costed_providers :: "string set" where
  "unit_price_costed_providers = {''parsebot-dia''}"

definition classify_variant_costing_mode :: "sold_variant \<Rightarrow> bool \<Rightarrow> string option \<Rightarrow> costing_mode" where
  "classify_variant_costing_mode v priced provider_code =
     (let ncu = lower_or_empty (var_net_unit v);
          sell_unit = lower_or_empty (sv_sell_unit v);
          upu = lower_or_empty (sv_unit_price_unit v)
      in if \<not> priced then CM_unresolved
         else if var_net_quantity v \<noteq> None \<and> ncu \<in> {''g'', ''kg'', ''ml'', ''l''} then CM_fixed_package
         else if var_net_quantity v \<noteq> None \<and> ncu \<in> {''unit'', ''ud''} then CM_discrete_unit
         else if sell_unit = ''unit'' then CM_discrete_unit
         else if sv_variable_weight v \<and> sv_unit_price v \<noteq> None \<and> sell_unit = ''weight'' \<and> upu \<in> {''kg'', ''g''}
         then CM_variable_weight
         else if sv_variable_weight v \<and> sv_unit_price v \<noteq> None \<and> sell_unit = ''volume'' \<and> upu \<in> {''l'', ''ml''}
         then CM_variable_volume
         else if (case provider_code of None \<Rightarrow> False | Some c \<Rightarrow> c \<in> unit_price_costed_providers) \<and> sv_unit_price v \<noteq> None
         then (if upu \<in> {''kg'', ''g''} then CM_variable_weight
               else if upu \<in> {''l'', ''ml''} then CM_variable_volume
               else CM_unresolved)
         else CM_unresolved)"

definition count_pack_units :: "sold_variant \<Rightarrow> dec option" where
  "count_pack_units v =
     (case var_package_quantity v of
        Some pq \<Rightarrow>
          if 0 < pq \<and> lower_or_empty (var_package_unit v) \<in> {''unit'', ''ud'', ''uds'', []} then Some pq
          else egg_pack_size (var_display_name v)
      | None \<Rightarrow> egg_pack_size (var_display_name v))"

definition at_least_one :: "dec \<Rightarrow> dec" where
  "at_least_one n = (if n < 1 then 1 else n)"

definition fixed_package_cost ::
  "dec \<Rightarrow> dimension \<Rightarrow> dec option \<Rightarrow> string option \<Rightarrow> dec \<Rightarrow> (dec \<times> dec \<times> dec) option" where
  "fixed_package_cost required_base required_dim pack_quantity pack_unit price =
     (case (pack_quantity, pack_unit) of
        (Some q, Some u) \<Rightarrow>
          if price \<le> 0 then None
          else (case to_base q u of
                  None \<Rightarrow> None
                | Some (pack_base, pack_dim) \<Rightarrow>
                    if pack_dim \<noteq> required_dim \<or> pack_base \<le> 0 then None
                    else let packages = at_least_one (of_int \<lceil>ddiv required_base pack_base\<rceil>)
                      in Some (packages, dmul packages pack_base, dmul packages price))
      | _ \<Rightarrow> None)"

definition cost_candidate :: "dec \<Rightarrow> dimension \<Rightarrow> costing_candidate \<Rightarrow> (dec \<times> dec \<times> dec) option" where
  "cost_candidate required_base required_dim cand =
     (let v = cdt_variant cand; price = cdt_price cand in
      if price \<le> 0 then None
      else if cdt_mode cand \<in> {CM_fixed_package, CM_discrete_unit} then
        (if var_net_quantity v = None \<or> var_net_unit v = None then
           if cdt_mode cand = CM_discrete_unit \<and> required_dim = Count then
             (let pack_units = (case count_pack_units v of None \<Rightarrow> 1 | Some n \<Rightarrow> if n = 0 then 1 else n);
                  packages = at_least_one (of_int \<lceil>ddiv required_base pack_units\<rceil>)
              in Some (packages, dmul packages pack_units, dmul packages price))
           else None
         else fixed_package_cost required_base required_dim (var_net_quantity v) (var_net_unit v) price)
      else if cdt_mode cand \<in> {CM_variable_weight, CM_variable_volume} then
        (case (sv_unit_price v, sv_unit_price_unit v) of
           (Some shelf_price, Some u) \<Rightarrow>
             (case to_base 1 u of
                None \<Rightarrow> None
              | Some (sell, sell_dim) \<Rightarrow>
                  if sell_dim \<noteq> required_dim then None
                  else let purchased = at_least_one (of_int \<lceil>required_base\<rceil>);
                           per_unit = (if sv_variable_weight v then price else shelf_price)
                    in if per_unit \<le> 0 then None
                       else Some (purchased, purchased, dmul purchased (ddiv per_unit sell)))
         | _ \<Rightarrow> None)
      else None)"


section \<open>The cheapest product for an ingredient\<close>

definition add_product :: "int \<times> int \<Rightarrow> (int, int list) dict \<Rightarrow> (int, int list) dict" where
  "add_product p out = dset (fst p) (dget out (fst p) [] @ [snd p]) out"

definition eligible_products :: "costing_tables \<Rightarrow> int \<Rightarrow> string \<Rightarrow> (int, int list) dict" where
  "eligible_products ctb retailer_id provider_code =
     fold add_product
       (map (\<lambda>m. (ipm_ingredient m, ipm_product m))
          (filter (\<lambda>m. rmp_retailer m = Some retailer_id \<and> ipm_active m) (ctb_mappings ctb)) @
        List.map_filter (\<lambda>m. map_option (Pair (pim_ingredient m)) (pim_product m))
          (filter (\<lambda>m. pim_provider m = provider_code \<and> pim_active m) (ctb_provider_mappings ctb))) []"

definition add_variant :: "sold_variant \<Rightarrow> (int, sold_variant list) dict \<Rightarrow> (int, sold_variant list) dict" where
  "add_variant v out =
     (case var_product v of None \<Rightarrow> out | Some p \<Rightarrow> dset p (dget out p [] @ [v]) out)"

definition variants_by_product :: "costing_tables \<Rightarrow> int \<Rightarrow> (int, sold_variant list) dict" where
  "variants_by_product ctb retailer_id =
     fold add_variant (filter (\<lambda>v. var_retailer v = retailer_id \<and> var_active v) (ctb_variants ctb)) []"

record costing_context =
  ccx_thresholds :: "int \<times> int"
  ccx_tables :: costing_tables
  ccx_eligible :: "(int, int list) dict"
  ccx_variants :: "(int, sold_variant list) dict"
  ccx_store :: "int option"
  ccx_scope :: string
  ccx_now :: time
  ccx_provider :: string

definition candidate_mode :: "costing_context \<Rightarrow> dimension \<Rightarrow> sold_variant \<Rightarrow> costing_mode" where
  "candidate_mode ctx required_dim v =
     (let mode = classify_variant_costing_mode v True (Some (ccx_provider ctx))
      in if mode = CM_unresolved \<and> required_dim = Count \<and> var_net_quantity v = None \<and> count_pack_units v \<noteq> None
         then CM_discrete_unit else mode)"

definition candidate_of_variant :: "costing_context \<Rightarrow> dimension \<Rightarrow> sold_variant \<Rightarrow> costing_candidate option" where
  "candidate_of_variant ctx required_dim v =
     (case gated_current_price (ccx_thresholds ctx) (ctb_market (ccx_tables ctx)) (var_id v) (ccx_store ctx)
             (ccx_scope ctx) (ccx_now ctx) True of
        None \<Rightarrow> None
      | Some p \<Rightarrow>
          (let mode = candidate_mode ctx required_dim v
           in if mode = CM_unresolved then None
              else Some \<lparr>cdt_variant = v, cdt_price = cp_amount p, cdt_scope = cp_scope p,
                         cdt_fresh = (cp_status p = FS_fresh), cdt_mode = mode\<rparr>))"

type_synonym costed = "costing_candidate \<times> dec \<times> dec \<times> dec"

definition costed_key :: "costed \<Rightarrow> dec \<times> dec \<times> int" where
  "costed_key c = (case c of (cand, units, purchased, cost) \<Rightarrow> (cost, cdt_price cand, var_id (cdt_variant cand)))"

definition costed_variant :: "costing_context \<Rightarrow> dec \<Rightarrow> dimension \<Rightarrow> sold_variant \<Rightarrow> costed option" where
  "costed_variant ctx required_base required_dim v =
     Option.bind (candidate_of_variant ctx required_dim v)
       (\<lambda>cand. map_option (Pair cand) (cost_candidate required_base required_dim cand))"

definition best_candidate :: "costing_context \<Rightarrow> int list \<Rightarrow> dec \<Rightarrow> dimension \<Rightarrow> costed option" where
  "best_candidate ctx product_ids required_base required_dim =
     argmin costed_key (List.map_filter (costed_variant ctx required_base required_dim)
       (concat (map (\<lambda>p. dget (ccx_variants ctx) p []) product_ids)))"

section \<open>A line and a recipe\<close>

text \<open>\<open>x.quantize(Decimal(10) ** -k)\<close>: ties to even, and \<open>InvalidOperation\<close> beyond 28 digits.\<close>

definition quantize_even :: "nat \<Rightarrow> dec \<Rightarrow> py_exn + dec" where
  "quantize_even k x =
     (let n = round_half_even (10 ^ k * x) in if \<bar>n\<bar> < 10 ^ 28 then Inr (of_int n / 10 ^ k) else Inl InvalidOperation)"

fun and_then :: "'e + 'a \<Rightarrow> ('a \<Rightarrow> 'e + 'b) \<Rightarrow> 'e + 'b" where
  "and_then (Inl e) f = Inl e"
| "and_then (Inr x) f = f x"

definition choice_of :: "dec \<Rightarrow> costed \<Rightarrow> py_exn + line_choice" where
  "choice_of required_base c =
     (case c of (cand, units, purchased, cost) \<Rightarrow>
        (let consumed_ratio = (if 0 < purchased then ddiv required_base purchased else 0) in
         and_then (quantize_even 2 (dmul cost consumed_ratio)) (\<lambda>consumed_cost.
         and_then (quantize_even 2 (cdt_price cand)) (\<lambda>package_price.
         and_then (quantize_even 0 units) (\<lambda>units_purchased.
         and_then (quantize_even 4 purchased) (\<lambda>purchased_quantity.
         and_then (quantize_even 4 required_base) (\<lambda>consumed_quantity.
         and_then (quantize_even 4 (dsub purchased required_base)) (\<lambda>surplus_quantity.
         and_then (quantize_even 2 cost) (\<lambda>line_cost.
         and_then (quantize_even 2 (dsub line_cost consumed_cost)) (\<lambda>surplus_value.
           Inr \<lparr>lch_candidate = cand, lch_package_price = package_price, lch_units = units_purchased,
             lch_purchased = purchased_quantity, lch_consumed = consumed_quantity, lch_surplus = surplus_quantity,
             lch_cost = line_cost, lch_consumed_cost = consumed_cost, lch_surplus_value = surplus_value\<rparr>))))))))))"

definition line_answer :: "costing_context \<Rightarrow> recipe_ingredient \<Rightarrow> py_exn + (cost_reason + line_choice)" where
  "line_answer ctx ri =
     (case to_base (rgi_quantity ri) (rgi_unit ri) of
        None \<Rightarrow> Inr (Inl (CR_unknown_unit (rgi_canonical_name ri) (rgi_unit ri)))
      | Some (required_base, required_dim) \<Rightarrow>
          (let product_ids = dget (ccx_eligible ctx) (rgi_ingredient ri) [] in
           if product_ids = [] then Inr (Inl (CR_no_mapping (rgi_canonical_name ri)))
           else (case best_candidate ctx product_ids required_base required_dim of
                   None \<Rightarrow> Inr (Inl (CR_no_product (rgi_canonical_name ri)))
                 | Some c \<Rightarrow> and_then (choice_of required_base c) (\<lambda>choice. Inr (Inr choice)))))"

definition cost_line :: "costing_context \<Rightarrow> recipe_ingredient \<Rightarrow> py_exn + ingredient_cost_line" where
  "cost_line ctx ri =
     and_then (line_answer ctx ri) (\<lambda>a.
       Inr \<lparr>icl_ingredient = rgi_ingredient ri, icl_name = rgi_canonical_name ri,
         icl_display = text_or (rgi_display_name ri) (rgi_canonical_name ri), icl_quantity = rgi_quantity ri,
         icl_unit = rgi_unit ri, icl_optional = rgi_optional ri, icl_answer = a\<rparr>)"

text \<open>An exception of a line leaves the loop.\<close>

fun cost_lines :: "costing_context \<Rightarrow> recipe_ingredient list \<Rightarrow> py_exn + ingredient_cost_line list" where
  "cost_lines ctx [] = Inr []"
| "cost_lines ctx (ri # ris) =
     and_then (cost_line ctx ri) (\<lambda>l. and_then (cost_lines ctx ris) (\<lambda>ls. Inr (l # ls)))"

definition mandatory_lines :: "ingredient_cost_line list \<Rightarrow> ingredient_cost_line list" where
  "mandatory_lines lines = filter (\<lambda>l. \<not> icl_optional l) lines"

definition line_choices :: "ingredient_cost_line list \<Rightarrow> line_choice list" where
  "line_choices lines = List.map_filter (\<lambda>l. case icl_answer l of Inl _ \<Rightarrow> None | Inr c \<Rightarrow> Some c) (mandatory_lines lines)"

definition line_reasons :: "ingredient_cost_line list \<Rightarrow> cost_reason list" where
  "line_reasons lines = List.map_filter (\<lambda>l. case icl_answer l of Inl r \<Rightarrow> Some r | Inr _ \<Rightarrow> None) (mandatory_lines lines)"

definition recipe_totals_of :: "int \<Rightarrow> line_choice list \<Rightarrow> py_exn + recipe_totals" where
  "recipe_totals_of servings choices =
     (let total_purchase = dsum (map lch_cost choices);
          total_consumed = dsum (map lch_consumed_cost choices);
          total_surplus = dsum (map lch_surplus_value choices)
      in and_then (quantize_even 2 total_purchase) (\<lambda>purchase.
         and_then (quantize_even 2 total_consumed) (\<lambda>consumed.
         and_then (quantize_even 2 total_surplus) (\<lambda>leftover.
         and_then (quantize_even 2 (ddiv total_purchase (of_int servings))) (\<lambda>serving_purchase.
         and_then (quantize_even 2 (ddiv total_consumed (of_int servings))) (\<lambda>serving_consumed.
           Inr \<lparr>rct_purchase = purchase, rct_consumed = consumed, rct_leftover = leftover,
             rct_reusable = 0, rct_non_reusable = 0, rct_unallocated = leftover,
             rct_serving_purchase = serving_purchase, rct_serving_consumed = serving_consumed\<rparr>))))))"

text \<open>\<open>RETAILER_MATRIX\<close>: the chain of each provider; another provider names its chain itself.\<close>

definition retailer_matrix :: "(string, string) dict" where
  "retailer_matrix =
     [(''parsebot-dia'', ''dia''), (''parsebot-alcampo'', ''alcampo''), (''apify-mercadona'', ''mercadona''),
      (''parsebot-carrefour'', ''carrefour''), (''parsebot-lidl'', ''lidl''), (''parsebot-aldi'', ''aldi''),
      (''parsebot-deza'', ''deza''), (''open-prices'', ''open_prices''), (''demo'', ''mercaejemplo'')]"

definition costing_context_of ::
  "int \<times> int \<Rightarrow> costing_tables \<Rightarrow> int \<Rightarrow> string \<Rightarrow> int option \<Rightarrow> string \<Rightarrow> time \<Rightarrow> costing_context" where
  "costing_context_of thresholds ctb retailer_id provider_code store_id required_scope now =
     \<lparr>ccx_thresholds = thresholds, ccx_tables = ctb,
      ccx_eligible = eligible_products ctb retailer_id provider_code,
      ccx_variants = variants_by_product ctb retailer_id, ccx_store = store_id, ccx_scope = required_scope,
      ccx_now = now, ccx_provider = provider_code\<rparr>"

definition store_scope :: "int option \<Rightarrow> string" where
  "store_scope store_id = (case store_id of None \<Rightarrow> ''national'' | Some s \<Rightarrow> if s = 0 then ''national'' else ''exact_store'')"

definition cost_recipe ::
  "int \<times> int \<Rightarrow> costing_tables \<Rightarrow> recipe \<Rightarrow> string \<Rightarrow> int option \<Rightarrow> pantry_policy \<Rightarrow> time
     \<Rightarrow> py_exn + recipe_costing" where
  "cost_recipe thresholds ctb r provider_code store_id policy now =
     (let slug = dget retailer_matrix provider_code provider_code;
          scope = store_scope store_id;
          servings = (if rcp_servings r = 0 then 1 else rcp_servings r)
      in case find (\<lambda>x. ret_slug x = slug) (retailers (ctb_market ctb)) of
           None \<Rightarrow> Inr \<lparr>rcg_recipe = rcp_id r, rcg_servings = servings, rcg_slug = slug, rcg_scope = scope,
              rcg_policy = policy, rcg_lines = [], rcg_totals = None, rcg_excluded = [],
              rcg_reasons = [CR_no_retailer]\<rparr>
         | Some ret \<Rightarrow>
             and_then (cost_lines (costing_context_of thresholds ctb (ret_id ret) provider_code store_id scope now)
                 (rcp_ingredients r)) (\<lambda>lines.
             and_then (if line_reasons lines = [] \<and> line_choices lines \<noteq> []
                 then and_then (recipe_totals_of servings (line_choices lines)) (\<lambda>t. Inr (Some t)) else Inr None) (\<lambda>totals.
               Inr \<lparr>rcg_recipe = rcp_id r, rcg_servings = servings, rcg_slug = slug, rcg_scope = scope,
                 rcg_policy = policy, rcg_lines = lines, rcg_totals = totals,
                 rcg_excluded = map icl_name (filter icl_optional lines), rcg_reasons = line_reasons lines\<rparr>)))"

section \<open>Whole packages, as the planner buys them\<close>

lemma and_then_Inr [simp]: "and_then m f = Inr y \<longleftrightarrow> (\<exists>x. m = Inr x \<and> f x = Inr y)"
  by (cases m) simp_all

text \<open>C19 A fixed package costs a recipe what it costs a plan, except that nothing costs a package. For a
quantity that a Decimal holds, the package is unusable exactly when the price is not positive or its unit is unknown,
measures something else, or holds nothing; otherwise, for a positive quantity, the packages, the quantity
bought and the cost are those of the engine's package arithmetic, and for any other quantity one package is bought,
where the engine buys none.\<close>

theorem package_parity:
  assumes "dec28 required"
  shows "fixed_package_cost required wanted (Some q) (Some u) price =
    (case to_base q u of
       None \<Rightarrow> None
     | Some (pack, kind) \<Rightarrow>
         if price \<le> 0 \<or> kind \<noteq> wanted then None
         else (case compute_packages required 0 pack price of
                 Inl _ \<Rightarrow> None
               | Inr r \<Rightarrow>
                   Some (if 0 < required then (of_int (pk_packages r), pk_purchased r, pk_total_cost r)
                         else (1, dround pack, dround price))))"
proof -
  have keep: "dsub required 0 = required" using assms by (simp add: dsub_def dround_dec28)
  have some: "at_least_one (of_int \<lceil>ddiv required pack\<rceil>) = of_int \<lceil>ddiv required pack\<rceil>"
    if "0 < pack" "0 < required" for pack
  proof -
    have "1 \<le> \<lceil>ddiv required pack\<rceil>" using ddiv_pos[OF that(2,1)] by linarith
    then show ?thesis by (simp add: at_least_one_def)
  qed
  have none: "at_least_one (of_int \<lceil>ddiv required pack\<rceil>) = 1" if "0 < pack" "\<not> 0 < required" for pack
  proof -
    have "required / pack \<le> 0" using that by (simp add: divide_nonpos_pos)
    then have "ddiv required pack \<le> dround 0" unfolding ddiv_def by (rule dround_mono)
    then have "\<lceil>ddiv required pack\<rceil> \<le> 0" by simp
    then have "(of_int \<lceil>ddiv required pack\<rceil> :: rat) < 1" by simp
    then show ?thesis by (simp add: at_least_one_def)
  qed
  show ?thesis
    using keep some none
    by (auto simp: fixed_package_cost_def compute_packages_def decimal_ceil_div_def dmul_def Let_def not_le
        split: option.split)
qed

theorem package_parity_witness:
  "fixed_package_cost 700 Mass (Some (1 / 2)) (Some ''kg'') 3 = Some (2, 1000, 6) \<and>
   fixed_package_cost 0 Mass (Some (1 / 2)) (Some ''kg'') 3 = Some (1, 500, 3)"
proof
  have "dec28 700" using dec28_int[of 700] by simp
  from package_parity[OF this, of Mass "1 / 2" "''kg''" 3]
  show "fixed_package_cost 700 Mass (Some (1 / 2)) (Some ''kg'') 3 = Some (2, 1000, 6)" by code_simp
  from package_parity[OF dec28_0, of Mass "1 / 2" "''kg''" 3]
  show "fixed_package_cost 0 Mass (Some (1 / 2)) (Some ''kg'') 3 = Some (1, 500, 3)" by code_simp
qed


section \<open>The accounting of a recipe\<close>

definition in_cents :: "dec \<Rightarrow> bool" where
  "in_cents x \<longleftrightarrow> x * 100 = of_int \<lfloor>x * 100\<rfloor>"

lemma in_cents_iff: "in_cents x \<longleftrightarrow> (\<exists>m. x = of_int m / 100)"
proof
  assume "in_cents x"
  then have "x = of_int \<lfloor>x * 100\<rfloor> / 100" by (simp add: in_cents_def field_simps)
  then show "\<exists>m. x = of_int m / 100" ..
qed (auto simp: in_cents_def)

lemma in_cents_add: "in_cents x \<Longrightarrow> in_cents y \<Longrightarrow> in_cents (x + y)"
  unfolding in_cents_iff by (metis add_divide_distrib of_int_add)

lemma in_cents_diff: "in_cents x \<Longrightarrow> in_cents y \<Longrightarrow> in_cents (x - y)"
  unfolding in_cents_iff by (metis diff_divide_distrib of_int_diff)

lemma in_cents_exact:
  assumes "in_cents x" "\<bar>x\<bar> \<le> 10 ^ 25" shows "dround x = x" and "quantize_even 2 x = Inr x"
proof -
  from assms(1) obtain m where x: "x = of_int m / 100" unfolding in_cents_iff by blast
  with assms(2) have m: "\<bar>of_int m\<bar> \<le> (of_int (10 ^ 27) :: rat)" by simp
  then have "\<bar>m\<bar> \<le> 10 ^ 27" unfolding of_int_abs[symmetric] of_int_le_iff .
  then have "\<bar>m\<bar> \<le> 10 ^ 28" and "\<bar>m\<bar> < 10 ^ 28" by simp_all
  then show "dround x = x" and "quantize_even 2 x = Inr x"
    using dround_dec28[OF dec28_scaled[of m 2]] by (simp_all add: x quantize_even_def)
qed

lemma quantize_even_cents:
  assumes "quantize_even 2 x = Inr y" shows "in_cents y"
proof -
  from assms have "of_int (round_half_even (10 ^ 2 * x)) / 10 ^ 2 = y"
    by (simp only: quantize_even_def Let_def split: if_splits) simp_all
  then have "y = of_int (round_half_even (10 ^ 2 * x)) / 100" by simp
  then show ?thesis unfolding in_cents_iff ..
qed

lemma fold_in_cents:
  assumes "list_all in_cents xs" "in_cents a" "\<bar>a\<bar> + sum_list (map abs xs) \<le> 10 ^ 25"
  shows "fold (\<lambda>x acc. dadd acc x) xs a = a + sum_list xs \<and> in_cents (a + sum_list xs) \<and>
    \<bar>a + sum_list xs\<bar> \<le> \<bar>a\<bar> + sum_list (map abs xs)"
  using assms
proof (induction xs arbitrary: a)
  case (Cons x xs)
  have c: "in_cents (a + x)" using Cons.prems by (simp add: in_cents_add)
  have nonneg: "0 \<le> sum_list (map abs xs)" by (rule sum_list_nonneg) auto
  have tri: "\<bar>a + x\<bar> \<le> \<bar>a\<bar> + \<bar>x\<bar>" by (rule abs_triangle_ineq)
  have "dadd a x = a + x"
    unfolding dadd_def by (rule in_cents_exact(1)[OF c]) (use Cons.prems(3) nonneg tri in simp)
  moreover have "\<bar>a + x\<bar> + sum_list (map abs xs) \<le> 10 ^ 25" using Cons.prems(3) tri by simp
  ultimately show ?case using Cons.IH[OF _ c] Cons.prems tri by (simp add: add.assoc)
qed simp

lemma dsum_in_cents:
  assumes "list_all in_cents xs" "sum_list (map abs xs) \<le> 10 ^ 25"
  shows "dsum xs = sum_list xs" and "quantize_even 2 (sum_list xs) = Inr (sum_list xs)"
proof -
  have "in_cents 0" by (simp add: in_cents_def)
  with fold_in_cents[of xs 0] assms show "dsum xs = sum_list xs" by (simp add: dsum_def)
  from fold_in_cents[of xs 0] assms \<open>in_cents 0\<close> have "in_cents (sum_list xs)" "\<bar>sum_list xs\<bar> \<le> 10 ^ 25" by simp_all
  then show "quantize_even 2 (sum_list xs) = Inr (sum_list xs)" by (rule in_cents_exact(2))
qed

text \<open>What is left over of a line is what it costs less what is used.\<close>

definition line_balanced :: "line_choice \<Rightarrow> bool" where
  "line_balanced c \<longleftrightarrow> in_cents (lch_cost c) \<and> in_cents (lch_consumed_cost c) \<and>
     quantize_even 2 (dsub (lch_cost c) (lch_consumed_cost c)) = Inr (lch_surplus_value c)"

lemma choice_of_balanced: "choice_of required_base c = Inr l \<Longrightarrow> line_balanced l"
  by (auto simp: choice_of_def line_balanced_def Let_def intro: quantize_even_cents split: prod.splits)

lemma cost_lines_balanced: "cost_lines ctx ris = Inr lines \<Longrightarrow> list_all line_balanced (line_choices lines)"
proof (induction ris arbitrary: lines)
  case Nil
  then show ?case by (simp add: line_choices_def mandatory_lines_def List.map_filter_simps)
next
  case (Cons ri ris)
  then obtain l ls where l: "cost_line ctx ri = Inr l" "cost_lines ctx ris = Inr ls" "lines = l # ls" by auto
  have "line_balanced c" if "icl_answer l = Inr c" for c
    using l(1) that by (auto simp: cost_line_def line_answer_def Let_def dest!: choice_of_balanced split: option.splits if_splits)
  with Cons.IH[OF l(2)] show ?case
    by (auto simp: l(3) line_choices_def mandatory_lines_def List.map_filter_simps split: sum.split)
qed

lemma line_balanced_surplus:
  assumes "line_balanced c" "\<bar>lch_cost c\<bar> + \<bar>lch_consumed_cost c\<bar> \<le> 10 ^ 25"
  shows "lch_surplus_value c = lch_cost c - lch_consumed_cost c"
proof -
  have c: "in_cents (lch_cost c - lch_consumed_cost c)" using assms(1) by (simp add: line_balanced_def in_cents_diff)
  have "\<bar>lch_cost c - lch_consumed_cost c\<bar> \<le> 10 ^ 25" using assms(2) abs_triangle_ineq4 order_trans by blast
  note e = in_cents_exact[OF c this]
  from assms(1) show ?thesis by (simp add: line_balanced_def dsub_def e)
qed

lemma surplus_values:
  assumes "list_all line_balanced cs"
    and "sum_list (map (\<lambda>c. \<bar>lch_cost c\<bar> + \<bar>lch_consumed_cost c\<bar>) cs) \<le> 10 ^ 25"
  shows "map lch_surplus_value cs = map (\<lambda>c. lch_cost c - lch_consumed_cost c) cs"
  using assms
proof (induction cs)
  case (Cons c cs)
  have "0 \<le> sum_list (map (\<lambda>c. \<bar>lch_cost c\<bar> + \<bar>lch_consumed_cost c\<bar>) cs)" by (rule sum_list_nonneg) auto
  with Cons.prems(2) have "\<bar>lch_cost c\<bar> + \<bar>lch_consumed_cost c\<bar> \<le> 10 ^ 25"
    "sum_list (map (\<lambda>c. \<bar>lch_cost c\<bar> + \<bar>lch_consumed_cost c\<bar>) cs) \<le> 10 ^ 25" by simp_all
  with Cons show ?case by (simp add: line_balanced_surplus)
qed simp

lemma cost_lines_Cons:
  assumes "cost_lines ctx (ri # ris) = Inr lines"
  obtains a l ls where "line_answer ctx ri = Inr a" "lines = l # ls" "cost_lines ctx ris = Inr ls"
    "icl_answer l = a" "icl_optional l = rgi_optional ri" "icl_name l = rgi_canonical_name ri"
  using assms by (auto simp: cost_line_def)

lemma complete_lines:
  assumes "cost_lines ctx ris = Inr lines" "line_reasons lines = []"
  shows "length (line_choices lines) = length (filter (\<lambda>ri. \<not> rgi_optional ri) ris)"
  using assms
proof (induction ris arbitrary: lines)
  case Nil
  then show ?case by (simp add: line_choices_def mandatory_lines_def List.map_filter_simps)
next
  case (Cons ri ris)
  from Cons.prems(1) obtain a l ls where l: "lines = l # ls" "cost_lines ctx ris = Inr ls" "icl_optional l = rgi_optional ri"
    by (rule cost_lines_Cons)
  from Cons.IH[OF l(2)] Cons.prems(2) show ?case
    by (simp add: l(1,3) line_choices_def line_reasons_def mandatory_lines_def List.map_filter_simps split: sum.splits if_splits)
qed

lemma cost_recipe_totals:
  assumes "cost_recipe thresholds ctb r provider store policy now = Inr rc" "rcg_totals rc = Some t"
  obtains ctx where "cost_lines ctx (rcp_ingredients r) = Inr (rcg_lines rc)"
    "recipe_totals_of (rcg_servings rc) (line_choices (rcg_lines rc)) = Inr t" "line_reasons (rcg_lines rc) = []"
  using assms by (auto simp: cost_recipe_def Let_def split: option.splits if_splits)

text \<open>C15 The accounts of a recipe balance. When a recipe is fully costable and its amounts are below
\<open>10 ^ 25\<close>, its purchase is the exact sum of the cents of its mandatory lines, so is the value used, and
the value left over is their difference: all of it unallocated, nothing claimed as reusable or wasted.
Optional ingredients cost nothing, and every mandatory ingredient has a line that is counted.\<close>

theorem recipe_accounts_balance:
  assumes "cost_recipe thresholds ctb r provider store policy now = Inr rc"
    and "rcg_totals rc = Some t"
    and "sum_list (map (\<lambda>c. \<bar>lch_cost c\<bar> + \<bar>lch_consumed_cost c\<bar>) (line_choices (rcg_lines rc))) \<le> 10 ^ 25"
  shows "rct_purchase t = sum_list (map lch_cost (line_choices (rcg_lines rc))) \<and>
    rct_consumed t = sum_list (map lch_consumed_cost (line_choices (rcg_lines rc))) \<and>
    rct_purchase t = rct_consumed t + rct_leftover t \<and>
    rct_unallocated t = rct_leftover t \<and> rct_reusable t = 0 \<and> rct_non_reusable t = 0 \<and>
    length (line_choices (rcg_lines rc)) = length (filter (\<lambda>ri. \<not> rgi_optional ri) (rcp_ingredients r))"
proof -
  let ?cs = "line_choices (rcg_lines rc)"
  from assms(1,2) obtain ctx where lines: "cost_lines ctx (rcp_ingredients r) = Inr (rcg_lines rc)"
    and totals: "recipe_totals_of (rcg_servings rc) ?cs = Inr t" and complete: "line_reasons (rcg_lines rc) = []"
    by (rule cost_recipe_totals)
  have balanced: "list_all line_balanced ?cs" using lines by (rule cost_lines_balanced)
  have cents: "list_all in_cents (map lch_cost ?cs)" "list_all in_cents (map lch_consumed_cost ?cs)"
    using balanced by (simp_all add: list_all_iff line_balanced_def)
  have surplus: "map lch_surplus_value ?cs = map (\<lambda>c. lch_cost c - lch_consumed_cost c) ?cs"
    using balanced assms(3) by (rule surplus_values)
  then have surplus_cents: "list_all in_cents (map lch_surplus_value ?cs)"
    using balanced by (simp add: list_all_iff line_balanced_def in_cents_diff)
  have small: "sum_list (map (\<lambda>c. \<bar>f c\<bar>) ?cs) \<le> 10 ^ 25"
    if "\<And>c. \<bar>f c\<bar> \<le> \<bar>lch_cost c\<bar> + \<bar>lch_consumed_cost c\<bar>" for f
    using sum_list_mono[of ?cs "\<lambda>c. \<bar>f c\<bar>", OF that] assms(3) by (rule order_trans)
  note purchase = dsum_in_cents[OF cents(1), unfolded map_map comp_def, OF small]
  note consumed = dsum_in_cents[OF cents(2), unfolded map_map comp_def, OF small]
  note leftover = dsum_in_cents[OF surplus_cents, unfolded surplus map_map comp_def, OF small, OF abs_triangle_ineq4]
  have "rct_purchase t = sum_list (map lch_cost ?cs)" "rct_consumed t = sum_list (map lch_consumed_cost ?cs)"
    "rct_leftover t = sum_list (map (\<lambda>c. lch_cost c - lch_consumed_cost c) ?cs)"
    "rct_unallocated t = rct_leftover t" "rct_reusable t = 0" "rct_non_reusable t = 0"
    using totals by (auto simp: recipe_totals_of_def Let_def purchase consumed leftover surplus)
  moreover have "length ?cs = length (filter (\<lambda>ri. \<not> rgi_optional ri) (rcp_ingredients r))"
    using lines complete by (rule complete_lines)
  ultimately show ?thesis by (simp add: sum_list_subtractf)
qed

section \<open>The cheapest product\<close>

text \<open>A variant that may cost an ingredient: on sale at the chain, of a product with an active mapping.\<close>

definition buyable_variants :: "costing_tables \<Rightarrow> int \<Rightarrow> string \<Rightarrow> int \<Rightarrow> sold_variant list" where
  "buyable_variants ctb retailer_id provider_code ingredient_id =
     filter (\<lambda>v. var_retailer v = retailer_id \<and> var_active v \<and> var_product v \<noteq> None \<and>
         (list_ex (\<lambda>m. rmp_retailer m = Some retailer_id \<and> ipm_active m \<and> ipm_ingredient m = ingredient_id \<and>
             Some (ipm_product m) = var_product v) (ctb_mappings ctb) \<or>
          list_ex (\<lambda>m. pim_provider m = provider_code \<and> pim_active m \<and> pim_ingredient m = ingredient_id \<and>
             pim_product m = var_product v) (ctb_provider_mappings ctb)))
       (ctb_variants ctb)"

text \<open>
  A line names the product with the least cost, then price, then key of all that can be bought, at
  its cost in cents, or there is none.
\<close>

definition line_cheapest :: "costing_context \<Rightarrow> sold_variant list \<Rightarrow> recipe_ingredient \<Rightarrow> ingredient_cost_line \<Rightarrow> bool" where
  "line_cheapest ctx buyable ri l \<longleftrightarrow>
     icl_name l = rgi_canonical_name ri \<and> icl_optional l = rgi_optional ri \<and>
     (case to_base (rgi_quantity ri) (rgi_unit ri) of
        None \<Rightarrow> isl (icl_answer l)
      | Some (required, kind) \<Rightarrow>
          (case icl_answer l of
             Inl _ \<Rightarrow> list_all (\<lambda>v. costed_variant ctx required kind v = None) buyable
           | Inr c \<Rightarrow>
               list_ex (\<lambda>v. case costed_variant ctx required kind v of
                   None \<Rightarrow> False
                 | Some best \<Rightarrow> fst best = lch_candidate c \<and> quantize_even 2 (snd (snd (snd best))) = Inr (lch_cost c) \<and>
                     list_all (\<lambda>w. case costed_variant ctx required kind w of
                         None \<Rightarrow> True | Some other \<Rightarrow>
                           (snd (snd (snd best)), cdt_price (fst best), var_id (cdt_variant (fst best))) \<le>
                           (snd (snd (snd other)), cdt_price (fst other), var_id (cdt_variant (fst other)))) buyable) buyable))"

lemma dget_add_product:
  "dget (fold add_product ps out) i [] = dget out i [] @ map snd (filter (\<lambda>p. fst p = i) ps)"
  by (induction ps arbitrary: out) (simp_all add: add_product_def)

lemma dget_add_variant:
  "dget (fold add_variant vs out) p [] = dget out p [] @ filter (\<lambda>v. var_product v = Some p) vs"
  by (induction vs arbitrary: out) (auto simp: add_variant_def split: option.split)

lemma pairs_of_key:
  "p \<in> set (map snd (filter (\<lambda>p. fst p = i) (map (\<lambda>m. (f m, g m)) ms))) \<longleftrightarrow> (\<exists>m\<in>set ms. f m = i \<and> g m = p)"
  "p \<in> set (map snd (filter (\<lambda>p. fst p = i) (List.map_filter (\<lambda>m. map_option (Pair (f m)) (h m)) ms))) \<longleftrightarrow>
     (\<exists>m\<in>set ms. f m = i \<and> h m = Some p)"
  by force (force simp: set_map_filter)

lemma eligible_products_rows:
  "p \<in> set (dget (eligible_products ctb ret provider) i []) \<longleftrightarrow>
     (\<exists>m\<in>set (ctb_mappings ctb). rmp_retailer m = Some ret \<and> ipm_active m \<and> ipm_ingredient m = i \<and> ipm_product m = p) \<or>
     (\<exists>m\<in>set (ctb_provider_mappings ctb). pim_provider m = provider \<and> pim_active m \<and> pim_ingredient m = i \<and> pim_product m = Some p)"
  unfolding eligible_products_def dget_add_product dget_Nil append_Nil filter_append map_append set_append Un_iff pairs_of_key
  by simp blast

lemma offered_variants:
  "set (concat (map (\<lambda>p. dget (variants_by_product ctb ret) p []) (dget (eligible_products ctb ret provider) i []))) =
     set (buyable_variants ctb ret provider i)"
proof (rule set_eqI)
  fix v
  show "v \<in> set (concat (map (\<lambda>p. dget (variants_by_product ctb ret) p []) (dget (eligible_products ctb ret provider) i []))) \<longleftrightarrow>
      v \<in> set (buyable_variants ctb ret provider i)"
  proof (cases "var_product v")
    case None
    then show ?thesis by (auto simp: variants_by_product_def dget_add_variant buyable_variants_def list_ex_iff)
  next
    case (Some p)
    then have "v \<in> set (concat (map (\<lambda>p. dget (variants_by_product ctb ret) p []) (dget (eligible_products ctb ret provider) i []))) \<longleftrightarrow>
        v \<in> set (ctb_variants ctb) \<and> var_retailer v = ret \<and> var_active v \<and> p \<in> set (dget (eligible_products ctb ret provider) i [])"
      by (auto simp: variants_by_product_def dget_add_variant)
    then show ?thesis
      by (simp only: eligible_products_rows) (simp add: buyable_variants_def list_ex_iff Some)
  qed
qed

lemma map_filter_Nil: "List.map_filter f xs = [] \<longleftrightarrow> list_all (\<lambda>x. f x = None) xs"
  by (induction xs) (auto simp: List.map_filter_simps split: option.split)

lemma best_candidate_None:
  "best_candidate ctx ps required kind = None \<longleftrightarrow>
     list_all (\<lambda>v. costed_variant ctx required kind v = None) (concat (map (\<lambda>p. dget (ccx_variants ctx) p []) ps))"
  by (simp only: best_candidate_def argmin_None_iff map_filter_Nil)

lemma costed_key_eq: "costed_key c = (snd (snd (snd c)), cdt_price (fst c), var_id (cdt_variant (fst c)))"
  by (cases c) (simp add: costed_key_def)

lemma best_candidate_Some:
  assumes "best_candidate ctx ps required kind = Some best"
  obtains v where "v \<in> set (concat (map (\<lambda>p. dget (ccx_variants ctx) p []) ps))"
    "costed_variant ctx required kind v = Some best"
    "\<And>w other. w \<in> set (concat (map (\<lambda>p. dget (ccx_variants ctx) p []) ps)) \<Longrightarrow>
      costed_variant ctx required kind w = Some other \<Longrightarrow> (snd (snd (snd best)), cdt_price (fst best), var_id (cdt_variant (fst best))) \<le>
        (snd (snd (snd other)), cdt_price (fst other), var_id (cdt_variant (fst other)))"
proof -
  note m = argmin_Some[OF assms[unfolded best_candidate_def], unfolded set_map_filter costed_key_eq]
  from m(1) obtain v where "v \<in> set (concat (map (\<lambda>p. dget (ccx_variants ctx) p []) ps))"
    "costed_variant ctx required kind v = Some best" by blast
  then show ?thesis using m(2) by (intro that) blast+
qed

lemma choice_of_fields:
  assumes "choice_of required best = Inr c"
  shows "lch_candidate c = fst best" and "quantize_even 2 (snd (snd (snd best))) = Inr (lch_cost c)"
  using assms by (cases best; auto simp: choice_of_def Let_def)+

lemma context_tables:
  "ccx_eligible (costing_context_of thresholds ctb ret provider store scope now) = eligible_products ctb ret provider"
  "ccx_variants (costing_context_of thresholds ctb ret provider store scope now) = variants_by_product ctb ret"
  by (simp_all add: costing_context_of_def)

lemma line_answer_cheapest:
  assumes "line_answer ctx ri = Inr (icl_answer l)" "icl_name l = rgi_canonical_name ri" "icl_optional l = rgi_optional ri"
    and offered: "set (concat (map (\<lambda>p. dget (ccx_variants ctx) p []) (dget (ccx_eligible ctx) (rgi_ingredient ri) []))) = set buyable"
  shows "line_cheapest ctx buyable ri l"
proof (cases "to_base (rgi_quantity ri) (rgi_unit ri)")
  case None
  then show ?thesis using assms(1-3) by (simp add: line_cheapest_def line_answer_def) (metis sum.disc(1))
next
  case (Some based)
  obtain required kind where based: "based = (required, kind)" by (cases based)
  let ?ps = "dget (ccx_eligible ctx) (rgi_ingredient ri) []"
  show ?thesis
  proof (cases "best_candidate ctx ?ps required kind")
    case None
    then have "list_all (\<lambda>v. costed_variant ctx required kind v = None) buyable"
      unfolding best_candidate_None list_all_iff offered .
    moreover have "isl (icl_answer l)"
      using assms(1) None Some based by (auto simp: line_answer_def Let_def split: if_splits) (metis sum.disc(1))+
    ultimately show ?thesis using Some based assms(2,3) by (auto simp: line_cheapest_def split: sum.split)
  next
    case best: (Some best)
    then obtain v where v: "v \<in> set buyable" "costed_variant ctx required kind v = Some best"
      "\<And>w other. w \<in> set buyable \<Longrightarrow> costed_variant ctx required kind w = Some other \<Longrightarrow> (snd (snd (snd best)), cdt_price (fst best), var_id (cdt_variant (fst best))) \<le>
        (snd (snd (snd other)), cdt_price (fst other), var_id (cdt_variant (fst other)))"
      unfolding offered[symmetric] by (rule best_candidate_Some) blast
    from v(1) offered have "?ps \<noteq> []" by auto
    with assms(1) Some based best obtain c where "choice_of required best = Inr c" "icl_answer l = Inr c"
      by (auto simp: line_answer_def)
    note c = choice_of_fields[OF this(1)] this(2)
    have "list_ex (\<lambda>v. case costed_variant ctx required kind v of
        None \<Rightarrow> False
      | Some best \<Rightarrow> fst best = lch_candidate c \<and> quantize_even 2 (snd (snd (snd best))) = Inr (lch_cost c) \<and>
          list_all (\<lambda>w. case costed_variant ctx required kind w of
              None \<Rightarrow> True | Some other \<Rightarrow>
                           (snd (snd (snd best)), cdt_price (fst best), var_id (cdt_variant (fst best))) \<le>
                           (snd (snd (snd other)), cdt_price (fst other), var_id (cdt_variant (fst other)))) buyable) buyable"
      unfolding list_ex_iff list_all_iff using v c by (intro bexI[of _ v]) (auto split: option.split)
    then show ?thesis using Some based assms(2,3) c(3) by (simp add: line_cheapest_def)
  qed
qed

text \<open>C14 Every ingredient of a costed recipe has the cheapest product that can be bought. At a known
chain a recipe gets one line for each ingredient, in order; a line names the product of least cost of all the
variants on sale with an active mapping, a gated price and a mode that can cost the quantity, and a line
without a product says that there is none. The recipe is fully costable exactly when it has a mandatory
ingredient and every one of them has a product.\<close>

theorem recipe_lines_cheapest:
  assumes "cost_recipe thresholds ctb r provider store policy now = Inr rc"
    and "find (\<lambda>x. ret_slug x = dget retailer_matrix provider provider) (retailers (ctb_market ctb)) = Some ret"
  shows "list_all2 (\<lambda>ri. line_cheapest (costing_context_of thresholds ctb (ret_id ret) provider store (store_scope store) now)
        (buyable_variants ctb (ret_id ret) provider (rgi_ingredient ri)) ri) (rcp_ingredients r) (rcg_lines rc) \<and>
    (rcg_totals rc \<noteq> None) = (mandatory_lines (rcg_lines rc) \<noteq> [] \<and>
       list_all (\<lambda>l. \<not> isl (icl_answer l)) (mandatory_lines (rcg_lines rc)))"
proof -
  let ?ctx = "costing_context_of thresholds ctb (ret_id ret) provider store (store_scope store) now"
  from assms have lines: "cost_lines ?ctx (rcp_ingredients r) = Inr (rcg_lines rc)"
    and totals: "(rcg_totals rc \<noteq> None) = (line_reasons (rcg_lines rc) = [] \<and> line_choices (rcg_lines rc) \<noteq> [])"
    by (auto simp: cost_recipe_def Let_def split: if_splits)
  have "list_all2 (\<lambda>ri. line_cheapest ?ctx (buyable_variants ctb (ret_id ret) provider (rgi_ingredient ri)) ri) ris ls"
    if "cost_lines ?ctx ris = Inr ls" for ris ls
    using that
  proof (induction ris arbitrary: ls)
    case (Cons ri ris)
    from Cons.prems obtain a l ls' where l: "line_answer ?ctx ri = Inr a" "ls = l # ls'" "cost_lines ?ctx ris = Inr ls'"
      "icl_answer l = a" "icl_optional l = rgi_optional ri" "icl_name l = rgi_canonical_name ri" by (rule cost_lines_Cons)
    have "line_cheapest ?ctx (buyable_variants ctb (ret_id ret) provider (rgi_ingredient ri)) ri l"
      by (rule line_answer_cheapest) (simp_all only: l context_tables offered_variants)
    with Cons.IH[OF l(3)] show ?case by (simp add: l(2))
  qed simp
  moreover have "(line_reasons (rcg_lines rc) = [] \<and> line_choices (rcg_lines rc) \<noteq> []) =
      (mandatory_lines (rcg_lines rc) \<noteq> [] \<and> list_all (\<lambda>l. \<not> isl (icl_answer l)) (mandatory_lines (rcg_lines rc)))"
    unfolding line_reasons_def line_choices_def
    by (cases "mandatory_lines (rcg_lines rc)") (auto simp: map_filter_Nil list_all_iff isl_def split: sum.splits)
  ultimately show ?thesis using lines totals by blast
qed

section \<open>An example\<close>

text \<open>
  Rice in packages of a kilogram at two euros and of half a kilogram at ninety cents: seven hundred grams
  take two of the small ones. Parsley has no mapping, and is optional.
\<close>

definition rice_pack :: "int \<Rightarrow> dec \<Rightarrow> sold_variant" where
  "rice_pack i grams = \<lparr>var_id = i, var_product = Some 1, var_retailer = 7, var_display_name = ''Arroz'',
     var_package_quantity = None, var_package_unit = None, var_net_quantity = Some grams, var_net_unit = Some ''g'',
     var_active = True, sv_external = i, sv_sell_unit = Some ''unit'', sv_variable_weight = False,
     sv_unit_price = None, sv_unit_price_unit = None\<rparr>"

definition staged_market :: db where
  "staged_market = zoned_history\<lparr>retailers := [\<lparr>ret_id = 7, ret_slug = ''mercadona'', ret_active = True, ret_name = ''Mercadona''\<rparr>],
     observations := concat (map (\<lambda>o'. [o'\<lparr>obs_staging_only := True\<rparr>,
       o'\<lparr>obs_staging_only := True, obs_id := 100 + obs_id o', obs_variant := 5, obs_amount := 9 / 10\<rparr>]) (observations zoned_history))\<rparr>"

definition staged_tables :: costing_tables where
  "staged_tables = \<lparr>ctb_market = staged_market, ctb_variants = [rice_pack 4 1000, rice_pack 5 500],
     ctb_mappings = [\<lparr>ipm_ingredient = 3, ipm_product = 1, ipm_variant = None, ipm_preference_rank = None,
       ipm_active = True, rmp_retailer = Some 7\<rparr>],
     ctb_provider_mappings = []\<rparr>"

definition rice_dish :: recipe where
  "rice_dish =
     \<lparr>rcp_id = 1, rcp_household = None, rcp_origin = RO_seed, rcp_public = True, rcp_title = ''Arroz'',
      rcp_description = None, rcp_servings = 2, rcp_meal_types = None, rcp_cuisine = None,
      rcp_preference_tags = None, rcp_preparation_minutes = None, rcp_cooking_minutes = None,
      rcp_required_equipment = None, rcp_leftover_reuse = None, rcp_storage_instructions = None,
      rcp_reheating_instructions = None, rcp_generated_by = None, rcp_deleted_at = None,
      rcp_ingredients =
        [\<lparr>rgi_ingredient = 3, rgi_canonical_name = ''arroz'', rgi_display_name = None, rgi_quantity = 700,
          rgi_unit = ''g'', rgi_optional = False, rgi_substitution_group = None\<rparr>,
         \<lparr>rgi_ingredient = 8, rgi_canonical_name = ''perejil'', rgi_display_name = None, rgi_quantity = 5,
          rgi_unit = ''g'', rgi_optional = True, rgi_substitution_group = None\<rparr>],
      rcp_steps = []\<rparr>"

definition rice_costing :: "py_exn + recipe_costing" where
  "rice_costing = cost_recipe (24, 48) staged_tables rice_dish ''apify-mercadona'' None PP_empty_pantry 30"

definition rice_figures :: "recipe_costing \<Rightarrow> (dec \<times> dec \<times> dec) option \<times> (dec \<times> dec \<times> int) list \<times> string list" where
  "rice_figures rc =
     (map_option (\<lambda>t. (rct_purchase t, rct_consumed t, rct_leftover t)) (rcg_totals rc),
      map (\<lambda>c. (lch_cost c, lch_consumed_cost c, var_id (cdt_variant (lch_candidate c)))) (line_choices (rcg_lines rc)),
      rcg_excluded rc)"

lemma rice_costed:
  "case rice_costing of Inl e \<Rightarrow> False
     | Inr rc \<Rightarrow> rice_figures rc = (Some (9 / 5, 63 / 50, 27 / 50), [(9 / 5, 63 / 50, 5)], [''perejil''])"
  by code_simp

theorem recipe_accounts_balance_witness:
  "case rice_costing of Inl e \<Rightarrow> False | Inr rc \<Rightarrow>
     (case rcg_totals rc of None \<Rightarrow> False | Some t \<Rightarrow> rct_purchase t = rct_consumed t + rct_leftover t)"
proof -
  obtain rc where rc: "rice_costing = Inr rc"
    "rice_figures rc = (Some (9 / 5, 63 / 50, 27 / 50), [(9 / 5, 63 / 50, 5)], [''perejil''])"
    using rice_costed by (auto split: sum.splits)
  then obtain t where t: "rcg_totals rc = Some t" by (auto simp: rice_figures_def)
  have "map (\<lambda>c. (lch_cost c, lch_consumed_cost c, var_id (cdt_variant (lch_candidate c)))) (line_choices (rcg_lines rc)) =
      [(9 / 5, 63 / 50, 5)]" using rc(2) by (simp add: rice_figures_def)
  then have "sum_list (map (\<lambda>c. \<bar>lch_cost c\<bar> + \<bar>lch_consumed_cost c\<bar>) (line_choices (rcg_lines rc))) \<le> 10 ^ 25"
    by auto
  from recipe_accounts_balance[OF rc(1)[unfolded rice_costing_def] t this] show ?thesis unfolding rc(1) sum.case t option.case by blast
qed

theorem recipe_lines_cheapest_witness:
  "case rice_costing of Inl e \<Rightarrow> False | Inr rc \<Rightarrow>
     list_all2 (\<lambda>ri. line_cheapest (costing_context_of (24, 48) staged_tables 7 ''apify-mercadona'' None (store_scope None) 30)
       (buyable_variants staged_tables 7 ''apify-mercadona'' (rgi_ingredient ri)) ri) (rcp_ingredients rice_dish) (rcg_lines rc)"
proof -
  obtain rc where rc: "rice_costing = Inr rc" using rice_costed by (auto split: sum.splits)
  have "find (\<lambda>x. ret_slug x = dget retailer_matrix ''apify-mercadona'' ''apify-mercadona'') (retailers (ctb_market staged_tables)) =
      Some \<lparr>ret_id = 7, ret_slug = ''mercadona'', ret_active = True, ret_name = ''Mercadona''\<rparr>" by code_simp
  from recipe_lines_cheapest[OF rc[unfolded rice_costing_def] this] show ?thesis unfolding rc sum.case by simp
qed

end
