(* ===== verification/Spec2Isabelle.thy ===== *)
theory Spec2Isabelle
  imports Units Packaging Matching Pantry Pricing Scheduling Validators Provisioning Nutrition
    Optimizer Explain Facade QueueProcess CrawlSchedule CrawlWorker PriceHistory CurrentPrice
    Anomaly PriceCoverage FactHistory StoredPlans GenerationQueue
    PriceFallback PriceResolution PlanComparison BasketResolver RecipeCosting
begin

text \<open>
  \<^bold>\<open>cestaplan\<close>: planning the meals of a household within a budget, and the ingestion of the
  supermarket prices the plans are costed with. The development models the four parts of the
  backend (\<open>apps/api/src\<close>) that decide something: the planning engine (\<open>cestaplan_engine\<close>,
  complete), the generation of plans around it (\<open>cestaplan_worker\<close> and the services between the
  database and the engine), the core of the price ingestion (\<open>cestaplan_api/ingestion\<close> and
  the services that record what it delivers), and the services that choose and compare the
  prices a customer sees.

  \<^bold>\<open>The planning engine.\<close> \<open>generate_plan\<close> is a pure function of its input. It schedules the
  meal slots of the period, discards the recipes that a member must not eat or cannot cook,
  lets the optimizer assign a recipe to each slot, and turns the chosen meals into a shopping
  list of whole packages with its cost, nutrition, leftovers and explanations; when that is not
  possible it returns a diagnosis.

  \<^item> \<open>Prelude\<close>, \<open>Decimals\<close>, \<open>Contracts\<close>, \<open>Examples\<close>: Python dictionaries, strings and loop idioms;
    decimal arithmetic with its 28 digit rounding; the data transfer objects of
    \<open>contracts.py\<close>; a small household on which the properties are evaluated.
  \<^item> \<open>Units\<close> (\<open>units.py\<close>): conversions, exact between metric units, failing exactly when no
    declared factor helps, and otherwise the same amount up to the rounding of decimals.
  \<^item> \<open>Packaging\<close> (\<open>packaging.py\<close>): how many packages, and of which format; minimal in both.
  \<^item> \<open>Matching\<close>, \<open>Pantry\<close>, \<open>Pricing\<close> (files of the same name): the product of an ingredient, the
    stock that is already at home, and how much of a list has a price.
  \<^item> \<open>Validators\<close> (\<open>validators.py\<close>): the allergen and the diet gate, each characterised by the
    forbidden substances a recipe contains.
  \<^item> \<open>Scheduling\<close> (\<open>scheduling.py\<close>): the slots of the period, exactly those requested.
  \<^item> \<open>Provisioning\<close> (\<open>provisioning.py\<close>): from meals to the shopping list; demand is the sum of
    the uses, every line adds up in the unit of its package as long as the packages of a product
    have one unit, the cost is the sum of the lines.
  \<^item> \<open>Nutrition\<close> (\<open>nutrition.py\<close>): totals that are never invented.
  \<^item> \<open>Optimizer\<close> (\<open>optimizer.py\<close>): score, greedy seeds and single-swap local search; what a
    feasible outcome is, that the search improves on its seeds, and where it stops.
  \<^item> \<open>Explain\<close>, \<open>Facade\<close> (\<open>explain.py\<close>, \<open>facade.py\<close>): the diagnosis and the whole pipeline; a plan
    is safe for every member, and its money adds up and stays within the budget.

  \<^bold>\<open>The generation of plans.\<close> A plan is created with a queued job. A worker claims the job, checks
  the preconditions, assembles the input of the engine from the tables of the household, the
  recipes and the prices of the chain, runs the engine, and stores either the plan with its
  shopping list or a typed diagnosis; a failure is retried with a growing delay, and the
  jobs of a worker that died are recovered.

  \<^item> \<open>PlanDb\<close>, \<open>PlanExamples\<close> (\<open>models/household.py\<close>, \<open>recipe.py\<close>, \<open>plan.py\<close>, \<open>feedback.py\<close>,
    \<open>jobs.py\<close>, \<open>catalog.py\<close>): the tables, and a household on which the properties are evaluated.
  \<^item> \<open>Candidates\<close> (\<open>services/candidate_providers.py\<close>): recipes of the library or of the OpenAI
    service with its fallbacks; every candidate speaks for a stored recipe.
  \<^item> \<open>PlanContext\<close> (\<open>services/planning_context.py\<close>): the \<open>PlanInput\<close> of a stored plan; diners, and
    the catalogue from the newest price of each product within the chain and the zone.
  \<^item> \<open>Preflight\<close> (\<open>services/planner_preflight.py\<close>): the counts and the decision before the solver.
  \<^item> \<open>PlanService\<close> (\<open>services/plan_service.py\<close>): access, the chain of a plan, creating,
    duplicating and regenerating, storing a plan or a diagnosis.
  \<^item> \<open>GenerationWorker\<close> (\<open>cestaplan_worker/processor.py\<close>, \<open>main.py\<close>): the life of a job.
  \<^item> \<open>PlanPipeline\<close>, \<open>StoredPlans\<close>: from the rows to the stored plan. The gates of the engine hold
    of the stored meals in terms of the rows of the household, its recipes and its products; the
    meals are the slots asked for; the shopping list adds up within the budget; other plans
    are untouched.
  \<^item> \<open>GenerationQueue\<close>: creating, duplicating and regenerating plans, claiming, processing and
    recovering jobs as the events of one transition system (interpretation \<open>generation\<close>): a plan
    that is generating has a live job in every reachable state, and a worker that starts alone ends
    every job, except one whose heartbeat is still fresh, which it leaves as it is. The number of
    tries left bounds the polls it needs. Deleting plans, runs or jobs is not an event.

  \<^bold>\<open>The price ingestion.\<close> The scheduler creates runs and enqueues one job for each; workers
  claim jobs, hand them to the connector of a retailer and report the outcome, which feeds the
  retry policy and the circuit breaker of the connector. Observations that come back are
  validated, checked as a batch for anomalies, and recorded in an append-only history, from
  which the current price, the price table of the planner and the coverage snapshots are read.

  \<^item> \<open>IngestDb\<close> (\<open>models/ingestion.py\<close>, \<open>models/catalog.py\<close>, \<open>ingestion/contracts.py\<close>): the tables
    and enums; dates and time stamps; the locale \<open>invariant_system\<close> of transition systems with an
    invariant, which every state machine below instantiates.
  \<^item> \<open>JobQueue\<close> (\<open>queue.py\<close>): the operations on jobs, one by one: idempotent enqueueing, what a
    claim takes, caps per retailer, back-off.
  \<^item> \<open>CrawlRuns\<close> (\<open>run_service.py\<close>, and cancelling and retrying of \<open>routers/ingestion_admin.py\<close>):
    the life cycle of a run, its counters and coverage score.
  \<^item> \<open>QueueProcess\<close>: all these operations as the events of one transition system, interleaved
    arbitrarily: the row invariant (interpretation \<open>queue\<close>) and the refinement of the queue to an
    abstract machine with bounded retries, job by job and event by event; reports that come for a
    job that no longer runs are the steps outside the machine, and are named.
  \<^item> \<open>CrawlSchedule\<close> (\<open>scheduler.py\<close>): the daily and the forced passes; idempotence within a day,
    and the cadence over every history of passes (interpretation \<open>schedule\<close>).
  \<^item> \<open>CrawlWorker\<close> (\<open>crawl_worker.py\<close>, and enabling and disabling of a connector in the admin
    router): the loop, its termination measured by the attempts left, and the circuit breaker
    from the report of a job to the decision of the scheduler.
  \<^item> \<open>PriceHistory\<close> (\<open>price_history.py\<close>): recording; the invariant of the history (interpretation
    \<open>history\<close>), its refinement to a timeline of prices, and append-only behaviour.
  \<^item> \<open>Normalization\<close>, \<open>Validation\<close>, \<open>Anomaly\<close> (\<open>normalization.py\<close>, \<open>validation.py\<close>, \<open>anomaly.py\<close>):
    when an observation is accepted, and that a batch is held back unless it is clean in every
    respect.
  \<^item> \<open>CurrentPrice\<close>, \<open>PriceCoverage\<close> (\<open>current_price.py\<close>, \<open>coverage.py\<close>): reading the history back,
    with the freshness of a price, and the honest grading of a catalogue.
  \<^item> \<open>PriceFacts\<close> (\<open>services/observation_identity.py\<close>, \<open>observation_persistence.py\<close>,
    \<open>price_history_lane.py\<close>): recording an observation as a fact with its occurrences, wherever it
    falls in its lane. What the report of a lane says is exactly what is wrong with it, and no
    series of recordings corrupts a lane (interpretation \<open>facts\<close>).
  \<^item> \<open>FactHistory\<close> (\<open>services/price_rollback.py\<close>): the order of arrival does not matter (the locale
    \<open>convergent_store\<close>, interpreted as \<open>lanes\<close>), recording again adds nothing, and rolling the last
    synchronisation back restores what was in force before it.

  \<^bold>\<open>Prices for plans and baskets.\<close> These services read the price history and the tables of the
  catalogue and change nothing: they pick a price for a place, replace a product that has none,
  cost a shopping request at one chain, and cost a stored plan at every chain.

  \<^item> \<open>Cents\<close>: amounts in whole cents, whose sums and multiples are exact in 28 digits.
  \<^item> \<open>PriceScope\<close> (\<open>services/price_scope.py\<close>): which area a price covers, said independently of the ranks of the
    code; the gated read of the current price never returns a price of another zone.
  \<^item> \<open>PriceFallback\<close> (\<open>services/price_fallback.py\<close>): the ladder of replacements; no answer of it
    selects a forbidden or unpriced product, or, unless the user is asked, one out of zone.
  \<^item> \<open>PriceResolution\<close> (\<open>services/price_resolution.py\<close>): one price out of the observations of a
    product, by usability, level and priority, and none when the best level contradicts itself.
  \<^item> \<open>PlanComparison\<close> (\<open>services/plan_comparison.py\<close>): the basket of a plan, costed with the
    engine at each chain, the best chain and the split over chains, with and without the trip.
    The split takes each ingredient where it is cheapest and is never dearer than a chain that
    sells everything.
  \<^item> \<open>BasketResolver\<close> (\<open>services/basket_resolver.py\<close>): candidates, prices, packages and promotions
    of a shopping request. Promotions stay between nothing and the full price; every item is
    answered exactly once, and every line is honest about its variant, its price and its packages.
  \<^item> \<open>RecipeCosting\<close> (\<open>services/recipe_costing.py\<close>, the cost modes of \<open>providers/onboarding.py\<close>): the
    cheapest product that can be bought for each ingredient of a recipe, in the packages the engine
    would buy, and accounts in which the value used and the value left over make up the purchase.

  \<^bold>\<open>How the state is modelled.\<close> Records carry the fields of the classes under a short prefix; a
  table is the list of its rows in insertion order, an ORM object is the row with its key, and
  an operation takes the database and returns it changed. One committed transaction is one step;
  row locks held by other transactions are an argument, as are the clock, the jitter of the
  back-off, the numbers drawn by the random generator, the connector handlers and the OpenAI
  service. Exceptions
  are the left values of a sum. Texts that are only displayed (warnings, explanations, error
  messages of a validation) are constructors that carry the interpolated values.

  \<^bold>\<open>Bounds.\<close> Decimals have 28 significant digits, and every operation rounds as Python's default
  context does; division by zero gives zero where Python raises, and overflow is left out: the code
  guards its divisors, or the schema of its input makes them positive. A digest stands for the tuple it is computed from: two of them are equal exactly
  when the tuples are. Strings are over the code points 0 to 255. The local search runs at most the
  four passes of the source, so its recursion is on the number of passes left. The loop of a
  worker runs over the list of the polls it makes; \<open>worker_terminates\<close> shows how long such a list
  has to be for the loop to end by itself, so no fuel is needed. Payloads of jobs are nested
  values of null, numbers, strings, lists and dictionaries.

  \<^bold>\<open>What modelling showed.\<close> The theorems \<open>rounding_buys_extra_package\<close>, \<open>mixed_units_underbuy\<close>,
  \<open>prompt_restart_leaves_job\<close>,
  \<open>over_budget_despite_cheap_plan\<close>, \<open>cup_round_trip_inexact\<close>, \<open>cancelled_job_requeued\<close>,
  \<open>forced_resync_creates_empty_runs\<close>, \<open>disabled_connector_reactivated\<close>, \<open>zero_cap_still_claims\<close>,
  \<open>complete_with_missing_price\<close>, \<open>rollback_corrupts_lane\<close>, \<open>national_not_for_unknown\<close>,
  \<open>approval_ignores_scope\<close>, \<open>savings_of_unequal_baskets\<close>, \<open>shared_product_uncovered\<close> and
  \<open>promotion_of_disputed_row\<close> evaluate the model on inputs where the code departs from its
  comments.

  \<^bold>\<open>Not modelled.\<close> Pydantic parsing of the input; HTTP, routers and authorisation (framework
  code); the connectors, providers and adapters (formats of external sites), which enter as
  handlers; the promotion parser (regular expressions); log output; migrations, scripts, seed
  data and operator tools; the serialisers of \<open>plan_service.py\<close>; the rounding that PostgreSQL applies
  to a \<open>numeric\<close> column on writing; the last day of the calendar; the web application. Orchestration,
  manual entry, quotas, health and the reports on provider coverage are left out; they read or call what
  is modelled here.
\<close>

end
